(* ===== verification/Klaudio_Prelude.thy ===== *)
theory Klaudio_Prelude
  imports Main "HOL-Library.AList" "HOL-Library.State_Monad"
begin

text \<open>
  What the component theories share: the types that stand for Go's strings, byte slices and
  maps, the operations of Go's runtime on them (\<open>copy\<close>, map lookup with a zero value, map
  assignment, \<open>delete\<close>, \<open>range\<close> in an arbitrary order), and the lemmas about them.

  A Go string and a Go byte slice are both a list of bytes; \<open>char\<close> is HOL's type of
  bytes, so both are \<open>char list\<close> and the conversions \<open>string(b)\<close> and
  \<open>[]byte(s)\<close> are the identity. A nil slice and an empty slice are both \<open>[]\<close>.
\<close>

type_synonym bytes = "char list"

named_theorems go_simps \<open>evaluation of the Go runtime operations\<close>

section \<open>Slices\<close>

text \<open>\<open>copy(dst[off:], src)\<close>: it writes as many bytes as fit and returns the new content of
  \<open>dst\<close>.\<close>

definition go_copy :: "'a list \<Rightarrow> nat \<Rightarrow> 'a list \<Rightarrow> 'a list" where
  "go_copy dst off src =
     take off dst @ take (length dst - off) src @ drop (off + length src) dst"

lemma length_go_copy [simp]: "off \<le> length dst \<Longrightarrow> length (go_copy dst off src) = length dst"
  by (auto simp: go_copy_def min_def)

lemma go_copy_all: "length src = length dst \<Longrightarrow> go_copy dst 0 src = src"
  by (simp add: go_copy_def)

lemma take_go_copy: "off \<le> length dst \<Longrightarrow> take off (go_copy dst off src) = take off dst"
  by (simp add: go_copy_def)

lemma go_copy_fit:
  "off + length src \<le> length dst \<Longrightarrow>
   go_copy dst off src = take off dst @ src @ drop (off + length src) dst"
  by (simp add: go_copy_def)

section \<open>Maps\<close>

text \<open>
  A Go map is an association list with distinct keys. \<open>m[k]\<close> of a missing key is the zero
  value \<open>d\<close> of the element type; \<open>m[k] = v\<close> and \<open>delete(m, k)\<close> are the library's
  \<open>AList.update\<close> and \<open>AList.delete\<close>. \<open>range m\<close> visits the keys in an order that
  Go leaves open: an operation that ranges over a map takes that order as an argument, and
  \<open>range_of m ks\<close> says that \<open>ks\<close> is a possible one.
\<close>

type_synonym ('k, 'v) gomap = "('k \<times> 'v) list"

definition mkeys :: "('k, 'v) gomap \<Rightarrow> 'k list" where
  "mkeys m = map fst m"

definition map_ok :: "('k, 'v) gomap \<Rightarrow> bool" where
  "map_ok m \<longleftrightarrow> distinct (mkeys m)"

definition mget :: "'v \<Rightarrow> ('k, 'v) gomap \<Rightarrow> 'k \<Rightarrow> 'v" where
  "mget d m k = (case map_of m k of None \<Rightarrow> d | Some v \<Rightarrow> v)"

definition mput :: "'k \<Rightarrow> 'v \<Rightarrow> ('k, 'v) gomap \<Rightarrow> ('k, 'v) gomap" where
  "mput k v m = AList.update k v m"

definition mdel :: "'k \<Rightarrow> ('k, 'v) gomap \<Rightarrow> ('k, 'v) gomap" where
  "mdel k m = AList.delete k m"

definition range_of :: "('k, 'v) gomap \<Rightarrow> 'k list \<Rightarrow> bool" where
  "range_of m ks \<longleftrightarrow> distinct ks \<and> set ks = set (mkeys m)"

lemma mkeys_Nil [simp]: "mkeys [] = []"
  by (simp add: mkeys_def)

lemma mkeys_Cons [simp]: "mkeys (kv # m) = fst kv # mkeys m"
  by (simp add: mkeys_def)

lemma map_ok_Nil [simp]: "map_ok []"
  by (simp add: map_ok_def)

lemma map_ok_mput [simp]: "map_ok (mput k v m) = map_ok m"
  by (auto simp: map_ok_def mkeys_def mput_def update_keys)

lemma map_ok_mdel [simp]: "map_ok m \<Longrightarrow> map_ok (mdel k m)"
  by (simp add: map_ok_def mkeys_def mdel_def distinct_delete)

lemma map_of_mput [simp]: "map_of (mput k v m) = (map_of m)(k \<mapsto> v)"
  by (simp add: mput_def update_conv')

lemma map_of_mdel [simp]: "map_of (mdel k m) = (map_of m)(k := None)"
  by (simp add: mdel_def delete_conv')

lemma set_mkeys: "set (mkeys m) = dom (map_of m)"
  by (simp add: mkeys_def dom_map_of_conv_image_fst)

lemma set_mkeys_mput [simp]: "set (mkeys (mput k v m)) = insert k (set (mkeys m))"
  by (simp add: set_mkeys)

lemma set_mkeys_mdel [simp]: "set (mkeys (mdel k m)) = set (mkeys m) - {k}"
  by (auto simp: set_mkeys)

lemma mget_mput [simp]: "mget d (mput k v m) k' = (if k' = k then v else mget d m k')"
  by (simp add: mget_def)

lemma mget_mdel [simp]: "mget d (mdel k m) k' = (if k' = k then d else mget d m k')"
  by (simp add: mget_def)

lemma mget_Nil [simp]: "mget d [] k = d"
  by (simp add: mget_def)

lemma mget_Cons: "mget d ((k, v) # m) k' = (if k' = k then v else mget d m k')"
  by (simp add: mget_def)

lemma mget_missing: "k \<notin> set (mkeys m) \<Longrightarrow> mget d m k = d"
  by (auto simp: mget_def set_mkeys dom_def split: option.splits)

lemma length_mdel: "map_ok m \<Longrightarrow> k \<in> set (mkeys m) \<Longrightarrow> length (mdel k m) = length m - 1"
proof (induction m)
  case (Cons kv m)
  show ?case
  proof (cases "fst kv = k")
    case True
    with Cons.prems have "k \<notin> fst ` set m"
      by (auto simp: map_ok_def mkeys_def)
    then have "mdel k m = m"
      by (simp add: mdel_def)
    with True show ?thesis
      by (cases kv) (simp add: mdel_def AList.delete_eq)
  next
    case False
    with Cons have "length (mdel k m) = length m - 1" and "m \<noteq> []"
      by (auto simp: map_ok_def mkeys_def)
    with False show ?thesis
      by (cases kv) (auto simp: mdel_def AList.delete_eq)
  qed
qed simp

lemma length_mput:
  "length (mput k v m) = (if k \<in> set (mkeys m) then length m else Suc (length m))"
  by (induction m) (auto simp: mput_def mkeys_def)

lemma range_ofD:
  assumes "range_of m ks"
  shows "distinct ks" and "set ks = set (mkeys m)"
  using assms by (auto simp: range_of_def)

lemma range_of_mkeys: "map_ok m \<Longrightarrow> range_of m (mkeys m)"
  by (simp add: range_of_def map_ok_def)

declare mget_Cons [go_simps] map_ok_def [go_simps] range_of_def [go_simps]

end
