(* ===== verification/Ring_Buffer.thy ===== *)
theory Ring_Buffer
  imports Klaudio_Prelude
begin

text \<open>
  The circular output buffer of \<open>internal/stream/buffer.go\<close>: its record, \<open>NewRingBuffer\<close>,
  \<open>Write\<close>, \<open>ReadAll\<close>, \<open>ReadFrom\<close> and \<open>Len\<close>, and their correctness against the
  history of all bytes ever written.
\<close>

section \<open>State\<close>

record ring_buffer =
  rb_data :: bytes
  rb_size :: nat
  rb_writePos :: nat
  rb_written :: nat

definition DefaultBufferSize :: nat where
  "DefaultBufferSize = 10 * 1024 * 1024"

section \<open>Operations\<close>

definition NewRingBuffer :: "int \<Rightarrow> ring_buffer" where
  "NewRingBuffer sz =
     (let n = (if sz \<le> 0 then DefaultBufferSize else nat sz)
      in \<lparr>rb_data = replicate n (CHR 0x00), rb_size = n, rb_writePos = 0, rb_written = 0\<rparr>)"

text \<open>\<open>Write\<close> returns the number of bytes accepted; its error is always nil.\<close>

definition rb_Write :: "ring_buffer \<Rightarrow> bytes \<Rightarrow> nat \<times> ring_buffer" where
  "rb_Write rb p =
     (let n = length p in
      if n = 0 then (0, rb)
      else if n \<ge> rb_size rb then
        (n, rb\<lparr>rb_data := go_copy (rb_data rb) 0 (drop (n - rb_size rb) p),
              rb_writePos := 0, rb_written := rb_written rb + n\<rparr>)
      else
        let firstChunk = rb_size rb - rb_writePos rb;
            data' = (if firstChunk \<ge> n then go_copy (rb_data rb) (rb_writePos rb) p
                     else go_copy (go_copy (rb_data rb) (rb_writePos rb) (take firstChunk p))
                            0 (drop firstChunk p))
        in (n, rb\<lparr>rb_data := data', rb_writePos := (rb_writePos rb + n) mod rb_size rb,
                 rb_written := rb_written rb + n\<rparr>))"

definition rb_ReadAll :: "ring_buffer \<Rightarrow> bytes" where
  "rb_ReadAll rb =
     (if rb_written rb = 0 then []
      else if rb_written rb \<le> rb_size rb then take (rb_writePos rb) (rb_data rb)
      else
        let out = replicate (rb_size rb) (CHR 0x00);
            tail = rb_size rb - rb_writePos rb;
            out = go_copy out 0 (drop (rb_writePos rb) (rb_data rb))
        in go_copy out tail (take (rb_writePos rb) (rb_data rb)))"

definition rb_ReadFrom :: "ring_buffer \<Rightarrow> int \<Rightarrow> bytes" where
  "rb_ReadFrom rb offset =
     (if rb_written rb = 0 \<or> offset \<ge> int (rb_written rb) then []
      else
        let earliest = int (rb_written rb) - int (rb_size rb);
            earliest = (if earliest < 0 then 0 else earliest);
            offset = (if offset < earliest then earliest else offset);
            available = nat (int (rb_written rb) - offset);
            physStart = nat ((int (rb_writePos rb) - int (available mod rb_size rb)
                              + int (rb_size rb)) mod int (rb_size rb));
            (available, physStart) =
              (if available > rb_size rb then (rb_size rb, rb_writePos rb)
               else (available, physStart));
            out = replicate available (CHR 0x00);
            firstChunk = rb_size rb - physStart
        in if firstChunk \<ge> available
           then go_copy out 0 (take available (drop physStart (rb_data rb)))
           else go_copy (go_copy out 0 (drop physStart (rb_data rb)))
                  firstChunk (take (available - firstChunk) (rb_data rb)))"

definition rb_Len :: "ring_buffer \<Rightarrow> nat" where
  "rb_Len rb = (if rb_written rb < rb_size rb then rb_written rb else rb_size rb)"

section \<open>The contents against the history\<close>

text \<open>
  \<open>rb_inv rb h\<close>: \<open>h\<close> is the history of all bytes written so far. Until the history is
  longer than the buffer it is the beginning of the data; afterwards the data, read as a ring
  from the write position, is the last \<open>rb_size\<close> bytes of the history.
\<close>

definition rb_inv :: "ring_buffer \<Rightarrow> bytes \<Rightarrow> bool" where
  "rb_inv rb h \<longleftrightarrow>
     0 < rb_size rb \<and> length (rb_data rb) = rb_size rb \<and> rb_writePos rb < rb_size rb \<and>
     rb_written rb = length h \<and>
     (if length h \<le> rb_size rb
      then rb_writePos rb = length h mod rb_size rb \<and> take (length h) (rb_data rb) = h
      else drop (rb_writePos rb) (rb_data rb) @ take (rb_writePos rb) (rb_data rb)
             = drop (length h - rb_size rb) h)"

definition rb_recent :: "nat \<Rightarrow> bytes \<Rightarrow> bytes" where
  "rb_recent n h = drop (length h - n) h"

definition rb_ring :: "ring_buffer \<Rightarrow> bytes" where
  "rb_ring rb = drop (rb_writePos rb) (rb_data rb) @ take (rb_writePos rb) (rb_data rb)"

lemma rb_recent_append: "n \<le> length p \<Longrightarrow> rb_recent n (h @ p) = rb_recent n p"
  by (simp add: rb_recent_def)

lemma rb_inv_New: "rb_inv (NewRingBuffer n) []"
  by (simp add: rb_inv_def NewRingBuffer_def Let_def DefaultBufferSize_def)

lemma rb_inv_ring: "rb_inv rb h \<Longrightarrow> rb_size rb \<le> length h \<Longrightarrow> rb_ring rb = rb_recent (rb_size rb) h"
  by (cases "length h = rb_size rb") (auto simp: rb_inv_def rb_ring_def rb_recent_def)

lemma rb_inv_prefix: "rb_inv rb h \<Longrightarrow> length h \<le> rb_size rb \<Longrightarrow> take (length h) (rb_data rb) = h"
  by (simp add: rb_inv_def)

lemma rb_invI_ring:
  assumes "0 < rb_size rb" "length (rb_data rb) = rb_size rb" "rb_writePos rb < rb_size rb"
    and "rb_written rb = length h" "rb_size rb < length h" "rb_ring rb = rb_recent (rb_size rb) h"
  shows "rb_inv rb h"
  using assms by (simp add: rb_inv_def rb_ring_def rb_recent_def)

text \<open>One write, as a rotation of the ring: the oldest bytes leave, the new ones follow.\<close>

lemma ring_write:
  fixes d p :: "'a list"
  assumes n: "length p < length d" and w: "w < length d"
    and d': "d' = (if length p \<le> length d - w then go_copy d w p
                   else go_copy (go_copy d w (take (length d - w) p)) 0 (drop (length d - w) p))"
    and w': "w' = (w + length p) mod length d"
  shows "drop w' d' @ take w' d' = drop (length p) (drop w d @ take w d) @ p"
proof (cases "length p \<le> length d - w")
  case fits: True
  then have d'': "d' = take w d @ p @ drop (w + length p) d"
    using w by (simp add: d' go_copy_def)
  show ?thesis
  proof (cases "w + length p = length d")
    case True
    then show ?thesis using w by (simp add: w' d'')
  next
    case False
    with fits w have "w' = w + length p"
      by (simp add: w')
    with w fits show ?thesis by (simp add: d'' add.commute)
  qed
next
  case False
  define k where "k = length d - w"
  have k: "k < length p" "k = length d - w" "w + length p - length d = length p - k"
    using False w by (auto simp: k_def)
  have w'': "w' = length p - k"
    using False w n k by (simp add: w' le_mod_geq)
  have le: "length p - k \<le> w"
    using n k by simp
  have "d' = go_copy (go_copy d w (take k p)) 0 (drop k p)"
    using False by (simp add: d' k_def)
  moreover have "go_copy d w (take k p) = take w d @ take k p"
    using k(1,2) w by (simp add: go_copy_def)
  moreover have "go_copy xs 0 (drop k p) = drop k p @ drop (length p - k) xs"
    if "length xs = length d" for xs
    using that n by (simp add: go_copy_def)
  ultimately have d'': "d' = drop k p @ drop (length p - k) (take w d @ take k p)"
    using k(1,2) w by simp
  show ?thesis
    using le k(1,2) w n by (simp add: d'' w'')
qed

lemma rb_Write_written [simp]:
  "rb_written (snd (rb_Write rb p)) = rb_written rb + length p"
  "rb_size (snd (rb_Write rb p)) = rb_size rb"
  "fst (rb_Write rb p) = length p"
  by (auto simp: rb_Write_def Let_def)

lemma rb_Write_big:
  assumes inv: "rb_inv rb h" and big: "rb_size rb \<le> length p"
  shows "rb_inv (snd (rb_Write rb p)) (h @ p)"
proof -
  let ?rb = "snd (rb_Write rb p)"
  have "p \<noteq> []" using inv big by (auto simp: rb_inv_def)
  then have d: "rb_data ?rb = drop (length p - rb_size rb) p" and w: "rb_writePos ?rb = 0"
    using big inv by (auto simp: rb_Write_def go_copy_all rb_inv_def Let_def)
  show ?thesis
  proof (cases "h = []")
    case True
    with d w inv big show ?thesis by (auto simp: rb_inv_def)
  next
    case False
    then have long: "rb_size rb < length (h @ p)"
      using big by (cases h) auto
    have "rb_ring ?rb = rb_recent (rb_size rb) (h @ p)"
      using big by (simp add: rb_ring_def d w rb_recent_append) (simp add: rb_recent_def)
    with inv big long show ?thesis
      by (intro rb_invI_ring) (auto simp: d w rb_inv_def)
  qed
qed

lemma rb_Write_small:
  assumes inv: "rb_inv rb h" and p: "p \<noteq> []" and small: "length p < rb_size rb"
  defines "rb' \<equiv> snd (rb_Write rb p)"
  shows "rb_ring rb' = drop (length p) (rb_ring rb) @ p"
    and "rb_writePos rb' = (rb_writePos rb + length p) mod rb_size rb"
    and "length (rb_data rb') = rb_size rb"
    and "length p \<le> rb_size rb - rb_writePos rb \<Longrightarrow>
         rb_data rb' = go_copy (rb_data rb) (rb_writePos rb) p"
proof -
  let ?d = "rb_data rb" and ?w = "rb_writePos rb"
  have s: "length ?d = rb_size rb" "?w < length ?d" "length p < length ?d"
    using inv small by (auto simp: rb_inv_def)
  have d': "rb_data rb' = (if length p \<le> length ?d - ?w then go_copy ?d ?w p
      else go_copy (go_copy ?d ?w (take (length ?d - ?w) p)) 0 (drop (length ?d - ?w) p))"
    and w': "rb_writePos rb' = (?w + length p) mod length ?d"
    using p small s by (auto simp: rb'_def rb_Write_def Let_def)
  show "rb_ring rb' = drop (length p) (rb_ring rb) @ p"
    using ring_write [OF s(3,2) d' w'] by (simp add: rb_ring_def)
  show "rb_writePos rb' = (?w + length p) mod rb_size rb" "length (rb_data rb') = rb_size rb"
    using s by (auto simp: d' w')
  show "rb_data rb' = go_copy ?d ?w p" if "length p \<le> rb_size rb - ?w"
    using that s by (simp add: d')
qed

theorem rb_Write_inv:
  assumes inv: "rb_inv rb h"
  shows "rb_inv (snd (rb_Write rb p)) (h @ p)"
proof (cases "p = [] \<or> rb_size rb \<le> length p")
  case True
  then show ?thesis
    using rb_Write_big [OF inv] inv by (auto simp: rb_Write_def)
next
  case False
  let ?rb = "snd (rb_Write rb p)" and ?n = "length p" and ?s = "rb_size rb"
  from False have p: "p \<noteq> []" and n: "?n < ?s" by auto
  note wr = rb_Write_small [OF inv p n]
  have s: "0 < ?s" "length (rb_data rb) = ?s" "rb_writePos rb < ?s" "rb_written rb = length h"
    using inv by (auto simp: rb_inv_def)
  show ?thesis
  proof (cases "length h + ?n \<le> ?s")
    case fits: True
    then have "length h < ?s" using p by (cases p) auto
    then have h: "rb_writePos rb = length h" and th: "take (length h) (rb_data rb) = h"
      using inv by (auto simp: rb_inv_def)
    have "take (length h + ?n) (rb_data ?rb) = h @ p"
      using fits p th s by (simp add: wr(4) h go_copy_def)
    then show ?thesis
      using fits s by (simp add: rb_inv_def wr(2,3) h)
  next
    case False
    have "drop ?n (rb_ring rb) = drop (length h + ?n - ?s) h"
    proof (cases "?s \<le> length h")
      case True
      then show ?thesis using rb_inv_ring [OF inv]
        by (simp add: rb_recent_def add.commute)
    next
      case short: False
      with inv have "rb_writePos rb = length h" "take (length h) (rb_data rb) = h"
        by (auto simp: rb_inv_def)
      then show ?thesis using s False short n
        by (simp add: rb_ring_def add.commute)
    qed
    then have "rb_ring ?rb = rb_recent ?s (h @ p)"
      using False n by (simp add: wr(1) rb_recent_def)
    then show ?thesis
      using False s by (intro rb_invI_ring) (auto simp: wr)
  qed
qed


section \<open>What the readers return\<close>

lemma length_rb_recent: "length (rb_recent n h) = min (length h) n"
  by (simp add: rb_recent_def min_def)

lemma rb_Len_eq: "rb_inv rb h \<Longrightarrow> rb_Len rb = min (length h) (rb_size rb)"
  by (simp add: rb_inv_def rb_Len_def)

theorem rb_ReadAll_eq:
  assumes inv: "rb_inv rb h"
  shows "rb_ReadAll rb = (if length h = rb_size rb then [] else rb_recent (rb_size rb) h)"
proof (cases "rb_size rb < length h")
  case True
  have s: "length (rb_data rb) = rb_size rb" "rb_writePos rb < rb_size rb" "rb_written rb = length h"
    using inv by (auto simp: rb_inv_def)
  have "rb_ReadAll rb = rb_ring rb"
    using True s by (cases h) (simp_all add: rb_ReadAll_def rb_ring_def Let_def go_copy_def)
  with True show ?thesis using rb_inv_ring [OF inv] by auto
next
  case False
  with inv show ?thesis
    by (auto simp: rb_inv_def rb_ReadAll_def rb_recent_def)
qed

text \<open>Reading the last \<open>a\<close> bytes of the ring from their physical position, with at most one
  wrap.\<close>

lemma ring_read:
  fixes d :: "'a list"
  assumes w: "w < length d" and a: "0 < a" "a \<le> length d"
    and ph: "ph = nat ((int w - int (a mod length d) + int (length d)) mod int (length d))"
  shows "(if length d - ph \<ge> a then take a (drop ph d)
          else drop ph d @ take (a - (length d - ph)) d)
         = drop (length d - a) (drop w d @ take w d)"
proof -
  let ?s = "length d"
  consider "a = ?s" | "a < ?s" "a \<le> w" | "a < ?s" "w < a"
    using a by linarith
  then show ?thesis
  proof cases
    case 1
    with w have "ph = w" by (simp add: ph)
    with 1 w show ?thesis by auto
  next
    case 2
    then have "(int w - int a + int ?s) mod int ?s = int (w - a)"
      using w by (simp add: of_nat_diff)
    with 2 have "ph = w - a" by (simp add: ph)
    with 2 w show ?thesis by (simp add: drop_take)
  next
    case 3
    then have "(int w - int a + int ?s) mod int ?s = int (w + ?s - a)"
      by (intro trans [OF mod_pos_pos_trivial]) (use w in auto)
    with 3 have "ph = w + ?s - a" by (simp add: ph)
    moreover from 3 have "w + ?s - a = ?s - a + w" "a - (?s - (?s - a + w)) = w" by simp_all
    ultimately show ?thesis using 3 w by auto
  qed
qed

theorem rb_ReadFrom_eq:
  assumes inv: "rb_inv rb h"
  shows "rb_ReadFrom rb off = drop (max (nat off) (length h - rb_size rb)) h"
proof (cases "h = [] \<or> off \<ge> int (length h)")
  case True
  with inv show ?thesis by (auto simp: rb_inv_def rb_ReadFrom_def)
next
  case False
  let ?s = "rb_size rb" and ?w = "rb_writePos rb" and ?d = "rb_data rb"
  define q where "q = max (nat off) (length h - ?s)"
  define a where "a = length h - q"
  have s: "0 < ?s" "length ?d = ?s" "?w < ?s" "rb_written rb = length h"
    using inv by (auto simp: rb_inv_def)
  have q: "q < length h" using False s(1) by (cases h) (auto simp: q_def)
  have a: "0 < a" "a \<le> ?s" "a \<le> length h" using q by (auto simp: a_def q_def)
  have e: "(if int (length h) - int ?s < 0 then 0 else int (length h) - int ?s) = int (length h - ?s)"
    by auto
  have o: "(if off < int (length h - ?s) then int (length h - ?s) else off) = int q"
    by (auto simp: q_def)
  have na: "nat (int (length h) - int q) = a" by (simp add: a_def)
  define ph where "ph = nat ((int ?w - int (a mod ?s) + int ?s) mod int ?s)"
  have rf: "rb_ReadFrom rb off = (if ?s - ph \<ge> a then take a (drop ph ?d)
      else drop ph ?d @ take (a - (?s - ph)) ?d)"
    using False a s unfolding rb_ReadFrom_def Let_def s(4) e o na ph_def [symmetric]
    by (simp add: go_copy_def)
  have "rb_ReadFrom rb off = drop (?s - a) (rb_ring rb)"
    unfolding rf rb_ring_def s(2) [symmetric]
    by (rule ring_read) (use a s in \<open>simp_all add: ph_def\<close>)
  also have "\<dots> = drop q h"
  proof (cases "?s \<le> length h")
    case True
    with a q show ?thesis by (simp add: rb_inv_ring [OF inv] rb_recent_def a_def)
  next
    case short: False
    with inv have "?w = length h" "take (length h) ?d = h" by (auto simp: rb_inv_def)
    with a q s short show ?thesis by (simp add: rb_ring_def a_def)
  qed
  finally show ?thesis by (simp add: q_def)
qed


section \<open>Runs of writes\<close>

definition rb_writes :: "ring_buffer \<Rightarrow> bytes list \<Rightarrow> ring_buffer" where
  "rb_writes rb ps = fold (\<lambda>p rb. snd (rb_Write rb p)) ps rb"

lemma rb_writes_inv: "rb_inv rb h \<Longrightarrow> rb_inv (rb_writes rb ps) (h @ concat ps)"
proof (induction ps arbitrary: rb h)
  case (Cons p ps)
  from Cons.IH [OF rb_Write_inv [OF Cons.prems]] show ?case
    by (simp add: rb_writes_def)
qed (simp add: rb_writes_def)

lemma rb_size_writes [simp]: "rb_size (rb_writes rb ps) = rb_size rb"
  by (induction ps arbitrary: rb) (auto simp: rb_writes_def)

lemma rb_size_New: "0 < n \<Longrightarrow> rb_size (NewRingBuffer n) = nat n"
  by (simp add: NewRingBuffer_def Let_def)

lemmas rb_writes_New = rb_writes_inv [OF rb_inv_New, simplified]

text \<open>C1: Whatever was written to a new ring buffer of capacity n, in whatever chunks, reading it
  from any offset returns exactly the bytes of the history from that offset on, or from the
  oldest byte still in the buffer when the offset has been overwritten or is negative.\<close>

theorem ReadFrom_history:
  "rb_ReadFrom (rb_writes (NewRingBuffer n) ps) off =
   (let cap = rb_size (NewRingBuffer n); h = concat ps
    in drop (max (nat off) (length h - cap)) h)"
  using rb_ReadFrom_eq [OF rb_writes_New] by (simp add: Let_def)

text \<open>\<open>ReadAll\<close>, the backfill a late client gets, returns the last n bytes of the history,
  with one exception: after exactly n bytes in total, when the write position has just come back
  to 0 and nothing has been overwritten, it returns nothing although \<open>Len\<close> reports n.\<close>

theorem ReadAll_history:
  "rb_ReadAll (rb_writes (NewRingBuffer n) ps) =
     (let cap = rb_size (NewRingBuffer n); h = concat ps
      in if length h = cap then [] else drop (length h - cap) h)
   \<and> rb_Len (rb_writes (NewRingBuffer n) ps) =
       min (length (concat ps)) (rb_size (NewRingBuffer n))"
  using rb_ReadAll_eq [OF rb_writes_New] rb_Len_eq [OF rb_writes_New]
  by (simp add: rb_recent_def Let_def)

end
