(* ===== verification/File_Lock.thy ===== *)
theory File_Lock
  imports Klaudio_Prelude
begin

text \<open>
  The file lock service of \<open>internal/task/filelock.go\<close>, which keeps two agents from working
  on the same file: \<open>TryLock\<close>, \<open>Release\<close>, \<open>LockedFiles\<close>, and the contract the
  orchestrator relies on, as a locale interpreted on these operations.
\<close>

section \<open>State and operations\<close>

record file_locks =
  fl_locks :: "(string, string) gomap" \<comment> \<open>file path to the subtask that holds it\<close>

definition NewFileLockService :: file_locks where
  "NewFileLockService = \<lparr>fl_locks = []\<rparr>"

definition lock_conflict :: "file_locks \<Rightarrow> string \<Rightarrow> string \<Rightarrow> bool" where
  "lock_conflict fls subtaskID f =
     (case map_of (fl_locks fls) f of None \<Rightarrow> False | Some holder \<Rightarrow> holder \<noteq> subtaskID)"

definition TryLock :: "file_locks \<Rightarrow> string \<Rightarrow> string list \<Rightarrow> bool \<times> file_locks" where
  "TryLock fls subtaskID files =
     (if length files = 0 then (True, fls)
      else if list_ex (lock_conflict fls subtaskID) files then (False, fls)
      else (True, fls\<lparr>fl_locks := fold (\<lambda>f. mput f subtaskID) files (fl_locks fls)\<rparr>))"

definition fl_Release :: "file_locks \<Rightarrow> string \<Rightarrow> file_locks" where
  "fl_Release fls subtaskID =
     fls\<lparr>fl_locks := filter (\<lambda>(f, holder). holder \<noteq> subtaskID) (fl_locks fls)\<rparr>"

definition LockedFiles :: "file_locks \<Rightarrow> (string, string) gomap" where
  "LockedFiles fls = fold (\<lambda>(f, h). mput f h) (fl_locks fls) []"

definition fl_ok :: "file_locks \<Rightarrow> bool" where
  "fl_ok fls \<longleftrightarrow> map_ok (fl_locks fls)"

definition fl_holder :: "file_locks \<Rightarrow> string \<Rightarrow> string option" where
  "fl_holder fls f = map_of (fl_locks fls) f"

section \<open>What each operation does\<close>

lemma map_of_fold_mput:
  "map_of (fold (\<lambda>f. mput f v) ks m) k = (if k \<in> set ks then Some v else map_of m k)"
  by (induction ks arbitrary: m) auto

lemma map_ok_fold_mput [simp]: "map_ok (fold (\<lambda>f. mput f v) ks m) = map_ok m"
  by (induction ks arbitrary: m) auto

lemma map_of_filter_value:
  "map_ok m \<Longrightarrow> map_of (filter (\<lambda>(k, v). v \<noteq> x) m) k = (if map_of m k = Some x then None else map_of m k)"
proof (induction m)
  case (Cons kv m)
  obtain k' v where kv: "kv = (k', v)" by (cases kv)
  from Cons.prems kv have "map_of m k' = None"
    by (auto simp: map_ok_def mkeys_def map_of_eq_None_iff)
  with Cons kv show ?case by (auto simp: map_ok_def)
qed simp

lemma map_ok_filter: "map_ok m \<Longrightarrow> map_ok (filter P m)"
  by (induction m) (auto simp: map_ok_def mkeys_def)

lemma fl_ok_New [simp]: "fl_ok NewFileLockService"
  by (simp add: fl_ok_def NewFileLockService_def)

lemma fl_holder_New [simp]: "fl_holder NewFileLockService f = None"
  by (simp add: fl_holder_def NewFileLockService_def)

lemma TryLock_ok: "fl_ok fls \<Longrightarrow> fl_ok (snd (TryLock fls i fs))"
  by (simp add: TryLock_def fl_ok_def)

lemma fl_Release_ok: "fl_ok fls \<Longrightarrow> fl_ok (fl_Release fls i)"
  by (simp add: fl_Release_def fl_ok_def map_ok_filter)

lemma TryLock_iff:
  "fst (TryLock fls i fs) \<longleftrightarrow> (\<forall>f\<in>set fs. fl_holder fls f = None \<or> fl_holder fls f = Some i)"
  by (auto simp: TryLock_def lock_conflict_def fl_holder_def list_ex_iff split: option.splits)
     (metis not_None_eq)

lemma TryLock_holder:
  "fl_holder (snd (TryLock fls i fs)) f =
     (if fst (TryLock fls i fs) \<and> f \<in> set fs then Some i else fl_holder fls f)"
  by (auto simp: TryLock_def fl_holder_def map_of_fold_mput)

lemma TryLock_fail: "\<not> fst (TryLock fls i fs) \<Longrightarrow> snd (TryLock fls i fs) = fls"
  by (auto simp: TryLock_def)

lemma fl_Release_holder:
  "fl_ok fls \<Longrightarrow>
   fl_holder (fl_Release fls i) f = (if fl_holder fls f = Some i then None else fl_holder fls f)"
  by (simp add: fl_Release_def fl_holder_def fl_ok_def map_of_filter_value)

lemma map_of_fold_copy:
  "map_ok m \<Longrightarrow> map_of (fold (\<lambda>(k, v). mput k v) m acc) k =
     (case map_of m k of None \<Rightarrow> map_of acc k | Some v \<Rightarrow> Some v)"
proof (induction m arbitrary: acc)
  case (Cons kv m)
  obtain k' v where kv: "kv = (k', v)" by (cases kv)
  from Cons.prems kv have "map_of m k' = None"
    by (auto simp: map_ok_def mkeys_def map_of_eq_None_iff)
  with Cons kv show ?case
    by (auto simp: map_ok_def split: option.splits)
qed simp

lemma LockedFiles_eq: "fl_ok fls \<Longrightarrow> map_of (LockedFiles fls) f = fl_holder fls f"
  by (simp add: LockedFiles_def fl_holder_def fl_ok_def map_of_fold_copy split: option.splits)

section \<open>The contract\<close>

text \<open>
  What a client of a lock table relies on: an acquisition is all or nothing and succeeds exactly
  when no other owner holds one of the keys; a release gives up what its owner holds and nothing
  else.
\<close>

locale lock_table =
  fixes ok :: "'s \<Rightarrow> bool"
    and holder :: "'s \<Rightarrow> 'f \<Rightarrow> 'o option"
    and acquire :: "'s \<Rightarrow> 'o \<Rightarrow> 'f list \<Rightarrow> bool \<times> 's"
    and release :: "'s \<Rightarrow> 'o \<Rightarrow> 's"
  assumes acquire_ok: "ok s \<Longrightarrow> ok (snd (acquire s i fs))"
    and release_ok: "ok s \<Longrightarrow> ok (release s i)"
    and acquire_iff: "fst (acquire s i fs) \<longleftrightarrow>
          (\<forall>f\<in>set fs. holder s f = None \<or> holder s f = Some i)"
    and acquire_holder: "holder (snd (acquire s i fs)) f =
          (if fst (acquire s i fs) \<and> f \<in> set fs then Some i else holder s f)"
    and release_holder: "ok s \<Longrightarrow>
          holder (release s i) f = (if holder s f = Some i then None else holder s f)"
begin

definition holds :: "'s \<Rightarrow> 'o \<Rightarrow> 'f list \<Rightarrow> bool" where
  "holds s i fs \<longleftrightarrow> (\<forall>f\<in>set fs. holder s f = Some i)"

text \<open>\<open>protects s R\<close>: every owner holds the files it is registered for in \<open>R\<close>.\<close>

definition protects :: "'s \<Rightarrow> ('o \<Rightarrow> 'f list) \<Rightarrow> bool" where
  "protects s R \<longleftrightarrow> (\<forall>i. holds s i (R i))"

lemma holds_disjoint: "holds s i fs \<Longrightarrow> holds s j gs \<Longrightarrow> i \<noteq> j \<Longrightarrow> set fs \<inter> set gs = {}"
  by (force simp: holds_def)

lemma protects_disjoint: "protects s R \<Longrightarrow> i \<noteq> j \<Longrightarrow> set (R i) \<inter> set (R j) = {}"
  unfolding protects_def by (blast dest: holds_disjoint)

lemma acquire_holds: "fst (acquire s i fs) \<Longrightarrow> holds (snd (acquire s i fs)) i fs"
  by (simp add: holds_def acquire_holder)

lemma acquire_keeps: "holds s j gs \<Longrightarrow> holds (snd (acquire s i fs)) j gs"
  using acquire_iff [of s i fs] by (force simp: holds_def acquire_holder)

lemma acquire_protects:
  "protects s R \<Longrightarrow> fst (acquire s i fs) \<Longrightarrow> protects (snd (acquire s i fs)) (R(i := fs @ R i))"
  using acquire_keeps [of s i "R i" i fs]
  by (auto simp: protects_def acquire_keeps) (auto simp: holds_def acquire_holder)

lemma acquire_protects_same: "protects s R \<Longrightarrow> protects (snd (acquire s i fs)) R"
  by (auto simp: protects_def acquire_keeps)

lemma release_protects: "ok s \<Longrightarrow> protects s R \<Longrightarrow> protects (release s i) (R(i := []))"
  by (auto simp: protects_def holds_def release_holder)

lemma release_frees: "ok s \<Longrightarrow> holds s i fs \<Longrightarrow> f \<in> set fs \<Longrightarrow> holder (release s i) f = None"
  by (simp add: holds_def release_holder)

lemma protects_none [simp]: "protects s (\<lambda>_. [])"
  by (simp add: protects_def holds_def)

end

interpretation fl: lock_table fl_ok fl_holder TryLock fl_Release
  by unfold_locales
     (simp_all add: TryLock_ok fl_Release_ok TryLock_iff TryLock_holder fl_Release_holder)

section \<open>Runs\<close>

text \<open>A run of calls from any agents, with the files each subtask has acquired and not released
  since.\<close>

datatype fl_call = CallTryLock string "string list" | CallRelease string

fun fl_run :: "file_locks \<Rightarrow> (string \<Rightarrow> string list) \<Rightarrow> fl_call list \<Rightarrow>
    file_locks \<times> (string \<Rightarrow> string list)" where
  "fl_run fls R [] = (fls, R)"
| "fl_run fls R (CallTryLock i fs # cs) =
     (case TryLock fls i fs of (b, fls') \<Rightarrow> fl_run fls' (if b then R(i := fs @ R i) else R) cs)"
| "fl_run fls R (CallRelease i # cs) = fl_run (fl_Release fls i) (R(i := [])) cs"

lemma fl_run_protects:
  "fl_ok fls \<Longrightarrow> fl.protects fls R \<Longrightarrow> fl_run fls R cs = (fls', R') \<Longrightarrow>
   fl_ok fls' \<and> fl.protects fls' R'"
proof (induction fls R cs rule: fl_run.induct)
  case (2 fls R i fs cs)
  obtain b fls1 where eq: "TryLock fls i fs = (b, fls1)" by fastforce
  with TryLock_ok [OF 2(2), of i fs] fl.acquire_protects [OF 2(3), of i fs]
    fl.acquire_protects_same [OF 2(3), of i fs]
  have "fl_ok fls1" "fl.protects fls1 (if b then R(i := fs @ R i) else R)" by auto
  with 2(1) [OF eq [symmetric]] 2(4) eq show ?case by simp
next
  case (3 fls R i cs)
  show ?case
    by (rule 3(1)) (use 3(2-) fl_Release_ok [OF 3(2)] fl.release_protects [OF 3(2,3), of i] in
      \<open>simp_all add: fun_upd_def\<close>)
qed simp

text \<open>C2: \<open>TryLock\<close> is all or nothing: it succeeds exactly when none of the files is held by another
  subtask; then the subtask holds every file it asked for and all other locks are unchanged, and
  otherwise no lock changes.\<close>

theorem TryLock_all_or_nothing:
  "case TryLock fls i fs of (acquired, fls') \<Rightarrow>
     acquired = list_all (\<lambda>f. fl_holder fls f = None \<or> fl_holder fls f = Some i) fs \<and>
     (if acquired then fl_holder fls' = (\<lambda>f. if f \<in> set fs then Some i else fl_holder fls f)
      else fls' = fls)"
proof (cases "TryLock fls i fs")
  case (Pair acquired fls')
  then show ?thesis
    using TryLock_iff [of fls i fs] TryLock_holder [of fls i fs] TryLock_fail [of fls i fs]
    by (simp add: list_all_iff fun_eq_iff)
qed

text \<open>C3: Two subtasks never hold a common file: after any run of \<open>TryLock\<close> and \<open>Release\<close> calls,
  the files that different subtasks acquired and have not released are disjoint, and each of them
  is recorded in the table under its subtask.\<close>

theorem file_locks_exclusive:
  assumes "fl_run NewFileLockService (\<lambda>_. []) calls = (fls, acquired)" and "i \<noteq> j"
  shows "set (acquired i) \<inter> set (acquired j) = {} \<and>
         list_all (\<lambda>f. fl_holder fls f = Some i) (acquired i)"
  using fl_run_protects [OF _ _ assms(1)] fl.protects_disjoint [OF _ assms(2)]
  by (auto simp: fl.protects_def fl.holds_def list_all_iff)

theorem file_locks_exclusive_witness:
  "set [''b.go''] \<inter> set [''a.go''] = {}"
  using file_locks_exclusive [of
      "[CallTryLock ''s1'' [''a.go''], CallTryLock ''s2'' [''a.go''], CallTryLock ''s2'' [''b.go'']]"
      "snd (TryLock (snd (TryLock NewFileLockService ''s1'' [''a.go''])) ''s2'' [''b.go''])"
      "(\<lambda>_. [])(''s1'' := [''a.go''], ''s2'' := [''b.go''])" "''s2''" "''s1''"]
  by (simp add: TryLock_def NewFileLockService_def lock_conflict_def mput_def)

end
