(* ===== verification/Db_Models.thy ===== *)
theory Db_Models
  imports Klaudio_Prelude
begin

text \<open>
  The data types of \<open>internal/db/models.go\<close> and of \<open>internal/task/types.go\<close>. A field
  \<open>F\<close> of the Go struct \<open>T\<close> is the field \<open>t_F\<close> of the record, a pointer is an
  \<open>option\<close>, a time is the number of nanoseconds since the epoch. Struct tags are the JSON names
  of the fields.
\<close>

type_synonym time = int

datatype TaskStatus =
    TaskStatusCreated | TaskStatusPlanning | TaskStatusPlanned | TaskStatusApproved
  | TaskStatusRunning | TaskStatusPaused | TaskStatusCompleted | TaskStatusFailed
  | TaskStatusCancelled

text \<open>The string each status constant stands for.\<close>

fun status_str :: "TaskStatus \<Rightarrow> string" where
  "status_str TaskStatusCreated = ''created''"
| "status_str TaskStatusPlanning = ''planning''"
| "status_str TaskStatusPlanned = ''planned''"
| "status_str TaskStatusApproved = ''approved''"
| "status_str TaskStatusRunning = ''running''"
| "status_str TaskStatusPaused = ''paused''"
| "status_str TaskStatusCompleted = ''completed''"
| "status_str TaskStatusFailed = ''failed''"
| "status_str TaskStatusCancelled = ''cancelled''"

lemma status_str_inj: "status_str a = status_str b \<longleftrightarrow> a = b"
  by (cases a; cases b) simp_all

record Task =
  task_ID :: string
  task_Name :: string
  task_Prompt :: string
  task_Status :: TaskStatus
  task_RepoConfig :: "string option"
  task_TeamTemplate :: "string option"
  task_OutputFiles :: "string option"
  task_Error :: "string option"
  task_HasState :: bool
  task_CreatedAt :: time
  task_UpdatedAt :: time
  task_StartedAt :: "time option"
  task_PausedAt :: "time option"
  task_CompletedAt :: "time option"

record Plan =
  plan_ID :: string
  plan_TaskID :: string
  plan_Analysis :: "string option"
  plan_Strategy :: string
  plan_Subtasks :: string
  plan_EstimatedAgents :: int
  plan_Notes :: "string option"
  plan_Status :: string
  plan_CreatedAt :: time
  plan_UpdatedAt :: time

record Subtask =
  st_ID :: string
  st_Name :: string
  st_Description :: string
  st_Prompt :: string
  st_DependsOn :: "string list"
  st_FilesInvolved :: "string list"
  st_Complexity :: string
  st_AgentRole :: string
  st_Status :: string
  st_AgentID :: string

record Agent =
  agent_ID :: string
  agent_TaskID :: string
  agent_SubtaskID :: "string option"
  agent_ContainerID :: "string option"
  agent_Role :: string
  agent_Status :: string
  agent_ExitCode :: "int option"
  agent_Error :: "string option"
  agent_CreatedAt :: time
  agent_StartedAt :: "time option"
  agent_CompletedAt :: "time option"

record Event =
  event_ID :: int
  event_TaskID :: string
  event_AgentID :: "string option"
  event_Type :: string
  event_Data :: "string option"
  event_CreatedAt :: time

record TaskFile =
  tf_ID :: string
  tf_TaskID :: string
  tf_Name :: string
  tf_Direction :: string
  tf_Path :: string
  tf_Size :: "int option"
  tf_MimeType :: "string option"
  tf_CreatedAt :: time

record RepoTemplate =
  rt_ID :: string
  rt_Name :: string
  rt_URL :: string
  rt_DefaultBranch :: string
  rt_AccessToken :: "string option"
  rt_AutoBranch :: bool
  rt_AutoCommit :: bool
  rt_AutoPush :: bool
  rt_AutoPR :: bool
  rt_PRTarget :: string
  rt_PRReviewers :: "string option"
  rt_EnableMemory :: bool
  rt_CreatedAt :: time
  rt_UpdatedAt :: time

record RepoMemory =
  rm_ID :: string
  rm_RepoTemplateID :: string
  rm_Branch :: string
  rm_CommitHash :: string
  rm_Content :: string
  rm_FileTree :: "string option"
  rm_Languages :: "string option"
  rm_Frameworks :: "string option"
  rm_KeyFiles :: "string option"
  rm_Dependencies :: "string option"
  rm_CreatedAt :: time

record Checkpoint =
  cp_ID :: string
  cp_TaskID :: string
  cp_StateDir :: string
  cp_PlanProgress :: string
  cp_AgentStates :: "string option"
  cp_RepoState :: "string option"
  cp_ResumePrompt :: "string option"
  cp_SizeBytes :: "int option"
  cp_CreatedAt :: time

record PlanProgress =
  pp_PlanID :: string
  pp_CompletedSubtasks :: "string list"
  pp_CurrentSubtask :: string
  pp_FailedSubtasks :: "string list"

record AgentState =
  as_AgentID :: string
  as_SubtaskID :: string
  as_Status :: string
  as_LastOutput :: string

record RepoState =
  rs_Branch :: string
  rs_LastCommitHash :: string
  rs_UncommittedFiles :: "string list"

record PlannerQuestion =
  pq_ID :: string
  pq_TaskID :: string
  pq_Text :: string
  pq_Answer :: "string option"
  pq_Status :: string
  pq_Suggestions :: "string option"
  pq_Options :: "string option"
  pq_AskedAt :: time
  pq_AnsweredAt :: "time option"

record TeamTemplate =
  tt_ID :: string
  tt_Name :: string
  tt_Description :: string
  tt_MaxAgents :: int
  tt_Review :: bool
  tt_Roles :: string
  tt_Mode :: string
  tt_IsDefault :: bool
  tt_CreatedAt :: time
  tt_UpdatedAt :: time

record TeamRole =
  tr_Name :: string
  tr_Description :: string
  tr_PromptHint :: string
  tr_MaxInstances :: int
  tr_RunLast :: bool

record AgentMessage =
  am_ID :: int
  am_TaskID :: string
  am_FromAgentID :: "string option"
  am_FromSubtaskID :: "string option"
  am_ToAgentID :: "string option"
  am_ToSubtaskID :: "string option"
  am_MsgType :: string
  am_Content :: string
  am_CreatedAt :: time

record RepoConfig =
  rc_URL :: string
  rc_Branch :: string
  rc_AccessToken :: string
  rc_AutoBranch :: bool
  rc_AutoCommit :: bool
  rc_AutoPush :: bool
  rc_AutoPR :: bool
  rc_PRTarget :: string
  rc_PRReviewers :: "string list"
  rc_RepoTemplateID :: string
  rc_EnableMemory :: bool

text \<open>\<open>task.ExecutionPlan\<close>: what the orchestrator works on.\<close>

record ExecutionPlan =
  ep_PlanID :: string
  ep_Strategy :: string
  ep_Subtasks :: "Subtask list"
  ep_TaskPrompt :: string
  ep_Mode :: string
  ep_RepoMemory :: string

end
