(* ===== verification/Dep_Graph.thy ===== *)
theory Dep_Graph
  imports Db_Models
begin

text \<open>
  The subtask dependency graph of \<open>internal/task/dependency.go\<close>: construction, readiness,
  status changes, skipping of dependents, cycle detection and topological sort.

  A node is a pointer into \<open>plan.Subtasks\<close> in the code; here it is the index. Operations that
  range over \<open>g.nodes\<close> take the order of the visit as an argument, because Go leaves it open.
\<close>

section \<open>State\<close>

record dep_graph =
  dg_nodes :: "(string, nat) gomap"
  dg_edges :: "(string, string list) gomap" \<comment> \<open>subtask to the subtasks it depends on\<close>
  dg_status :: "(string, string) gomap"

definition add_subtask :: "nat \<times> Subtask \<Rightarrow> dep_graph \<Rightarrow> dep_graph" where
  "add_subtask = (\<lambda>(i, st) g. g\<lparr>
     dg_nodes := mput (st_ID st) i (dg_nodes g),
     dg_edges := mput (st_ID st) (st_DependsOn st) (dg_edges g),
     dg_status := mput (st_ID st)
       (if st_Status st = '''' \<or> st_Status st = ''pending'' then ''pending'' else st_Status st)
       (dg_status g)\<rparr>)"

definition BuildGraph :: "ExecutionPlan \<Rightarrow> dep_graph" where
  "BuildGraph plan = fold add_subtask (enumerate 0 (ep_Subtasks plan))
     \<lparr>dg_nodes = [], dg_edges = [], dg_status = []\<rparr>"

definition GetNode :: "dep_graph \<Rightarrow> string \<Rightarrow> nat option" where
  "GetNode g i = map_of (dg_nodes g) i"

definition dg_Status :: "dep_graph \<Rightarrow> string \<Rightarrow> string" where
  "dg_Status g subtaskID = mget '''' (dg_status g) subtaskID"

abbreviation dg_deps :: "dep_graph \<Rightarrow> string \<Rightarrow> string list" where
  "dg_deps g i \<equiv> mget [] (dg_edges g) i"

section \<open>Readiness and status changes\<close>

definition allDepsCompleted :: "dep_graph \<Rightarrow> string \<Rightarrow> bool" where
  "allDepsCompleted g subtaskID =
     list_all (\<lambda>dep. mget '''' (dg_status g) dep = ''completed'') (dg_deps g subtaskID)"

definition dg_ready :: "dep_graph \<Rightarrow> string \<Rightarrow> bool" where
  "dg_ready g i \<longleftrightarrow> mget '''' (dg_status g) i = ''pending'' \<and> allDepsCompleted g i"

definition GetReady :: "string list \<Rightarrow> dep_graph \<Rightarrow> nat list" where
  "GetReady ks g = map (\<lambda>i. the (map_of (dg_nodes g) i)) (filter (dg_ready g) ks)"

definition MarkRunning :: "dep_graph \<Rightarrow> string \<Rightarrow> dep_graph" where
  "MarkRunning g subtaskID = g\<lparr>dg_status := mput subtaskID ''running'' (dg_status g)\<rparr>"

definition Complete :: "string list \<Rightarrow> dep_graph \<Rightarrow> string \<Rightarrow> nat list \<times> dep_graph" where
  "Complete ks g subtaskID =
     (let g = g\<lparr>dg_status := mput subtaskID ''completed'' (dg_status g)\<rparr>
      in (map (\<lambda>i. the (map_of (dg_nodes g) i)) (filter (dg_ready g) ks), g))"

text \<open>
  \<open>skipDependents ord\<close>: \<open>ord id\<close> is the order in which the call for \<open>id\<close> ranges over the
  nodes. \<open>skip_loop\<close> is the loop over the remaining nodes of one call; a node that depends on
  the failed one is marked and the function called for it before the loop goes on.
\<close>

definition skippable :: "(string, string) gomap \<Rightarrow> string \<Rightarrow> bool" where
  "skippable status i \<longleftrightarrow> mget '''' status i = ''pending'' \<or> mget '''' status i = ''running''"

function skip_loop :: "(string \<Rightarrow> string list) \<Rightarrow> (string, string list) gomap \<Rightarrow> string \<Rightarrow>
    string list \<Rightarrow> (string, string) gomap \<Rightarrow> (string, string) gomap" where
  "skip_loop ord edges failedID [] status = status"
| "skip_loop ord edges failedID (i # is) status =
     (if skippable status i \<and> list_ex (\<lambda>dep. dep = failedID) (mget [] edges i)
      then skip_loop ord edges failedID is
             (skip_loop ord edges i (ord i) (mput i ''skipped'' status))
      else skip_loop ord edges failedID is status)"
  by pat_completeness auto

definition active_keys :: "(string, string) gomap \<Rightarrow> string set" where
  "active_keys status = {i. skippable status i}"

lemma active_keys_subset: "active_keys status \<subseteq> set (mkeys status)"
proof
  fix i assume "i \<in> active_keys status"
  then have "mget '''' status i \<noteq> ''''" by (auto simp: active_keys_def skippable_def)
  then show "i \<in> set (mkeys status)" using mget_missing by metis
qed

lemma finite_active_keys [simp]: "finite (active_keys status)"
  by (rule finite_subset [OF active_keys_subset]) simp

lemma active_keys_skip [simp]: "active_keys (mput i ''skipped'' status) = active_keys status - {i}"
  by (auto simp: active_keys_def skippable_def)

lemma skip_loop_dom_active:
  "skip_loop_dom (ord, edges, failedID, is, status) \<Longrightarrow>
   active_keys (skip_loop ord edges failedID is status) \<subseteq> active_keys status"
proof (induction ord edges failedID "is" status rule: skip_loop.pinduct)
  case (2 ord edges failedID i "is" status)
  show ?case
  proof (cases "skippable status i \<and> list_ex (\<lambda>dep. dep = failedID) (mget [] edges i)")
    case True
    show ?thesis
      using 2(2,3) [OF True] by (simp add: skip_loop.psimps(2) [OF 2(1)] True) blast
  next
    case False
    show ?thesis
      using 2(4) [OF False] by (simp add: skip_loop.psimps(2) [OF 2(1)] False)
  qed
qed (simp add: skip_loop.psimps)

termination skip_loop
proof (relation "measures [\<lambda>(ord, edges, failedID, is, status). card (active_keys status),
                           \<lambda>(ord, edges, failedID, is, status). length is]", goal_cases)
  case (2 ord edges failedID i "is" status)
  then have "i \<in> active_keys status" by (simp add: active_keys_def)
  then have "card (active_keys status - {i}) < card (active_keys status)"
    by (intro psubset_card_mono) auto
  then show ?case by simp
next
  case (3 ord edges failedID i "is" status)
  then have "active_keys (skip_loop ord edges i (ord i) (mput i ''skipped'' status)) \<subseteq> active_keys status"
    using skip_loop_dom_active by fastforce
  then have "card (active_keys (skip_loop ord edges i (ord i) (mput i ''skipped'' status)))
    \<le> card (active_keys status)"
    by (simp add: card_mono)
  then show ?case by auto
qed auto

definition skipDependents :: "(string \<Rightarrow> string list) \<Rightarrow> dep_graph \<Rightarrow> string \<Rightarrow> dep_graph" where
  "skipDependents ord g failedID =
     g\<lparr>dg_status := skip_loop ord (dg_edges g) failedID (ord failedID) (dg_status g)\<rparr>"

definition dg_Fail :: "(string \<Rightarrow> string list) \<Rightarrow> dep_graph \<Rightarrow> string \<Rightarrow> dep_graph" where
  "dg_Fail ord g subtaskID =
     skipDependents ord (g\<lparr>dg_status := mput subtaskID ''failed'' (dg_status g)\<rparr>) subtaskID"

definition AllCompleted :: "dep_graph \<Rightarrow> bool" where
  "AllCompleted g = list_all (\<lambda>(i, s). \<not> (s = ''pending'' \<or> s = ''running'')) (dg_status g)"

text \<open>Both branches of \<open>HasFailures\<close> return false.\<close>

fun has_failures_loop :: "(string, string) gomap \<Rightarrow> bool" where
  "has_failures_loop [] = False"
| "has_failures_loop ((i, s) # rest) = (if s = ''failed'' then False else has_failures_loop rest)"

definition HasFailures :: "dep_graph \<Rightarrow> bool" where
  "HasFailures g = has_failures_loop (dg_status g)"

section \<open>Cycle detection\<close>

text \<open>
  \<open>dfs_deps edges deps color\<close> is the loop of \<open>dfs\<close> over the dependencies of one node; a
  white dependency is coloured gray, visited by the same loop over its own dependencies, and
  coloured black when that returns false. \<open>color\<close> of an absent name is white.
\<close>

abbreviation (input) "white \<equiv> (0 :: nat)"
abbreviation (input) "gray \<equiv> (1 :: nat)"
abbreviation (input) "black \<equiv> (2 :: nat)"

function dfs_deps :: "(string, string list) gomap \<Rightarrow> string list \<Rightarrow> (string, nat) gomap \<Rightarrow>
    bool \<times> (string, nat) gomap" where
  "dfs_deps edges [] color = (False, color)"
| "dfs_deps edges (dep # deps) color =
     (if mget white color dep = gray then (True, color)
      else if mget white color dep = white
      then if fst (dfs_deps edges (mget [] edges dep) (mput dep gray color))
           then (True, snd (dfs_deps edges (mget [] edges dep) (mput dep gray color)))
           else dfs_deps edges deps
                  (mput dep black (snd (dfs_deps edges (mget [] edges dep) (mput dep gray color))))
      else dfs_deps edges deps color)"
  by pat_completeness auto

definition white_keys :: "(string, string list) gomap \<Rightarrow> (string, nat) gomap \<Rightarrow> string set" where
  "white_keys edges color = {i \<in> set (mkeys edges). mget white color i = white}"

lemma finite_white_keys [simp]: "finite (white_keys edges color)"
  by (simp add: white_keys_def)

lemma white_keys_mput: "c \<noteq> white \<Longrightarrow> white_keys edges (mput i c color) = white_keys edges color - {i}"
  by (auto simp: white_keys_def)

lemma dfs_deps_dom_white:
  "dfs_deps_dom (edges, deps, color) \<Longrightarrow>
   white_keys edges (snd (dfs_deps edges deps color)) \<subseteq> white_keys edges color"
proof (induction edges deps color rule: dfs_deps.pinduct)
  case (2 edges dep deps color)
  then show ?case
    by (simp add: dfs_deps.psimps(2) [OF 2(1)] white_keys_mput) blast
qed (simp add: dfs_deps.psimps)

lemma dfs_measure:
  assumes "mget white color dep = white"
  shows "card (white_keys edges color - {dep}) < card (white_keys edges color) \<or>
         card (white_keys edges color - {dep}) = card (white_keys edges color) \<and>
         mget [] edges dep = []"
proof (cases "dep \<in> set (mkeys edges)")
  case True
  with assms have "white_keys edges color - {dep} \<subset> white_keys edges color"
    by (auto simp: white_keys_def)
  then show ?thesis by (simp add: psubset_card_mono)
next
  case False
  then have "mget [] edges dep = []" "white_keys edges color - {dep} = white_keys edges color"
    by (auto simp: white_keys_def mget_missing)
  then show ?thesis by simp
qed

termination dfs_deps
proof (relation "measures [\<lambda>(edges, deps, color). card (white_keys edges color),
                           \<lambda>(edges, deps, color). length deps]", goal_cases)
  case (2 edges dep deps color)
  with dfs_measure [of color dep edges] show ?case by (auto simp: white_keys_mput)
next
  case (3 edges dep deps color)
  with dfs_measure [of color dep edges] show ?case by (auto simp: white_keys_mput)
next
  case (4 edges dep deps color)
  with dfs_measure [of color dep edges] show ?case by (auto simp: white_keys_mput)
next
  case (5 edges dep deps color)
  let ?c = "mput dep black (snd (dfs_deps edges (mget [] edges dep) (mput dep gray color)))"
  have "white_keys edges ?c \<subseteq> white_keys edges color"
    using dfs_deps_dom_white [OF 5(4)] by (auto simp: white_keys_mput)
  then have "card (white_keys edges ?c) \<le> card (white_keys edges color)"
    by (simp add: card_mono)
  then show ?case by auto
qed auto

definition dfs :: "(string, string list) gomap \<Rightarrow> string \<Rightarrow> (string, nat) gomap \<Rightarrow>
    bool \<times> (string, nat) gomap" where
  "dfs edges i color =
     (case dfs_deps edges (mget [] edges i) (mput i gray color) of
        (cyclic, color) \<Rightarrow> if cyclic then (True, color) else (False, mput i black color))"

fun dfs_roots :: "(string, string list) gomap \<Rightarrow> string list \<Rightarrow> (string, nat) gomap \<Rightarrow> bool" where
  "dfs_roots edges [] color = False"
| "dfs_roots edges (i # is) color =
     (if mget white color i = white
      then case dfs edges i color of (cyclic, color) \<Rightarrow>
             if cyclic then True else dfs_roots edges is color
      else dfs_roots edges is color)"

definition HasCycles :: "string list \<Rightarrow> dep_graph \<Rightarrow> bool" where
  "HasCycles ks g = dfs_roots (dg_edges g) ks (fold (\<lambda>i. mput i white) ks [])"

section \<open>Topological sort\<close>

text \<open>
  \<open>visit_all edges ids visited order\<close> calls \<open>visit\<close> on each of \<open>ids\<close>. The node pointer
  appended for a name is looked up at the end; a name without a node gives a nil pointer.
\<close>

function visit_all :: "(string, string list) gomap \<Rightarrow> string list \<Rightarrow> (string, bool) gomap \<Rightarrow>
    string list \<Rightarrow> (string, bool) gomap \<times> string list" where
  "visit_all edges [] visited order = (visited, order)"
| "visit_all edges (i # is) visited order =
     (if mget False visited i then visit_all edges is visited order
      else visit_all edges is
             (fst (visit_all edges (mget [] edges i) (mput i True visited) order))
             (snd (visit_all edges (mget [] edges i) (mput i True visited) order) @ [i]))"
  by pat_completeness auto

definition unvisited_keys :: "(string, string list) gomap \<Rightarrow> (string, bool) gomap \<Rightarrow> string set" where
  "unvisited_keys edges visited = {i \<in> set (mkeys edges). \<not> mget False visited i}"

lemma finite_unvisited_keys [simp]: "finite (unvisited_keys edges visited)"
  by (simp add: unvisited_keys_def)

lemma unvisited_keys_mput:
  "unvisited_keys edges (mput i True visited) = unvisited_keys edges visited - {i}"
  by (auto simp: unvisited_keys_def)

lemma visit_all_dom_unvisited:
  "visit_all_dom (edges, is, visited, order) \<Longrightarrow>
   unvisited_keys edges (fst (visit_all edges is visited order)) \<subseteq> unvisited_keys edges visited"
proof (induction edges "is" visited order rule: visit_all.pinduct)
  case (2 edges i "is" visited order)
  then show ?case
    by (simp add: visit_all.psimps(2) [OF 2(1)] unvisited_keys_mput) blast
qed (simp add: visit_all.psimps)

lemma visit_measure:
  assumes "\<not> mget False visited i"
  shows "card (unvisited_keys edges visited - {i}) < card (unvisited_keys edges visited) \<or>
         card (unvisited_keys edges visited - {i}) = card (unvisited_keys edges visited) \<and>
         mget [] edges i = []"
proof (cases "i \<in> set (mkeys edges)")
  case True
  with assms have "unvisited_keys edges visited - {i} \<subset> unvisited_keys edges visited"
    by (auto simp: unvisited_keys_def)
  then show ?thesis by (simp add: psubset_card_mono)
next
  case False
  then have "mget [] edges i = []" "unvisited_keys edges visited - {i} = unvisited_keys edges visited"
    by (auto simp: unvisited_keys_def mget_missing)
  then show ?thesis by simp
qed

termination visit_all
proof (relation "measures [\<lambda>(edges, is, visited, order). card (unvisited_keys edges visited),
                           \<lambda>(edges, is, visited, order). length is]", goal_cases)
  case (3 edges i "is" visited order)
  with visit_measure [of visited i edges] show ?case by (auto simp: unvisited_keys_mput)
next
  case (4 edges i "is" visited order)
  with visit_measure [of visited i edges] show ?case by (auto simp: unvisited_keys_mput)
next
  case (5 edges i "is" visited order)
  let ?v = "fst (visit_all edges (mget [] edges i) (mput i True visited) order)"
  have "unvisited_keys edges ?v \<subseteq> unvisited_keys edges visited"
    using visit_all_dom_unvisited [OF 5(2)] by (auto simp: unvisited_keys_mput)
  then have "card (unvisited_keys edges ?v) \<le> card (unvisited_keys edges visited)"
    by (simp add: card_mono)
  then show ?case by auto
qed auto

definition TopologicalSort :: "string list \<Rightarrow> string list \<Rightarrow> dep_graph \<Rightarrow> string + nat option list" where
  "TopologicalSort ks ks' g =
     (if HasCycles ks g then Inl ''graph contains cycles''
      else Inr (map (map_of (dg_nodes g)) (snd (visit_all (dg_edges g) ks' [] []))))"

end
