(* ===== verification/Dep_Order.thy ===== *)
theory Dep_Order
  imports Dep_Graph
begin

text \<open>
  The correctness of the dependency graph: what a graph built from a plan contains, that
  \<open>GetReady\<close> is exact, that a failure skips exactly the unfinished subtasks downstream of it,
  that \<open>HasCycles\<close> decides cyclicity and that \<open>TopologicalSort\<close> puts every subtask after the
  subtasks it depends on. Each holds for every order in which the nodes may be visited.
\<close>

section \<open>The relation and well-formed graphs\<close>

text \<open>\<open>(i, d)\<close> is in \<open>dep_rel edges\<close> when \<open>i\<close> depends on \<open>d\<close>.\<close>

definition dep_rel :: "(string, string list) gomap \<Rightarrow> (string \<times> string) set" where
  "dep_rel edges = {(i, d). d \<in> set (mget [] edges i)}"

lemma dep_rel_iff [simp]: "(i, d) \<in> dep_rel edges \<longleftrightarrow> d \<in> set (mget [] edges i)"
  by (simp add: dep_rel_def)

definition dg_wf :: "dep_graph \<Rightarrow> bool" where
  "dg_wf g \<longleftrightarrow> map_ok (dg_nodes g) \<and> map_ok (dg_edges g) \<and> map_ok (dg_status g) \<and>
     set (mkeys (dg_edges g)) = set (mkeys (dg_nodes g)) \<and>
     set (mkeys (dg_nodes g)) \<subseteq> set (mkeys (dg_status g))"

lemma dg_wf_edges: "dg_wf g \<Longrightarrow> dg_deps g i \<noteq> [] \<Longrightarrow> i \<in> set (mkeys (dg_nodes g))"
  using mget_missing [of i "dg_edges g" "[]"] by (auto simp: dg_wf_def)

lemma dg_wf_MarkRunning [intro]: "dg_wf g \<Longrightarrow> dg_wf (MarkRunning g i)"
  by (auto simp: dg_wf_def MarkRunning_def)

lemma dg_wf_Complete [intro]: "dg_wf g \<Longrightarrow> dg_wf (snd (Complete ks g i))"
  by (auto simp: dg_wf_def Complete_def Let_def)

lemma skip_loop_miss:
  "\<not> (skippable status i \<and> list_ex (\<lambda>dep. dep = f) (mget [] edges i)) \<Longrightarrow>
   skip_loop ord edges f (i # is) status = skip_loop ord edges f is status"
  unfolding skip_loop.simps by (rule if_not_P)

lemma skip_loop_keys:
  "map_ok (skip_loop ord edges f is status) = map_ok status \<and>
   set (mkeys (skip_loop ord edges f is status)) = set (mkeys status)"
proof (induction ord edges f "is" status rule: skip_loop.induct)
  case (2 ord edges f i "is" status)
  show ?case
  proof (cases "skippable status i \<and> list_ex (\<lambda>dep. dep = f) (mget [] edges i)")
    case True
    then have "i \<in> set (mkeys status)"
      using active_keys_subset [of status] by (auto simp: active_keys_def)
    with 2(1,2) [OF True] True show ?thesis by auto
  next
    case False
    show ?thesis using 2(3) [OF False] by (simp only: skip_loop_miss [OF False])
  qed
qed simp

lemma dg_wf_Fail [intro]: "dg_wf g \<Longrightarrow> dg_wf (dg_Fail ord g i)"
  by (auto simp: dg_wf_def dg_Fail_def skipDependents_def skip_loop_keys)

subsection \<open>Graphs built from a plan\<close>

lemma dg_wf_add: "dg_wf g \<Longrightarrow> dg_wf (add_subtask x g)"
  by (cases x) (auto simp: add_subtask_def dg_wf_def)

lemma add_subtask_sel [simp]:
  "map_of (dg_nodes (add_subtask (n, st) g)) = (map_of (dg_nodes g))(st_ID st \<mapsto> n)"
  "set (mkeys (dg_nodes (add_subtask (n, st) g))) = insert (st_ID st) (set (mkeys (dg_nodes g)))"
  "dg_deps (add_subtask (n, st) g) i = (if i = st_ID st then st_DependsOn st else dg_deps g i)"
  "dg_Status (add_subtask (n, st) g) i =
     (if i = st_ID st then if st_Status st = '''' then ''pending'' else st_Status st
      else dg_Status g i)"
  by (simp_all add: add_subtask_def dg_Status_def)

lemma fold_add_wf:
  "dg_wf g \<Longrightarrow> dg_wf (fold add_subtask (enumerate n sts) g)"
  by (induction sts arbitrary: n g) (simp_all add: dg_wf_add)

lemma fold_add_nodes:
  "set (mkeys (dg_nodes (fold add_subtask (enumerate n sts) g))) = set (mkeys (dg_nodes g)) \<union> st_ID ` set sts"
  by (induction sts arbitrary: n g) auto

lemma fold_add_other:
  assumes "i \<notin> st_ID ` set sts"
  shows "map_of (dg_nodes (fold add_subtask (enumerate n sts) g)) i = map_of (dg_nodes g) i"
    and "dg_deps (fold add_subtask (enumerate n sts) g) i = dg_deps g i"
    and "dg_Status (fold add_subtask (enumerate n sts) g) i = dg_Status g i"
  using assms by (induction sts arbitrary: n g) auto

lemma fold_add_nth:
  assumes "distinct (map st_ID sts)" "k < length sts"
  shows "map_of (dg_nodes (fold add_subtask (enumerate n sts) g)) (st_ID (sts ! k)) = Some (n + k)
    \<and> dg_deps (fold add_subtask (enumerate n sts) g) (st_ID (sts ! k)) = st_DependsOn (sts ! k)
    \<and> dg_Status (fold add_subtask (enumerate n sts) g) (st_ID (sts ! k)) =
        (if st_Status (sts ! k) = '''' then ''pending'' else st_Status (sts ! k))"
  using assms
proof (induction sts arbitrary: n g k)
  case (Cons st sts)
  then show ?case
    by (cases k) (simp_all add: fold_add_other)
qed simp

lemma dg_wf_BuildGraph [simp]: "dg_wf (BuildGraph plan)"
  unfolding BuildGraph_def by (rule fold_add_wf) (simp add: dg_wf_def)

lemma BuildGraph_nodes: "set (mkeys (dg_nodes (BuildGraph plan))) = st_ID ` set (ep_Subtasks plan)"
  by (simp add: BuildGraph_def fold_add_nodes)

lemma BuildGraph_nth:
  assumes "distinct (map st_ID (ep_Subtasks plan))" "k < length (ep_Subtasks plan)"
  shows "GetNode (BuildGraph plan) (st_ID (ep_Subtasks plan ! k)) = Some k"
    and "dg_deps (BuildGraph plan) (st_ID (ep_Subtasks plan ! k)) = st_DependsOn (ep_Subtasks plan ! k)"
    and "dg_Status (BuildGraph plan) (st_ID (ep_Subtasks plan ! k)) =
      (if st_Status (ep_Subtasks plan ! k) = '''' then ''pending'' else st_Status (ep_Subtasks plan ! k))"
  using fold_add_nth [OF assms] by (simp_all add: BuildGraph_def GetNode_def)

section \<open>Failure\<close>

text \<open>\<open>(i, d) \<in> skip_rel edges status\<close>: the unfinished subtask \<open>i\<close> depends on \<open>d\<close>.\<close>

definition skip_rel :: "(string, string list) gomap \<Rightarrow> (string, string) gomap \<Rightarrow> (string \<times> string) set" where
  "skip_rel edges status = {(i, d). skippable status i \<and> d \<in> set (mget [] edges i)}"

lemma skip_rel_mono: "active_keys s \<subseteq> active_keys t \<Longrightarrow> skip_rel edges s \<subseteq> skip_rel edges t"
  by (auto simp: skip_rel_def active_keys_def)

lemma skip_loop_active: "active_keys (skip_loop ord edges f is status) \<subseteq> active_keys status"
proof (induction ord edges f "is" status rule: skip_loop.induct)
  case (2 ord edges f i "is" status)
  then show ?case by (cases "skippable status i \<and> list_ex (\<lambda>dep. dep = f) (mget [] edges i)") auto
qed simp

lemma skip_loop_sound:
  "mget '''' (skip_loop ord edges f is status) j = mget '''' status j \<or>
   skippable status j \<and> mget '''' (skip_loop ord edges f is status) j = ''skipped'' \<and>
   (j, f) \<in> (skip_rel edges status)\<^sup>+"
proof (induction ord edges f "is" status rule: skip_loop.induct)
  case (2 ord edges f i "is" status)
  show ?case
  proof (cases "skippable status i \<and> list_ex (\<lambda>dep. dep = f) (mget [] edges i)")
    case True
    let ?s1 = "mput i ''skipped'' status"
    let ?s2 = "skip_loop ord edges i (ord i) ?s1"
    have edge: "(i, f) \<in> skip_rel edges status"
      using True by (auto simp: skip_rel_def list_ex_iff)
    have m1: "active_keys ?s1 \<subseteq> active_keys status" by auto
    have m2: "active_keys ?s2 \<subseteq> active_keys status"
      using skip_loop_active [of ord edges i "ord i" ?s1] m1 by blast
    note mono = trancl_mono [OF _ skip_rel_mono [OF m1]] trancl_mono [OF _ skip_rel_mono [OF m2]]
    have sk: "skippable ?s1 j \<Longrightarrow> skippable status j" "skippable ?s2 j \<Longrightarrow> skippable status j"
      using m1 m2 by (auto simp: active_keys_def)
    have step2: "mget '''' ?s2 j = mget '''' status j \<or>
        skippable status j \<and> mget '''' ?s2 j = ''skipped'' \<and> (j, f) \<in> (skip_rel edges status)\<^sup>+"
    proof (cases "mget '''' ?s2 j = mget '''' ?s1 j")
      case same: True
      then show ?thesis using edge True by auto
    next
      case False
      with 2(1) [OF True] have "skippable ?s1 j" "mget '''' ?s2 j = ''skipped''"
        "(j, i) \<in> (skip_rel edges ?s1)\<^sup>+" by auto
      with edge mono sk show ?thesis by (meson trancl.trancl_into_trancl)
    qed
    have "mget '''' (skip_loop ord edges f is ?s2) j = mget '''' status j \<or>
        skippable status j \<and> mget '''' (skip_loop ord edges f is ?s2) j = ''skipped'' \<and>
        (j, f) \<in> (skip_rel edges status)\<^sup>+"
      using 2(2) [OF True] step2 mono sk by fastforce
    with True show ?thesis by simp
  next
    case False
    with 2(3) [OF False] show ?thesis by (simp only: skip_loop_miss [OF False])
  qed
qed simp

lemma skip_loop_complete:
  assumes "\<And>i j. mget [] edges i \<noteq> [] \<Longrightarrow> i \<in> set (ord j)"
  shows "(\<forall>i \<in> set is. f \<in> set (mget [] edges i) \<longrightarrow> i \<notin> active_keys (skip_loop ord edges f is status)) \<and>
    (\<forall>i j. j \<in> active_keys status \<and> j \<notin> active_keys (skip_loop ord edges f is status) \<and>
       j \<in> set (mget [] edges i) \<longrightarrow> i \<notin> active_keys (skip_loop ord edges f is status))"
  using assms
proof (induction ord edges f "is" status rule: skip_loop.induct)
  case (2 ord edges f i "is" status)
  show ?case
  proof (cases "skippable status i \<and> list_ex (\<lambda>dep. dep = f) (mget [] edges i)")
    case True
    let ?s1 = "mput i ''skipped'' status"
    let ?s2 = "skip_loop ord edges i (ord i) ?s1"
    let ?r = "skip_loop ord edges f is ?s2"
    have eq: "skip_loop ord edges f (i # is) status = ?r" using True by simp
    have m2: "active_keys ?s2 \<subseteq> active_keys status - {i}"
      using skip_loop_active [of ord edges i "ord i" ?s1] by simp
    have mr: "active_keys ?r \<subseteq> active_keys ?s2" by (rule skip_loop_active)
    note IH1 = 2(1) [OF True 2(4)] and IH2 = 2(2) [OF True 2(4)]
    have "k \<notin> active_keys ?r" if "j \<in> active_keys status" "j \<notin> active_keys ?r" "j \<in> set (mget [] edges k)"
      for j k
    proof -
      have k: "k \<in> set (ord i)" using 2(4) [of k i] that(3) by (cases "mget [] edges k") auto
      have "j = i \<or> j \<in> active_keys ?s1 \<and> j \<notin> active_keys ?s2 \<or> j \<in> active_keys ?s2"
        using that(1) by auto
      then consider "j = i" | "j \<in> active_keys ?s1" "j \<notin> active_keys ?s2" | "j \<in> active_keys ?s2"
        by blast
      then show ?thesis
      proof cases
        case 1 with IH1 k that mr show ?thesis by blast
      next
        case 2 with IH1 that mr show ?thesis by blast
      next
        case 3 with IH2 that show ?thesis by blast
      qed
    qed
    moreover have "k \<notin> active_keys ?r" if "k \<in> set (i # is)" "f \<in> set (mget [] edges k)" for k
      using that IH2 m2 mr by auto
    ultimately show ?thesis unfolding eq by blast
  next
    case False
    have "i \<notin> active_keys status \<or> f \<notin> set (mget [] edges i)"
      using False by (auto simp: active_keys_def list_ex_iff)
    with 2(3) [OF False 2(4)] skip_loop_active [of ord edges f "is" status] show ?thesis
      unfolding skip_loop_miss [OF False] by auto
  qed
qed auto

lemma skip_loop_eq:
  assumes ord: "\<And>i j. mget [] edges i \<noteq> [] \<Longrightarrow> i \<in> set (ord j)"
  shows "mget '''' (skip_loop ord edges f (ord f) status) j =
    (if (j, f) \<in> (skip_rel edges status)\<^sup>+ then ''skipped'' else mget '''' status j)"
proof -
  let ?r = "skip_loop ord edges f (ord f) status"
  have c: "\<And>i. f \<in> set (mget [] edges i) \<Longrightarrow> i \<notin> active_keys ?r"
    "\<And>i j. j \<in> active_keys status \<Longrightarrow> j \<notin> active_keys ?r \<Longrightarrow> j \<in> set (mget [] edges i) \<Longrightarrow>
       i \<notin> active_keys ?r"
    using skip_loop_complete [of edges ord "ord f" f status] ord by (metis list.set_cases list.distinct(1))+
  have "(j, f) \<in> (skip_rel edges status)\<^sup>+ \<Longrightarrow> j \<in> active_keys status \<and> j \<notin> active_keys ?r"
  proof (induction rule: converse_trancl_induct)
    case (base i)
    with c(1) show ?case by (auto simp: skip_rel_def active_keys_def)
  next
    case (step i k)
    with c(2) [of k i] show ?case by (auto simp: skip_rel_def active_keys_def)
  qed
  with skip_loop_sound [of ord edges f "ord f" status j] show ?thesis
    by (auto simp: active_keys_def skippable_def)
qed

section \<open>Cycles\<close>

text \<open>The computation of \<open>dfs_deps\<close>, one case per branch of the switch.\<close>

lemma dfs_deps_gray:
  "mget white color dep = gray \<Longrightarrow> dfs_deps edges (dep # deps) color = (True, color)"
  by simp

lemma dfs_deps_white:
  "mget white color dep = white \<Longrightarrow> dfs_deps edges (dep # deps) color =
     (case dfs_deps edges (mget [] edges dep) (mput dep gray color) of (cyclic, color') \<Rightarrow>
        if cyclic then (True, color') else dfs_deps edges deps (mput dep black color'))"
  by (simp add: case_prod_beta)

lemma dfs_deps_other:
  "mget white color dep \<noteq> white \<Longrightarrow> mget white color dep \<noteq> gray \<Longrightarrow>
   dfs_deps edges (dep # deps) color = dfs_deps edges deps color"
  by simp

lemma dfs_deps_cases [case_names Nil gray white other]:
  assumes "\<And>color. P [] color"
    and "\<And>dep deps color. mget white color dep = gray \<Longrightarrow> P (dep # deps) color"
    and "\<And>dep deps color. mget white color dep = white \<Longrightarrow>
           P (mget [] edges dep) (mput dep gray color) \<Longrightarrow>
           (\<And>color'. dfs_deps edges (mget [] edges dep) (mput dep gray color) = (False, color') \<Longrightarrow>
              P deps (mput dep black color')) \<Longrightarrow> P (dep # deps) color"
    and "\<And>dep deps color. mget white color dep \<noteq> white \<Longrightarrow> mget white color dep \<noteq> gray \<Longrightarrow>
           P deps color \<Longrightarrow> P (dep # deps) color"
  shows "P deps color"
proof -
  have "edges' = edges \<Longrightarrow> P deps color" for edges'
  proof (induction edges' deps color rule: dfs_deps.induct)
    case (2 edges' dep deps color)
    consider "mget white color dep = gray" | "mget white color dep = white"
      | "mget white color dep \<noteq> white" "mget white color dep \<noteq> gray" by blast
    then show ?case
    proof cases
      case 1 then show ?thesis by (rule assms(2))
    next
      case 2
      then show ?thesis using "2.IH"(1,4) "2.prems" by (intro assms(3)) auto
    next
      case 3
      then show ?thesis using "2.IH"(5) "2.prems" by (intro assms(4)) auto
    qed
  qed (rule assms(1))
  then show ?thesis by simp
qed

declare dfs_deps.simps(2) [simp del] dfs_deps_gray [simp] dfs_deps_white [simp] dfs_deps_other [simp]

text \<open>The black names are closed under dependencies and none of them lies on a cycle.\<close>

definition black_ok :: "(string, string list) gomap \<Rightarrow> (string, nat) gomap \<Rightarrow> bool" where
  "black_ok edges color \<longleftrightarrow> (\<forall>i. mget white color i \<le> black \<and> (mget white color i = black \<longrightarrow>
     (\<forall>d \<in> set (mget [] edges i). mget white color d = black) \<and> (i, i) \<notin> (dep_rel edges)\<^sup>+))"

lemma black_closed:
  assumes "(i, j) \<in> (dep_rel edges)\<^sup>*" "black_ok edges color" "mget white color i = black"
  shows "mget white color j = black"
  using assms(1) by induction (use assms(2,3) in \<open>auto simp: black_ok_def\<close>)

lemma black_ok_mput:
  assumes ok: "black_ok edges color" and i: "mget white color i \<noteq> black"
    and deps: "\<forall>d \<in> set (mget [] edges i). mget white color d = black"
  shows "black_ok edges (mput i black color)"
proof -
  have "(i, i) \<notin> (dep_rel edges)\<^sup>+"
  proof
    assume "(i, i) \<in> (dep_rel edges)\<^sup>+"
    then obtain d where "d \<in> set (mget [] edges i)" "(d, i) \<in> (dep_rel edges)\<^sup>*"
      by (auto dest: tranclD)
    with black_closed [OF _ ok] deps i show False by blast
  qed
  with ok deps show ?thesis by (auto simp: black_ok_def)
qed

lemma black_ok_gray:
  "black_ok edges color \<Longrightarrow> mget white color i \<noteq> black \<Longrightarrow> black_ok edges (mput i gray color)"
  by (auto simp: black_ok_def)

definition same_gray :: "(string, nat) gomap \<Rightarrow> (string, nat) gomap \<Rightarrow> bool" where
  "same_gray color color' \<longleftrightarrow>
     (\<forall>i. mget white color' i = gray \<longleftrightarrow> mget white color i = gray) \<and>
     (\<forall>i. mget white color i = black \<longrightarrow> mget white color' i = black)"

lemma same_grayI:
  "(\<And>i. (mget white color' i = gray \<longleftrightarrow> mget white color i = gray) \<and>
          (mget white color i = black \<longrightarrow> mget white color' i = black)) \<Longrightarrow> same_gray color color'"
  by (simp add: same_gray_def)

lemma same_grayD:
  "same_gray color color' \<Longrightarrow> (mget white color' i = gray \<longleftrightarrow> mget white color i = gray) \<and>
     (mget white color i = black \<longrightarrow> mget white color' i = black)"
  by (simp add: same_gray_def)

lemma same_gray_blacken:
  assumes "same_gray (mput i gray color) color1" "mget white color i = white"
  shows "same_gray color (mput i black color1)"
proof (rule same_grayI)
  fix j
  show "(mget white (mput i black color1) j = gray \<longleftrightarrow> mget white color j = gray) \<and>
      (mget white color j = black \<longrightarrow> mget white (mput i black color1) j = black)"
    using same_grayD [OF assms(1), of j] assms(2) by (cases "j = i") auto
qed

lemma same_gray_trans: "same_gray a b \<Longrightarrow> same_gray b c \<Longrightarrow> same_gray a c"
  by (simp add: same_gray_def)

lemma dfs_deps_False:
  "black_ok edges color \<Longrightarrow> dfs_deps edges deps color = (False, color') \<Longrightarrow>
   black_ok edges color' \<and> same_gray color color' \<and> (\<forall>d \<in> set deps. mget white color' d = black)"
proof (induction deps color arbitrary: color' rule: dfs_deps_cases [where edges = edges])
  case (white dep deps color)
  from white.hyps white.prems(2) obtain color1
    where r: "dfs_deps edges (mget [] edges dep) (mput dep gray color) = (False, color1)"
      and r2: "dfs_deps edges deps (mput dep black color1) = (False, color')"
    by (auto simp: dfs_deps_white split: prod.splits if_splits)
  have "black_ok edges (mput dep gray color)"
    using white by (intro black_ok_gray) auto
  from white.IH(1) [OF this r] have r1: "black_ok edges color1" "same_gray (mput dep gray color) color1"
    "\<forall>d \<in> set (mget [] edges dep). mget white color1 d = black" by auto
  then have "mget white color1 dep = gray" by (simp add: same_gray_def)
  with r1 have "black_ok edges (mput dep black color1)" by (intro black_ok_mput) auto
  from white.IH(2) [OF r this r2] have r3: "black_ok edges color'"
    "same_gray (mput dep black color1) color'" "\<forall>d \<in> set deps. mget white color' d = black" by auto
  moreover have "mget white color' dep = black"
    using same_grayD [OF r3(2), of dep] by simp
  ultimately show ?case
    using same_gray_trans [OF same_gray_blacken [OF r1(2) white.hyps]] by simp
next
  case (other dep deps color)
  from other.prems(1) have "mget white color dep \<le> black" by (simp add: black_ok_def)
  with other.hyps have b: "mget white color dep = black" by linarith
  have "dfs_deps edges deps color = (False, color')" using other.prems(2) other.hyps by simp
  from other.IH [OF other.prems(1) this] b same_grayD [of color color' dep] show ?case by simp
qed (simp_all add: same_gray_def)

lemma dfs_deps_True:
  assumes "\<And>i. mget white color i = gray \<Longrightarrow> (i, cur) \<in> (dep_rel edges)\<^sup>*"
    and "\<And>d. d \<in> set deps \<Longrightarrow> (cur, d) \<in> dep_rel edges"
    and "dfs_deps edges deps color = (b, color')"
  shows "(b \<longrightarrow> (\<exists>i. (i, i) \<in> (dep_rel edges)\<^sup>+)) \<and>
    (\<not> b \<longrightarrow> (\<forall>i. mget white color' i = gray \<longrightarrow> mget white color i = gray))"
  using assms
proof (induction deps color arbitrary: cur b color' rule: dfs_deps_cases [where edges = edges])
  case (gray dep deps color)
  then have "(dep, cur) \<in> (dep_rel edges)\<^sup>*" "(cur, dep) \<in> dep_rel edges"
    by auto
  then have "(dep, dep) \<in> (dep_rel edges)\<^sup>+" by (rule rtrancl_into_trancl1)
  with gray show ?case by auto
next
  case (white dep deps color)
  obtain b1 color1 where r: "dfs_deps edges (mget [] edges dep) (mput dep gray color) = (b1, color1)"
    by fastforce
  have e: "(cur, dep) \<in> dep_rel edges" using white.prems(2) by auto
  have g: "(i, dep) \<in> (dep_rel edges)\<^sup>*" if "mget white (mput dep gray color) i = gray" for i
    using that white.prems(1) [of i] e by (auto split: if_splits intro: rtrancl_into_rtrancl)
  note r1 = white.IH(1) [OF g _ r, simplified]
  show ?case
  proof (cases b1)
    case True
    with r r1 white.hyps white.prems(3) show ?thesis by auto
  next
    case False
    have grays: "mget white color i = gray" if "mget white (mput dep black color1) i = gray" for i
      using that r1 False by (auto split: if_splits)
    from False r white.hyps white.prems(3)
    have d: "dfs_deps edges deps (mput dep black color1) = (b, color')" by simp
    have r0: "dfs_deps edges (mget [] edges dep) (mput dep gray color) = (False, color1)"
      using r False by simp
    have p2: "\<And>d. d \<in> set deps \<Longrightarrow> (cur, d) \<in> dep_rel edges" using white.prems(2) by simp
    show ?thesis using white.IH(2) [OF r0 white.prems(1) [OF grays] p2 d] grays by blast
  qed
next
  case (other dep deps color)
  have d: "dfs_deps edges deps color = (b, color')" using other.prems(3) other.hyps by simp
  have "\<And>d. d \<in> set deps \<Longrightarrow> (cur, d) \<in> dep_rel edges" using other.prems(2) by simp
  from other.IH [OF other.prems(1) this d] show ?case .
qed auto

lemma dfs_roots_correct:
  assumes "black_ok edges color" "\<And>i. mget white color i \<noteq> gray"
  shows "(dfs_roots edges is color \<longrightarrow> \<not> acyclic (dep_rel edges)) \<and>
    (\<not> dfs_roots edges is color \<longrightarrow>
       (\<forall>i \<in> set is \<union> {i. mget white color i = black}. (i, i) \<notin> (dep_rel edges)\<^sup>+))"
  using assms
proof (induction edges "is" color rule: dfs_roots.induct)
  case (2 edges i "is" color)
  show ?case
  proof (cases "mget white color i = white")
    case True
    obtain b color1 where r: "dfs_deps edges (mget [] edges i) (mput i gray color) = (b, color1)"
      by fastforce
    have "\<And>j. mget white (mput i gray color) j = gray \<Longrightarrow> (j, i) \<in> (dep_rel edges)\<^sup>*"
      using 2(4) by (auto split: if_splits)
    note t = dfs_deps_True [OF this _ r, simplified]
    show ?thesis
    proof (cases b)
      case True
      with t r \<open>mget white color i = white\<close> show ?thesis
        by (auto simp: dfs_def acyclic_def)
    next
      case False
      have "black_ok edges (mput i gray color)" using 2(3) True by (intro black_ok_gray) auto
      from dfs_deps_False [OF this] r False
      have f: "black_ok edges color1" "same_gray (mput i gray color) color1"
        "\<forall>d \<in> set (mget [] edges i). mget white color1 d = black" by auto
      then have "mget white color1 i = gray" by (simp add: same_gray_def)
      with f have ok: "black_ok edges (mput i black color1)" by (intro black_ok_mput) auto
      note sg = same_gray_blacken [OF f(2) \<open>mget white color i = white\<close>]
      have ng: "mget white (mput i black color1) j \<noteq> gray" for j
        using same_grayD [OF sg, of j] 2(4) [of j] by blast
      have d: "dfs edges i color = (False, mput i black color1)"
        using r False by (simp add: dfs_def)
      have "(i, i) \<notin> (dep_rel edges)\<^sup>+" using ok by (auto simp: black_ok_def)
      moreover have "mget white color j = black \<Longrightarrow> mget white (mput i black color1) j = black" for j
        using same_grayD [OF sg, of j] by blast
      ultimately show ?thesis
        using 2(1) [OF True d [symmetric] _ ok ng] True d by auto
    qed
  next
    case False
    from 2(3) have "mget white color i \<le> black" by (simp add: black_ok_def)
    with False 2(4) [of i] have "mget white color i = black" by linarith
    with False 2(2) [OF False 2(3,4)] show ?thesis by auto
  qed
qed (auto simp: black_ok_def)

lemma mget_fold_same: "mget d (fold (\<lambda>i. mput i d) ks m) i = (if i \<in> set ks then d else mget d m i)"
  by (induction ks arbitrary: m) auto

lemma HasCycles_iff:
  assumes "dg_wf g" "range_of (dg_nodes g) ks"
  shows "HasCycles ks g \<longleftrightarrow> \<not> acyclic (dep_rel (dg_edges g))"
proof -
  let ?c = "fold (\<lambda>i. mput i white) ks []"
  have w: "mget white ?c i = white" for i by (simp add: mget_fold_same)
  then have ok: "black_ok (dg_edges g) ?c" "\<And>i. mget white ?c i \<noteq> gray"
    by (auto simp: black_ok_def)
  have "i \<in> set ks" if "(i, i) \<in> (dep_rel (dg_edges g))\<^sup>+" for i
  proof -
    from tranclD [OF that] obtain d where "d \<in> set (dg_deps g i)" by auto
    then have "dg_deps g i \<noteq> []" by auto
    then show ?thesis using dg_wf_edges [OF assms(1)] assms(2) by (simp add: range_of_def)
  qed
  with dfs_roots_correct [OF ok, of ks] show ?thesis
    by (auto simp: HasCycles_def acyclic_def)
qed

section \<open>Topological order\<close>

text \<open>\<open>topo_ok edges order\<close>: every name comes after the names it depends on.\<close>

definition topo_ok :: "(string, string list) gomap \<Rightarrow> string list \<Rightarrow> bool" where
  "topo_ok edges order \<longleftrightarrow>
     (\<forall>k < length order. \<forall>d \<in> set (mget [] edges (order ! k)). d \<in> set (take k order))"

lemma topo_ok_Nil [simp]: "topo_ok edges []"
  by (simp add: topo_ok_def)

lemma topo_ok_snoc [simp]:
  "topo_ok edges (order @ [i]) \<longleftrightarrow> topo_ok edges order \<and> set (mget [] edges i) \<subseteq> set order"
  by (auto simp: topo_ok_def nth_append less_Suc_eq)

lemma visit_all_visited:
  "mget False visited i \<Longrightarrow> visit_all edges (i # is) visited order = visit_all edges is visited order"
  by simp

lemma visit_all_new:
  "\<not> mget False visited i \<Longrightarrow> visit_all edges (i # is) visited order =
     (case visit_all edges (mget [] edges i) (mput i True visited) order of
        (visited', order') \<Rightarrow> visit_all edges is visited' (order' @ [i]))"
  by (simp add: case_prod_beta)

lemma visit_all_cases [case_names Nil visited new]:
  assumes "\<And>visited order. P [] visited order"
    and "\<And>i is visited order. mget False visited i \<Longrightarrow> P is visited order \<Longrightarrow> P (i # is) visited order"
    and "\<And>i is visited order. \<not> mget False visited i \<Longrightarrow>
           P (mget [] edges i) (mput i True visited) order \<Longrightarrow>
           (\<And>visited' order'. visit_all edges (mget [] edges i) (mput i True visited) order =
              (visited', order') \<Longrightarrow> P is visited' (order' @ [i])) \<Longrightarrow> P (i # is) visited order"
  shows "P is visited order"
proof -
  have "edges' = edges \<Longrightarrow> P is visited order" for edges'
  proof (induction edges' "is" visited order rule: visit_all.induct)
    case (2 edges' i "is" visited order)
    show ?case
    proof (cases "mget False visited i")
      case True
      then show ?thesis using "2.IH"(1) "2.prems" by (intro assms(2)) auto
    next
      case False
      then show ?thesis using "2.IH"(2,4) "2.prems" by (intro assms(3)) auto
    qed
  qed (rule assms(1))
  then show ?thesis by simp
qed

declare visit_all.simps(2) [simp del] visit_all_visited [simp] visit_all_new [simp]

text \<open>The names visited and not yet in the order, the ones whose visit is under way.\<close>

definition open_names :: "(string, bool) gomap \<Rightarrow> string list \<Rightarrow> string set" where
  "open_names visited order = {i. mget False visited i} - set order"

definition visit_ok :: "(string, string list) gomap \<Rightarrow> (string, bool) gomap \<Rightarrow> string list \<Rightarrow> bool" where
  "visit_ok edges visited order \<longleftrightarrow>
     distinct order \<and> topo_ok edges order \<and> set order \<subseteq> {i. mget False visited i}"

lemma visit_all_ok:
  assumes "acyclic (dep_rel edges)" and "visit_ok edges visited order"
    and "\<And>i j. j \<in> open_names visited order \<Longrightarrow> i \<in> set is \<Longrightarrow> (j, i) \<in> (dep_rel edges)\<^sup>+"
    and "visit_all edges is visited order = (visited', order')"
  shows "visit_ok edges visited' order' \<and> open_names visited' order' = open_names visited order \<and>
    set order \<union> set is \<subseteq> set order' \<and> set order' \<subseteq> set order \<union> (dep_rel edges)\<^sup>* `` set is"
  using assms(2-)
proof (induction "is" visited order arbitrary: visited' order' rule: visit_all_cases [where edges = edges])
  case (visited i "is" visited order)
  have "i \<in> set order"
    using visited.prems(2) [of i i] visited.hyps assms(1) by (auto simp: open_names_def acyclic_def)
  with visited.IH [OF visited.prems(1) visited.prems(2)] visited.prems(3) visited.hyps
  show ?case by auto
next
  case (new i "is" visited order)
  obtain visited1 order1
    where r: "visit_all edges (mget [] edges i) (mput i True visited) order = (visited1, order1)"
    by fastforce
  have i: "i \<notin> set order" using new.hyps new.prems(1) by (auto simp: visit_ok_def)
  then have o1: "open_names (mput i True visited) order = insert i (open_names visited order)"
    by (auto simp: open_names_def)
  have "visit_ok edges (mput i True visited) order"
    using new.prems(1) by (auto simp: visit_ok_def)
  moreover have "(k, j) \<in> (dep_rel edges)\<^sup>+"
    if "k \<in> open_names (mput i True visited) order" "j \<in> set (mget [] edges i)" for k j
  proof -
    have ij: "(i, j) \<in> dep_rel edges" using that(2) by simp
    show ?thesis
    proof (cases "k = i")
      case False
      with that(1) new.prems(2) [of k i] have "(k, i) \<in> (dep_rel edges)\<^sup>+" by (simp add: o1)
      then show ?thesis using ij by (rule trancl_into_trancl)
    qed (use ij in auto)
  qed
  ultimately have r1: "visit_ok edges visited1 order1"
      "open_names visited1 order1 = insert i (open_names visited order)"
      "set order \<union> set (mget [] edges i) \<subseteq> set order1"
      "set order1 \<subseteq> set order \<union> (dep_rel edges)\<^sup>* `` set (mget [] edges i)"
    using new.IH(1) [OF _ _ r] o1 by auto
  from r1(2) have i1: "i \<notin> set order1" "mget False visited1 i" by (auto simp: open_names_def)
  have i2: "i \<notin> open_names visited order" using new.hyps by (simp add: open_names_def)
  have o2: "open_names visited1 (order1 @ [i]) = open_names visited order"
    using r1(2) i2 by (auto simp: open_names_def)
  have ok: "visit_ok edges visited1 (order1 @ [i])"
    using r1 i1 by (auto simp: visit_ok_def)
  have r2: "visit_all edges is visited1 (order1 @ [i]) = (visited', order')"
    using new.prems(3) new.hyps r by simp
  have "(j, k) \<in> (dep_rel edges)\<^sup>+"
    if "j \<in> open_names visited1 (order1 @ [i])" "k \<in> set is" for k j
    using that new.prems(2) [of j k] by (simp add: o2)
  note r3 = new.IH(2) [OF r ok this r2, unfolded o2]
  let ?R = "(dep_rel edges)\<^sup>*"
  have "?R `` set (mget [] edges i) \<subseteq> ?R `` {i}"
    by (auto intro: converse_rtrancl_into_rtrancl)
  moreover have "i \<in> ?R `` {i}" by simp
  moreover have "set order' \<subseteq> set order1 \<union> {i} \<union> ?R `` set is" using r3 by auto
  ultimately have "set order' \<subseteq> set order \<union> (?R `` {i} \<union> ?R `` set is)"
    using r1(4) by blast
  also have "?R `` {i} \<union> ?R `` set is = ?R `` set (i # is)" by auto
  finally have "set order' \<subseteq> set order \<union> ?R `` set (i # is)" .
  moreover have "set order \<union> set (i # is) \<subseteq> set order'" using r1(3) r3 by auto
  ultimately show ?case using r3 by blast
qed auto

lemma TopologicalSort_eq:
  assumes wf: "dg_wf g" and ks: "range_of (dg_nodes g) ks" "range_of (dg_nodes g) ks'"
  shows "case TopologicalSort ks ks' g of
      Inl e \<Rightarrow> \<not> acyclic (dep_rel (dg_edges g))
    | Inr nodes \<Rightarrow> acyclic (dep_rel (dg_edges g)) \<and>
        (\<exists>order. nodes = map (GetNode g) order \<and> distinct order \<and> topo_ok (dg_edges g) order \<and>
           set order = set (mkeys (dg_nodes g)) \<union> \<Union> (set ` dg_deps g ` set (mkeys (dg_nodes g))))"
proof (cases "HasCycles ks g")
  case True
  with HasCycles_iff [OF wf ks(1)] show ?thesis by (simp add: TopologicalSort_def)
next
  case False
  then have ac: "acyclic (dep_rel (dg_edges g))" using HasCycles_iff [OF wf ks(1)] by simp
  let ?N = "set (mkeys (dg_nodes g))" and ?E = "dep_rel (dg_edges g)"
  obtain visited order where r: "visit_all (dg_edges g) ks' [] [] = (visited, order)" by fastforce
  have v: "visit_ok (dg_edges g) [] []" by (simp add: visit_ok_def)
  have "open_names [] [] = {}" by (simp add: open_names_def)
  with visit_all_ok [OF ac v _ r] have o: "visit_ok (dg_edges g) visited order"
      "set ks' \<subseteq> set order" "set order \<subseteq> ?E\<^sup>* `` set ks'" by auto
  have N: "set ks' = ?N" using ks(2) by (simp add: range_of_def)
  have t: "topo_ok (dg_edges g) order" "distinct order" using o(1) by (auto simp: visit_ok_def)
  have deps: "set (dg_deps g i) \<subseteq> set order" if "i \<in> set order" for i
  proof -
    from that obtain k where "k < length order" "order ! k = i" by (auto simp: in_set_conv_nth)
    with t(1) show ?thesis by (auto simp: topo_ok_def dest: in_set_takeD)
  qed
  have "x \<in> ?N \<or> (\<exists>j \<in> ?N. x \<in> set (dg_deps g j))" if "(i, x) \<in> ?E\<^sup>*" "i \<in> ?N" for i x
    using that
  proof (induction rule: rtrancl_induct)
    case (step y z)
    have "z \<in> set (dg_deps g y)" using step.hyps(2) by simp
    moreover from this have "y \<in> ?N" using dg_wf_edges [OF wf, of y] by fastforce
    ultimately show ?case by blast
  qed simp
  with o deps N have "set order = ?N \<union> \<Union> (set ` dg_deps g ` ?N)" by (auto; blast)
  moreover have "map_of (dg_nodes g) = GetNode g" by (simp add: GetNode_def fun_eq_iff)
  ultimately show ?thesis
    using t r False ac by (auto simp: TopologicalSort_def)
qed

section \<open>Runs\<close>

text \<open>A call that changes the graph, and the graph after any sequence of calls.\<close>

datatype dg_call = CallMarkRunning string | CallComplete string
  | CallFail "string \<Rightarrow> string list" string

fun dg_exec :: "dep_graph \<Rightarrow> dg_call \<Rightarrow> dep_graph" where
  "dg_exec g (CallMarkRunning i) = MarkRunning g i"
| "dg_exec g (CallComplete i) = snd (Complete [] g i)"
| "dg_exec g (CallFail ord i) = dg_Fail ord g i"

definition dg_run :: "ExecutionPlan \<Rightarrow> dg_call list \<Rightarrow> dep_graph" where
  "dg_run plan calls = foldl dg_exec (BuildGraph plan) calls"

lemma dg_exec_static [simp]:
  "dg_nodes (dg_exec g c) = dg_nodes g" "dg_edges (dg_exec g c) = dg_edges g"
  by (cases c; simp add: MarkRunning_def Complete_def Let_def dg_Fail_def skipDependents_def)+

lemma dg_wf_exec [intro]: "dg_wf g \<Longrightarrow> dg_wf (dg_exec g c)"
  by (cases c) auto

lemma dg_run_wf: "dg_wf (dg_run plan calls)"
proof -
  have "dg_wf g \<Longrightarrow> dg_wf (foldl dg_exec g calls)" for g
    by (induction calls arbitrary: g) auto
  then show ?thesis by (simp add: dg_run_def)
qed

lemma dg_run_static [simp]:
  "dg_nodes (dg_run plan calls) = dg_nodes (BuildGraph plan)"
  "dg_edges (dg_run plan calls) = dg_edges (BuildGraph plan)"
proof -
  have "dg_nodes (foldl dg_exec g calls) = dg_nodes g \<and> dg_edges (foldl dg_exec g calls) = dg_edges g" for g
    by (induction calls arbitrary: g) auto
  then show "dg_nodes (dg_run plan calls) = dg_nodes (BuildGraph plan)"
    "dg_edges (dg_run plan calls) = dg_edges (BuildGraph plan)" by (auto simp: dg_run_def)
qed

lemma dg_Fail_status:
  assumes "dg_wf g" "\<And>j. range_of (dg_nodes g) (ord j)"
  shows "dg_Status (dg_Fail ord g i) j =
    (if j = i then ''failed''
     else if (j, i) \<in> {(a, b). a \<noteq> i \<and> skippable (dg_status g) a \<and> b \<in> set (dg_deps g a)}\<^sup>+ then ''skipped''
     else dg_Status g j)"
proof -
  let ?s = "mput i ''failed'' (dg_status g)"
  have o: "\<And>a b. mget [] (dg_edges g) a \<noteq> [] \<Longrightarrow> a \<in> set (ord b)"
    using dg_wf_edges [OF assms(1)] assms(2) by (simp add: range_of_def)
  have r: "skip_rel (dg_edges g) ?s =
      {(a, b). a \<noteq> i \<and> skippable (dg_status g) a \<and> b \<in> set (dg_deps g a)}"
    by (auto simp: skip_rel_def skippable_def split: if_splits)
  have "(i, i) \<notin> (skip_rel (dg_edges g) ?s)\<^sup>+" unfolding r by (auto dest!: tranclD)
  with skip_loop_eq [of "dg_edges g" ord i ?s j, OF o] show ?thesis
    by (simp add: dg_Status_def dg_Fail_def skipDependents_def r)
qed

lemma GetReady_set:
  assumes "range_of (dg_nodes g) ks"
  shows "k \<in> set (GetReady ks g) \<longleftrightarrow> (\<exists>i. GetNode g i = Some k \<and> dg_Status g i = ''pending'' \<and>
    (\<forall>d \<in> set (dg_deps g i). dg_Status g d = ''completed''))"
  using assms
  by (force simp: GetReady_def range_of_def GetNode_def dg_Status_def dg_ready_def
      allDepsCompleted_def list_all_iff set_mkeys)

section \<open>Scheduled runs\<close>

text \<open>
  The calls the orchestrator makes: a subtask is started when it is ready, and reported complete
  or failed after it was started; by then it may have been skipped because another one failed.
\<close>

inductive dg_sched :: "ExecutionPlan \<Rightarrow> dep_graph \<Rightarrow> bool" for plan where
  sched_init: "dg_sched plan (BuildGraph plan)"
| sched_start: "dg_sched plan g \<Longrightarrow> dg_ready g i \<Longrightarrow> GetNode g i = Some k \<Longrightarrow>
    dg_sched plan (MarkRunning g i)"
| sched_complete: "dg_sched plan g \<Longrightarrow> dg_Status g i \<in> {''running'', ''skipped''} \<Longrightarrow>
    dg_sched plan (snd (Complete ks g i))"
| sched_fail: "dg_sched plan g \<Longrightarrow> dg_Status g i \<in> {''running'', ''skipped''} \<Longrightarrow>
    (\<And>j. range_of (dg_nodes g) (ord j)) \<Longrightarrow> dg_sched plan (dg_Fail ord g i)"

inductive_cases dg_sched_cases: "dg_sched plan g"

text \<open>No unfinished subtask depends on a failed or skipped one, and every subtask has one of the
  five statuses.\<close>

definition dg_live :: "dep_graph \<Rightarrow> bool" where
  "dg_live g \<longleftrightarrow> (\<forall>i. dg_Status g i \<in> {''pending'', ''running''} \<longrightarrow>
     (\<forall>d \<in> set (dg_deps g i). dg_Status g d \<notin> {''failed'', ''skipped''}))"

definition dg_statuses :: "string set" where
  "dg_statuses = {''pending'', ''running'', ''completed'', ''failed'', ''skipped''}"

definition dg_known :: "dep_graph \<Rightarrow> bool" where
  "dg_known g \<longleftrightarrow> (\<forall>i. if i \<in> set (mkeys (dg_nodes g))
     then dg_Status g i \<in> dg_statuses else dg_Status g i = '''')"

lemma dg_Status_put [simp]:
  "dg_Status (g\<lparr>dg_status := mput i s (dg_status g)\<rparr>) j = (if j = i then s else dg_Status g j)"
  by (simp add: dg_Status_def)

lemma skippable_Status: "skippable (dg_status g) i \<longleftrightarrow> dg_Status g i \<in> {''pending'', ''running''}"
  by (auto simp: skippable_def dg_Status_def)

lemma snd_Complete: "snd (Complete ks g i) = g\<lparr>dg_status := mput i ''completed'' (dg_status g)\<rparr>"
  by (simp add: Complete_def Let_def)

lemma dg_liveI:
  "(\<And>i d. dg_Status g i \<in> {''pending'', ''running''} \<Longrightarrow> d \<in> set (dg_deps g i) \<Longrightarrow>
      dg_Status g d \<notin> {''failed'', ''skipped''}) \<Longrightarrow> dg_live g"
  by (simp add: dg_live_def)

lemma dg_liveD:
  "dg_live g \<Longrightarrow> dg_Status g i \<in> {''pending'', ''running''} \<Longrightarrow> d \<in> set (dg_deps g i) \<Longrightarrow>
   dg_Status g d \<notin> {''failed'', ''skipped''}"
  unfolding dg_live_def by blast

lemma dg_live_put:
  assumes live: "dg_live g" and s: "s \<notin> {''failed'', ''skipped''}"
    and i: "\<And>d. s \<in> {''pending'', ''running''} \<Longrightarrow> d \<in> set (dg_deps g i) \<Longrightarrow>
              dg_Status g d \<notin> {''failed'', ''skipped''}"
  shows "dg_live (g\<lparr>dg_status := mput i s (dg_status g)\<rparr>)"
proof (rule dg_liveI)
  fix j d
  let ?g = "g\<lparr>dg_status := mput i s (dg_status g)\<rparr>"
  assume j: "dg_Status ?g j \<in> {''pending'', ''running''}" and d: "d \<in> set (dg_deps ?g j)"
  have "dg_Status g d \<notin> {''failed'', ''skipped''}"
  proof (cases "j = i")
    case True with i j d show ?thesis by simp
  next
    case False with dg_liveD [OF live, of j d] j d show ?thesis by simp
  qed
  with s show "dg_Status ?g d \<notin> {''failed'', ''skipped''}" by simp
qed

lemma dg_live_Fail:
  assumes wf: "dg_wf g" and ord: "\<And>j. range_of (dg_nodes g) (ord j)" and live: "dg_live g"
  shows "dg_live (dg_Fail ord g i)"
proof (rule dg_liveI)
  let ?r = "{(a, b). a \<noteq> i \<and> skippable (dg_status g) a \<and> b \<in> set (dg_deps g a)}"
  note st = dg_Fail_status [of g ord i, OF wf ord]
  fix j d
  assume j: "dg_Status (dg_Fail ord g i) j \<in> {''pending'', ''running''}"
    and d': "d \<in> set (dg_deps (dg_Fail ord g i) j)"
  from d' have d: "d \<in> set (dg_deps g j)" by (simp add: dg_Fail_def skipDependents_def)
  from j have sj: "j \<noteq> i" "(j, i) \<notin> ?r\<^sup>+" "dg_Status g j \<in> {''pending'', ''running''}"
    by (auto simp: st split: if_splits)
  with d have "(j, d) \<in> ?r" by (simp add: skippable_Status)
  with sj(2) have "d \<noteq> i" "(d, i) \<notin> ?r\<^sup>+"
    by (auto intro: trancl_into_trancl2)
  with dg_liveD [OF live sj(3) d] show "dg_Status (dg_Fail ord g i) d \<notin> {''failed'', ''skipped''}"
    by (simp add: st)
qed

lemma dg_knownD:
  assumes "dg_known g" "dg_Status g i \<noteq> ''''"
  shows "i \<in> set (mkeys (dg_nodes g))"
  using assms by (auto simp: dg_known_def split: if_splits)

lemma dg_known_put:
  assumes "dg_known g" "i \<in> set (mkeys (dg_nodes g))"
    and "s \<in> dg_statuses"
  shows "dg_known (g\<lparr>dg_status := mput i s (dg_status g)\<rparr>)"
  unfolding dg_known_def
proof
  fix j
  show "if j \<in> set (mkeys (dg_nodes (g\<lparr>dg_status := mput i s (dg_status g)\<rparr>)))
     then dg_Status (g\<lparr>dg_status := mput i s (dg_status g)\<rparr>) j \<in> dg_statuses
     else dg_Status (g\<lparr>dg_status := mput i s (dg_status g)\<rparr>) j = ''''"
    using assms(1) [unfolded dg_known_def, rule_format, of j] assms(2,3) by simp
qed

lemma dg_known_Fail:
  assumes wf: "dg_wf g" and ord: "\<And>j. range_of (dg_nodes g) (ord j)" and known: "dg_known g"
    and i: "dg_Status g i \<noteq> ''''"
  shows "dg_known (dg_Fail ord g i)"
  unfolding dg_known_def
proof
  fix j
  let ?r = "{(a, b). a \<noteq> i \<and> skippable (dg_status g) a \<and> b \<in> set (dg_deps g a)}"
  have n: "dg_nodes (dg_Fail ord g i) = dg_nodes g"
    by (simp add: dg_Fail_def skipDependents_def)
  have "j \<in> set (mkeys (dg_nodes g))" if "(j, i) \<in> ?r\<^sup>+"
    using tranclD [OF that] dg_knownD [OF known] by (auto simp: skippable_Status)
  moreover have "i \<in> set (mkeys (dg_nodes g))" by (rule dg_knownD [OF known i])
  ultimately show "if j \<in> set (mkeys (dg_nodes (dg_Fail ord g i)))
     then dg_Status (dg_Fail ord g i) j \<in> dg_statuses
     else dg_Status (dg_Fail ord g i) j = ''''"
    using known [unfolded dg_known_def, rule_format, of j]
    by (auto simp: n dg_Fail_status [of g ord i, OF wf ord] dg_statuses_def)
qed

lemma sched_inv:
  assumes "dg_sched plan g" and "\<forall>st \<in> set (ep_Subtasks plan). st_Status st \<in> {'''', ''pending''}"
    and "distinct (map st_ID (ep_Subtasks plan))"
  shows "dg_wf g \<and> dg_live g \<and> dg_known g \<and> dg_nodes g = dg_nodes (BuildGraph plan) \<and>
    dg_edges g = dg_edges (BuildGraph plan)"
  using assms(1)
proof (induction rule: dg_sched.induct)
  case sched_init
  have init: "dg_Status (BuildGraph plan) i = ''pending''" if "i \<in> st_ID ` set (ep_Subtasks plan)" for i
  proof -
    from that obtain k where "k < length (ep_Subtasks plan)" "i = st_ID (ep_Subtasks plan ! k)"
      by (auto simp: in_set_conv_nth)
    with BuildGraph_nth(3) [OF assms(3)] assms(2) show ?thesis by auto
  qed
  have other: "dg_Status (BuildGraph plan) i = ''''" if "i \<notin> st_ID ` set (ep_Subtasks plan)" for i
    using fold_add_other(3) [OF that] by (simp add: BuildGraph_def) (simp add: dg_Status_def)
  have "dg_Status (BuildGraph plan) i \<notin> {''failed'', ''skipped''}" for i
    using init [of i] other [of i] by (cases "i \<in> st_ID ` set (ep_Subtasks plan)") simp_all
  then have "dg_live (BuildGraph plan)" by (simp add: dg_live_def)
  moreover have "dg_known (BuildGraph plan)"
    using init other by (simp add: dg_known_def BuildGraph_nodes dg_statuses_def)
  ultimately show ?case by simp
next
  case (sched_start g i k)
  then have "i \<in> set (mkeys (dg_nodes g))" by (intro dg_knownD) (auto simp: dg_ready_def dg_Status_def)
  with sched_start have "dg_known (MarkRunning g i)" by (simp add: dg_known_put MarkRunning_def dg_statuses_def)
  moreover have "dg_live (MarkRunning g i)"
    unfolding MarkRunning_def by (rule dg_live_put) (use sched_start in
      \<open>auto simp: dg_ready_def allDepsCompleted_def list_all_iff dg_Status_def\<close>)
  moreover have "dg_wf (MarkRunning g i)" using sched_start.IH by blast
  ultimately show ?case using sched_start.IH by (simp add: MarkRunning_def)
next
  case (sched_complete g i ks)
  then have "i \<in> set (mkeys (dg_nodes g))" by (intro dg_knownD) auto
  with sched_complete have "dg_known (snd (Complete ks g i))" by (simp add: dg_known_put snd_Complete dg_statuses_def)
  moreover have "dg_live (snd (Complete ks g i))"
    unfolding snd_Complete by (rule dg_live_put) (use sched_complete.IH in auto)
  moreover have "dg_wf (snd (Complete ks g i))" using sched_complete.IH by blast
  ultimately show ?case using sched_complete.IH by (simp add: snd_Complete)
next
  case (sched_fail g i ord)
  then show ?case
    using dg_live_Fail [of g ord i] dg_known_Fail [of g ord i] dg_wf_Fail [of g ord i]
    by (auto simp add: dg_Fail_def skipDependents_def)
qed

text \<open>In an acyclic graph with pending names there is a pending one all of whose pending
  dependencies are absent.\<close>

lemma acyclic_minimal:
  assumes "acyclic (dep_rel edges)" "finite P" "i \<in> P"
  shows "\<exists>m \<in> P. \<forall>d \<in> set (mget [] edges m). d \<notin> P"
proof -
  have "dep_rel edges \<subseteq> Sigma (set (mkeys edges)) (\<lambda>i. set (mget [] edges i))"
    using mget_missing [of _ edges "[]"] by fastforce
  moreover have "finite (Sigma (set (mkeys edges)) (\<lambda>i. set (mget [] edges i)))" by simp
  ultimately have "finite (dep_rel edges)" by (rule finite_subset)
  with assms(1) have "wf ((dep_rel edges)\<inverse>)"
    by (simp add: finite_acyclic_wf_converse)
  from wfE_min [OF this assms(3)] obtain m where
    "m \<in> P" "\<And>y. (y, m) \<in> (dep_rel edges)\<inverse> \<Longrightarrow> y \<notin> P" by blast
  then show ?thesis by (intro bexI [of _ m]) auto
qed

lemma AllCompleted_iff:
  "dg_wf g \<Longrightarrow> AllCompleted g \<longleftrightarrow> (\<forall>i. dg_Status g i \<notin> {''pending'', ''running''})"
proof -
  assume "dg_wf g"
  then have d: "distinct (map fst (dg_status g))" by (simp add: dg_wf_def map_ok_def mkeys_def)
  have "dg_Status g i = s \<longleftrightarrow> (i, s) \<in> set (dg_status g)" if "s \<noteq> ''''" for i s
    using that map_of_eq_Some_iff [OF d, of i s] by (auto simp: dg_Status_def mget_def split: option.splits)
  then show ?thesis by (auto simp: AllCompleted_def list_all_iff)
qed

lemma has_failures_loop_False [simp]: "\<not> has_failures_loop m"
  by (induction m rule: has_failures_loop.induct) auto

section \<open>Properties\<close>

text \<open>A plan for the witnesses: \<open>b\<close> and \<open>c\<close> depend on \<open>a\<close>.\<close>

definition sample_subtask :: "string \<Rightarrow> string list \<Rightarrow> Subtask" where
  "sample_subtask i deps = \<lparr>st_ID = i, st_Name = i, st_Description = '''', st_Prompt = '''',
     st_DependsOn = deps, st_FilesInvolved = [], st_Complexity = '''', st_AgentRole = '''',
     st_Status = ''pending'', st_AgentID = ''''\<rparr>"

definition sample_plan :: ExecutionPlan where
  "sample_plan = \<lparr>ep_PlanID = ''p'', ep_Strategy = ''parallel'',
     ep_Subtasks = [sample_subtask ''a'' [], sample_subtask ''b'' [''a''], sample_subtask ''c'' [''a'']],
     ep_TaskPrompt = '''', ep_Mode = ''sequential'', ep_RepoMemory = ''''\<rparr>"

lemma sample_graph:
  "BuildGraph sample_plan = \<lparr>dg_nodes = [(''a'', 0), (''b'', 1), (''c'', 2)],
     dg_edges = [(''a'', []), (''b'', [''a'']), (''c'', [''a''])],
     dg_status = [(''a'', ''pending''), (''b'', ''pending''), (''c'', ''pending'')]\<rparr>"
  by (simp add: BuildGraph_def sample_plan_def sample_subtask_def add_subtask_def mput_def)

lemma sample_range: "range_of (dg_nodes (BuildGraph sample_plan)) [''b'', ''a'', ''c'']"
  by (auto simp: sample_graph range_of_def)

lemma sample_acyclic: "\<not> HasCycles [''b'', ''a'', ''c''] (BuildGraph sample_plan)"
  by (simp add: HasCycles_def sample_graph dfs_def mget_Cons)

text \<open>C4: In any state of the graph, the subtasks \<open>Complete\<close> reports as unblocked are exactly the
  pending ones all of whose dependencies are the completed subtask or were completed before,
  whatever the order in which the nodes are visited.\<close>

theorem Complete_unblocks:
  assumes "range_of (dg_nodes (dg_run plan calls)) ks"
  shows "let g = dg_run plan calls; (unblocked, g') = Complete ks g i in
     set unblocked = {k. \<exists>j. GetNode g j = Some k \<and> j \<noteq> i \<and> dg_Status g j = ''pending'' \<and>
                          (\<forall>d \<in> set (dg_deps g j). d = i \<or> dg_Status g d = ''completed'')} \<and>
     set unblocked = set (GetReady ks g') \<and>
     (\<forall>j. dg_Status g' j = (if j = i then ''completed'' else dg_Status g j))"
proof -
  let ?g = "dg_run plan calls"
  let ?g' = "?g\<lparr>dg_status := mput i ''completed'' (dg_status ?g)\<rparr>"
  have c: "Complete ks ?g i = (GetReady ks ?g', ?g')"
    by (simp add: Complete_def Let_def GetReady_def)
  have r: "range_of (dg_nodes ?g') ks" using assms by simp
  have "set (GetReady ks ?g') = {k. \<exists>j. GetNode ?g j = Some k \<and> j \<noteq> i \<and> dg_Status ?g j = ''pending'' \<and>
      (\<forall>d \<in> set (dg_deps ?g j). d = i \<or> dg_Status ?g d = ''completed'')}"
  proof -
    have "(GetNode ?g' j = Some k \<and> dg_Status ?g' j = ''pending'' \<and>
        (\<forall>d \<in> set (dg_deps ?g' j). dg_Status ?g' d = ''completed'')) =
      (GetNode ?g j = Some k \<and> j \<noteq> i \<and> dg_Status ?g j = ''pending'' \<and>
        (\<forall>d \<in> set (dg_deps ?g j). d = i \<or> dg_Status ?g d = ''completed''))" for j k
      by (auto simp: GetNode_def)
    then show ?thesis using GetReady_set [OF r] by auto
  qed
  then show ?thesis by (simp add: c Let_def)
qed

theorem Complete_unblocks_witness:
  "set (fst (Complete [''b'', ''a'', ''c''] (BuildGraph sample_plan) ''a'')) = {1, 2}"
proof -
  have r: "range_of (dg_nodes (dg_run sample_plan [])) [''b'', ''a'', ''c'']"
    using sample_range by (simp add: dg_run_def)
  have "set (fst (Complete [''b'', ''a'', ''c''] (BuildGraph sample_plan) ''a'')) =
      {k. \<exists>j. GetNode (BuildGraph sample_plan) j = Some k \<and> j \<noteq> ''a'' \<and>
        dg_Status (BuildGraph sample_plan) j = ''pending'' \<and>
        (\<forall>d \<in> set (dg_deps (BuildGraph sample_plan) j). d = ''a'' \<or> dg_Status (BuildGraph sample_plan) d = ''completed'')}"
    using Complete_unblocks [OF r, of "''a''"] by (simp add: Let_def dg_run_def case_prod_beta)
  also have "\<dots> = {1, 2}"
  proof (intro set_eqI iffI; unfold mem_Collect_eq)
    fix k
    assume "\<exists>j. GetNode (BuildGraph sample_plan) j = Some k \<and> j \<noteq> ''a'' \<and>
        dg_Status (BuildGraph sample_plan) j = ''pending'' \<and>
        (\<forall>d \<in> set (dg_deps (BuildGraph sample_plan) j). d = ''a'' \<or> dg_Status (BuildGraph sample_plan) d = ''completed'')"
    then show "k \<in> {1, 2}" by (auto simp: sample_graph GetNode_def split: if_splits)
  next
    fix k :: nat
    assume "k \<in> {1, 2}"
    then have "k = 1 \<or> k = 2" by simp
    then show "\<exists>j. GetNode (BuildGraph sample_plan) j = Some k \<and> j \<noteq> ''a'' \<and>
        dg_Status (BuildGraph sample_plan) j = ''pending'' \<and>
        (\<forall>d \<in> set (dg_deps (BuildGraph sample_plan) j). d = ''a'' \<or> dg_Status (BuildGraph sample_plan) d = ''completed'')"
      by (intro exI [of _ "if k = 1 then ''b'' else ''c''"])
         (auto simp: sample_graph GetNode_def dg_Status_def mget_Cons)
  qed
  finally show ?thesis .
qed

text \<open>C5: When a subtask fails, the subtasks that become skipped are exactly the pending and running
  ones that depend on it through a chain of pending and running subtasks; all other statuses
  stay, and the result does not depend on the order in which the nodes are visited.\<close>

theorem Fail_skips_downstream:
  assumes "\<And>j. range_of (dg_nodes (dg_run plan calls)) (ord j)"
  shows "let g = dg_run plan calls;
             downstream = {(a, b). a \<noteq> i \<and> dg_Status g a \<in> {''pending'', ''running''} \<and> b \<in> set (dg_deps g a)}\<^sup>+
         in dg_Status (dg_Fail ord g i) j =
           (if j = i then ''failed'' else if (j, i) \<in> downstream then ''skipped'' else dg_Status g j)"
  using dg_Fail_status [of "dg_run plan calls" ord i j, OF dg_run_wf assms]
  by (simp add: Let_def skippable_Status)

theorem Fail_skips_downstream_witness:
  "dg_Status (dg_Fail (\<lambda>_. [''b'', ''a'', ''c'']) (BuildGraph sample_plan) ''a'') ''b'' = ''skipped''"
proof -
  have "(''b'', ''a'') \<in> {(a, b). a \<noteq> ''a'' \<and> dg_Status (BuildGraph sample_plan) a \<in> {''pending'', ''running''}
      \<and> b \<in> set (dg_deps (BuildGraph sample_plan) a)}\<^sup>+"
    by (rule r_into_trancl) (simp add: sample_graph dg_Status_def mget_Cons)
  then show ?thesis
    using Fail_skips_downstream [of sample_plan "[]" "\<lambda>_. [''b'', ''a'', ''c'']" "''a''" "''b''"] sample_range
    by (simp add: dg_run_def Let_def)
qed

text \<open>C6: \<open>HasCycles\<close> decides whether the dependency relation of a plan has a cycle.\<close>

theorem HasCycles_acyclic:
  assumes "range_of (dg_nodes (BuildGraph plan)) ks"
  shows "HasCycles ks (BuildGraph plan) \<longleftrightarrow> \<not> acyclic (dep_rel (dg_edges (BuildGraph plan)))"
  by (rule HasCycles_iff [OF dg_wf_BuildGraph assms])

theorem HasCycles_acyclic_witness: "acyclic (dep_rel (dg_edges (BuildGraph sample_plan)))"
  using HasCycles_acyclic [OF sample_range] sample_acyclic by simp

text \<open>C7: \<open>TopologicalSort\<close> fails exactly on cyclic plans; otherwise it returns the nodes of all
  subtasks and of all names they depend on, once each, every one after its dependencies. A
  dependency that is no subtask of the plan appears as a nil node.\<close>

theorem TopologicalSort_order:
  assumes "range_of (dg_nodes (BuildGraph plan)) ks" "range_of (dg_nodes (BuildGraph plan)) ks'"
  shows "let g = BuildGraph plan; names = st_ID ` set (ep_Subtasks plan) in
    case TopologicalSort ks ks' g of
      Inl e \<Rightarrow> \<not> acyclic (dep_rel (dg_edges g))
    | Inr nodes \<Rightarrow> acyclic (dep_rel (dg_edges g)) \<and>
        (\<exists>order. nodes = map (GetNode g) order \<and> distinct order \<and> topo_ok (dg_edges g) order \<and>
           set order = names \<union> \<Union> (set ` dg_deps g ` names))"
  using TopologicalSort_eq [OF dg_wf_BuildGraph assms] unfolding BuildGraph_nodes Let_def .

theorem TopologicalSort_order_witness:
  "TopologicalSort [''b'', ''a'', ''c''] [''b'', ''a'', ''c''] (BuildGraph sample_plan) = Inr [Some 0, Some 1, Some 2] \<and>
   acyclic (dep_rel (dg_edges (BuildGraph sample_plan)))"
proof -
  have "TopologicalSort [''b'', ''a'', ''c''] [''b'', ''a'', ''c''] (BuildGraph sample_plan) =
      Inr [Some 0, Some 1, Some 2]"
    using sample_acyclic by (simp add: TopologicalSort_def) (simp add: sample_graph mget_Cons)
  then show ?thesis
    using TopologicalSort_order [OF sample_range sample_range] by (simp add: Let_def)
qed

text \<open>C8: No deadlock: for an acyclic plan of pending subtasks with distinct names and known
  dependencies, in every state that starts, completions and failures can lead to, when no
  subtask is running then either \<open>AllCompleted\<close> holds or \<open>GetReady\<close> returns a subtask.\<close>

theorem scheduling_progress:
  assumes "dg_sched plan g"
    and "list_all (\<lambda>st. st_Status st \<in> {'''', ''pending''} \<and>
           set (st_DependsOn st) \<subseteq> st_ID ` set (ep_Subtasks plan)) (ep_Subtasks plan)"
    and "distinct (map st_ID (ep_Subtasks plan))"
    and "\<not> HasCycles ks (BuildGraph plan)" "range_of (dg_nodes (BuildGraph plan)) ks"
    and "list_all (\<lambda>i. dg_Status g i \<noteq> ''running'') ks"
  shows "AllCompleted g \<or> GetReady ks g \<noteq> []"
proof (rule ccontr)
  assume stuck: "\<not> (AllCompleted g \<or> GetReady ks g \<noteq> [])"
  from sched_inv [OF assms(1) _ assms(3)] assms(2)
  have inv: "dg_wf g" "dg_live g" "dg_known g" "dg_nodes g = dg_nodes (BuildGraph plan)"
    "dg_edges g = dg_edges (BuildGraph plan)" by (auto simp: list_all_iff)
  have N: "st_ID ` set (ep_Subtasks plan) = set (mkeys (dg_nodes g))" "set ks = set (mkeys (dg_nodes g))"
    using inv(4) assms(5) by (simp_all add: BuildGraph_nodes range_of_def)
  have ac: "acyclic (dep_rel (dg_edges g))"
    using HasCycles_iff [OF dg_wf_BuildGraph assms(5)] assms(4) inv(5) by simp
  let ?P = "{i. dg_Status g i \<in> {''pending'', ''running''}}"
  have "?P \<subseteq> set (mkeys (dg_nodes g))" using dg_knownD [OF inv(3)] by auto
  then have fin: "finite ?P" by (rule finite_subset) simp
  from stuck obtain i where "i \<in> ?P" using AllCompleted_iff [OF inv(1)] by blast
  from acyclic_minimal [OF ac fin this] obtain m where m: "m \<in> ?P" "\<forall>d \<in> set (dg_deps g m). d \<notin> ?P" by blast
  then have mN: "m \<in> set (mkeys (dg_nodes g))" using dg_knownD [OF inv(3)] by auto
  have "dg_Status g m = ''pending''"
    using m(1) mN assms(6) N(2) by (auto simp: list_all_iff)
  moreover have "dg_Status g d = ''completed''" if d: "d \<in> set (dg_deps g m)" for d
  proof -
    from mN N(1) obtain st where "st \<in> set (ep_Subtasks plan)" "m = st_ID st" by auto
    then obtain k where k: "k < length (ep_Subtasks plan)" "m = st_ID (ep_Subtasks plan ! k)"
      by (auto simp: in_set_conv_nth)
    then have "d \<in> set (st_DependsOn (ep_Subtasks plan ! k))"
      using d BuildGraph_nth(2) [OF assms(3) k(1)] inv(5) by simp
    then have "d \<in> set (mkeys (dg_nodes g))"
      using assms(2) k(1) N(1) by (auto simp: list_all_length)
    then have "dg_Status g d \<in> dg_statuses"
      using inv(3) [unfolded dg_known_def, rule_format, of d] by simp
    moreover have "dg_Status g d \<notin> {''failed'', ''skipped''}"
      using dg_liveD [OF inv(2) _ d] m(1) by blast
    ultimately show ?thesis using m(2) d by (auto simp: dg_statuses_def)
  qed
  moreover obtain k where "GetNode g m = Some k" using mN by (auto simp: GetNode_def set_mkeys)
  ultimately have "k \<in> set (GetReady ks g)"
    using GetReady_set [of g ks k] assms(5) inv(4) by auto
  with stuck show False by auto
qed

theorem scheduling_progress_witness:
  "GetReady [''b'', ''a'', ''c''] (BuildGraph sample_plan) \<noteq> []"
proof -
  have "\<not> AllCompleted (BuildGraph sample_plan)"
    by (simp add: sample_graph AllCompleted_def)
  moreover have "AllCompleted (BuildGraph sample_plan) \<or>
      GetReady [''b'', ''a'', ''c''] (BuildGraph sample_plan) \<noteq> []"
    by (rule scheduling_progress [OF sched_init _ _ sample_acyclic sample_range])
       (simp_all add: sample_graph dg_Status_def mget_Cons, simp_all add: sample_plan_def sample_subtask_def)
  ultimately show ?thesis by simp
qed

text \<open>\<open>AllCompleted\<close> holds exactly when no subtask is pending or running, but \<open>HasFailures\<close> is
  false in every state, also right after \<open>Fail\<close>.\<close>

theorem AllCompleted_HasFailures:
  "(AllCompleted (dg_run plan calls) \<longleftrightarrow>
      (\<forall>i. dg_Status (dg_run plan calls) i \<notin> {''pending'', ''running''})) \<and>
   \<not> HasFailures (dg_Fail ord (dg_run plan calls) i)"
  using AllCompleted_iff [OF dg_run_wf] by (simp add: HasFailures_def)

end
