(* ===== verification/Io_Monad.thy ===== *)
theory Io_Monad
  imports Klaudio_Prelude
begin

text \<open>
  Code with effects is a value of the library's state monad; a Go function that returns
  \<open>(T, error)\<close> is one whose result is \<open>string + T\<close>. This theory has the combinators the
  components use for Go's statements, a Hoare logic for them, and the locale \<open>step_logic\<close>,
  which lifts a reflexive and transitive relation between states through all of them.
\<close>

section \<open>Combinators\<close>

type_synonym ('s, 'a) io = "('s, string + 'a) state"

definition ok :: "'a \<Rightarrow> ('s, 'b + 'a) state" where
  "ok x = State_Monad.return (Inr x)"

definition err :: "'b \<Rightarrow> ('s, 'b + 'a) state" where
  "err e = State_Monad.return (Inl e)"

text \<open>\<open>x, e := m; if e != nil { h(e) } else { k(x) }\<close>\<close>

definition try_bind :: "('s, 'e + 'a) state \<Rightarrow> ('e \<Rightarrow> ('s, 'b) state) \<Rightarrow> ('a \<Rightarrow> ('s, 'b) state) \<Rightarrow>
    ('s, 'b) state" where
  "try_bind m h k = do { r \<leftarrow> m; (case r of Inl e \<Rightarrow> h e | Inr x \<Rightarrow> k x) }"

text \<open>\<open>if e != nil { return fmt.Errorf("msg: %w", e) }\<close>\<close>

definition or_fail :: "string \<Rightarrow> ('s, 'a) io \<Rightarrow> ('a \<Rightarrow> ('s, 'b) io) \<Rightarrow> ('s, 'b) io" where
  "or_fail msg m k = try_bind m (\<lambda>e. err (msg @ '': '' @ e)) k"

text \<open>\<open>_ = m\<close> and \<open>if e != nil { slog.Warn(...) }\<close>: the result is dropped.\<close>

definition ignore :: "('s, 'a) state \<Rightarrow> ('s, unit) state" where
  "ignore m = do { _ \<leftarrow> m; State_Monad.return () }"

definition gets :: "('s \<Rightarrow> 'a) \<Rightarrow> ('s, 'a) state" where
  "gets f = State (\<lambda>s. (f s, s))"

definition modify :: "('s \<Rightarrow> 's) \<Rightarrow> ('s, unit) state" where
  "modify f = State (\<lambda>s. ((), f s))"

definition when_do :: "bool \<Rightarrow> ('s, unit) state \<Rightarrow> ('s, unit) state" where
  "when_do b m = (if b then m else State_Monad.return ())"

fun for_each :: "'a list \<Rightarrow> ('a \<Rightarrow> ('s, unit) state) \<Rightarrow> ('s, unit) state" where
  "for_each [] f = State_Monad.return ()"
| "for_each (x # xs) f = do { _ \<leftarrow> f x; for_each xs f }"

named_theorems io_run \<open>running the combinators\<close>

lemma run_ok [simp, io_run]: "run_state (ok x) s = (Inr x, s)"
  by (simp add: ok_def)

lemma run_err [simp, io_run]: "run_state (err e) s = (Inl e, s)"
  by (simp add: err_def)

lemma run_try_bind [simp, io_run]:
  "run_state (try_bind m h k) s =
     (case run_state m s of (Inl e, s') \<Rightarrow> run_state (h e) s' | (Inr x, s') \<Rightarrow> run_state (k x) s')"
  by (simp add: try_bind_def split: prod.splits sum.splits)

lemma run_or_fail [simp, io_run]:
  "run_state (or_fail msg m k) s =
     (case run_state m s of (Inl e, s') \<Rightarrow> (Inl (msg @ '': '' @ e), s') | (Inr x, s') \<Rightarrow> run_state (k x) s')"
  by (simp add: or_fail_def split: prod.splits sum.splits)

lemma run_ignore [simp, io_run]: "run_state (ignore m) s = ((), snd (run_state m s))"
  by (simp add: ignore_def split: prod.splits)

lemma run_gets [simp, io_run]: "run_state (gets f) s = (f s, s)"
  by (simp add: gets_def)

lemma run_modify [simp, io_run]: "run_state (modify f) s = ((), f s)"
  by (simp add: modify_def)

section \<open>Hoare logic\<close>

definition hoare :: "('s \<Rightarrow> bool) \<Rightarrow> ('s, 'a) state \<Rightarrow> ('a \<Rightarrow> 's \<Rightarrow> bool) \<Rightarrow> bool" where
  "hoare P m Q \<longleftrightarrow> (\<forall>s. P s \<longrightarrow> Q (fst (run_state m s)) (snd (run_state m s)))"

lemma hoareI: "(\<And>s. P s \<Longrightarrow> Q (fst (run_state m s)) (snd (run_state m s))) \<Longrightarrow> hoare P m Q"
  by (simp add: hoare_def)

lemma hoareD: "hoare P m Q \<Longrightarrow> P s \<Longrightarrow> Q (fst (run_state m s)) (snd (run_state m s))"
  by (simp add: hoare_def)

lemma hoareE: "hoare P m Q \<Longrightarrow> P s \<Longrightarrow> run_state m s = (r, s') \<Longrightarrow> Q r s'"
  by (force simp: hoare_def)

lemma hoare_weaken: "hoare P' m Q' \<Longrightarrow> (\<And>s. P s \<Longrightarrow> P' s) \<Longrightarrow> (\<And>x s. Q' x s \<Longrightarrow> Q x s) \<Longrightarrow> hoare P m Q"
  by (simp add: hoare_def)

lemma hoare_return: "hoare (Q x) (State_Monad.return x) Q"
  by (simp add: hoare_def)

lemma hoare_bind:
  assumes "hoare P m Q" and "\<And>x. hoare (Q x) (f x) R"
  shows "hoare P (m \<bind> f) R"
  using assms by (simp add: hoare_def case_prod_beta)

lemma hoare_try_bind:
  assumes "hoare P m Q" and "\<And>e. hoare (Q (Inl e)) (h e) R" and "\<And>x. hoare (Q (Inr x)) (k x) R"
  shows "hoare P (try_bind m h k) R"
  unfolding try_bind_def by (rule hoare_bind [OF assms(1)]) (use assms(2,3) in \<open>simp split: sum.split\<close>)

lemma hoare_conj: "hoare P m Q \<Longrightarrow> hoare P m Q' \<Longrightarrow> hoare P m (\<lambda>x s. Q x s \<and> Q' x s)"
  by (simp add: hoare_def)

section \<open>Relations that every step keeps\<close>

text \<open>\<open>steps m\<close>: every run of \<open>m\<close> ends in a state related to the one it started in.\<close>

locale step_logic =
  fixes R :: "'s \<Rightarrow> 's \<Rightarrow> bool"
  assumes R_refl [simp]: "R s s"
    and R_trans: "R s t \<Longrightarrow> R t u \<Longrightarrow> R s u"
begin

definition steps :: "('s, 'a) state \<Rightarrow> bool" where
  "steps m \<longleftrightarrow> (\<forall>s. R s (snd (run_state m s)))"

lemma stepsI: "(\<And>s. R s (snd (run_state m s))) \<Longrightarrow> steps m"
  by (simp add: steps_def)

lemma stepsD: "steps m \<Longrightarrow> R s (snd (run_state m s))"
  by (simp add: steps_def)

lemma stepsE: "steps m \<Longrightarrow> run_state m s = (x, s') \<Longrightarrow> R s s'"
  by (metis steps_def snd_conv)

lemma steps_return [intro]: "steps (State_Monad.return x)"
  by (simp add: steps_def)

lemma steps_ok [intro]: "steps (ok x)"
  by (simp add: steps_def)

lemma steps_err [intro]: "steps (err x)"
  by (simp add: steps_def)

lemma steps_gets [intro]: "steps (gets f)"
  by (simp add: steps_def)

lemma steps_modify: "(\<And>s. R s (f s)) \<Longrightarrow> steps (modify f)"
  by (simp add: steps_def)

lemma steps_bind [intro]:
  assumes "steps m" and "\<And>x. steps (f x)"
  shows "steps (m \<bind> f)"
proof (rule stepsI)
  fix s
  obtain x t where r: "run_state m s = (x, t)" by fastforce
  from stepsE [OF assms(1) r] stepsD [OF assms(2)] show "R s (snd (run_state (m \<bind> f) s))"
    by (auto simp: r intro: R_trans)
qed

lemma steps_try_bind [intro]:
  assumes "steps m" and "\<And>e. steps (h e)" and "\<And>x. steps (k x)"
  shows "steps (try_bind m h k)"
  unfolding try_bind_def by (intro steps_bind assms(1)) (auto split: sum.split intro: assms(2,3))

lemma steps_or_fail [intro]: "steps m \<Longrightarrow> (\<And>x. steps (k x)) \<Longrightarrow> steps (or_fail msg m k)"
  unfolding or_fail_def by auto

lemma steps_ignore [intro]: "steps m \<Longrightarrow> steps (ignore m)"
  unfolding ignore_def by auto

lemma steps_when [intro]: "(b \<Longrightarrow> steps m) \<Longrightarrow> steps (when_do b m)"
  unfolding when_do_def by auto

lemma steps_for_each [intro]: "(\<And>x. steps (f x)) \<Longrightarrow> steps (for_each xs f)"
  by (induction xs) auto

lemma steps_if [intro]: "(b \<Longrightarrow> steps m) \<Longrightarrow> (\<not> b \<Longrightarrow> steps n) \<Longrightarrow> steps (if b then m else n)"
  by simp

lemma steps_option [intro]:
  "(x = None \<Longrightarrow> steps m) \<Longrightarrow> (\<And>y. x = Some y \<Longrightarrow> steps (f y)) \<Longrightarrow> steps (case x of None \<Rightarrow> m | Some y \<Rightarrow> f y)"
  by (simp split: option.split)

lemma steps_sum [intro]:
  "(\<And>y. x = Inl y \<Longrightarrow> steps (f y)) \<Longrightarrow> (\<And>y. x = Inr y \<Longrightarrow> steps (g y)) \<Longrightarrow>
   steps (case x of Inl y \<Rightarrow> f y | Inr y \<Rightarrow> g y)"
  by (simp split: sum.split)

lemma steps_prod [intro]: "(\<And>a b. x = (a, b) \<Longrightarrow> steps (f a b)) \<Longrightarrow> steps (case x of (a, b) \<Rightarrow> f a b)"
  by (simp split: prod.split)

lemma steps_let [intro]: "(\<And>x. x = t \<Longrightarrow> steps (f x)) \<Longrightarrow> steps (let x = t in f x)"
  by (simp add: Let_def)

lemmas steps_intros = steps_return steps_ok steps_err steps_gets steps_bind steps_try_bind
  steps_or_fail steps_ignore steps_when steps_for_each steps_if steps_option steps_sum steps_prod
  steps_let

end

end
