(* ===== verification/Go_Strings.thy ===== *)
theory Go_Strings
  imports Klaudio_Prelude
begin

text \<open>
  What the code uses of the packages \<open>strings\<close> and \<open>strconv\<close>, on byte lists: decimal
  conversion, \<open>Index\<close>, \<open>Contains\<close>, \<open>HasPrefix\<close>, \<open>Split\<close>, \<open>Join\<close>, \<open>TrimSpace\<close>, and
  the lemmas about them.
\<close>

section \<open>Decimal conversion\<close>

definition digit :: "nat \<Rightarrow> char" where
  "digit n = char_of (48 + n)"

fun nat_digits :: "nat \<Rightarrow> string" where
  "nat_digits n = (if n < 10 then [digit n] else nat_digits (n div 10) @ [digit (n mod 10)])"

declare nat_digits.simps [simp del]

definition itoa :: "int \<Rightarrow> string" where
  "itoa n = (if n < 0 then ''-'' @ nat_digits (nat (- n)) else nat_digits (nat n))"

definition digit_value :: "char \<Rightarrow> nat option" where
  "digit_value c = (let n = of_char c :: nat in if 48 \<le> n \<and> n \<le> 57 then Some (n - 48) else None)"

fun parse_digits :: "nat \<Rightarrow> string \<Rightarrow> nat option" where
  "parse_digits acc [] = Some acc"
| "parse_digits acc (c # cs) =
     (case digit_value c of None \<Rightarrow> None | Some d \<Rightarrow> parse_digits (10 * acc + d) cs)"

lemma digit_value_digit [simp]: "d < 10 \<Longrightarrow> digit_value (digit d) = Some d"
  by (simp add: digit_value_def digit_def)

lemma parse_digits_append:
  "parse_digits acc (xs @ ys) = (case parse_digits acc xs of None \<Rightarrow> None | Some a \<Rightarrow> parse_digits a ys)"
  by (induction acc xs rule: parse_digits.induct) (auto split: option.splits)

lemma parse_nat_digits: "parse_digits 0 (nat_digits n) = Some n"
proof (induction n rule: nat_digits.induct)
  case (1 n)
  show ?case
  proof (cases "n < 10")
    case True then show ?thesis by (simp add: nat_digits.simps [of n])
  next
    case False
    then have "nat_digits n = nat_digits (n div 10) @ [digit (n mod 10)]"
      by (simp add: nat_digits.simps [of n])
    with 1 [OF False] show ?thesis by (simp add: parse_digits_append)
  qed
qed

lemma nat_digits_inj: "nat_digits m = nat_digits n \<longleftrightarrow> m = n"
  by (metis parse_nat_digits option.inject)

lemma nat_digits_nonempty [simp]: "nat_digits n \<noteq> []"
  by (subst nat_digits.simps) simp

section \<open>Searching\<close>

fun HasPrefix :: "string \<Rightarrow> string \<Rightarrow> bool" where
  "HasPrefix s [] = True"
| "HasPrefix [] (p # ps) = False"
| "HasPrefix (c # s) (p # ps) = (c = p \<and> HasPrefix s ps)"

lemma HasPrefix_iff: "HasPrefix s p \<longleftrightarrow> (\<exists>r. s = p @ r)"
  by (induction s p rule: HasPrefix.induct) auto

lemma HasPrefix_append [simp]: "HasPrefix (p @ s) p"
  by (auto simp: HasPrefix_iff)

definition HasSuffix :: "string \<Rightarrow> string \<Rightarrow> bool" where
  "HasSuffix s p = HasPrefix (rev s) (rev p)"

text \<open>The index of the first occurrence; the code's -1 is \<open>None\<close>.\<close>

fun Index :: "string \<Rightarrow> string \<Rightarrow> nat option" where
  "Index [] sub = (if sub = [] then Some 0 else None)"
| "Index (c # s) sub = (if HasPrefix (c # s) sub then Some 0 else map_option Suc (Index s sub))"

definition Contains :: "string \<Rightarrow> string \<Rightarrow> bool" where
  "Contains s sub = (Index s sub \<noteq> None)"

lemma Index_Some:
  "Index s sub = Some k \<Longrightarrow> s = take k s @ sub @ drop (k + length sub) s"
proof (induction s sub arbitrary: k rule: Index.induct)
  case (2 c s sub)
  show ?case
  proof (cases "HasPrefix (c # s) sub")
    case True
    with 2(2) show ?thesis by (auto simp: HasPrefix_iff)
  next
    case False
    with 2(2) obtain j where j: "Index s sub = Some j" "k = Suc j" by auto
    from 2(1) [OF False j(1)] j(2) show ?thesis by simp
  qed
qed (auto split: if_splits)

lemma Index_None: "Index s sub = None \<Longrightarrow> s \<noteq> a @ sub @ b"
proof (induction s sub arbitrary: a rule: Index.induct)
  case (2 c s sub)
  then have n: "\<not> HasPrefix (c # s) sub" "Index s sub = None" by (auto split: if_splits)
  show ?case
  proof
    assume eq: "c # s = a @ sub @ b"
    show False
    proof (cases a)
      case Nil
      with eq n(1) show False by (auto simp: HasPrefix_iff)
    next
      case (Cons x a')
      with eq 2(1) [OF n] show False by auto
    qed
  qed
qed (auto split: if_splits)

lemma Contains_iff: "Contains s sub \<longleftrightarrow> (\<exists>a b. s = a @ sub @ b)"
  unfolding Contains_def using Index_Some [of s sub] Index_None [of s sub] by (cases "Index s sub") fastforce+

section \<open>Splitting and joining\<close>

text \<open>\<open>Split\<close> at a single byte.\<close>

fun Split :: "char \<Rightarrow> string \<Rightarrow> string list" where
  "Split sep [] = [[]]"
| "Split sep (c # s) =
     (if c = sep then [] # Split sep s
      else case Split sep s of [] \<Rightarrow> [[c]] | p # ps \<Rightarrow> (c # p) # ps)"

fun Join :: "string list \<Rightarrow> string \<Rightarrow> string" where
  "Join [] sep = []"
| "Join [x] sep = x"
| "Join (x # y # xs) sep = x @ sep @ Join (y # xs) sep"

lemma Split_nonempty [simp]: "Split sep s \<noteq> []"
  by (induction s) (auto split: list.splits)

lemma Split_none: "c \<notin> set s \<Longrightarrow> Split c s = [s]"
  by (induction s) auto

lemma Join_Split: "Join (Split sep s) [sep] = s"
proof (induction s)
  case (Cons c s)
  obtain p ps where "Split sep s = p # ps" by (cases "Split sep s") auto
  with Cons show ?case by (cases ps) auto
qed simp

section \<open>Trimming\<close>

text \<open>The byte sequences of the runes \<open>unicode.IsSpace\<close> accepts.\<close>

definition go_spaces :: "string list" where
  "go_spaces =
     [[CHR 0x20], [CHR 0x09], [CHR 0x0A], [CHR 0x0B], [CHR 0x0C], [CHR 0x0D],
      [CHR 0xC2, CHR 0x85], [CHR 0xC2, CHR 0xA0], [CHR 0xE1, CHR 0x9A, CHR 0x80],
      [CHR 0xE2, CHR 0x80, CHR 0x80], [CHR 0xE2, CHR 0x80, CHR 0x81], [CHR 0xE2, CHR 0x80, CHR 0x82],
      [CHR 0xE2, CHR 0x80, CHR 0x83], [CHR 0xE2, CHR 0x80, CHR 0x84], [CHR 0xE2, CHR 0x80, CHR 0x85],
      [CHR 0xE2, CHR 0x80, CHR 0x86], [CHR 0xE2, CHR 0x80, CHR 0x87], [CHR 0xE2, CHR 0x80, CHR 0x88],
      [CHR 0xE2, CHR 0x80, CHR 0x89], [CHR 0xE2, CHR 0x80, CHR 0x8A], [CHR 0xE2, CHR 0x80, CHR 0xA8],
      [CHR 0xE2, CHR 0x80, CHR 0xA9], [CHR 0xE2, CHR 0x80, CHR 0xAF], [CHR 0xE2, CHR 0x81, CHR 0x9F],
      [CHR 0xE3, CHR 0x80, CHR 0x80]]"

text \<open>\<open>drop_spaces sps s\<close> drops the longest run of the sequences \<open>sps\<close> from the front.\<close>

definition lead_space :: "string list \<Rightarrow> string \<Rightarrow> nat" where
  "lead_space sps s = (case find (HasPrefix s) sps of None \<Rightarrow> 0 | Some p \<Rightarrow> length p)"

function drop_spaces :: "string list \<Rightarrow> string \<Rightarrow> string" where
  "drop_spaces sps s =
     (if lead_space sps s = 0 \<or> s = [] then s else drop_spaces sps (drop (lead_space sps s) s))"
  by pat_completeness auto

termination drop_spaces
  by (relation "measure (\<lambda>(sps, s). length s)") auto

declare drop_spaces.simps [simp del]

definition TrimSpace :: "string \<Rightarrow> string" where
  "TrimSpace s = rev (drop_spaces (map rev go_spaces) (rev (drop_spaces go_spaces s)))"

lemma drop_spaces_suffix: "\<exists>p. s = p @ drop_spaces sps s"
proof (induction sps s rule: drop_spaces.induct)
  case (1 sps s)
  show ?case
  proof (cases "lead_space sps s = 0 \<or> s = []")
    case True
    then show ?thesis by (subst drop_spaces.simps) auto
  next
    case False
    from 1 [OF False] obtain p where "drop (lead_space sps s) s = p @ drop_spaces sps (drop (lead_space sps s) s)"
      by blast
    then have "s = (take (lead_space sps s) s @ p) @ drop_spaces sps (drop (lead_space sps s) s)"
      by (metis append.assoc append_take_drop_id)
    moreover have "drop_spaces sps s = drop_spaces sps (drop (lead_space sps s) s)"
      using False drop_spaces.simps [of sps s] by simp
    ultimately show ?thesis by metis
  qed
qed

lemma drop_spaces_lead: "lead_space sps (drop_spaces sps s) = 0 \<or> drop_spaces sps s = []"
proof (induction sps s rule: drop_spaces.induct)
  case (1 sps s)
  show ?case
  proof (cases "lead_space sps s = 0 \<or> s = []")
    case True
    then show ?thesis using drop_spaces.simps [of sps s] by auto
  next
    case False
    with 1 show ?thesis using drop_spaces.simps [of sps s] by simp
  qed
qed

end
