(* ===== verification/Db_Store.thy ===== *)
theory Db_Store
  imports Db_Models Io_Monad Go_Strings
begin

text \<open>
  The database behind \<open>internal/db\<close>: the tables of \<open>migrations/*.sql\<close> with their keys and
  foreign keys, the effect of the kinds of statements the code issues, and the state the
  statements run in.

  A table is the list of its rows in insertion order. A statement fails with the driver's message
  when it violates a key, or when the driver reports an error of its own, which the field
  \<open>w_fault\<close> decides for each statement; a failed statement changes nothing. Whether foreign
  keys are enforced depends on the connection: \<open>fk_on\<close>.
\<close>

section \<open>Tables\<close>

record store =
  tb_tasks :: "Task list"
  tb_plans :: "Plan list"
  tb_agents :: "Agent list"
  tb_events :: "Event list"
  tb_task_files :: "TaskFile list"
  tb_repo_templates :: "RepoTemplate list"
  tb_checkpoints :: "Checkpoint list"
  tb_planner_questions :: "PlannerQuestion list"
  tb_team_templates :: "TeamTemplate list"
  tb_agent_messages :: "AgentMessage list"
  tb_repo_memories :: "RepoMemory list"
  seq_events :: int \<comment> \<open>largest id given out so far\<close>
  seq_agent_messages :: int
  fk_on :: bool

definition has_task :: "store \<Rightarrow> string \<Rightarrow> bool" where
  "has_task s i \<longleftrightarrow> list_ex (\<lambda>t. task_ID t = i) (tb_tasks s)"

definition fk_task :: "store \<Rightarrow> string \<Rightarrow> bool" where
  "fk_task s i \<longleftrightarrow> (fk_on s \<longrightarrow> has_task s i)"

definition fk_agent :: "store \<Rightarrow> string option \<Rightarrow> bool" where
  "fk_agent s a \<longleftrightarrow> (case a of None \<Rightarrow> True
     | Some i \<Rightarrow> fk_on s \<longrightarrow> list_ex (\<lambda>r. agent_ID r = i) (tb_agents s))"

definition fk_repo_template :: "store \<Rightarrow> string \<Rightarrow> bool" where
  "fk_repo_template s i \<longleftrightarrow> (fk_on s \<longrightarrow> list_ex (\<lambda>t. rt_ID t = i) (tb_repo_templates s))"

definition fk_failed :: string where
  "fk_failed = ''FOREIGN KEY constraint failed''"

text \<open>\<open>INSERT\<close>: the key must be new and the references must exist.\<close>

definition insert_row :: "string \<Rightarrow> ('r \<Rightarrow> 'k) \<Rightarrow> bool \<Rightarrow> 'r \<Rightarrow> 'r list \<Rightarrow> string + 'r list" where
  "insert_row column key fk r rows =
     (if list_ex (\<lambda>q. key q = key r) rows then Inl (''UNIQUE constraint failed: '' @ column)
      else if \<not> fk then Inl fk_failed
      else Inr (rows @ [r]))"

text \<open>\<open>UPDATE ... WHERE\<close>, with the number of affected rows.\<close>

definition update_rows :: "('r \<Rightarrow> bool) \<Rightarrow> ('r \<Rightarrow> 'r) \<Rightarrow> 'r list \<Rightarrow> nat \<times> 'r list" where
  "update_rows P f rows = (length (filter P rows), map (\<lambda>r. if P r then f r else r) rows)"

text \<open>\<open>DELETE FROM ... WHERE\<close>.\<close>

definition delete_rows :: "('r \<Rightarrow> bool) \<Rightarrow> 'r list \<Rightarrow> nat \<times> 'r list" where
  "delete_rows P rows = (length (filter P rows), filter (\<lambda>r. \<not> P r) rows)"

text \<open>\<open>ORDER BY\<close>; rows with equal keys keep the order of insertion.\<close>

definition order_by :: "('r \<Rightarrow> 'k :: linorder) \<Rightarrow> 'r list \<Rightarrow> 'r list" where
  "order_by key rows = sort_key key rows"

definition order_desc :: "('r \<Rightarrow> int) \<Rightarrow> 'r list \<Rightarrow> 'r list" where
  "order_desc key rows = sort_key (\<lambda>r. - key r) rows"

text \<open>\<open>LIMIT n OFFSET k\<close>; a negative offset counts as 0.\<close>

definition limit_offset :: "int \<Rightarrow> int \<Rightarrow> 'r list \<Rightarrow> 'r list" where
  "limit_offset n k rows = take (nat n) (drop (nat k) rows)"

definition first_row :: "'r list \<Rightarrow> 'r option" where
  "first_row rows = (case rows of [] \<Rightarrow> None | r # _ \<Rightarrow> Some r)"

section \<open>Deleting a task\<close>

text \<open>
  \<open>DELETE FROM tasks\<close>: with foreign keys on, the rows that refer to the task go with it, and the
  statement fails when an event of another task refers to one of its agents.
\<close>

definition cascade_task :: "string \<Rightarrow> store \<Rightarrow> store" where
  "cascade_task i s = s\<lparr>
     tb_plans := snd (delete_rows (\<lambda>r. plan_TaskID r = i) (tb_plans s)),
     tb_agents := snd (delete_rows (\<lambda>r. agent_TaskID r = i) (tb_agents s)),
     tb_events := snd (delete_rows (\<lambda>r. event_TaskID r = i) (tb_events s)),
     tb_task_files := snd (delete_rows (\<lambda>r. tf_TaskID r = i) (tb_task_files s)),
     tb_checkpoints := snd (delete_rows (\<lambda>r. cp_TaskID r = i) (tb_checkpoints s)),
     tb_planner_questions := snd (delete_rows (\<lambda>r. pq_TaskID r = i) (tb_planner_questions s)),
     tb_agent_messages := snd (delete_rows (\<lambda>r. am_TaskID r = i) (tb_agent_messages s))\<rparr>"

definition delete_task :: "string \<Rightarrow> store \<Rightarrow> string + nat \<times> store" where
  "delete_task i s =
     (let (n, tasks) = delete_rows (\<lambda>t. task_ID t = i) (tb_tasks s);
          s' = s\<lparr>tb_tasks := tasks\<rparr>
      in if fk_on s \<and> n \<noteq> 0
         then let c = cascade_task i s'
              in if list_all (\<lambda>e. fk_agent c (event_AgentID e)) (tb_events c) then Inr (n, c)
                 else Inl fk_failed
         else Inr (n, s'))"

definition delete_repo_template :: "string \<Rightarrow> store \<Rightarrow> string + nat \<times> store" where
  "delete_repo_template i s =
     (let (n, ts) = delete_rows (\<lambda>t. rt_ID t = i) (tb_repo_templates s);
          s' = s\<lparr>tb_repo_templates := ts\<rparr>
      in Inr (n, if fk_on s
                 then s'\<lparr>tb_repo_memories :=
                        snd (delete_rows (\<lambda>m. rm_RepoTemplateID m = i) (tb_repo_memories s'))\<rparr>
                 else s'))"

section \<open>Statements\<close>

text \<open>
  The state statements run in. Every statement and every reading of the clock is one tick;
  \<open>w_clock\<close> gives the time and \<open>w_fault\<close> the driver's own error at a tick. Components that
  need more state extend the record.
\<close>

record sql_world =
  w_store :: store
  w_tick :: nat
  w_clock :: "nat \<Rightarrow> time"
  w_fault :: "nat \<Rightarrow> string option"

definition tick :: "'m sql_world_scheme \<Rightarrow> 'm sql_world_scheme" where
  "tick w = w\<lparr>w_tick := Suc (w_tick w)\<rparr>"

definition time_now :: "('m sql_world_scheme, time) state" where
  "time_now = State (\<lambda>w. (w_clock w (w_tick w), tick w))"

definition exec :: "(time \<Rightarrow> store \<Rightarrow> string + 'a \<times> store) \<Rightarrow> ('m sql_world_scheme, 'a) io" where
  "exec f = State (\<lambda>w.
     case w_fault w (w_tick w) of
       Some e \<Rightarrow> (Inl e, tick w)
     | None \<Rightarrow>
         (case f (w_clock w (w_tick w)) (w_store w) of
            Inl e \<Rightarrow> (Inl e, tick w)
          | Inr (x, s) \<Rightarrow> (Inr x, (tick w)\<lparr>w_store := s\<rparr>)))"

definition query :: "(store \<Rightarrow> 'a) \<Rightarrow> ('m sql_world_scheme, 'a) io" where
  "query f = exec (\<lambda>now s. Inr (f s, s))"

text \<open>\<open>CURRENT_TIMESTAMP\<close> has no fraction of a second.\<close>

definition current_timestamp :: "time \<Rightarrow> time" where
  "current_timestamp now = (now div 1000000000) * 1000000000"

lemma run_query [simp]:
  "run_state (query f) w =
     (case w_fault w (w_tick w) of Some e \<Rightarrow> (Inl e, tick w) | None \<Rightarrow> (Inr (f (w_store w)), tick w))"
  by (simp add: query_def exec_def tick_def split: option.split)

lemma tick_store [simp]:
  "w_store (tick w) = w_store w" "w_clock (tick w) = w_clock w" "w_fault (tick w) = w_fault w"
  "w_tick (tick w) = Suc (w_tick w)"
  by (simp_all add: tick_def)

lemma snd_query [simp]: "snd (run_state (query f) w) = tick w"
  by (simp split: option.split)

lemma run_time_now [simp]: "run_state time_now w = (w_clock w (w_tick w), tick w)"
  by (simp add: time_now_def)

section \<open>Lemmas on rows\<close>

lemma insert_row_Inr:
  "insert_row c key fk r rows = Inr rows' \<longleftrightarrow>
     rows' = rows @ [r] \<and> fk \<and> key r \<notin> key ` set rows"
  by (auto simp: insert_row_def list_ex_iff) (metis imageI)

lemma insert_row_distinct:
  "insert_row c key fk r rows = Inr rows' \<Longrightarrow> distinct (map key rows) \<Longrightarrow> distinct (map key rows')"
  by (auto simp: insert_row_Inr)

lemma map_update_rows: "(\<And>r. key (f r) = key r) \<Longrightarrow> map key (snd (update_rows P f rows)) = map key rows"
  by (induction rows) (auto simp: update_rows_def)

lemma set_update_rows:
  "set (snd (update_rows P f rows)) = (\<lambda>r. if P r then f r else r) ` set rows"
  by (simp add: update_rows_def)

lemma distinct_delete_rows: "distinct (map key rows) \<Longrightarrow> distinct (map key (snd (delete_rows P rows)))"
  by (simp add: delete_rows_def distinct_map_filter)

lemma set_delete_rows: "set (snd (delete_rows P rows)) = {r \<in> set rows. \<not> P r}"
  by (auto simp: delete_rows_def)

lemma fst_update_rows: "fst (update_rows P f rows) = length (filter P rows)"
  by (simp add: update_rows_def)

lemma fst_delete_rows: "fst (delete_rows P rows) = length (filter P rows)"
  by (simp add: delete_rows_def)

lemma find_distinct_key:
  assumes "distinct (map key rows)" "r \<in> set rows"
  shows "find (\<lambda>q. key q = key r) rows = Some r"
  using assms by (induction rows) force+

lemma set_order_by [simp]: "set (order_by key rows) = set rows"
  by (simp add: order_by_def)

lemma set_order_desc [simp]: "set (order_desc key rows) = set rows"
  by (simp add: order_desc_def)

lemma sorted_order_by: "sorted (map key (order_by key rows))"
  by (simp add: order_by_def)

end
