(* ===== verification/Db_Queries.thy ===== *)
theory Db_Queries
  imports Db_Store "HOL-Library.Char_ord" "HOL-Library.List_Lexorder"
begin

text \<open>
  The methods of \<open>internal/db/queries.go\<close>, one definition each. A method is an \<open>io\<close> of the
  state of \<open>Db_Store\<close>: a statement, its error wrapped the way the method wraps it, and the
  value scanned from the rows. \<open>sql.ErrNoRows\<close> is \<open>Inr None\<close>.
\<close>

type_synonym ('m, 'a) db = "('m sql_world_scheme, 'a) io"

section \<open>Tasks\<close>

definition CreateTask :: "Task \<Rightarrow> ('m, unit) db" where
  "CreateTask task = or_fail ''inserting task''
     (exec (\<lambda>now s.
        case insert_row ''tasks.id'' task_ID True
               (task\<lparr>task_Error := None, task_StartedAt := None, task_PausedAt := None,
                     task_CompletedAt := None\<rparr>) (tb_tasks s) of
          Inl e \<Rightarrow> Inl e
        | Inr rows \<Rightarrow> Inr ((), s\<lparr>tb_tasks := rows\<rparr>)))
     ok"

definition GetTask :: "string \<Rightarrow> ('m, Task option) db" where
  "GetTask i = or_fail (''querying task '' @ i)
     (query (\<lambda>s. find (\<lambda>t. task_ID t = i) (tb_tasks s))) ok"

definition ListTasks :: "int \<Rightarrow> int \<Rightarrow> ('m, Task list) db" where
  "ListTasks limit offset =
     (let limit = (if limit \<le> 0 then 50 else limit) in
      or_fail ''listing tasks''
        (query (\<lambda>s. limit_offset limit offset (order_desc task_CreatedAt (tb_tasks s)))) ok)"

text \<open>\<open>UPDATE tasks SET ... WHERE id = ?\<close>\<close>

definition update_task :: "string \<Rightarrow> (time \<Rightarrow> Task \<Rightarrow> Task) \<Rightarrow> ('m, nat) db" where
  "update_task i f = exec (\<lambda>now s.
     let (n, rows) = update_rows (\<lambda>t. task_ID t = i) (f now) (tb_tasks s)
     in Inr (n, s\<lparr>tb_tasks := rows\<rparr>))"

definition UpdateTaskStatus :: "string \<Rightarrow> TaskStatus \<Rightarrow> ('m, unit) db" where
  "UpdateTaskStatus i status = do {
     now \<leftarrow> time_now;
     or_fail (''updating task '' @ i @ '' status to '' @ status_str status)
       (update_task i (\<lambda>_ t. t\<lparr>task_Status := status, task_UpdatedAt := now\<rparr>))
       (\<lambda>rows. if rows = 0 then err (''task '' @ i @ '' not found'') else ok ())
   }"

definition UpdateTaskStarted :: "string \<Rightarrow> ('m, unit) db" where
  "UpdateTaskStarted i = do {
     now \<leftarrow> time_now;
     or_fail (''updating task '' @ i @ '' started'')
       (update_task i (\<lambda>_ t. t\<lparr>task_Status := TaskStatusRunning, task_StartedAt := Some now,
                              task_UpdatedAt := now\<rparr>))
       (\<lambda>_. ok ())
   }"

definition UpdateTaskCompleted :: "string \<Rightarrow> ('m, unit) db" where
  "UpdateTaskCompleted i = do {
     now \<leftarrow> time_now;
     or_fail (''updating task '' @ i @ '' completed'')
       (update_task i (\<lambda>_ t. t\<lparr>task_Status := TaskStatusCompleted, task_CompletedAt := Some now,
                              task_UpdatedAt := now\<rparr>))
       (\<lambda>_. ok ())
   }"

definition UpdateTaskFailed :: "string \<Rightarrow> string \<Rightarrow> ('m, unit) db" where
  "UpdateTaskFailed i errMsg = do {
     now \<leftarrow> time_now;
     or_fail (''updating task '' @ i @ '' failed'')
       (update_task i (\<lambda>_ t. t\<lparr>task_Status := TaskStatusFailed, task_Error := Some errMsg,
                              task_CompletedAt := Some now, task_UpdatedAt := now\<rparr>))
       (\<lambda>_. ok ())
   }"

definition UpdateTaskHasState :: "string \<Rightarrow> bool \<Rightarrow> ('m, unit) db" where
  "UpdateTaskHasState i hasState = do {
     now \<leftarrow> time_now;
     or_fail (''updating task '' @ i @ '' has_state'')
       (update_task i (\<lambda>_ t. t\<lparr>task_HasState := hasState, task_UpdatedAt := now\<rparr>))
       (\<lambda>_. ok ())
   }"

definition DeleteTask :: "string \<Rightarrow> ('m, unit) db" where
  "DeleteTask i = or_fail (''deleting task '' @ i) (exec (\<lambda>now s. delete_task i s))
     (\<lambda>rows. if rows = 0 then err (''task '' @ i @ '' not found'') else ok ())"

definition CountTasks :: "TaskStatus option \<Rightarrow> ('m, nat) db" where
  "CountTasks status = or_fail ''counting tasks''
     (query (\<lambda>s. case status of
        Some st \<Rightarrow> length (filter (\<lambda>t. task_Status t = st) (tb_tasks s))
      | None \<Rightarrow> length (tb_tasks s))) ok"

section \<open>Events\<close>

text \<open>The row has only the four columns of the statement; the id and the creation time are the
  database's. The result is the id, which the code stores in the event.\<close>

definition CreateEvent :: "Event \<Rightarrow> ('m, int) db" where
  "CreateEvent event = or_fail ''inserting event''
     (exec (\<lambda>now s.
        let i = seq_events s + 1 in
        if \<not> (fk_task s (event_TaskID event) \<and> fk_agent s (event_AgentID event)) then Inl fk_failed
        else Inr (i, s\<lparr>tb_events := tb_events s @
                          [event\<lparr>event_ID := i, event_CreatedAt := current_timestamp now\<rparr>],
                       seq_events := i\<rparr>)))
     ok"

definition ListEventsByTask :: "string \<Rightarrow> int \<Rightarrow> ('m, Event list) db" where
  "ListEventsByTask taskID limit =
     (let limit = (if limit \<le> 0 then 100 else limit) in
      or_fail (''listing events for task '' @ taskID)
        (query (\<lambda>s. limit_offset limit 0 (order_desc event_CreatedAt
           (filter (\<lambda>e. event_TaskID e = taskID) (tb_events s))))) ok)"

section \<open>Agents\<close>

definition CreateAgent :: "Agent \<Rightarrow> ('m, unit) db" where
  "CreateAgent agent = or_fail ''inserting agent''
     (exec (\<lambda>now s.
        case insert_row ''agents.id'' agent_ID (fk_task s (agent_TaskID agent))
               (agent\<lparr>agent_ExitCode := None, agent_Error := None, agent_StartedAt := None,
                      agent_CompletedAt := None\<rparr>) (tb_agents s) of
          Inl e \<Rightarrow> Inl e
        | Inr rows \<Rightarrow> Inr ((), s\<lparr>tb_agents := rows\<rparr>)))
     ok"

definition GetAgent :: "string \<Rightarrow> ('m, Agent option) db" where
  "GetAgent i = or_fail (''querying agent '' @ i)
     (query (\<lambda>s. find (\<lambda>a. agent_ID a = i) (tb_agents s))) ok"

definition update_agent :: "string \<Rightarrow> (Agent \<Rightarrow> Agent) \<Rightarrow> ('m, nat) db" where
  "update_agent i f = exec (\<lambda>now s.
     let (n, rows) = update_rows (\<lambda>a. agent_ID a = i) f (tb_agents s)
     in Inr (n, s\<lparr>tb_agents := rows\<rparr>))"

definition UpdateAgentStatus :: "string \<Rightarrow> string \<Rightarrow> ('m, unit) db" where
  "UpdateAgentStatus i status = or_fail (''updating agent '' @ i @ '' status'')
     (update_agent i (\<lambda>a. a\<lparr>agent_Status := status\<rparr>)) (\<lambda>_. ok ())"

definition UpdateAgentCompleted :: "string \<Rightarrow> int \<Rightarrow> string option \<Rightarrow> ('m, unit) db" where
  "UpdateAgentCompleted i exitCode agentErr = do {
     now \<leftarrow> time_now;
     let status = (if exitCode \<noteq> 0 then ''failed'' else ''completed'');
     or_fail (''updating agent '' @ i @ '' completed'')
       (update_agent i (\<lambda>a. a\<lparr>agent_Status := status, agent_ExitCode := Some exitCode,
                              agent_Error := agentErr, agent_CompletedAt := Some now\<rparr>))
       (\<lambda>_. ok ())
   }"

definition UpdateAgentContainer :: "string \<Rightarrow> string \<Rightarrow> ('m, unit) db" where
  "UpdateAgentContainer i containerID = do {
     now \<leftarrow> time_now;
     or_fail (''updating agent '' @ i @ '' container'')
       (update_agent i (\<lambda>a. a\<lparr>agent_ContainerID := Some containerID, agent_Status := ''running'',
                              agent_StartedAt := Some now\<rparr>))
       (\<lambda>_. ok ())
   }"

definition ListAgentsByTask :: "string \<Rightarrow> ('m, Agent list) db" where
  "ListAgentsByTask taskID = or_fail (''listing agents for task '' @ taskID)
     (query (\<lambda>s. order_by agent_CreatedAt (filter (\<lambda>a. agent_TaskID a = taskID) (tb_agents s)))) ok"

section \<open>Plans\<close>

definition CreatePlan :: "Plan \<Rightarrow> ('m, unit) db" where
  "CreatePlan plan = or_fail ''inserting plan''
     (exec (\<lambda>now s.
        case insert_row ''plans.id'' plan_ID (fk_task s (plan_TaskID plan)) plan (tb_plans s) of
          Inl e \<Rightarrow> Inl e
        | Inr rows \<Rightarrow> Inr ((), s\<lparr>tb_plans := rows\<rparr>)))
     ok"

text \<open>The query has no \<open>ORDER BY\<close>: of several plans of a task it is the one inserted first.\<close>

definition GetPlanByTask :: "string \<Rightarrow> ('m, Plan option) db" where
  "GetPlanByTask taskID = or_fail (''querying plan for task '' @ taskID)
     (query (\<lambda>s. find (\<lambda>p. plan_TaskID p = taskID) (tb_plans s))) ok"

definition update_plan :: "string \<Rightarrow> (time \<Rightarrow> Plan \<Rightarrow> Plan) \<Rightarrow> ('m, nat) db" where
  "update_plan i f = exec (\<lambda>now s.
     let (n, rows) = update_rows (\<lambda>p. plan_ID p = i) (f now) (tb_plans s)
     in Inr (n, s\<lparr>tb_plans := rows\<rparr>))"

definition UpdatePlanStatus :: "string \<Rightarrow> string \<Rightarrow> ('m, unit) db" where
  "UpdatePlanStatus planID status = or_fail (''updating plan '' @ planID @ '' status'')
     (update_plan planID (\<lambda>now p. p\<lparr>plan_Status := status, plan_UpdatedAt := current_timestamp now\<rparr>))
     (\<lambda>_. ok ())"

definition UpdatePlanSubtasks :: "string \<Rightarrow> string \<Rightarrow> ('m, unit) db" where
  "UpdatePlanSubtasks planID subtasksJSON = or_fail (''updating plan '' @ planID @ '' subtasks'')
     (update_plan planID (\<lambda>now p. p\<lparr>plan_Subtasks := subtasksJSON, plan_UpdatedAt := current_timestamp now\<rparr>))
     (\<lambda>_. ok ())"

section \<open>Files and checkpoints\<close>

definition CreateTaskFile :: "TaskFile \<Rightarrow> ('m, unit) db" where
  "CreateTaskFile f = or_fail ''inserting task file''
     (exec (\<lambda>now s.
        case insert_row ''task_files.id'' tf_ID (fk_task s (tf_TaskID f)) f (tb_task_files s) of
          Inl e \<Rightarrow> Inl e
        | Inr rows \<Rightarrow> Inr ((), s\<lparr>tb_task_files := rows\<rparr>)))
     ok"

definition ListTaskFiles :: "string \<Rightarrow> string option \<Rightarrow> ('m, TaskFile list) db" where
  "ListTaskFiles taskID direction = or_fail (''listing files for task '' @ taskID)
     (query (\<lambda>s. order_by tf_CreatedAt (filter (\<lambda>f. tf_TaskID f = taskID \<and>
        (case direction of None \<Rightarrow> True | Some d \<Rightarrow> tf_Direction f = d)) (tb_task_files s)))) ok"

definition CreateCheckpoint :: "Checkpoint \<Rightarrow> ('m, unit) db" where
  "CreateCheckpoint cp = or_fail ''inserting checkpoint''
     (exec (\<lambda>now s.
        case insert_row ''checkpoints.id'' cp_ID (fk_task s (cp_TaskID cp)) cp (tb_checkpoints s) of
          Inl e \<Rightarrow> Inl e
        | Inr rows \<Rightarrow> Inr ((), s\<lparr>tb_checkpoints := rows\<rparr>)))
     ok"

definition GetLatestCheckpoint :: "string \<Rightarrow> ('m, Checkpoint option) db" where
  "GetLatestCheckpoint taskID = or_fail (''querying latest checkpoint for task '' @ taskID)
     (query (\<lambda>s. first_row (order_desc cp_CreatedAt
        (filter (\<lambda>c. cp_TaskID c = taskID) (tb_checkpoints s))))) ok"

definition ListCheckpointsByTask :: "string \<Rightarrow> ('m, Checkpoint list) db" where
  "ListCheckpointsByTask taskID = or_fail (''listing checkpoints for task '' @ taskID)
     (query (\<lambda>s. order_desc cp_CreatedAt
        (filter (\<lambda>c. cp_TaskID c = taskID) (tb_checkpoints s)))) ok"

definition DeleteCheckpoint :: "string \<Rightarrow> ('m, unit) db" where
  "DeleteCheckpoint i = or_fail (''deleting checkpoint '' @ i)
     (exec (\<lambda>now s. let (n, rows) = delete_rows (\<lambda>c. cp_ID c = i) (tb_checkpoints s)
                    in Inr (n, s\<lparr>tb_checkpoints := rows\<rparr>)))
     (\<lambda>_. ok ())"

section \<open>Repository templates and memories\<close>

definition CreateRepoTemplate :: "RepoTemplate \<Rightarrow> ('m, unit) db" where
  "CreateRepoTemplate rt = or_fail ''inserting repo template''
     (exec (\<lambda>now s.
        case insert_row ''repo_templates.id'' rt_ID True rt (tb_repo_templates s) of
          Inl e \<Rightarrow> Inl e
        | Inr rows \<Rightarrow> Inr ((), s\<lparr>tb_repo_templates := rows\<rparr>)))
     ok"

definition ListRepoTemplates :: "('m, RepoTemplate list) db" where
  "ListRepoTemplates = or_fail ''listing repo templates''
     (query (\<lambda>s. order_by rt_Name (tb_repo_templates s))) ok"

definition GetRepoTemplate :: "string \<Rightarrow> ('m, RepoTemplate option) db" where
  "GetRepoTemplate i = or_fail (''querying repo template '' @ i)
     (query (\<lambda>s. find (\<lambda>t. rt_ID t = i) (tb_repo_templates s))) ok"

text \<open>All columns but the id and the creation time are set.\<close>

definition UpdateRepoTemplate :: "RepoTemplate \<Rightarrow> ('m, unit) db" where
  "UpdateRepoTemplate rt = do {
     now \<leftarrow> time_now;
     or_fail (''updating repo template '' @ rt_ID rt)
       (exec (\<lambda>_ s.
          let (n, rows) = update_rows (\<lambda>t. rt_ID t = rt_ID rt)
                (\<lambda>t. rt\<lparr>rt_ID := rt_ID t, rt_CreatedAt := rt_CreatedAt t, rt_UpdatedAt := now\<rparr>)
                (tb_repo_templates s)
          in Inr (n, s\<lparr>tb_repo_templates := rows\<rparr>)))
       (\<lambda>rows. if rows = 0 then err (''repo template '' @ rt_ID rt @ '' not found'') else ok ())
   }"

definition DeleteRepoTemplate :: "string \<Rightarrow> ('m, unit) db" where
  "DeleteRepoTemplate i = or_fail (''deleting repo template '' @ i)
     (exec (\<lambda>now s. delete_repo_template i s))
     (\<lambda>rows. if rows = 0 then err (''repo template '' @ i @ '' not found'') else ok ())"

definition CreateRepoMemory :: "RepoMemory \<Rightarrow> ('m, unit) db" where
  "CreateRepoMemory rm = or_fail ''inserting repo memory''
     (exec (\<lambda>now s.
        if list_ex (\<lambda>m. rm_RepoTemplateID m = rm_RepoTemplateID rm \<and> rm_Branch m = rm_Branch rm \<and>
                        rm_CommitHash m = rm_CommitHash rm) (tb_repo_memories s)
        then Inl (''UNIQUE constraint failed: repo_memories.repo_template_id, '' @
                  ''repo_memories.branch, repo_memories.commit_hash'')
        else case insert_row ''repo_memories.id'' rm_ID (fk_repo_template s (rm_RepoTemplateID rm)) rm
               (tb_repo_memories s) of
          Inl e \<Rightarrow> Inl e
        | Inr rows \<Rightarrow> Inr ((), s\<lparr>tb_repo_memories := rows\<rparr>)))
     ok"

definition GetRepoMemory :: "string \<Rightarrow> string \<Rightarrow> ('m, RepoMemory option) db" where
  "GetRepoMemory templateID branch =
     or_fail (''querying repo memory for template '' @ templateID @ '' branch '' @ branch)
       (query (\<lambda>s. first_row (order_desc rm_CreatedAt
          (filter (\<lambda>m. rm_RepoTemplateID m = templateID \<and> rm_Branch m = branch) (tb_repo_memories s))))) ok"

definition GetRepoMemoryByCommit :: "string \<Rightarrow> string \<Rightarrow> string \<Rightarrow> ('m, RepoMemory option) db" where
  "GetRepoMemoryByCommit templateID branch commitHash = or_fail ''querying repo memory by commit''
     (query (\<lambda>s. find (\<lambda>m. rm_RepoTemplateID m = templateID \<and> rm_Branch m = branch \<and>
        rm_CommitHash m = commitHash) (tb_repo_memories s))) ok"

definition DeleteRepoMemoriesByTemplate :: "string \<Rightarrow> ('m, unit) db" where
  "DeleteRepoMemoriesByTemplate templateID =
     or_fail (''deleting repo memories for template '' @ templateID)
       (exec (\<lambda>now s.
          let (n, rows) = delete_rows (\<lambda>m. rm_RepoTemplateID m = templateID) (tb_repo_memories s)
          in Inr (n, s\<lparr>tb_repo_memories := rows\<rparr>)))
       (\<lambda>_. ok ())"

section \<open>Planner questions\<close>

definition CreatePlannerQuestion :: "PlannerQuestion \<Rightarrow> ('m, unit) db" where
  "CreatePlannerQuestion q = or_fail ''inserting planner question''
     (exec (\<lambda>now s.
        case insert_row ''planner_questions.id'' pq_ID (fk_task s (pq_TaskID q))
               (q\<lparr>pq_Answer := None, pq_AnsweredAt := None\<rparr>) (tb_planner_questions s) of
          Inl e \<Rightarrow> Inl e
        | Inr rows \<Rightarrow> Inr ((), s\<lparr>tb_planner_questions := rows\<rparr>)))
     ok"

definition AnswerPlannerQuestion :: "string \<Rightarrow> string \<Rightarrow> ('m, unit) db" where
  "AnswerPlannerQuestion i answer = do {
     now \<leftarrow> time_now;
     or_fail (''answering planner question '' @ i)
       (exec (\<lambda>_ s.
          let (n, rows) = update_rows (\<lambda>q. pq_ID q = i)
                (\<lambda>q. q\<lparr>pq_Answer := Some answer, pq_Status := ''answered'', pq_AnsweredAt := Some now\<rparr>)
                (tb_planner_questions s)
          in Inr (n, s\<lparr>tb_planner_questions := rows\<rparr>)))
       (\<lambda>_. ok ())
   }"

definition ListPlannerQuestions :: "string \<Rightarrow> ('m, PlannerQuestion list) db" where
  "ListPlannerQuestions taskID = or_fail (''listing questions for task '' @ taskID)
     (query (\<lambda>s. order_by pq_AskedAt (filter (\<lambda>q. pq_TaskID q = taskID) (tb_planner_questions s)))) ok"

section \<open>Team templates\<close>

definition default_mode :: "TeamTemplate \<Rightarrow> TeamTemplate" where
  "default_mode tt = (if tt_Mode tt = '''' then tt\<lparr>tt_Mode := ''sequential''\<rparr> else tt)"

text \<open>The code also changes the caller's template; the result here is that template.\<close>

definition CreateTeamTemplate :: "TeamTemplate \<Rightarrow> ('m, TeamTemplate) db" where
  "CreateTeamTemplate tt =
     (let tt = default_mode tt in
      or_fail ''inserting team template''
        (exec (\<lambda>now s.
           case insert_row ''team_templates.id'' tt_ID True tt (tb_team_templates s) of
             Inl e \<Rightarrow> Inl e
           | Inr rows \<Rightarrow> Inr ((), s\<lparr>tb_team_templates := rows\<rparr>)))
        (\<lambda>_. ok tt))"

definition ListTeamTemplates :: "('m, TeamTemplate list) db" where
  "ListTeamTemplates = or_fail ''listing team templates''
     (query (\<lambda>s. map default_mode (order_by tt_Name (tb_team_templates s)))) ok"

definition GetTeamTemplate :: "string \<Rightarrow> ('m, TeamTemplate option) db" where
  "GetTeamTemplate i = or_fail (''querying team template '' @ i)
     (query (\<lambda>s. find (\<lambda>t. tt_ID t = i) (tb_team_templates s))) ok"

definition UpdateTeamTemplate :: "TeamTemplate \<Rightarrow> ('m, TeamTemplate) db" where
  "UpdateTeamTemplate tt =
     (let tt = default_mode tt in do {
       now \<leftarrow> time_now;
       or_fail (''updating team template '' @ tt_ID tt)
         (exec (\<lambda>_ s.
            let (n, rows) = update_rows (\<lambda>t. tt_ID t = tt_ID tt)
                  (\<lambda>t. tt\<lparr>tt_ID := tt_ID t, tt_CreatedAt := tt_CreatedAt t, tt_UpdatedAt := now\<rparr>)
                  (tb_team_templates s)
            in Inr (n, s\<lparr>tb_team_templates := rows\<rparr>)))
         (\<lambda>rows. if rows = 0 then err (''team template '' @ tt_ID tt @ '' not found'') else ok tt)
     })"

definition DeleteTeamTemplate :: "string \<Rightarrow> ('m, unit) db" where
  "DeleteTeamTemplate i = or_fail (''deleting team template '' @ i)
     (exec (\<lambda>now s. let (n, rows) = delete_rows (\<lambda>t. tt_ID t = i) (tb_team_templates s)
                    in Inr (n, s\<lparr>tb_team_templates := rows\<rparr>)))
     (\<lambda>rows. if rows = 0 then err (''team template '' @ i @ '' not found'') else ok ())"

section \<open>Agent messages\<close>

text \<open>The result is the id, which the code stores in the message.\<close>

definition CreateAgentMessage :: "AgentMessage \<Rightarrow> ('m, int) db" where
  "CreateAgentMessage msg = or_fail ''inserting agent message''
     (exec (\<lambda>now s.
        let i = seq_agent_messages s + 1 in
        if \<not> fk_task s (am_TaskID msg) then Inl fk_failed
        else Inr (i, s\<lparr>tb_agent_messages := tb_agent_messages s @ [msg\<lparr>am_ID := i\<rparr>],
                       seq_agent_messages := i\<rparr>)))
     ok"

definition ListAgentMessages :: "string \<Rightarrow> int \<Rightarrow> ('m, AgentMessage list) db" where
  "ListAgentMessages taskID limit =
     (let limit = (if limit \<le> 0 then 200 else limit) in
      or_fail (''listing agent messages for task '' @ taskID)
        (query (\<lambda>s. limit_offset limit 0 (order_by am_CreatedAt
           (filter (\<lambda>m. am_TaskID m = taskID) (tb_agent_messages s))))) ok)"

definition ListAgentMessagesAfterID :: "string \<Rightarrow> int \<Rightarrow> ('m, AgentMessage list) db" where
  "ListAgentMessagesAfterID taskID afterID =
     or_fail (''listing agent messages after ID '' @ itoa afterID @ '' for task '' @ taskID)
       (query (\<lambda>s. order_by am_ID
          (filter (\<lambda>m. am_TaskID m = taskID \<and> am_ID m > afterID) (tb_agent_messages s)))) ok"

end
