(* ===== verification/Db_Facts.thy ===== *)
theory Db_Facts
  imports Db_Queries
begin

text \<open>
  The integrity of the database: every method of \<open>Db_Queries\<close> keeps primary keys unique,
  generated ids increasing, and, when foreign keys are enforced, every reference pointing at a
  row; driver errors change nothing. The locale \<open>step_logic\<close> is interpreted on this invariant,
  so that code built from the methods keeps it as well. Then what the methods return.
\<close>

section \<open>The invariant\<close>

definition task_ids :: "store \<Rightarrow> string set" where
  "task_ids s = task_ID ` set (tb_tasks s)"

definition agent_ids :: "store \<Rightarrow> string set" where
  "agent_ids s = agent_ID ` set (tb_agents s)"

definition keys_ok :: "store \<Rightarrow> bool" where
  "keys_ok s \<longleftrightarrow>
     distinct (map task_ID (tb_tasks s)) \<and> distinct (map plan_ID (tb_plans s)) \<and>
     distinct (map agent_ID (tb_agents s)) \<and> distinct (map tf_ID (tb_task_files s)) \<and>
     distinct (map rt_ID (tb_repo_templates s)) \<and> distinct (map cp_ID (tb_checkpoints s)) \<and>
     distinct (map pq_ID (tb_planner_questions s)) \<and> distinct (map tt_ID (tb_team_templates s)) \<and>
     distinct (map rm_ID (tb_repo_memories s)) \<and>
     distinct (map (\<lambda>m. (rm_RepoTemplateID m, rm_Branch m, rm_CommitHash m)) (tb_repo_memories s))"

definition seqs_ok :: "store \<Rightarrow> bool" where
  "seqs_ok s \<longleftrightarrow>
     sorted_wrt (<) (map event_ID (tb_events s)) \<and> (\<forall>e \<in> set (tb_events s). event_ID e \<le> seq_events s) \<and>
     sorted_wrt (<) (map am_ID (tb_agent_messages s)) \<and>
     (\<forall>m \<in> set (tb_agent_messages s). am_ID m \<le> seq_agent_messages s)"

definition refs_ok :: "store \<Rightarrow> bool" where
  "refs_ok s \<longleftrightarrow> (fk_on s \<longrightarrow>
     plan_TaskID ` set (tb_plans s) \<subseteq> task_ids s \<and> agent_TaskID ` set (tb_agents s) \<subseteq> task_ids s \<and>
     event_TaskID ` set (tb_events s) \<subseteq> task_ids s \<and>
     (\<forall>e \<in> set (tb_events s). \<forall>a. event_AgentID e = Some a \<longrightarrow> a \<in> agent_ids s) \<and>
     tf_TaskID ` set (tb_task_files s) \<subseteq> task_ids s \<and> cp_TaskID ` set (tb_checkpoints s) \<subseteq> task_ids s \<and>
     pq_TaskID ` set (tb_planner_questions s) \<subseteq> task_ids s \<and>
     am_TaskID ` set (tb_agent_messages s) \<subseteq> task_ids s \<and>
     rm_RepoTemplateID ` set (tb_repo_memories s) \<subseteq> rt_ID ` set (tb_repo_templates s))"

definition store_ok :: "store \<Rightarrow> bool" where
  "store_ok s \<longleftrightarrow> keys_ok s \<and> seqs_ok s \<and> refs_ok s"

lemmas store_ok_defs = store_ok_def keys_ok_def seqs_ok_def refs_ok_def task_ids_def agent_ids_def

text \<open>The empty database; the migrations add the default team templates to it.\<close>

definition empty_store :: "bool \<Rightarrow> store" where
  "empty_store fk = \<lparr>tb_tasks = [], tb_plans = [], tb_agents = [], tb_events = [], tb_task_files = [],
     tb_repo_templates = [], tb_checkpoints = [], tb_planner_questions = [], tb_team_templates = [],
     tb_agent_messages = [], tb_repo_memories = [], seq_events = 0, seq_agent_messages = 0, fk_on = fk\<rparr>"

lemma store_ok_empty [simp]: "store_ok (empty_store fk)"
  by (simp add: empty_store_def store_ok_defs)

lemma fk_task_iff: "fk_task s i \<longleftrightarrow> (fk_on s \<longrightarrow> i \<in> task_ids s)"
  by (auto simp: fk_task_def has_task_def task_ids_def list_ex_iff)

lemma fk_agent_iff: "fk_agent s a \<longleftrightarrow> (\<forall>i. a = Some i \<longrightarrow> fk_on s \<longrightarrow> i \<in> agent_ids s)"
  by (auto simp: fk_agent_def agent_ids_def list_ex_iff split: option.splits)

lemma fk_repo_template_iff:
  "fk_repo_template s i \<longleftrightarrow> (fk_on s \<longrightarrow> i \<in> rt_ID ` set (tb_repo_templates s))"
  by (auto simp: fk_repo_template_def list_ex_iff)

section \<open>Insertions keep it\<close>

lemma store_ok_task:
  "store_ok s \<Longrightarrow> task_ID r \<notin> task_ID ` set (tb_tasks s) \<Longrightarrow> store_ok (s\<lparr>tb_tasks := tb_tasks s @ [r]\<rparr>)"
  by (simp add: store_ok_defs subset_insertI2)

lemma store_ok_plan:
  "store_ok s \<Longrightarrow> plan_ID r \<notin> plan_ID ` set (tb_plans s) \<Longrightarrow> fk_task s (plan_TaskID r) \<Longrightarrow>
   store_ok (s\<lparr>tb_plans := tb_plans s @ [r]\<rparr>)"
  by (simp add: store_ok_defs fk_task_iff)

lemma store_ok_agent:
  "store_ok s \<Longrightarrow> agent_ID r \<notin> agent_ID ` set (tb_agents s) \<Longrightarrow> fk_task s (agent_TaskID r) \<Longrightarrow>
   store_ok (s\<lparr>tb_agents := tb_agents s @ [r]\<rparr>)"
  by (simp add: store_ok_defs fk_task_iff)

lemma store_ok_event:
  "store_ok s \<Longrightarrow> event_ID r = seq_events s + 1 \<Longrightarrow> fk_task s (event_TaskID r) \<Longrightarrow>
   fk_agent s (event_AgentID r) \<Longrightarrow>
   store_ok (s\<lparr>tb_events := tb_events s @ [r], seq_events := seq_events s + 1\<rparr>)"
  by (simp add: store_ok_defs fk_task_iff fk_agent_iff sorted_wrt_append) (auto simp: zless_add1_eq intro: add_increasing2)

lemma store_ok_file:
  "store_ok s \<Longrightarrow> tf_ID r \<notin> tf_ID ` set (tb_task_files s) \<Longrightarrow> fk_task s (tf_TaskID r) \<Longrightarrow>
   store_ok (s\<lparr>tb_task_files := tb_task_files s @ [r]\<rparr>)"
  by (simp add: store_ok_defs fk_task_iff)

lemma store_ok_checkpoint:
  "store_ok s \<Longrightarrow> cp_ID r \<notin> cp_ID ` set (tb_checkpoints s) \<Longrightarrow> fk_task s (cp_TaskID r) \<Longrightarrow>
   store_ok (s\<lparr>tb_checkpoints := tb_checkpoints s @ [r]\<rparr>)"
  by (simp add: store_ok_defs fk_task_iff)

lemma store_ok_question:
  "store_ok s \<Longrightarrow> pq_ID r \<notin> pq_ID ` set (tb_planner_questions s) \<Longrightarrow> fk_task s (pq_TaskID r) \<Longrightarrow>
   store_ok (s\<lparr>tb_planner_questions := tb_planner_questions s @ [r]\<rparr>)"
  by (simp add: store_ok_defs fk_task_iff)

lemma store_ok_repo_template:
  "store_ok s \<Longrightarrow> rt_ID r \<notin> rt_ID ` set (tb_repo_templates s) \<Longrightarrow>
   store_ok (s\<lparr>tb_repo_templates := tb_repo_templates s @ [r]\<rparr>)"
  by (simp add: store_ok_defs subset_insertI2)

lemma store_ok_team_template:
  "store_ok s \<Longrightarrow> tt_ID r \<notin> tt_ID ` set (tb_team_templates s) \<Longrightarrow>
   store_ok (s\<lparr>tb_team_templates := tb_team_templates s @ [r]\<rparr>)"
  by (simp add: store_ok_defs)

lemma store_ok_message:
  "store_ok s \<Longrightarrow> am_ID r = seq_agent_messages s + 1 \<Longrightarrow> fk_task s (am_TaskID r) \<Longrightarrow>
   store_ok (s\<lparr>tb_agent_messages := tb_agent_messages s @ [r], seq_agent_messages := seq_agent_messages s + 1\<rparr>)"
  by (simp add: store_ok_defs fk_task_iff sorted_wrt_append) (auto simp: zless_add1_eq intro: add_increasing2)

lemma store_ok_memory:
  "store_ok s \<Longrightarrow> rm_ID r \<notin> rm_ID ` set (tb_repo_memories s) \<Longrightarrow>
   (\<forall>m \<in> set (tb_repo_memories s). (rm_RepoTemplateID m, rm_Branch m, rm_CommitHash m) \<noteq>
      (rm_RepoTemplateID r, rm_Branch r, rm_CommitHash r)) \<Longrightarrow>
   fk_repo_template s (rm_RepoTemplateID r) \<Longrightarrow>
   store_ok (s\<lparr>tb_repo_memories := tb_repo_memories s @ [r]\<rparr>)"
  by (simp add: store_ok_defs fk_repo_template_iff) (auto simp: image_iff)

lemmas store_ok_add = store_ok_task store_ok_plan store_ok_agent store_ok_event store_ok_file
  store_ok_checkpoint store_ok_question store_ok_repo_template store_ok_team_template
  store_ok_message store_ok_memory

section \<open>The methods keep it\<close>

definition keeps_ok :: "'m sql_world_scheme \<Rightarrow> 'm sql_world_scheme \<Rightarrow> bool" where
  "keeps_ok w w' \<longleftrightarrow> (store_ok (w_store w) \<longrightarrow> store_ok (w_store w'))"

interpretation dbi: step_logic keeps_ok
  by unfold_locales (auto simp: keeps_ok_def)

lemma dbi_exec:
  assumes "\<And>now s x s'. store_ok s \<Longrightarrow> f now s = Inr (x, s') \<Longrightarrow> store_ok s'"
  shows "dbi.steps (exec f)"
  by (rule dbi.stepsI) (auto simp: keeps_ok_def exec_def split: option.splits sum.splits dest: assms)

lemma dbi_query [intro]: "dbi.steps (query f)"
  by (rule dbi.stepsI) (simp add: keeps_ok_def split: option.split)

lemma dbi_time_now [intro]: "dbi.steps time_now"
  by (rule dbi.stepsI) (simp add: keeps_ok_def)

lemma map_key_update:
  assumes "\<And>r. P r \<Longrightarrow> key (f r) = key r"
  shows "map key (snd (update_rows P f rows)) = map key rows"
  using assms by (auto simp: update_rows_def)

lemma image_key_update:
  assumes "\<And>r. P r \<Longrightarrow> key (f r) = key r"
  shows "key ` set (snd (update_rows P f rows)) = key ` set rows"
  using map_key_update [of P key f rows, OF assms] by (metis set_map)

lemma dbi_CreateTask [intro]: "dbi.steps (CreateTask task)"
  unfolding CreateTask_def
  by (intro dbi.steps_or_fail dbi.steps_ok dbi_exec)
     (auto simp: insert_row_Inr split: sum.splits intro!: store_ok_add)

lemma dbi_update_task [intro]:
  assumes "\<And>now t. task_ID (f now t) = task_ID t"
  shows "dbi.steps (update_task i f)"
  unfolding update_task_def
proof (rule dbi_exec)
  fix now s x s'
  assume ok: "store_ok s" and e: "(let (n, rows) = update_rows (\<lambda>t. task_ID t = i) (f now) (tb_tasks s)
      in Inr (n, s\<lparr>tb_tasks := rows\<rparr>)) = Inr (x, s')"
  let ?rows = "snd (update_rows (\<lambda>t. task_ID t = i) (f now) (tb_tasks s))"
  from e have "s' = s\<lparr>tb_tasks := ?rows\<rparr>" by (auto simp: Let_def case_prod_beta)
  moreover have "map task_ID ?rows = map task_ID (tb_tasks s)"
    by (rule map_key_update) (rule assms)
  moreover have "task_ID ` set ?rows = task_ID ` set (tb_tasks s)"
    by (rule image_key_update) (rule assms)
  ultimately show "store_ok s'" using ok by (simp add: store_ok_defs)
qed

lemma dbi_UpdateTaskStatus [intro]: "dbi.steps (UpdateTaskStatus i st)"
  unfolding UpdateTaskStatus_def by (intro dbi.steps_intros dbi_time_now dbi_update_task) simp

lemma dbi_UpdateTaskStarted [intro]: "dbi.steps (UpdateTaskStarted i)"
  unfolding UpdateTaskStarted_def by (intro dbi.steps_intros dbi_time_now dbi_update_task) simp

lemma dbi_UpdateTaskCompleted [intro]: "dbi.steps (UpdateTaskCompleted i)"
  unfolding UpdateTaskCompleted_def by (intro dbi.steps_intros dbi_time_now dbi_update_task) simp

lemma dbi_UpdateTaskFailed [intro]: "dbi.steps (UpdateTaskFailed i msg)"
  unfolding UpdateTaskFailed_def by (intro dbi.steps_intros dbi_time_now dbi_update_task) simp

lemma dbi_UpdateTaskHasState [intro]: "dbi.steps (UpdateTaskHasState i b)"
  unfolding UpdateTaskHasState_def by (intro dbi.steps_intros dbi_time_now dbi_update_task) simp

lemma sorted_wrt_map_filter: "sorted_wrt R (map f xs) \<Longrightarrow> sorted_wrt R (map f (filter P xs))"
  by (induction xs) auto

lemma snd_delete_rows: "snd (delete_rows P rows) = filter (\<lambda>r. \<not> P r) rows"
  by (simp add: delete_rows_def)

lemma keys_ok_cascade: "keys_ok s \<Longrightarrow> keys_ok (cascade_task i s)"
  by (simp add: keys_ok_def cascade_task_def snd_delete_rows distinct_map_filter)

lemma seqs_ok_cascade: "seqs_ok s \<Longrightarrow> seqs_ok (cascade_task i s)"
  by (simp add: seqs_ok_def cascade_task_def snd_delete_rows sorted_wrt_map_filter)

lemma refs_ok_cascade:
  assumes refs: "refs_ok s" and fk: "fk_on s"
    and t: "tasks = filter (\<lambda>t. task_ID t \<noteq> i) (tb_tasks s)"
    and ev: "list_all (\<lambda>e. fk_agent (cascade_task i (s\<lparr>tb_tasks := tasks\<rparr>)) (event_AgentID e))
               (tb_events (cascade_task i (s\<lparr>tb_tasks := tasks\<rparr>)))"
  shows "refs_ok (cascade_task i (s\<lparr>tb_tasks := tasks\<rparr>))"
proof -
  let ?c = "cascade_task i (s\<lparr>tb_tasks := tasks\<rparr>)"
  have fk': "fk_on ?c" using fk by (simp add: cascade_task_def)
  have ids: "task_ids ?c = task_ids s - {i}" by (auto simp: task_ids_def cascade_task_def t)
  have sub: "f ` set (filter (\<lambda>r. f r \<noteq> i) rows) \<subseteq> task_ids s - {i}"
    if "f ` set rows \<subseteq> task_ids s" for rows :: "'r list" and f
    using that by auto
  have e: "\<forall>e \<in> set (tb_events ?c). \<forall>a. event_AgentID e = Some a \<longrightarrow> a \<in> agent_ids ?c"
    using ev fk' by (auto simp: list_all_iff fk_agent_iff)
  have r: "plan_TaskID ` set (tb_plans s) \<subseteq> task_ids s" "agent_TaskID ` set (tb_agents s) \<subseteq> task_ids s"
    "event_TaskID ` set (tb_events s) \<subseteq> task_ids s" "tf_TaskID ` set (tb_task_files s) \<subseteq> task_ids s"
    "cp_TaskID ` set (tb_checkpoints s) \<subseteq> task_ids s" "pq_TaskID ` set (tb_planner_questions s) \<subseteq> task_ids s"
    "am_TaskID ` set (tb_agent_messages s) \<subseteq> task_ids s"
    "rm_RepoTemplateID ` set (tb_repo_memories s) \<subseteq> rt_ID ` set (tb_repo_templates s)"
    using refs fk by (simp_all add: refs_ok_def)
  have "plan_TaskID ` set (tb_plans ?c) \<subseteq> task_ids ?c \<and> agent_TaskID ` set (tb_agents ?c) \<subseteq> task_ids ?c
    \<and> event_TaskID ` set (tb_events ?c) \<subseteq> task_ids ?c \<and> tf_TaskID ` set (tb_task_files ?c) \<subseteq> task_ids ?c
    \<and> cp_TaskID ` set (tb_checkpoints ?c) \<subseteq> task_ids ?c
    \<and> pq_TaskID ` set (tb_planner_questions ?c) \<subseteq> task_ids ?c
    \<and> am_TaskID ` set (tb_agent_messages ?c) \<subseteq> task_ids ?c"
    unfolding ids using sub [OF r(1)] sub [OF r(2)] sub [OF r(3)] sub [OF r(4)] sub [OF r(5)]
      sub [OF r(6)] sub [OF r(7)]
    by (simp add: cascade_task_def snd_delete_rows)
  moreover have "rm_RepoTemplateID ` set (tb_repo_memories ?c) \<subseteq> rt_ID ` set (tb_repo_templates ?c)"
    using r(8) by (simp add: cascade_task_def)
  ultimately show ?thesis using e by (simp add: refs_ok_def)
qed

lemma delete_task_ok:
  assumes ok: "store_ok s" and d: "delete_task i s = Inr (n, s')"
  shows "store_ok s'"
proof -
  let ?tasks = "filter (\<lambda>t. task_ID t \<noteq> i) (tb_tasks s)"
  let ?s = "s\<lparr>tb_tasks := ?tasks\<rparr>"
  have k: "keys_ok ?s" "seqs_ok ?s"
    using ok by (simp_all add: store_ok_defs distinct_map_filter)
  show ?thesis
  proof (cases "fk_on s \<and> filter (\<lambda>t. task_ID t = i) (tb_tasks s) \<noteq> []")
    case True
    then have "s' = cascade_task i ?s"
      and ev: "list_all (\<lambda>e. fk_agent (cascade_task i ?s) (event_AgentID e)) (tb_events (cascade_task i ?s))"
      using d by (auto simp: delete_task_def delete_rows_def Let_def split: if_splits)
    moreover have "refs_ok (cascade_task i ?s)"
      by (rule refs_ok_cascade [OF _ _ refl ev]) (use ok True in \<open>simp_all add: store_ok_def\<close>)
    ultimately show ?thesis
      using k by (simp add: store_ok_def keys_ok_cascade seqs_ok_cascade)
  next
    case False
    then have s': "s' = ?s"
      using d by (auto simp: delete_task_def delete_rows_def Let_def)
    have "refs_ok ?s"
    proof (cases "fk_on s")
      case True
      with False have "?tasks = tb_tasks s" by (auto simp: filter_empty_conv filter_id_conv)
      with ok show ?thesis by (simp add: store_ok_def)
    qed (simp add: refs_ok_def)
    with k s' show ?thesis by (simp add: store_ok_def)
  qed
qed

lemma dbi_DeleteTask [intro]: "dbi.steps (DeleteTask i)"
  unfolding DeleteTask_def by (intro dbi.steps_intros dbi_exec) (auto dest: delete_task_ok)

lemma dbi_CreateEvent [intro]: "dbi.steps (CreateEvent e)"
  unfolding CreateEvent_def
  by (intro dbi.steps_or_fail dbi.steps_ok dbi_exec)
     (auto simp: Let_def split: if_splits intro!: store_ok_add)

lemma dbi_CreateAgent [intro]: "dbi.steps (CreateAgent a)"
  unfolding CreateAgent_def
  by (intro dbi.steps_or_fail dbi.steps_ok dbi_exec)
     (auto simp: insert_row_Inr split: sum.splits intro!: store_ok_add)

lemma dbi_update_agent:
  assumes "\<And>t. agent_ID (f t) = agent_ID t" "\<And>t. agent_TaskID (f t) = agent_TaskID t"
  shows "dbi.steps (update_agent i f)"
  unfolding update_agent_def
proof (rule dbi_exec)
  fix now s x s'
  assume ok: "store_ok s" and e: "(let (n, rows) = update_rows (\<lambda>t. agent_ID t = i) f (tb_agents s)
      in Inr (n, s\<lparr>tb_agents := rows\<rparr>)) = Inr (x, s')"
  let ?rows = "snd (update_rows (\<lambda>t. agent_ID t = i) f (tb_agents s))"
  from e have "s' = s\<lparr>tb_agents := ?rows\<rparr>" by (auto simp: Let_def case_prod_beta)
  moreover have "map agent_ID ?rows = map agent_ID (tb_agents s)"
    by (rule map_key_update) (rule assms)
  moreover have "agent_ID ` set ?rows = agent_ID ` set (tb_agents s)"
      "agent_TaskID ` set ?rows = agent_TaskID ` set (tb_agents s)"
    by (rule image_key_update, rule assms)+
  ultimately show "store_ok s'" using ok by (simp add: store_ok_defs)
qed

lemma dbi_UpdateAgentStatus [intro]: "dbi.steps (UpdateAgentStatus i st)"
  unfolding UpdateAgentStatus_def by (intro dbi.steps_intros dbi_update_agent) simp_all

lemma dbi_UpdateAgentCompleted [intro]: "dbi.steps (UpdateAgentCompleted i c e)"
  unfolding UpdateAgentCompleted_def by (intro dbi.steps_intros dbi_time_now dbi_update_agent) simp_all

lemma dbi_UpdateAgentContainer [intro]: "dbi.steps (UpdateAgentContainer i c)"
  unfolding UpdateAgentContainer_def by (intro dbi.steps_intros dbi_time_now dbi_update_agent) simp_all

lemma dbi_CreatePlan [intro]: "dbi.steps (CreatePlan p)"
  unfolding CreatePlan_def
  by (intro dbi.steps_or_fail dbi.steps_ok dbi_exec)
     (auto simp: insert_row_Inr split: sum.splits intro!: store_ok_add)

lemma dbi_update_plan:
  assumes "\<And>now t. plan_ID (f now t) = plan_ID t" "\<And>now t. plan_TaskID (f now t) = plan_TaskID t"
  shows "dbi.steps (update_plan i f)"
  unfolding update_plan_def
proof (rule dbi_exec)
  fix now s x s'
  assume ok: "store_ok s" and e: "(let (n, rows) = update_rows (\<lambda>t. plan_ID t = i) (f now) (tb_plans s)
      in Inr (n, s\<lparr>tb_plans := rows\<rparr>)) = Inr (x, s')"
  let ?rows = "snd (update_rows (\<lambda>t. plan_ID t = i) (f now) (tb_plans s))"
  from e have "s' = s\<lparr>tb_plans := ?rows\<rparr>" by (auto simp: Let_def case_prod_beta)
  moreover have "map plan_ID ?rows = map plan_ID (tb_plans s)"
    by (rule map_key_update) (rule assms)
  moreover have "plan_TaskID ` set ?rows = plan_TaskID ` set (tb_plans s)"
    by (rule image_key_update) (rule assms)
  ultimately show "store_ok s'" using ok by (simp add: store_ok_defs)
qed

lemma dbi_UpdatePlanStatus [intro]: "dbi.steps (UpdatePlanStatus i st)"
  unfolding UpdatePlanStatus_def by (intro dbi.steps_intros dbi_update_plan) simp_all

lemma dbi_UpdatePlanSubtasks [intro]: "dbi.steps (UpdatePlanSubtasks i st)"
  unfolding UpdatePlanSubtasks_def by (intro dbi.steps_intros dbi_update_plan) simp_all

lemma dbi_CreateTaskFile [intro]: "dbi.steps (CreateTaskFile f)"
  unfolding CreateTaskFile_def
  by (intro dbi.steps_or_fail dbi.steps_ok dbi_exec)
     (auto simp: insert_row_Inr split: sum.splits intro!: store_ok_add)

lemma dbi_CreateCheckpoint [intro]: "dbi.steps (CreateCheckpoint c)"
  unfolding CreateCheckpoint_def
  by (intro dbi.steps_or_fail dbi.steps_ok dbi_exec)
     (auto simp: insert_row_Inr split: sum.splits intro!: store_ok_add)

lemma dbi_DeleteCheckpoint [intro]: "dbi.steps (DeleteCheckpoint i)"
  unfolding DeleteCheckpoint_def
  by (intro dbi.steps_or_fail dbi.steps_ok dbi_exec)
     (auto simp: store_ok_defs delete_rows_def distinct_map_filter)

lemma dbi_CreateRepoTemplate [intro]: "dbi.steps (CreateRepoTemplate r)"
  unfolding CreateRepoTemplate_def
  by (intro dbi.steps_or_fail dbi.steps_ok dbi_exec)
     (auto simp: insert_row_Inr split: sum.splits intro!: store_ok_add)

lemma store_ok_repo_templates:
  assumes "store_ok s" "map rt_ID rows = map rt_ID (tb_repo_templates s)"
  shows "store_ok (s\<lparr>tb_repo_templates := rows\<rparr>)"
proof -
  have "rt_ID ` set rows = rt_ID ` set (tb_repo_templates s)"
    using arg_cong [OF assms(2), of set] by simp
  with assms show ?thesis by (simp add: store_ok_defs)
qed

lemma dbi_UpdateRepoTemplate [intro]: "dbi.steps (UpdateRepoTemplate r)"
  unfolding UpdateRepoTemplate_def
  by (intro dbi.steps_intros dbi_time_now dbi_exec)
     (auto simp: Let_def case_prod_beta map_key_update intro!: store_ok_repo_templates)

lemma delete_repo_template_ok:
  assumes "store_ok s" "delete_repo_template i s = Inr (n, s')"
  shows "store_ok s'"
proof (cases "fk_on s")
  case True
  let ?s = "s\<lparr>tb_repo_templates := filter (\<lambda>t. rt_ID t \<noteq> i) (tb_repo_templates s),
              tb_repo_memories := filter (\<lambda>m. rm_RepoTemplateID m \<noteq> i) (tb_repo_memories s)\<rparr>"
  have "s' = ?s" using assms(2) True by (simp add: delete_repo_template_def delete_rows_def Let_def)
  moreover have "rm_RepoTemplateID ` set (filter (\<lambda>m. rm_RepoTemplateID m \<noteq> i) (tb_repo_memories s)) \<subseteq>
      rt_ID ` set (filter (\<lambda>t. rt_ID t \<noteq> i) (tb_repo_templates s))"
  proof -
    have r: "rm_RepoTemplateID ` set (tb_repo_memories s) \<subseteq> rt_ID ` set (tb_repo_templates s)"
      using assms(1) True by (simp add: store_ok_def refs_ok_def)
    show ?thesis
    proof
      fix x assume "x \<in> rm_RepoTemplateID ` set (filter (\<lambda>m. rm_RepoTemplateID m \<noteq> i) (tb_repo_memories s))"
      then have "x \<in> rm_RepoTemplateID ` set (tb_repo_memories s)" "x \<noteq> i" by auto
      with r obtain t where "t \<in> set (tb_repo_templates s)" "x = rt_ID t" by blast
      with \<open>x \<noteq> i\<close> show "x \<in> rt_ID ` set (filter (\<lambda>t. rt_ID t \<noteq> i) (tb_repo_templates s))" by auto
    qed
  qed
  ultimately show ?thesis using assms(1) by (simp add: store_ok_defs distinct_map_filter)
next
  case False
  then have "s' = s\<lparr>tb_repo_templates := filter (\<lambda>t. rt_ID t \<noteq> i) (tb_repo_templates s)\<rparr>"
    using assms(2) by (simp add: delete_repo_template_def delete_rows_def Let_def)
  with False assms(1) show ?thesis by (simp add: store_ok_defs distinct_map_filter)
qed

lemma dbi_DeleteRepoTemplate [intro]: "dbi.steps (DeleteRepoTemplate i)"
  unfolding DeleteRepoTemplate_def
  by (intro dbi.steps_intros dbi_exec) (auto dest: delete_repo_template_ok)

lemma dbi_CreateRepoMemory [intro]: "dbi.steps (CreateRepoMemory m)"
  unfolding CreateRepoMemory_def
  by (intro dbi.steps_or_fail dbi.steps_ok dbi_exec)
     (auto simp: insert_row_Inr list_ex_iff split: sum.splits if_splits intro!: store_ok_add)

lemma store_ok_memories_filter:
  assumes "store_ok s"
  shows "store_ok (s\<lparr>tb_repo_memories := filter P (tb_repo_memories s)\<rparr>)"
proof -
  have "rm_RepoTemplateID ` set (filter P (tb_repo_memories s)) \<subseteq> rm_RepoTemplateID ` set (tb_repo_memories s)"
    by auto
  with assms show ?thesis by (auto simp: store_ok_defs distinct_map_filter)
qed

lemma dbi_DeleteRepoMemoriesByTemplate [intro]: "dbi.steps (DeleteRepoMemoriesByTemplate i)"
  unfolding DeleteRepoMemoriesByTemplate_def
  by (intro dbi.steps_intros dbi_exec)
     (auto simp: Let_def delete_rows_def intro!: store_ok_memories_filter)

lemma dbi_CreatePlannerQuestion [intro]: "dbi.steps (CreatePlannerQuestion q)"
  unfolding CreatePlannerQuestion_def
  by (intro dbi.steps_or_fail dbi.steps_ok dbi_exec)
     (auto simp: insert_row_Inr split: sum.splits intro!: store_ok_add)

lemma store_ok_questions:
  assumes "store_ok s" "map pq_ID rows = map pq_ID (tb_planner_questions s)"
    "map pq_TaskID rows = map pq_TaskID (tb_planner_questions s)"
  shows "store_ok (s\<lparr>tb_planner_questions := rows\<rparr>)"
proof -
  have "pq_TaskID ` set rows = pq_TaskID ` set (tb_planner_questions s)"
    using arg_cong [OF assms(3), of set] by simp
  with assms show ?thesis by (simp add: store_ok_defs)
qed

lemma dbi_AnswerPlannerQuestion [intro]: "dbi.steps (AnswerPlannerQuestion i a)"
  unfolding AnswerPlannerQuestion_def
  by (intro dbi.steps_intros dbi_time_now dbi_exec)
     (auto simp: Let_def case_prod_beta map_key_update intro!: store_ok_questions)

lemma store_ok_team_templates:
  "store_ok s \<Longrightarrow> distinct (map tt_ID rows) \<Longrightarrow> store_ok (s\<lparr>tb_team_templates := rows\<rparr>)"
  by (simp add: store_ok_defs)

lemma store_ok_team_keys: "store_ok s \<Longrightarrow> distinct (map tt_ID (tb_team_templates s))"
  by (simp add: store_ok_defs)

lemma dbi_CreateTeamTemplate [intro]: "dbi.steps (CreateTeamTemplate t)"
  unfolding CreateTeamTemplate_def Let_def
  by (intro dbi.steps_or_fail dbi.steps_ok dbi_exec)
     (auto simp: insert_row_Inr split: sum.splits intro!: store_ok_add)

lemma dbi_UpdateTeamTemplate [intro]: "dbi.steps (UpdateTeamTemplate t)"
  unfolding UpdateTeamTemplate_def Let_def
  by (intro dbi.steps_intros dbi_time_now dbi_exec)
     (auto simp: Let_def case_prod_beta map_key_update store_ok_team_keys intro!: store_ok_team_templates)

lemma dbi_DeleteTeamTemplate [intro]: "dbi.steps (DeleteTeamTemplate i)"
  unfolding DeleteTeamTemplate_def
  by (intro dbi.steps_intros dbi_exec)
     (auto simp: Let_def delete_rows_def distinct_map_filter store_ok_team_keys intro!: store_ok_team_templates)

lemma dbi_CreateAgentMessage [intro]: "dbi.steps (CreateAgentMessage m)"
  unfolding CreateAgentMessage_def
  by (intro dbi.steps_or_fail dbi.steps_ok dbi_exec)
     (auto simp: Let_def split: if_splits intro!: store_ok_add)

section \<open>Runs of methods\<close>

text \<open>A call of a method that writes, and the state after a list of calls.\<close>

datatype db_call =
    DbCreateTask Task | DbUpdateTaskStatus string TaskStatus | DbUpdateTaskStarted string
  | DbUpdateTaskCompleted string | DbUpdateTaskFailed string string | DbUpdateTaskHasState string bool
  | DbDeleteTask string | DbCreateEvent Event | DbCreateAgent Agent | DbUpdateAgentStatus string string
  | DbUpdateAgentCompleted string int "string option" | DbUpdateAgentContainer string string
  | DbCreatePlan Plan | DbUpdatePlanStatus string string | DbUpdatePlanSubtasks string string
  | DbCreateTaskFile TaskFile | DbCreateCheckpoint Checkpoint | DbDeleteCheckpoint string
  | DbCreateRepoTemplate RepoTemplate | DbUpdateRepoTemplate RepoTemplate | DbDeleteRepoTemplate string
  | DbCreateRepoMemory RepoMemory | DbDeleteRepoMemories string
  | DbCreateQuestion PlannerQuestion | DbAnswerQuestion string string
  | DbCreateTeamTemplate TeamTemplate | DbUpdateTeamTemplate TeamTemplate | DbDeleteTeamTemplate string
  | DbCreateAgentMessage AgentMessage

fun db_exec :: "db_call \<Rightarrow> ('m sql_world_scheme, unit) state" where
  "db_exec (DbCreateTask t) = ignore (CreateTask t)"
| "db_exec (DbUpdateTaskStatus i st) = ignore (UpdateTaskStatus i st)"
| "db_exec (DbUpdateTaskStarted i) = ignore (UpdateTaskStarted i)"
| "db_exec (DbUpdateTaskCompleted i) = ignore (UpdateTaskCompleted i)"
| "db_exec (DbUpdateTaskFailed i msg) = ignore (UpdateTaskFailed i msg)"
| "db_exec (DbUpdateTaskHasState i b) = ignore (UpdateTaskHasState i b)"
| "db_exec (DbDeleteTask i) = ignore (DeleteTask i)"
| "db_exec (DbCreateEvent e) = ignore (CreateEvent e)"
| "db_exec (DbCreateAgent a) = ignore (CreateAgent a)"
| "db_exec (DbUpdateAgentStatus i st) = ignore (UpdateAgentStatus i st)"
| "db_exec (DbUpdateAgentCompleted i c e) = ignore (UpdateAgentCompleted i c e)"
| "db_exec (DbUpdateAgentContainer i c) = ignore (UpdateAgentContainer i c)"
| "db_exec (DbCreatePlan p) = ignore (CreatePlan p)"
| "db_exec (DbUpdatePlanStatus i st) = ignore (UpdatePlanStatus i st)"
| "db_exec (DbUpdatePlanSubtasks i x) = ignore (UpdatePlanSubtasks i x)"
| "db_exec (DbCreateTaskFile f) = ignore (CreateTaskFile f)"
| "db_exec (DbCreateCheckpoint c) = ignore (CreateCheckpoint c)"
| "db_exec (DbDeleteCheckpoint i) = ignore (DeleteCheckpoint i)"
| "db_exec (DbCreateRepoTemplate t) = ignore (CreateRepoTemplate t)"
| "db_exec (DbUpdateRepoTemplate t) = ignore (UpdateRepoTemplate t)"
| "db_exec (DbDeleteRepoTemplate i) = ignore (DeleteRepoTemplate i)"
| "db_exec (DbCreateRepoMemory r) = ignore (CreateRepoMemory r)"
| "db_exec (DbDeleteRepoMemories i) = ignore (DeleteRepoMemoriesByTemplate i)"
| "db_exec (DbCreateQuestion q) = ignore (CreatePlannerQuestion q)"
| "db_exec (DbAnswerQuestion i a) = ignore (AnswerPlannerQuestion i a)"
| "db_exec (DbCreateTeamTemplate t) = ignore (CreateTeamTemplate t)"
| "db_exec (DbUpdateTeamTemplate t) = ignore (UpdateTeamTemplate t)"
| "db_exec (DbDeleteTeamTemplate i) = ignore (DeleteTeamTemplate i)"
| "db_exec (DbCreateAgentMessage r) = ignore (CreateAgentMessage r)"

definition db_run :: "bool \<Rightarrow> (nat \<Rightarrow> time) \<Rightarrow> (nat \<Rightarrow> string option) \<Rightarrow> db_call list \<Rightarrow> sql_world" where
  "db_run fk clock faults calls = snd (run_state (for_each calls db_exec)
     \<lparr>w_store = empty_store fk, w_tick = 0, w_clock = clock, w_fault = faults\<rparr>)"

lemma dbi_db_exec [intro]: "dbi.steps (db_exec c)"
  by (cases c) auto

lemma store_ok_run: "store_ok (w_store (db_run fk clock faults calls))"
proof -
  have "dbi.steps (for_each calls (db_exec :: db_call \<Rightarrow> (sql_world, unit) state))" by auto
  from dbi.stepsD [OF this] show ?thesis by (simp add: db_run_def keeps_ok_def)
qed

text \<open>The state after a run from whose end on the driver reports no error.\<close>

definition db_calm :: "bool \<Rightarrow> (nat \<Rightarrow> time) \<Rightarrow> (nat \<Rightarrow> string option) \<Rightarrow> db_call list \<Rightarrow> sql_world" where
  "db_calm fk clock faults calls = (db_run fk clock faults calls)\<lparr>w_fault := \<lambda>_. None\<rparr>"

lemma db_calm_sel [simp]:
  "w_fault (db_calm fk clock faults calls) = (\<lambda>_. None)"
  "store_ok (w_store (db_calm fk clock faults calls))"
  using store_ok_run by (simp_all add: db_calm_def)

text \<open>The ids of the tasks that the rows of the other tables refer to.\<close>

definition task_refs :: "store \<Rightarrow> string list" where
  "task_refs s = map plan_TaskID (tb_plans s) @ map agent_TaskID (tb_agents s) @
     map event_TaskID (tb_events s) @ map tf_TaskID (tb_task_files s) @ map cp_TaskID (tb_checkpoints s) @
     map pq_TaskID (tb_planner_questions s) @ map am_TaskID (tb_agent_messages s)"

definition messages_after :: "'m sql_world_scheme \<Rightarrow> string \<Rightarrow> int \<Rightarrow> AgentMessage list" where
  "messages_after w taskID afterID =
     (case fst (run_state (ListAgentMessagesAfterID taskID afterID) w) of Inl _ \<Rightarrow> [] | Inr ms \<Rightarrow> ms)"

lemma fk_on_delete_task: "delete_task i s = Inr (n, s') \<Longrightarrow> fk_on s' = fk_on s"
  by (auto simp: delete_task_def delete_rows_def cascade_task_def Let_def split: if_splits)

lemma map_filter_key: "map f (filter (\<lambda>r. f r \<noteq> i) rows) = filter (\<lambda>x. x \<noteq> i) (map f rows)"
  by (induction rows) auto

lemma task_refs_cascade:
  "task_refs (cascade_task i (s\<lparr>tb_tasks := ts\<rparr>)) = filter (\<lambda>x. x \<noteq> i) (task_refs s)"
  by (simp add: task_refs_def cascade_task_def snd_delete_rows map_filter_key)

lemma DeleteTask_run:
  assumes ok: "store_ok (w_store w)"
  shows "case run_state (DeleteTask i) w of
      (Inl e, w') \<Rightarrow> w_store w' = w_store w
    | (Inr u, w') \<Rightarrow> i \<in> task_ids (w_store w) \<and>
        tb_tasks (w_store w') = filter (\<lambda>t. task_ID t \<noteq> i) (tb_tasks (w_store w)) \<and>
        task_refs (w_store w') =
          (if fk_on (w_store w) then filter (\<lambda>x. x \<noteq> i) (task_refs (w_store w)) else task_refs (w_store w))"
proof -
  let ?s = "w_store w"
  let ?hit = "filter (\<lambda>t. task_ID t = i) (tb_tasks ?s)" and ?rest = "filter (\<lambda>t. task_ID t \<noteq> i) (tb_tasks ?s)"
  consider e where "w_fault w (w_tick w) = Some e"
    | "w_fault w (w_tick w) = None" "?hit = []" | "w_fault w (w_tick w) = None" "?hit \<noteq> []"
    by (cases "w_fault w (w_tick w)") auto
  then show ?thesis
  proof cases
    case 1 then show ?thesis by (simp add: DeleteTask_def exec_def)
  next
    case 2
    then have "?rest = tb_tasks ?s" by (auto simp: filter_empty_conv filter_id_conv)
    then have "?s\<lparr>tb_tasks := ?rest\<rparr> = ?s" by simp
    with 2 show ?thesis by (simp add: DeleteTask_def exec_def delete_task_def delete_rows_def Let_def)
  next
    case 3
    then have "i \<in> task_ids ?s" by (auto simp: task_ids_def filter_empty_conv)
    moreover have "tb_tasks (cascade_task i (?s\<lparr>tb_tasks := ?rest\<rparr>)) = ?rest" by (simp add: cascade_task_def)
    ultimately show ?thesis using 3
      by (auto simp: DeleteTask_def exec_def delete_task_def delete_rows_def Let_def task_refs_cascade task_refs_def [of "_\<lparr>tb_tasks := _\<rparr>"])
         (simp add: task_refs_def)
  qed
qed

lemma order_by_sorted_id: "sorted_wrt (<) (map key rows) \<Longrightarrow> order_by key rows = (rows :: 'a list)"
  for key :: "'a \<Rightarrow> int"
  unfolding order_by_def
  by (rule sort_key_id_if_sorted) (simp add: sorted_wrt_mono_rel [of _ "(<)"])

lemma messages_after_eq:
  assumes "store_ok (w_store w)" "w_fault w = (\<lambda>_. None)"
  shows "messages_after w t a =
    filter (\<lambda>m. am_TaskID m = t \<and> am_ID m > a) (tb_agent_messages (w_store w))"
proof -
  have "sorted_wrt (<) (map am_ID (filter (\<lambda>m. am_TaskID m = t \<and> am_ID m > a) (tb_agent_messages (w_store w))))"
    using assms(1) by (simp add: store_ok_def seqs_ok_def sorted_wrt_map_filter)
  with assms(2) show ?thesis
    by (simp add: messages_after_def ListAgentMessagesAfterID_def order_by_sorted_id)
qed

section \<open>Properties\<close>


text \<open>A task that was created can be read back with all the fields it was created with, and no
  other task's row changes; the creation fails, without effect, exactly when the id is taken.\<close>

theorem CreateTask_GetTask:
  "let w = db_calm fk clock faults calls;
       read = (\<lambda>i w. fst (run_state (GetTask i) w));
       row = t\<lparr>task_Error := None, task_StartedAt := None, task_PausedAt := None, task_CompletedAt := None\<rparr>
   in case run_state (CreateTask t) w of
        (Inl e, w') \<Rightarrow> task_ID t \<in> task_ids (w_store w) \<and> w_store w' = w_store w
      | (Inr u, w') \<Rightarrow> task_ID t \<notin> task_ids (w_store w) \<and>
          read i w' = (if i = task_ID t then Inr (Some row) else read i w)"
proof -
  let ?w = "db_calm fk clock faults calls"
  let ?row = "t\<lparr>task_Error := None, task_StartedAt := None, task_PausedAt := None, task_CompletedAt := None\<rparr>"
  have f: "find P (rows @ [r]) = (case find P rows of None \<Rightarrow> if P r then Some r else None | Some q \<Rightarrow> Some q)"
    for P rows and r :: Task by (induction rows) auto
  have n: "task_ID t \<notin> task_ids (w_store ?w) \<Longrightarrow> find (\<lambda>q. task_ID q = task_ID t) (tb_tasks (w_store ?w)) = None"
    by (auto simp: find_None_iff task_ids_def) (metis imageI)
  show ?thesis
  proof (cases "task_ID t \<in> task_ids (w_store ?w)")
    case True
    then have "list_ex (\<lambda>q. task_ID q = task_ID t) (tb_tasks (w_store ?w))"
      by (auto simp: task_ids_def list_ex_iff)
    with True show ?thesis by (simp add: CreateTask_def exec_def insert_row_def Let_def)
  next
    case False
    then have "\<not> list_ex (\<lambda>q. task_ID q = task_ID t) (tb_tasks (w_store ?w))"
      by (auto simp: task_ids_def list_ex_iff) (metis imageI)
    with False n [OF False] show ?thesis
      by (simp add: CreateTask_def GetTask_def exec_def insert_row_def Let_def f split: option.split)
  qed
qed

text \<open>C10: \<open>DeleteTask\<close> removes exactly the task. When foreign keys are enforced the rows of all
  other tables that refer to the task are removed with it; when they are not, all of them stay.
  When it fails, nothing changes.\<close>

theorem DeleteTask_cascade:
  "let w = db_run fk clock faults calls in
   case run_state (DeleteTask i) w of
      (Inl e, w') \<Rightarrow> w_store w' = w_store w
    | (Inr u, w') \<Rightarrow> i \<in> task_ids (w_store w) \<and>
        tb_tasks (w_store w') = filter (\<lambda>t. task_ID t \<noteq> i) (tb_tasks (w_store w)) \<and>
        task_refs (w_store w') =
          (if fk_on (w_store w) then filter (\<lambda>x. x \<noteq> i) (task_refs (w_store w)) else task_refs (w_store w))"
  using DeleteTask_run [OF store_ok_run] by (simp add: Let_def)

text \<open>C11: The messages of a task are a log: a new message gets an id larger than all before, and
  \<open>ListAgentMessagesAfterID\<close>, asked for what came after any id already given out, returns what
  it returned before followed by the new message.\<close>

theorem agent_messages_log:
  assumes "a \<le> seq_agent_messages (w_store (db_calm fk clock faults calls))"
  shows "let w = db_calm fk clock faults calls in
   case run_state (CreateAgentMessage m) w of
      (Inl e, w') \<Rightarrow> w_store w' = w_store w
    | (Inr k, w') \<Rightarrow> list_all (\<lambda>q. am_ID q < k) (tb_agent_messages (w_store w)) \<and>
        messages_after w' t a = messages_after w t a @ (if am_TaskID m = t then [m\<lparr>am_ID := k\<rparr>] else [])"
proof -
  let ?w = "db_calm fk clock faults calls"
  let ?k = "seq_agent_messages (w_store ?w) + 1"
  let ?s = "(w_store ?w)\<lparr>tb_agent_messages := tb_agent_messages (w_store ?w) @ [m\<lparr>am_ID := ?k\<rparr>],
                         seq_agent_messages := ?k\<rparr>"
  show ?thesis
  proof (cases "fk_task (w_store ?w) (am_TaskID m)")
    case True
    have "store_ok ?s" by (rule store_ok_message) (use True in \<open>simp_all add: fk_task_def has_task_def\<close>)
    then have "messages_after ((tick ?w)\<lparr>w_store := ?s\<rparr>) t a =
        filter (\<lambda>q. am_TaskID q = t \<and> am_ID q > a) (tb_agent_messages ?s)"
      by (subst messages_after_eq) simp_all
    moreover have "\<forall>q \<in> set (tb_agent_messages (w_store ?w)). am_ID q < ?k"
      using db_calm_sel(2) [of fk clock faults calls] by (auto simp: store_ok_def seqs_ok_def zless_add1_eq)
    ultimately show ?thesis using True assms
      by (simp add: CreateAgentMessage_def exec_def Let_def list_all_iff messages_after_eq [of ?w])
  next
    case False
    then show ?thesis by (simp add: CreateAgentMessage_def exec_def Let_def)
  qed
qed

definition sample_message :: AgentMessage where
  "sample_message = \<lparr>am_ID = 0, am_TaskID = ''t'', am_FromAgentID = None, am_FromSubtaskID = None,
     am_ToAgentID = None, am_ToSubtaskID = None, am_MsgType = ''message'', am_Content = ''hi'',
     am_CreatedAt = 0\<rparr>"

theorem agent_messages_log_witness:
  "messages_after (snd (run_state (CreateAgentMessage sample_message)
      (db_calm False (\<lambda>_. 0) (\<lambda>_. None) []))) ''t'' 0 = [sample_message\<lparr>am_ID := 1\<rparr>]"
proof -
  let ?w = "db_calm False (\<lambda>_. 0) (\<lambda>_. None) []"
  have s: "w_store ?w = empty_store False" by (simp add: db_calm_def db_run_def)
  have r: "fst (run_state (CreateAgentMessage sample_message) ?w) = Inr 1"
    by (simp add: CreateAgentMessage_def exec_def s fk_task_def Let_def empty_store_def)
  have "messages_after ?w ''t'' 0 = []"
    by (simp add: messages_after_eq s) (simp add: empty_store_def)
  then show ?thesis
    using agent_messages_log [where a = 0 and fk = False and clock = "\<lambda>_. 0" and faults = "\<lambda>_. None"
        and calls = "[]" and m = sample_message and t = "''t''"] r
    by (simp add: s case_prod_beta split: sum.splits)
       (simp add: empty_store_def sample_message_def)
qed

end
