(* ===== verification/Json.thy ===== *)
theory Json
  imports Go_Strings
begin

text \<open>
  What the code uses of \<open>encoding/json\<close>: the syntax check and parser on bytes, with the escapes
  and the replacement of invalid UTF-8 by U+FFFD, the printer of \<open>json.Marshal\<close>, and decoding
  into structs with its matching of keys. Decoding fails on a syntax error and on a value of the
  wrong type; the code looks at nothing else after an error. The parser's fuel is twice the
  length of the input, which bounds the calls it makes. A nil slice and an empty slice are the
  same here, so both print as \<open>[]\<close>; the code prints \<open>null\<close> for a nil one, which decodes alike.
\<close>

section \<open>Runes\<close>

abbreviation byte :: "char \<Rightarrow> nat" where
  "byte c \<equiv> of_char c"

definition cont_byte :: "char \<Rightarrow> bool" where
  "cont_byte c \<longleftrightarrow> 128 \<le> byte c \<and> byte c \<le> 191"

text \<open>The number of bytes of the rune at the head, 0 if they are no valid UTF-8.\<close>

definition lead_len :: "char \<Rightarrow> nat" where
  "lead_len a =
     (if byte a < 128 then 1
      else if 194 \<le> byte a \<and> byte a \<le> 223 then 2
      else if 224 \<le> byte a \<and> byte a \<le> 239 then 3
      else if 240 \<le> byte a \<and> byte a \<le> 244 then 4
      else 0)"

definition second_ok :: "char \<Rightarrow> char \<Rightarrow> bool" where
  "second_ok a b \<longleftrightarrow>
     (byte a = 224 \<longrightarrow> 160 \<le> byte b) \<and> (byte a = 237 \<longrightarrow> byte b \<le> 159) \<and>
     (byte a = 240 \<longrightarrow> 144 \<le> byte b) \<and> (byte a = 244 \<longrightarrow> byte b \<le> 143)"

definition rune_len :: "string \<Rightarrow> nat" where
  "rune_len s = (case s of [] \<Rightarrow> 0 | a # t \<Rightarrow>
     if lead_len a \<le> 1 then lead_len a
     else if lead_len a - 1 \<le> length t \<and> second_ok a (hd t) \<and>
             list_all cont_byte (take (lead_len a - 1) t)
     then lead_len a else 0)"

definition chr :: "nat \<Rightarrow> char" where
  "chr n = char_of n"

definition encode_rune :: "nat \<Rightarrow> string" where
  "encode_rune r =
     (if r < 128 then [chr r]
      else if r < 2048 then [chr (192 + r div 64), chr (128 + r mod 64)]
      else if r < 65536 then [chr (224 + r div 4096), chr (128 + r div 64 mod 64), chr (128 + r mod 64)]
      else [chr (240 + r div 262144), chr (128 + r div 4096 mod 64), chr (128 + r div 64 mod 64),
            chr (128 + r mod 64)])"

definition rune_error :: string where
  "rune_error = [CHR 0xEF, CHR 0xBF, CHR 0xBD]"

lemma rune_len_le: "rune_len s \<le> length s"
  by (auto simp: rune_len_def lead_len_def split: list.splits)

lemma rune_len_take:
  assumes n: "rune_len s = n" "0 < n"
  shows "rune_len (take n s @ r) = n"
proof -
  obtain a t where s: "s = a # t" using n by (cases s) (auto simp: rune_len_def)
  have l: "n = lead_len a" using n s by (auto simp: rune_len_def split: if_splits)
  show ?thesis
  proof (cases "n \<le> 1")
    case True
    then have "lead_len a = 1" using n(2) l by simp
    with n l s show ?thesis by (simp add: rune_len_def)
  next
    case False
    then have le: "n - 1 \<le> length t" and ok: "second_ok a (hd t)" "list_all cont_byte (take (n - 1) t)"
      using n l s by (auto simp: rune_len_def split: if_splits)
    have t: "take n s @ r = a # (take (n - 1) t @ r)" using False s by (cases n) auto
    have "hd (take (n - 1) t @ r) = hd t" using False le by (cases t) auto
    moreover have "take (n - 1) (take (n - 1) t @ r) = take (n - 1) t" using le by simp
    ultimately show ?thesis using False le ok by (simp add: t rune_len_def l [symmetric])
  qed
qed

lemma rune_len_ascii: "byte a < 128 \<Longrightarrow> rune_len (a # s) = 1"
  by (simp add: rune_len_def lead_len_def)

section \<open>Strings\<close>

definition hex_value :: "char \<Rightarrow> nat option" where
  "hex_value c =
     (if 48 \<le> byte c \<and> byte c \<le> 57 then Some (byte c - 48)
      else if 97 \<le> byte c \<and> byte c \<le> 102 then Some (byte c - 87)
      else if 65 \<le> byte c \<and> byte c \<le> 70 then Some (byte c - 55)
      else None)"

definition hex_digit :: "nat \<Rightarrow> char" where
  "hex_digit n = (if n < 10 then chr (48 + n) else chr (87 + n))"

definition hex4 :: "string \<Rightarrow> nat option" where
  "hex4 s = (case map hex_value (take 4 s) of
     [Some a, Some b, Some c, Some d] \<Rightarrow> Some (4096 * a + 256 * b + 16 * c + d) | _ \<Rightarrow> None)"

text \<open>The rune of the escape \<open>\u\<close> with these digits and the bytes that follow; a surrogate needs
  its partner. The second component is what is left of the input.\<close>

definition u_escape :: "nat \<Rightarrow> string \<Rightarrow> string \<times> string" where
  "u_escape r s =
     (if 55296 \<le> r \<and> r < 57344 then
        (case (if take 2 s = [CHR 0x5C, CHR ''u''] then hex4 (drop 2 s) else None) of
           Some r2 \<Rightarrow>
             if r < 56320 \<and> 56320 \<le> r2 \<and> r2 < 57344
             then (encode_rune (65536 + (r - 55296) * 1024 + (r2 - 56320)), drop 6 s)
             else (rune_error, s)
         | None \<Rightarrow> (rune_error, s))
      else (encode_rune r, s))"

lemma length_u_escape: "length (snd (u_escape r s)) \<le> length s"
  by (auto simp: u_escape_def split: option.splits)

definition simple_escape :: "char \<Rightarrow> char option" where
  "simple_escape c = map_of
     [(CHR 0x22, CHR 0x22), (CHR 0x5C, CHR 0x5C), (CHR ''/'', CHR ''/''), (CHR ''b'', CHR 0x08),
      (CHR ''f'', CHR 0x0C), (CHR ''n'', CHR 0x0A), (CHR ''r'', CHR 0x0D), (CHR ''t'', CHR 0x09)] c"

text \<open>The content of a string after its opening quote, and what follows the closing one.\<close>

function parse_str :: "string \<Rightarrow> (string \<times> string) option" where
  "parse_str [] = None"
| "parse_str (c # s) =
     (if c = CHR 0x22 then Some ([], s)
      else if c = CHR 0x5C then
        (case s of [] \<Rightarrow> None | e # s' \<Rightarrow>
           (case simple_escape e of
              Some x \<Rightarrow> map_option (apfst (Cons x)) (parse_str s')
            | None \<Rightarrow>
                if e = CHR ''u'' then
                  (case hex4 s' of None \<Rightarrow> None
                   | Some r \<Rightarrow> map_option (apfst (append (fst (u_escape r (drop 4 s')))))
                                 (parse_str (snd (u_escape r (drop 4 s')))))
                else None))
      else if byte c < 32 then None
      else if rune_len (c # s) = 0 then map_option (apfst (append rune_error)) (parse_str s)
      else map_option (apfst (append (take (rune_len (c # s)) (c # s))))
             (parse_str (drop (rune_len (c # s) - 1) s)))"
  by pat_completeness auto

termination parse_str
  by (relation "measure length") (auto intro!: le_less_trans [OF length_u_escape])

declare parse_str.simps(2) [simp del]

text \<open>\<open>json.Marshal\<close> of a string, without the quotes.\<close>

definition escape_byte :: "char \<Rightarrow> string" where
  "escape_byte c =
     (if c = CHR 0x22 \<or> c = CHR 0x5C then [CHR 0x5C, c]
      else if c = CHR 0x08 then [CHR 0x5C, CHR ''b'']
      else if c = CHR 0x0C then [CHR 0x5C, CHR ''f'']
      else if c = CHR 0x0A then [CHR 0x5C, CHR ''n'']
      else if c = CHR 0x0D then [CHR 0x5C, CHR ''r'']
      else if c = CHR 0x09 then [CHR 0x5C, CHR ''t'']
      else if byte c < 32 \<or> c = CHR ''<'' \<or> c = CHR ''>'' \<or> c = CHR ''&''
        then CHR 0x5C # ''u00'' @ [hex_digit (byte c div 16), hex_digit (byte c mod 16)]
      else [c])"

function escape :: "string \<Rightarrow> string" where
  "escape [] = []"
| "escape (c # s) =
     (if byte c < 128 then escape_byte c @ escape s
      else if rune_len (c # s) = 0 then CHR 0x5C # ''ufffd'' @ escape s
      else (if take 3 (c # s) = [CHR 0xE2, CHR 0x80, CHR 0xA8] then CHR 0x5C # ''u2028''
            else if take 3 (c # s) = [CHR 0xE2, CHR 0x80, CHR 0xA9] then CHR 0x5C # ''u2029''
            else take (rune_len (c # s)) (c # s))
           @ escape (drop (rune_len (c # s) - 1) s))"
  by pat_completeness auto

termination escape
  by (relation "measure length") auto

declare escape.simps(2) [simp del]

text \<open>The string with every invalid byte replaced by U+FFFD: what a string becomes on the way
  through JSON.\<close>

function to_valid :: "string \<Rightarrow> string" where
  "to_valid [] = []"
| "to_valid (c # s) =
     (if rune_len (c # s) = 0 then rune_error @ to_valid s
      else take (rune_len (c # s)) (c # s) @ to_valid (drop (rune_len (c # s) - 1) s))"
  by pat_completeness auto

termination to_valid
  by (relation "measure length") auto

declare to_valid.simps(2) [simp del]

section \<open>A string survives printing and parsing\<close>

lemma byte_chr: "n < 256 \<Longrightarrow> byte (chr n) = n"
  by (simp add: chr_def)

lemma chr_eqI: "n < 256 \<Longrightarrow> byte c = n \<Longrightarrow> chr n = c"
  by (auto simp: chr_def)

lemma chr_values:
  "chr 239 = CHR 0xEF" "chr 191 = CHR 0xBF" "chr 189 = CHR 0xBD" "chr 226 = CHR 0xE2"
  "chr 128 = CHR 0x80" "chr 168 = CHR 0xA8" "chr 169 = CHR 0xA9"
  by (rule chr_eqI; simp)+

lemma chr_byte [simp]: "chr (byte c) = c"
  by (simp add: chr_def)

lemma hex_value_digit: "n < 16 \<Longrightarrow> hex_value (hex_digit n) = Some n"
  by (simp add: hex_value_def hex_digit_def byte_chr)

lemma parse_str_plain:
  assumes "c \<noteq> CHR 0x22" "c \<noteq> CHR 0x5C" "32 \<le> byte c" "rune_len (c # s) \<noteq> 0"
  shows "parse_str (c # s) = map_option (apfst (append (take (rune_len (c # s)) (c # s))))
             (parse_str (drop (rune_len (c # s) - 1) s))"
  using assms by (simp add: parse_str.simps(2))

lemma parse_str_u:
  assumes "hex4 s = Some r"
  shows "parse_str (CHR 0x5C # CHR ''u'' # s) =
    map_option (apfst (append (fst (u_escape r (drop 4 s))))) (parse_str (snd (u_escape r (drop 4 s))))"
  using assms by (simp add: parse_str.simps(2) simple_escape_def)

lemma parse_str_simple:
  "simple_escape e = Some x \<Longrightarrow>
   parse_str (CHR 0x5C # e # s) = map_option (apfst (Cons x)) (parse_str s)"
  by (simp add: parse_str.simps(2))

lemma apfst_append: "apfst (append [x]) = apfst (Cons x)"
  by (simp add: fun_eq_iff)

lemma parse_escape_byte:
  assumes "byte c < 128"
  shows "parse_str (escape_byte c @ s) = map_option (apfst (Cons c)) (parse_str s)"
proof -
  consider "c \<in> {CHR 0x22, CHR 0x5C, CHR 0x08, CHR 0x0C, CHR 0x0A, CHR 0x0D, CHR 0x09}"
    | "c \<notin> {CHR 0x22, CHR 0x5C, CHR 0x08, CHR 0x0C, CHR 0x0A, CHR 0x0D, CHR 0x09}"
      "byte c < 32 \<or> c = CHR ''<'' \<or> c = CHR ''>'' \<or> c = CHR ''&''"
    | "c \<notin> {CHR 0x22, CHR 0x5C, CHR 0x08, CHR 0x0C, CHR 0x0A, CHR 0x0D, CHR 0x09}"
      "\<not> (byte c < 32 \<or> c = CHR ''<'' \<or> c = CHR ''>'' \<or> c = CHR ''&'')" by blast
  then show ?thesis
  proof cases
    case 1
    then show ?thesis by (auto simp: escape_byte_def parse_str_simple simple_escape_def)
  next
    case 2
    have "byte c div 16 < 16" using assms by auto
    then have "hex4 (''00'' @ [hex_digit (byte c div 16), hex_digit (byte c mod 16)] @ s) = Some (byte c)"
      by (simp add: hex4_def hex_value_digit) (simp add: hex_value_def)
    moreover have "u_escape (byte c) s = ([c], s)"
      using assms by (simp add: u_escape_def encode_rune_def)
    moreover have "escape_byte c = CHR 0x5C # ''u00'' @ [hex_digit (byte c div 16), hex_digit (byte c mod 16)]"
      using 2 by (simp add: escape_byte_def)
    ultimately show ?thesis by (simp add: parse_str_u apfst_append)
  next
    case 3
    then have "escape_byte c = [c]" "c \<noteq> CHR 0x22" "c \<noteq> CHR 0x5C" "32 \<le> byte c"
      by (simp_all add: escape_byte_def)
    with rune_len_ascii [OF assms, of s] show ?thesis
      by (simp add: parse_str_plain apfst_append)
  qed
qed

lemma parse_escape: "parse_str (escape s @ CHR 0x22 # r) = Some (to_valid s, r)"
proof (induction s rule: escape.induct)
  case 1
  show ?case by (simp add: parse_str.simps(2))
next
  case (2 c s)
  let ?n = "rune_len (c # s)" and ?rest = "escape (drop (rune_len (c # s) - 1) s) @ CHR 0x22 # r"
  consider "byte c < 128" | "\<not> byte c < 128" "?n = 0" | "\<not> byte c < 128" "?n \<noteq> 0" by blast
  then show ?case
  proof cases
    case 1
    with 2(1) show ?thesis
      by (simp add: escape.simps(2) to_valid.simps(2) parse_escape_byte rune_len_ascii)
  next
    case 2
    have "hex4 (''fffd'' @ escape s @ CHR 0x22 # r) = Some 65533"
      by (simp add: hex4_def hex_value_def)
    moreover have "u_escape 65533 x = (rune_error, x)" for x
      by (simp add: u_escape_def encode_rune_def rune_error_def chr_values)
    ultimately show ?thesis
      using "2.IH"(2) [OF 2] 2 by (simp add: escape.simps(2) to_valid.simps(2) parse_str_u)
  next
    case 3
    have IH: "parse_str ?rest = Some (to_valid (drop (?n - 1) s), r)" using "2.IH"(3) [OF 3] .
    let ?x = "take ?n (c # s)"
    have v: "to_valid (c # s) = ?x @ to_valid (drop (?n - 1) s)" using 3 by (simp add: to_valid.simps(2))
    consider "take 3 (c # s) = [CHR 0xE2, CHR 0x80, CHR 0xA8]" | "take 3 (c # s) = [CHR 0xE2, CHR 0x80, CHR 0xA9]"
      | "take 3 (c # s) \<noteq> [CHR 0xE2, CHR 0x80, CHR 0xA8]" "take 3 (c # s) \<noteq> [CHR 0xE2, CHR 0x80, CHR 0xA9]"
      by blast
    then show ?thesis
    proof cases
      case 1
      with 3 have n: "?n = 3" by (auto simp: rune_len_def lead_len_def split: if_splits)
      with 1 3 have e: "escape (c # s) @ CHR 0x22 # r = CHR 0x5C # CHR ''u'' # ''2028'' @ ?rest"
        by (simp add: escape.simps(2))
      have "hex4 (''2028'' @ ?rest) = Some 8232" by (simp add: hex4_def hex_value_def)
      moreover have "u_escape 8232 x = (take 3 (c # s), x)" for x
        unfolding 1 by (simp add: u_escape_def encode_rune_def chr_values)
      ultimately show ?thesis unfolding e v n using IH n by (simp add: parse_str_u)
    next
      case 2
      with 3 have n: "?n = 3" by (auto simp: rune_len_def lead_len_def split: if_splits)
      with 2 3 have e: "escape (c # s) @ CHR 0x22 # r = CHR 0x5C # CHR ''u'' # ''2029'' @ ?rest"
        by (simp add: escape.simps(2))
      have "hex4 (''2029'' @ ?rest) = Some 8233" by (simp add: hex4_def hex_value_def)
      moreover have "u_escape 8233 x = (take 3 (c # s), x)" for x
        unfolding 2 by (simp add: u_escape_def encode_rune_def chr_values)
      ultimately show ?thesis unfolding e v n using IH n by (simp add: parse_str_u)
    next
      case other: 3
      have plain: "escape (c # s) = ?x @ escape (drop (?n - 1) s)"
        using 3 by (simp only: escape.simps(2) other if_False)
      have len: "length ?x = ?n" using rune_len_le [of "c # s"] by simp
      have rl: "rune_len (?x @ ?rest) = ?n" using rune_len_take [OF refl] 3 by blast
      obtain xs where x: "?x = c # xs" using 3 by (cases ?n) auto
      then have xs: "length xs = ?n - 1" using len by (cases ?n) auto
      have "c \<noteq> CHR 0x22" "c \<noteq> CHR 0x5C" "32 \<le> byte c" using 3(1) by auto
      then have "parse_str (?x @ ?rest) =
          map_option (apfst (append (take ?n (?x @ ?rest)))) (parse_str (drop (?n - 1) (xs @ ?rest)))"
        using parse_str_plain [of c "xs @ ?rest"] rl 3(2) by (simp add: x)
      also have "take ?n (?x @ ?rest) = ?x" using len by simp
      also have "drop (?n - 1) (xs @ ?rest) = ?rest" using xs by simp
      finally show ?thesis unfolding plain v using IH by simp
    qed
  qed
qed

lemma to_valid_ascii: "list_all (\<lambda>c. byte c < 128) s \<Longrightarrow> to_valid s = s"
  by (induction s rule: to_valid.induct) (simp_all add: to_valid.simps(2) rune_len_ascii)

section \<open>Lower case\<close>

text \<open>\<open>strings.ToLower\<close> as far as ASCII text can be found in the result: beside the ASCII letters,
  U+0130 becomes \<open>i\<close> and U+212A becomes \<open>k\<close>; no other rune becomes an ASCII one.\<close>

fun lower_ascii :: "string \<Rightarrow> string" where
  "lower_ascii [] = []"
| "lower_ascii (c # s) =
     (if take 2 (c # s) = [CHR 0xC4, CHR 0xB0] then CHR ''i'' # lower_ascii (drop 1 s)
      else if take 3 (c # s) = [CHR 0xE2, CHR 0x84, CHR 0xAA] then CHR ''k'' # lower_ascii (drop 2 s)
      else (if 65 \<le> byte c \<and> byte c \<le> 90 then chr (byte c + 32) else c) # lower_ascii s)"

end
