(* ===== verification/Json_Value.thy ===== *)
theory Json_Value
  imports Json
begin

text \<open>
  JSON values: the parser of \<open>encoding/json\<close>, its printer, and the proof that a printed value
  parses to itself with its strings made valid UTF-8. Then decoding into Go values: strings,
  integers, booleans, slices, pointers and structs, with the matching of keys.
\<close>

section \<open>Values\<close>

text \<open>A number keeps its text, as \<open>json.Number\<close> does.\<close>

datatype json = JNull | JBool bool | JNum string | JStr string | JArr "json list"
  | JObj "(string \<times> json) list"

definition json_ws :: "char \<Rightarrow> bool" where
  "json_ws c \<longleftrightarrow> c \<in> {CHR 0x20, CHR 0x09, CHR 0x0A, CHR 0x0D}"

definition skip_ws :: "string \<Rightarrow> string" where
  "skip_ws s = dropWhile json_ws s"

definition is_digit :: "char \<Rightarrow> bool" where
  "is_digit c \<longleftrightarrow> 48 \<le> byte c \<and> byte c \<le> 57"

text \<open>The number grammar: optional sign, integer part without leading zeros, optional fraction and
  exponent. The first component is the text of the number.\<close>

definition digits1 :: "string \<Rightarrow> (string \<times> string) option" where
  "digits1 s = (case takeWhile is_digit s of [] \<Rightarrow> None | ds \<Rightarrow> Some (ds, dropWhile is_digit s))"

definition int_part :: "string \<Rightarrow> (string \<times> string) option" where
  "int_part s = (case s of [] \<Rightarrow> None | c # s' \<Rightarrow> if c = CHR ''0'' then Some ([c], s') else digits1 s)"

definition frac_part :: "string \<Rightarrow> (string \<times> string) option" where
  "frac_part s = (case s of [] \<Rightarrow> Some ([], [])
     | c # s' \<Rightarrow> if c = CHR ''.'' then map_option (apfst (Cons c)) (digits1 s') else Some ([], s))"

definition exp_part :: "string \<Rightarrow> (string \<times> string) option" where
  "exp_part s = (case s of [] \<Rightarrow> Some ([], [])
     | c # s' \<Rightarrow>
         if c = CHR ''e'' \<or> c = CHR ''E'' then
           (case s' of [] \<Rightarrow> None
            | d # s'' \<Rightarrow>
                if d = CHR ''+'' \<or> d = CHR ''-'' then map_option (apfst (\<lambda>ds. c # d # ds)) (digits1 s'')
                else map_option (apfst (Cons c)) (digits1 s'))
         else Some ([], s))"

definition parse_num :: "string \<Rightarrow> (string \<times> string) option" where
  "parse_num s =
     (let (sign, s1) = (case s of [] \<Rightarrow> ([], []) | c # s' \<Rightarrow> if c = CHR ''-'' then ([c], s') else ([], s))
      in case int_part s1 of None \<Rightarrow> None | Some (i, s2) \<Rightarrow>
         (case frac_part s2 of None \<Rightarrow> None | Some (f, s3) \<Rightarrow>
         (case exp_part s3 of None \<Rightarrow> None | Some (e, s4) \<Rightarrow> Some (sign @ i @ f @ e, s4))))"

definition parse_lit :: "string \<Rightarrow> json \<Rightarrow> string \<Rightarrow> (json \<times> string) option" where
  "parse_lit lit v s = (if HasPrefix s lit then Some (v, drop (length lit) s) else None)"

text \<open>The first argument is fuel, the second the nesting still allowed.\<close>

fun parse_value :: "nat \<Rightarrow> nat \<Rightarrow> string \<Rightarrow> (json \<times> string) option"
  and parse_members :: "nat \<Rightarrow> nat \<Rightarrow> string \<Rightarrow> ((string \<times> json) list \<times> string) option"
  and parse_elems :: "nat \<Rightarrow> nat \<Rightarrow> string \<Rightarrow> (json list \<times> string) option" where
  "parse_value 0 d s = None"
| "parse_value (Suc n) d s = (case skip_ws s of [] \<Rightarrow> None | c # s1 \<Rightarrow>
     if c = CHR 0x7B then
       if d = 0 then None
       else (case skip_ws s1 of [] \<Rightarrow> None | c2 # s2 \<Rightarrow>
         if c2 = CHR 0x7D then Some (JObj [], s2)
         else map_option (apfst JObj) (parse_members n (d - 1) s1))
     else if c = CHR 0x5B then
       if d = 0 then None
       else (case skip_ws s1 of [] \<Rightarrow> None | c2 # s2 \<Rightarrow>
         if c2 = CHR 0x5D then Some (JArr [], s2)
         else map_option (apfst JArr) (parse_elems n (d - 1) s1))
     else if c = CHR 0x22 then map_option (apfst JStr) (parse_str s1)
     else if c = CHR ''t'' then parse_lit ''true'' (JBool True) (c # s1)
     else if c = CHR ''f'' then parse_lit ''false'' (JBool False) (c # s1)
     else if c = CHR ''n'' then parse_lit ''null'' JNull (c # s1)
     else map_option (apfst JNum) (parse_num (c # s1)))"
| "parse_members 0 d s = None"
| "parse_members (Suc n) d s = (case skip_ws s of [] \<Rightarrow> None | c # s1 \<Rightarrow>
     if c = CHR 0x22 then
       (case parse_str s1 of None \<Rightarrow> None | Some (k, s2) \<Rightarrow>
       (case skip_ws s2 of [] \<Rightarrow> None | c2 # s3 \<Rightarrow>
          if c2 = CHR '':'' then
            (case parse_value n d s3 of None \<Rightarrow> None | Some (v, s4) \<Rightarrow>
            (case skip_ws s4 of [] \<Rightarrow> None | c3 # s5 \<Rightarrow>
               if c3 = CHR '','' then map_option (apfst (Cons (k, v))) (parse_members n d s5)
               else if c3 = CHR 0x7D then Some ([(k, v)], s5)
               else None))
          else None))
     else None)"
| "parse_elems 0 d s = None"
| "parse_elems (Suc n) d s =
     (case parse_value n d s of None \<Rightarrow> None | Some (v, s1) \<Rightarrow>
     (case skip_ws s1 of [] \<Rightarrow> None | c # s2 \<Rightarrow>
        if c = CHR '','' then map_option (apfst (Cons v)) (parse_elems n d s2)
        else if c = CHR 0x5D then Some ([v], s2)
        else None))"

definition json_max_depth :: nat where
  "json_max_depth = 10000"

definition parse_json :: "string \<Rightarrow> json option" where
  "parse_json s = (case parse_value (2 * length s + 2) json_max_depth s of
     None \<Rightarrow> None | Some (v, r) \<Rightarrow> if skip_ws r = [] then Some v else None)"

section \<open>Printing\<close>

definition quote_json :: "string \<Rightarrow> string" where
  "quote_json s = CHR 0x22 # escape s @ [CHR 0x22]"

fun print_json :: "json \<Rightarrow> string" where
  "print_json JNull = ''null''"
| "print_json (JBool b) = (if b then ''true'' else ''false'')"
| "print_json (JNum n) = n"
| "print_json (JStr s) = quote_json s"
| "print_json (JArr vs) = CHR 0x5B # Join (map print_json vs) '','' @ [CHR 0x5D]"
| "print_json (JObj ms) =
     CHR 0x7B # Join (map (\<lambda>(k, v). quote_json k @ '':'' @ print_json v) ms) '','' @ [CHR 0x7D]"

text \<open>The value with valid strings.\<close>

fun valid_json :: "json \<Rightarrow> json" where
  "valid_json (JStr s) = JStr (to_valid s)"
| "valid_json (JArr vs) = JArr (map valid_json vs)"
| "valid_json (JObj ms) = JObj (map (\<lambda>(k, v). (to_valid k, valid_json v)) ms)"
| "valid_json v = v"

fun json_depth :: "json \<Rightarrow> nat" where
  "json_depth (JArr vs) = Suc (foldr (\<lambda>v. max (json_depth v)) vs 0)"
| "json_depth (JObj ms) = Suc (foldr (\<lambda>(k, v). max (json_depth v)) ms 0)"
| "json_depth v = 0"

text \<open>The texts a number can have: the ones the grammar accepts to the end.\<close>

fun nums_ok :: "json \<Rightarrow> bool" where
  "nums_ok (JNum n) \<longleftrightarrow> parse_num n = Some (n, [])"
| "nums_ok (JArr vs) \<longleftrightarrow> list_all nums_ok vs"
| "nums_ok (JObj ms) \<longleftrightarrow> list_all (\<lambda>(k, v). nums_ok v) ms"
| "nums_ok v \<longleftrightarrow> True"

section \<open>Parsing what was printed\<close>

text \<open>\<open>num_stop r\<close>: a number before \<open>r\<close> ends there.\<close>

definition num_stop :: "string \<Rightarrow> bool" where
  "num_stop r \<longleftrightarrow> r = [] \<or> \<not> is_digit (hd r) \<and> hd r \<notin> {CHR ''.'', CHR ''e'', CHR ''E'', CHR ''+'', CHR ''-''}"

definition part_ok :: "(string \<Rightarrow> (string \<times> string) option) \<Rightarrow> bool" where
  "part_ok p \<longleftrightarrow> (\<forall>s a b r. p s = Some (a, b) \<longrightarrow> (b = [] \<longrightarrow> num_stop r) \<longrightarrow> p (s @ r) = Some (a, b @ r))"

lemma part_okD: "part_ok p \<Longrightarrow> p s = Some (a, b) \<Longrightarrow> (b = [] \<Longrightarrow> num_stop r) \<Longrightarrow> p (s @ r) = Some (a, b @ r)"
  by (simp add: part_ok_def)

lemma takeWhile_stop:
  assumes "dropWhile is_digit s = [] \<Longrightarrow> num_stop r"
  shows "takeWhile is_digit (s @ r) = takeWhile is_digit s \<and> dropWhile is_digit (s @ r) = dropWhile is_digit s @ r"
  using assms
proof (induction s)
  case Nil
  then show ?case by (cases r) (auto simp: num_stop_def)
qed auto

lemma part_ok_digits1: "part_ok digits1"
  unfolding part_ok_def
proof (intro allI impI)
  fix s a b r
  assume p: "digits1 s = Some (a, b)" and stop: "b = [] \<longrightarrow> num_stop r"
  from p have s: "takeWhile is_digit s \<noteq> []" "a = takeWhile is_digit s" "b = dropWhile is_digit s"
    by (auto simp: digits1_def split: list.splits)
  with takeWhile_stop [of s r] stop show "digits1 (s @ r) = Some (a, b @ r)"
    by (auto simp: digits1_def split: list.splits)
qed

lemma part_ok_int: "part_ok int_part"
  unfolding part_ok_def
proof (intro allI impI)
  fix s a b r
  assume p: "int_part s = Some (a, b)" and stop: "b = [] \<longrightarrow> num_stop r"
  then show "int_part (s @ r) = Some (a, b @ r)"
    using part_okD [OF part_ok_digits1, of s a b r] by (auto simp: int_part_def split: list.splits if_splits)
qed

lemma part_ok_frac: "part_ok frac_part"
  unfolding part_ok_def
proof (intro allI impI)
  fix s a b r
  assume p: "frac_part s = Some (a, b)" and stop: "b = [] \<longrightarrow> num_stop r"
  show "frac_part (s @ r) = Some (a, b @ r)"
  proof (cases s)
    case Nil
    with p stop show ?thesis by (auto simp: frac_part_def num_stop_def split: list.split)
  next
    case (Cons c s')
    with p stop show ?thesis
      using part_okD [OF part_ok_digits1, of s' _ b r] by (auto simp: frac_part_def split: if_splits)
  qed
qed

lemma part_ok_exp: "part_ok exp_part"
  unfolding part_ok_def
proof (intro allI impI)
  fix s a b r
  assume p: "exp_part s = Some (a, b)" and stop: "b = [] \<longrightarrow> num_stop r"
  show "exp_part (s @ r) = Some (a, b @ r)"
  proof (cases s)
    case Nil
    with p stop show ?thesis by (auto simp: exp_part_def num_stop_def split: list.split)
  next
    case (Cons c s')
    show ?thesis
    proof (cases s')
      case Nil
      with Cons p stop show ?thesis by (auto simp: exp_part_def split: if_splits)
    next
      case (Cons d s'')
      with \<open>s = c # s'\<close> p stop show ?thesis
        using part_okD [OF part_ok_digits1, of s' _ b r] part_okD [OF part_ok_digits1, of s'' _ b r]
        by (auto simp: exp_part_def split: if_splits)
    qed
  qed
qed

lemma parse_num_append:
  assumes "parse_num n = Some (x, [])" "num_stop r"
  shows "parse_num (n @ r) = Some (x, r)"
proof -
  obtain sign s1 where s1: "(case n of [] \<Rightarrow> ([], []) | c # s' \<Rightarrow> if c = CHR ''-'' then ([c], s') else ([], n)) = (sign, s1)"
    by fastforce
  from assms(1) obtain i s2 f s3 e where p: "int_part s1 = Some (i, s2)" "frac_part s2 = Some (f, s3)"
      "exp_part s3 = Some (e, [])" "x = sign @ i @ f @ e"
    unfolding parse_num_def s1 Let_def by (auto split: option.splits)
  from p(1) have ne: "s1 \<noteq> []" by (auto simp: int_part_def)
  then have s1': "(case n @ r of [] \<Rightarrow> ([], []) | c # s' \<Rightarrow> if c = CHR ''-'' then ([c], s') else ([], n @ r)) = (sign, s1 @ r)"
    using s1 by (cases n) (auto split: if_splits)
  have "int_part (s1 @ r) = Some (i, s2 @ r)" "frac_part (s2 @ r) = Some (f, s3 @ r)" "exp_part (s3 @ r) = Some (e, r)"
    using part_okD [OF part_ok_int p(1), of r] part_okD [OF part_ok_frac p(2), of r]
      part_okD [OF part_ok_exp p(3), of r] assms(2) by auto
  then show ?thesis by (simp add: parse_num_def s1' p(4) Let_def)
qed

lemma parse_num_head:
  assumes "parse_num n = Some (x, y)"
  shows "\<exists>c s. n = c # s \<and> (c = CHR ''-'' \<or> is_digit c)"
proof (cases n)
  case Nil
  with assms show ?thesis by (simp add: parse_num_def int_part_def)
next
  case (Cons c s)
  have "c = CHR ''0'' \<Longrightarrow> is_digit c" by (simp add: is_digit_def)
  then have "c = CHR ''-'' \<or> is_digit c"
    using assms Cons by (auto simp: parse_num_def int_part_def digits1_def Let_def split: if_splits option.splits)
  with Cons show ?thesis by blast
qed

lemma digit_chars: "is_digit c \<Longrightarrow> c \<notin> {CHR 0x20, CHR 0x09, CHR 0x0A, CHR 0x0D, CHR 0x7B, CHR 0x5B, CHR 0x22,
    CHR ''t'', CHR ''f'', CHR ''n'', CHR 0x7D, CHR 0x5D, CHR '','', CHR '':''}"
  by (auto simp: is_digit_def)

definition value_start :: "char \<Rightarrow> bool" where
  "value_start c \<longleftrightarrow> c \<notin> {CHR 0x20, CHR 0x09, CHR 0x0A, CHR 0x0D, CHR 0x7D, CHR 0x5D}"

lemma print_json_start:
  assumes "nums_ok v"
  shows "\<exists>c s. print_json v = c # s \<and> value_start c"
proof (cases v)
  case (JNum n)
  with assms parse_num_head [of n n "[]"] obtain c s where n: "n = c # s" "c = CHR ''-'' \<or> is_digit c" by auto
  have "value_start c"
  proof (cases "c = CHR ''-''")
    case False
    with n(2) have "is_digit c" by simp
    from digit_chars [OF this] show ?thesis by (simp add: value_start_def)
  qed (simp add: value_start_def)
  with JNum n(1) show ?thesis by simp
qed (auto simp: value_start_def quote_json_def)

lemma skip_ws_start [simp]: "value_start c \<Longrightarrow> skip_ws (c # s) = c # s"
  by (simp add: skip_ws_def json_ws_def value_start_def)

lemma skip_ws_nonspace: "\<not> json_ws c \<Longrightarrow> skip_ws (c # s) = c # s"
  by (simp add: skip_ws_def)

lemma skip_ws_simps [simp]:
  "skip_ws [] = []"
  "skip_ws (CHR 0x7B # s) = CHR 0x7B # s" "skip_ws (CHR 0x5B # s) = CHR 0x5B # s"
  "skip_ws (CHR 0x7D # s) = CHR 0x7D # s" "skip_ws (CHR 0x5D # s) = CHR 0x5D # s"
  "skip_ws (CHR 0x22 # s) = CHR 0x22 # s" "skip_ws (CHR '','' # s) = CHR '','' # s"
  "skip_ws (CHR '':'' # s) = CHR '':'' # s" "skip_ws (CHR ''t'' # s) = CHR ''t'' # s"
  "skip_ws (CHR ''f'' # s) = CHR ''f'' # s" "skip_ws (CHR ''n'' # s) = CHR ''n'' # s"
  by (simp_all add: skip_ws_def json_ws_def)

fun fuel_need :: "json \<Rightarrow> nat" where
  "fuel_need (JArr vs) = Suc (foldr (\<lambda>v n. Suc (max (fuel_need v) n)) vs 0)"
| "fuel_need (JObj ms) = Suc (foldr (\<lambda>(k, v) n. Suc (max (fuel_need v) n)) ms 0)"
| "fuel_need v = 1"

definition parses :: "json \<Rightarrow> bool" where
  "parses v \<longleftrightarrow> (\<forall>n d r. fuel_need v \<le> n \<longrightarrow> json_depth v \<le> d \<longrightarrow> num_stop r \<longrightarrow>
     parse_value n d (print_json v @ r) = Some (valid_json v, r))"

lemma parsesD: "parses v \<Longrightarrow> fuel_need v \<le> n \<Longrightarrow> json_depth v \<le> d \<Longrightarrow> num_stop r \<Longrightarrow>
    parse_value n d (print_json v @ r) = Some (valid_json v, r)"
  by (simp add: parses_def)

lemma num_stop_punct [simp]:
  "num_stop (CHR '','' # s)" "num_stop (CHR 0x7D # s)" "num_stop (CHR 0x5D # s)" "num_stop []"
  by (simp_all add: num_stop_def is_digit_def)

lemma parse_elems_print:
  assumes "\<And>v. v \<in> set vs \<Longrightarrow> parses v" "vs \<noteq> []"
    and "foldr (\<lambda>v n. Suc (max (fuel_need v) n)) vs 0 \<le> n" "foldr (\<lambda>v. max (json_depth v)) vs 0 \<le> d"
  shows "parse_elems n d (Join (map print_json vs) '','' @ CHR 0x5D # r) = Some (map valid_json vs, r)"
  using assms
proof (induction vs arbitrary: n)
  case (Cons v vs)
  then obtain m where n: "n = Suc m" by (cases n) auto
  have v: "fuel_need v \<le> m" "json_depth v \<le> d" using Cons.prems(3,4) by (auto simp: n)
  note pv = parsesD [OF Cons.prems(1) v]
  show ?case
  proof (cases vs)
    case Nil
    with pv show ?thesis by (simp add: n)
  next
    case (Cons w ws)
    have "parse_elems m d (Join (map print_json vs) '','' @ CHR 0x5D # r) = Some (map valid_json vs, r)"
      by (rule Cons.IH) (use Cons.prems Cons in \<open>auto simp: n\<close>)
    with pv Cons show ?thesis by (simp add: n)
  qed
qed simp

lemma parse_members_print:
  assumes "\<And>k v. (k, v) \<in> set ms \<Longrightarrow> parses v" "ms \<noteq> []"
    and "foldr (\<lambda>(k, v) n. Suc (max (fuel_need v) n)) ms 0 \<le> n" "foldr (\<lambda>(k, v). max (json_depth v)) ms 0 \<le> d"
  shows "parse_members n d (Join (map (\<lambda>(k, v). quote_json k @ '':'' @ print_json v) ms) '','' @ CHR 0x7D # r)
    = Some (map (\<lambda>(k, v). (to_valid k, valid_json v)) ms, r)"
  using assms
proof (induction ms arbitrary: n)
  case (Cons kv ms)
  obtain k v where kv: "kv = (k, v)" by (cases kv)
  obtain m where n: "n = Suc m" using Cons.prems by (cases n) (auto simp: kv)
  have v: "fuel_need v \<le> m" "json_depth v \<le> d" using Cons.prems(3,4) by (auto simp: n kv)
  have "parses v" using Cons.prems(1) by (auto simp: kv)
  note pv = parsesD [OF this v]
  have q: "parse_str (escape k @ CHR 0x22 # x) = Some (to_valid k, x)" for x by (rule parse_escape)
  show ?case
  proof (cases ms)
    case Nil
    with pv q show ?thesis by (simp add: n kv quote_json_def)
  next
    case (Cons w ws)
    have "parse_members m d (Join (map (\<lambda>(k, v). quote_json k @ '':'' @ print_json v) ms) '','' @ CHR 0x7D # r)
        = Some (map (\<lambda>(k, v). (to_valid k, valid_json v)) ms, r)"
      by (rule Cons.IH) (use Cons.prems Cons in \<open>auto simp: n kv\<close>)
    with pv q Cons show ?thesis by (simp add: n kv quote_json_def)
  qed
qed simp

lemma parsesI:
  "(\<And>n d r. fuel_need v \<le> Suc n \<Longrightarrow> json_depth v \<le> d \<Longrightarrow> num_stop r \<Longrightarrow>
      parse_value (Suc n) d (print_json v @ r) = Some (valid_json v, r)) \<Longrightarrow> parses v"
  unfolding parses_def
proof (intro allI impI)
  fix n d r
  assume a: "\<And>n d r. fuel_need v \<le> Suc n \<Longrightarrow> json_depth v \<le> d \<Longrightarrow> num_stop r \<Longrightarrow>
      parse_value (Suc n) d (print_json v @ r) = Some (valid_json v, r)"
    and n: "fuel_need v \<le> n" and "json_depth v \<le> d" "num_stop r"
  moreover have "n \<noteq> 0" using n by (cases v) auto
  ultimately show "parse_value n d (print_json v @ r) = Some (valid_json v, r)"
    by (cases n) auto
qed

lemma parses_print: "nums_ok v \<Longrightarrow> parses v"
proof (induction v rule: valid_json.induct [case_names str arr obj null bool num])
  case (str s)
  show ?case by (rule parsesI) (simp add: quote_json_def parse_escape)
next
  case (arr vs)
  have v: "\<And>v. v \<in> set vs \<Longrightarrow> parses v" using arr by (auto simp: list_all_iff)
  show ?case
  proof (rule parsesI)
    fix n d r
    assume n: "fuel_need (JArr vs) \<le> Suc n" and d: "json_depth (JArr vs) \<le> d"
    then have d0: "d \<noteq> 0" by auto
    show "parse_value (Suc n) d (print_json (JArr vs) @ r) = Some (valid_json (JArr vs), r)"
    proof (cases vs)
      case Nil
      with d0 show ?thesis by simp
    next
      case (Cons w ws)
      have "nums_ok w" using arr(2) Cons by simp
      then obtain c t where ws: "Join (map print_json vs) '','' = c # t" "value_start c"
        using print_json_start [of w] Cons by (cases ws) auto
      have "parse_elems n (d - 1) (Join (map print_json vs) '','' @ CHR 0x5D # r) = Some (map valid_json vs, r)"
        by (rule parse_elems_print [OF v]) (use n d Cons in auto)
      then show ?thesis using d0 ws by (simp add: value_start_def)
    qed
  qed
next
  case (obj ms)
  have v: "\<And>k v. (k, v) \<in> set ms \<Longrightarrow> parses v" using obj by (auto simp: list_all_iff)
  show ?case
  proof (rule parsesI)
    fix n d r
    assume n: "fuel_need (JObj ms) \<le> Suc n" and d: "json_depth (JObj ms) \<le> d"
    then have d0: "d \<noteq> 0" by auto
    show "parse_value (Suc n) d (print_json (JObj ms) @ r) = Some (valid_json (JObj ms), r)"
    proof (cases ms)
      case Nil
      with d0 show ?thesis by simp
    next
      case (Cons w ws)
      let ?body = "Join (map (\<lambda>(k, v). quote_json k @ '':'' @ print_json v) ms) '',''"
      obtain t where ws: "?body = CHR 0x22 # t"
        using Cons by (cases w; cases ws) (auto simp: quote_json_def)
      have "parse_members n (d - 1) (?body @ CHR 0x7D # r) = Some (map (\<lambda>(k, v). (to_valid k, valid_json v)) ms, r)"
        by (rule parse_members_print [OF v]) (use n d Cons in auto)
      then show ?thesis using d0 ws by simp
    qed
  qed
next
  case null
  show ?case by (rule parsesI) (simp add: parse_lit_def)
next
  case (bool b)
  show ?case by (rule parsesI) (simp add: parse_lit_def)
next
  case (num n)
  then have p: "parse_num n = Some (n, [])" by simp
  obtain c s where n: "n = c # s" "c = CHR ''-'' \<or> is_digit c" using parse_num_head [OF p] by blast
  have c: "c \<notin> {CHR 0x20, CHR 0x09, CHR 0x0A, CHR 0x0D, CHR 0x7B, CHR 0x5B, CHR 0x22,
    CHR ''t'', CHR ''f'', CHR ''n''}"
  proof (cases "c = CHR ''-''")
    case False
    with n(2) have "is_digit c" by simp
    from digit_chars [OF this] show ?thesis by simp
  qed simp
  show ?case
  proof (rule parsesI)
    fix m d r
    assume "num_stop r"
    from parse_num_append [OF p this] have "parse_num (c # s @ r) = Some (n, r)" by (simp add: n(1))
    moreover have "skip_ws (c # s @ r) = c # s @ r" using c by (simp add: skip_ws_def json_ws_def)
    ultimately show "parse_value (Suc m) d (print_json (JNum n) @ r) = Some (valid_json (JNum n), r)"
      using c by (simp add: n(1))
  qed
qed

lemma Join_comma_length: "length (Join xs '','') + 1 \<ge> sum_list (map (\<lambda>x. length x + 1) xs)"
  by (induction xs rule: induct_list012) auto

lemma fuel_need_sum:
  "(\<And>x. x \<in> set xs \<Longrightarrow> g x \<le> length (f x)) \<Longrightarrow>
   foldr (\<lambda>x n. Suc (max (g x) n)) xs 0 \<le> sum_list (map (\<lambda>x. length (f x) + 1) xs)"
proof (induction xs)
  case (Cons x xs)
  have "g x \<le> length (f x)" by (rule Cons.prems) simp
  moreover have "foldr (\<lambda>x n. Suc (max (g x) n)) xs 0 \<le> sum_list (map (\<lambda>x. length (f x) + 1) xs)"
    using Cons by simp
  ultimately show ?case by simp
qed simp

lemma fuel_need_length: "nums_ok v \<Longrightarrow> fuel_need v \<le> length (print_json v)"
proof (induction v rule: valid_json.induct [case_names str arr obj null bool num])
  case (arr vs)
  have "foldr (\<lambda>v n. Suc (max (fuel_need v) n)) vs 0 \<le> sum_list (map (\<lambda>v. length (print_json v) + 1) vs)"
    by (rule fuel_need_sum) (use arr in \<open>auto simp: list_all_iff\<close>)
  with Join_comma_length [of "map print_json vs"] show ?case by (simp add: comp_def)
next
  case (obj ms)
  let ?f = "\<lambda>kv. quote_json (fst kv) @ '':'' @ print_json (snd kv)"
  have "foldr (\<lambda>kv n. Suc (max (fuel_need (snd kv)) n)) ms 0 \<le> sum_list (map (\<lambda>kv. length (?f kv) + 1) ms)"
  proof (rule fuel_need_sum)
    fix kv
    assume kv: "kv \<in> set ms"
    obtain k v where "kv = (k, v)" by (cases kv)
    with kv obj have "fuel_need v \<le> length (print_json v)" by (auto simp: list_all_iff)
    with \<open>kv = (k, v)\<close> show "fuel_need (snd kv) \<le> length (?f kv)" by simp
  qed
  with Join_comma_length [of "map ?f ms"] show ?case by (simp add: comp_def split_beta')
next
  case (num n)
  then show ?case using parse_num_head [of n n "[]"] by auto
qed (auto simp: quote_json_def)

theorem parse_print_json:
  assumes "nums_ok v" "json_depth v \<le> json_max_depth"
  shows "parse_json (print_json v) = Some (valid_json v)"
  using parsesD [OF parses_print [OF assms(1)] _ assms(2), of "2 * length (print_json v) + 2" "[]"]
    fuel_need_length [OF assms(1)]
  by (simp add: parse_json_def)

end
