(* ===== verification/Json_Codec.thy ===== *)
theory Json_Codec
  imports Json_Value Db_Models
begin

text \<open>
  \<open>json.Unmarshal\<close> into the structs of the code and \<open>json.Marshal\<close> of them, following the
  struct tags. A decoder takes the JSON value and the value the target has before, and gives the
  target's new value, or \<open>None\<close> when a value has the wrong type.
\<close>

section \<open>Decoders\<close>

type_synonym 'a decoder = "json \<Rightarrow> 'a \<Rightarrow> 'a option"

definition dec_string :: "string decoder" where
  "dec_string v x = (case v of JNull \<Rightarrow> Some x | JStr s \<Rightarrow> Some s | _ \<Rightarrow> None)"

definition dec_string_ptr :: "string option decoder" where
  "dec_string_ptr v x = (case v of JNull \<Rightarrow> Some None | JStr s \<Rightarrow> Some (Some s) | _ \<Rightarrow> None)"

definition dec_bool :: "bool decoder" where
  "dec_bool v x = (case v of JNull \<Rightarrow> Some x | JBool b \<Rightarrow> Some b | _ \<Rightarrow> None)"

text \<open>An \<open>int\<close> takes a number without fraction and exponent that fits into 64 bits.\<close>

definition parse_int64 :: "string \<Rightarrow> int option" where
  "parse_int64 n =
     (let (neg, ds) = (case n of [] \<Rightarrow> (False, []) | c # s \<Rightarrow> if c = CHR ''-'' then (True, s) else (False, n))
      in if ds = [] then None
         else case parse_digits 0 ds of None \<Rightarrow> None
         | Some m \<Rightarrow> let i = (if neg then - int m else int m)
                    in if - (2 ^ 63) \<le> i \<and> i < 2 ^ 63 then Some i else None)"

definition dec_int :: "int decoder" where
  "dec_int v x = (case v of JNull \<Rightarrow> Some x | JNum n \<Rightarrow> parse_int64 n | _ \<Rightarrow> None)"

fun all_some :: "'a option list \<Rightarrow> 'a list option" where
  "all_some [] = Some []"
| "all_some (None # xs) = None"
| "all_some (Some x # xs) = map_option (Cons x) (all_some xs)"

definition dec_slice :: "'a decoder \<Rightarrow> 'a \<Rightarrow> 'a list decoder" where
  "dec_slice d zero v x =
     (case v of JNull \<Rightarrow> Some [] | JArr vs \<Rightarrow> all_some (map (\<lambda>e. d e zero) vs) | _ \<Rightarrow> None)"

text \<open>A key belongs to the field of that name, or else to one whose name is the same under case
  folding; U+017F and U+212A fold to \<open>S\<close> and \<open>K\<close>.\<close>

fun fold_name :: "string \<Rightarrow> string" where
  "fold_name [] = []"
| "fold_name (c # s) =
     (if take 2 (c # s) = [CHR 0xC5, CHR 0xBF] then CHR ''S'' # fold_name (drop 1 s)
      else if take 3 (c # s) = [CHR 0xE2, CHR 0x84, CHR 0xAA] then CHR ''K'' # fold_name (drop 2 s)
      else (if 97 \<le> byte c \<and> byte c \<le> 122 then chr (byte c - 32) else c) # fold_name s)"

type_synonym 'r fields = "(string \<times> 'r decoder) list"

definition lookup_field :: "'r fields \<Rightarrow> string \<Rightarrow> 'r decoder option" where
  "lookup_field fs name =
     (case map_of fs name of Some d \<Rightarrow> Some d
      | None \<Rightarrow> map_of (map (apfst fold_name) fs) (fold_name name))"

definition field :: "string \<Rightarrow> 'a decoder \<Rightarrow> ('r \<Rightarrow> 'a) \<Rightarrow> (('a \<Rightarrow> 'a) \<Rightarrow> 'r \<Rightarrow> 'r) \<Rightarrow> string \<times> 'r decoder" where
  "field name d sel upd = (name, \<lambda>v r. map_option (\<lambda>x. upd (\<lambda>_. x) r) (d v (sel r)))"

fun dec_members :: "'r fields \<Rightarrow> (string \<times> json) list \<Rightarrow> 'r \<Rightarrow> 'r option" where
  "dec_members fs [] r = Some r"
| "dec_members fs ((k, v) # ms) r =
     (case lookup_field fs k of None \<Rightarrow> dec_members fs ms r
      | Some d \<Rightarrow> (case d v r of None \<Rightarrow> None | Some r' \<Rightarrow> dec_members fs ms r'))"

definition dec_struct :: "'r fields \<Rightarrow> 'r decoder" where
  "dec_struct fs v r =
     (case v of JNull \<Rightarrow> Some r | JObj ms \<Rightarrow> dec_members fs ms r | _ \<Rightarrow> None)"

definition unmarshal :: "'a decoder \<Rightarrow> 'a \<Rightarrow> string \<Rightarrow> 'a option" where
  "unmarshal d zero s = (case parse_json s of None \<Rightarrow> None | Some v \<Rightarrow> d v zero)"

section \<open>Encoders\<close>

definition enc_strings :: "string list \<Rightarrow> json" where
  "enc_strings ss = JArr (map JStr ss)"

definition enc_int :: "int \<Rightarrow> json" where
  "enc_int n = JNum (itoa n)"

text \<open>\<open>omitempty\<close> leaves out the zero value.\<close>

definition omit_empty :: "bool \<Rightarrow> string \<Rightarrow> json \<Rightarrow> (string \<times> json) list" where
  "omit_empty b name v = (if b then [] else [(name, v)])"

section \<open>Subtasks\<close>

definition zero_subtask :: Subtask where
  "zero_subtask = \<lparr>st_ID = [], st_Name = [], st_Description = [], st_Prompt = [], st_DependsOn = [],
     st_FilesInvolved = [], st_Complexity = [], st_AgentRole = [], st_Status = [], st_AgentID = []\<rparr>"

definition subtask_fields :: "Subtask fields" where
  "subtask_fields =
     [field ''id'' dec_string st_ID st_ID_update,
      field ''name'' dec_string st_Name st_Name_update,
      field ''description'' dec_string st_Description st_Description_update,
      field ''prompt'' dec_string st_Prompt st_Prompt_update,
      field ''depends_on'' (dec_slice dec_string []) st_DependsOn st_DependsOn_update,
      field ''files_involved'' (dec_slice dec_string []) st_FilesInvolved st_FilesInvolved_update,
      field ''complexity'' dec_string st_Complexity st_Complexity_update,
      field ''agent_role'' dec_string st_AgentRole st_AgentRole_update,
      field ''status'' dec_string st_Status st_Status_update,
      field ''agent_id'' dec_string st_AgentID st_AgentID_update]"

definition enc_subtask :: "Subtask \<Rightarrow> json" where
  "enc_subtask st = JObj
     ([(''id'', JStr (st_ID st)), (''name'', JStr (st_Name st)), (''description'', JStr (st_Description st)),
       (''prompt'', JStr (st_Prompt st)), (''depends_on'', enc_strings (st_DependsOn st)),
       (''files_involved'', enc_strings (st_FilesInvolved st)), (''complexity'', JStr (st_Complexity st)),
       (''agent_role'', JStr (st_AgentRole st)), (''status'', JStr (st_Status st))]
      @ omit_empty (st_AgentID st = []) ''agent_id'' (JStr (st_AgentID st)))"

definition unmarshal_subtasks :: "string \<Rightarrow> Subtask list option" where
  "unmarshal_subtasks s = unmarshal (dec_slice (dec_struct subtask_fields) zero_subtask) [] s"

definition marshal_subtasks :: "Subtask list \<Rightarrow> string" where
  "marshal_subtasks sts = print_json (JArr (map enc_subtask sts))"

text \<open>The subtask with its strings made valid UTF-8.\<close>

definition valid_subtask :: "Subtask \<Rightarrow> Subtask" where
  "valid_subtask st = \<lparr>st_ID = to_valid (st_ID st), st_Name = to_valid (st_Name st),
     st_Description = to_valid (st_Description st), st_Prompt = to_valid (st_Prompt st),
     st_DependsOn = map to_valid (st_DependsOn st), st_FilesInvolved = map to_valid (st_FilesInvolved st),
     st_Complexity = to_valid (st_Complexity st), st_AgentRole = to_valid (st_AgentRole st),
     st_Status = to_valid (st_Status st), st_AgentID = to_valid (st_AgentID st)\<rparr>"

section \<open>Repository configuration and team roles\<close>

definition zero_repo_config :: RepoConfig where
  "zero_repo_config = \<lparr>rc_URL = [], rc_Branch = [], rc_AccessToken = [], rc_AutoBranch = False,
     rc_AutoCommit = False, rc_AutoPush = False, rc_AutoPR = False, rc_PRTarget = [],
     rc_PRReviewers = [], rc_RepoTemplateID = [], rc_EnableMemory = False\<rparr>"

definition repo_config_fields :: "RepoConfig fields" where
  "repo_config_fields =
     [field ''url'' dec_string rc_URL rc_URL_update,
      field ''branch'' dec_string rc_Branch rc_Branch_update,
      field ''access_token'' dec_string rc_AccessToken rc_AccessToken_update,
      field ''auto_branch'' dec_bool rc_AutoBranch rc_AutoBranch_update,
      field ''auto_commit'' dec_bool rc_AutoCommit rc_AutoCommit_update,
      field ''auto_push'' dec_bool rc_AutoPush rc_AutoPush_update,
      field ''auto_pr'' dec_bool rc_AutoPR rc_AutoPR_update,
      field ''pr_target'' dec_string rc_PRTarget rc_PRTarget_update,
      field ''pr_reviewers'' (dec_slice dec_string []) rc_PRReviewers rc_PRReviewers_update,
      field ''repo_template_id'' dec_string rc_RepoTemplateID rc_RepoTemplateID_update,
      field ''enable_memory'' dec_bool rc_EnableMemory rc_EnableMemory_update]"

definition unmarshal_repo_config :: "string \<Rightarrow> RepoConfig option" where
  "unmarshal_repo_config s = unmarshal (dec_struct repo_config_fields) zero_repo_config s"

definition zero_team_role :: TeamRole where
  "zero_team_role = \<lparr>tr_Name = [], tr_Description = [], tr_PromptHint = [], tr_MaxInstances = 0,
     tr_RunLast = False\<rparr>"

definition team_role_fields :: "TeamRole fields" where
  "team_role_fields =
     [field ''name'' dec_string tr_Name tr_Name_update,
      field ''description'' dec_string tr_Description tr_Description_update,
      field ''prompt_hint'' dec_string tr_PromptHint tr_PromptHint_update,
      field ''max_instances'' dec_int tr_MaxInstances tr_MaxInstances_update,
      field ''run_last'' dec_bool tr_RunLast tr_RunLast_update]"

definition unmarshal_team_roles :: "string \<Rightarrow> TeamRole list option" where
  "unmarshal_team_roles s = unmarshal (dec_slice (dec_struct team_role_fields) zero_team_role) [] s"

section \<open>Subtasks survive\<close>

lemma to_valid_names [simp]:
  "to_valid ''id'' = ''id''" "to_valid ''name'' = ''name''" "to_valid ''description'' = ''description''"
  "to_valid ''prompt'' = ''prompt''" "to_valid ''depends_on'' = ''depends_on''"
  "to_valid ''files_involved'' = ''files_involved''" "to_valid ''complexity'' = ''complexity''"
  "to_valid ''agent_role'' = ''agent_role''" "to_valid ''status'' = ''status''"
  "to_valid ''agent_id'' = ''agent_id''"
  by (rule to_valid_ascii; simp)+

lemma to_valid_Nil_iff [simp]: "to_valid s = [] \<longleftrightarrow> s = []"
  by (cases s) (simp_all add: to_valid.simps(2) rune_error_def)

lemma all_some_map: "all_some (map (\<lambda>x. Some (f x)) xs) = Some (map f xs)"
  by (induction xs) auto

lemma dec_strings_enc: "dec_slice dec_string [] (valid_json (enc_strings ss)) x = Some (map to_valid ss)"
  by (simp add: dec_slice_def enc_strings_def comp_def all_some_map dec_string_def)

lemma dec_subtask_enc:
  "dec_struct subtask_fields (valid_json (enc_subtask st)) zero_subtask = Some (valid_subtask st)"
  by (auto simp: enc_subtask_def dec_struct_def lookup_field_def subtask_fields_def field_def
      dec_string_def dec_strings_enc omit_empty_def valid_subtask_def zero_subtask_def)

lemma nums_ok_subtask: "nums_ok (enc_subtask st)"
  by (auto simp: enc_subtask_def enc_strings_def omit_empty_def list_all_iff)

lemma depth_strings: "json_depth (enc_strings ss) = 1"
  by (induction ss) (auto simp: enc_strings_def)

lemma depth_subtask: "json_depth (enc_subtask st) = 2"
  by (simp add: enc_subtask_def omit_empty_def depth_strings)

lemma subtasks_roundtrip: "unmarshal_subtasks (marshal_subtasks sts) = Some (map valid_subtask sts)"
proof -
  have n: "nums_ok (JArr (map enc_subtask sts))" by (simp add: list_all_iff nums_ok_subtask)
  have "foldr (\<lambda>v. max (json_depth v)) (map enc_subtask sts) 0 \<le> 2"
    by (induction sts) (auto simp: depth_subtask)
  then have d: "json_depth (JArr (map enc_subtask sts)) \<le> json_max_depth"
    by (simp add: json_max_depth_def)
  have "parse_json (marshal_subtasks sts) = Some (JArr (map (valid_json \<circ> enc_subtask) sts))"
    unfolding marshal_subtasks_def parse_print_json [OF n d] by simp
  then show ?thesis
    by (simp add: unmarshal_subtasks_def unmarshal_def dec_slice_def comp_def dec_subtask_enc all_some_map)
qed

end
