(* ===== verification/Plan_Output.thy ===== *)
theory Plan_Output
  imports Json_Codec
begin

text \<open>
  Reading the planner's output: \<open>internal/task/plan.go\<close> from \<open>ParsePlanOrQuestions\<close> to
  \<open>extractFromStreamJSON\<close>, \<open>ValidatePlan\<close>, and \<open>stripDockerLogHeaders\<close> of
  \<open>internal/task/planner.go\<close>.
\<close>

section \<open>Data\<close>

record PlanOutput =
  po_Analysis :: string
  po_Strategy :: string
  po_Subtasks :: "Subtask list"
  po_EstimatedAgents :: int
  po_Notes :: string

record QuestionItem =
  qi_ID :: string
  qi_Text :: string
  qi_Context :: string
  qi_Suggestions :: "string list"
  qi_Options :: "string list"

record QuestionsOutput =
  qo_Type :: string
  qo_Questions :: "QuestionItem list"

definition zero_plan_output :: PlanOutput where
  "zero_plan_output = \<lparr>po_Analysis = [], po_Strategy = [], po_Subtasks = [], po_EstimatedAgents = 0,
     po_Notes = []\<rparr>"

definition plan_output_fields :: "PlanOutput fields" where
  "plan_output_fields =
     [field ''analysis'' dec_string po_Analysis po_Analysis_update,
      field ''strategy'' dec_string po_Strategy po_Strategy_update,
      field ''subtasks'' (dec_slice (dec_struct subtask_fields) zero_subtask) po_Subtasks po_Subtasks_update,
      field ''estimated_agents'' dec_int po_EstimatedAgents po_EstimatedAgents_update,
      field ''notes'' dec_string po_Notes po_Notes_update]"

definition zero_question_item :: QuestionItem where
  "zero_question_item = \<lparr>qi_ID = [], qi_Text = [], qi_Context = [], qi_Suggestions = [], qi_Options = []\<rparr>"

definition question_item_fields :: "QuestionItem fields" where
  "question_item_fields =
     [field ''id'' dec_string qi_ID qi_ID_update,
      field ''text'' dec_string qi_Text qi_Text_update,
      field ''context'' dec_string qi_Context qi_Context_update,
      field ''suggestions'' (dec_slice dec_string []) qi_Suggestions qi_Suggestions_update,
      field ''options'' (dec_slice dec_string []) qi_Options qi_Options_update]"

definition zero_questions_output :: QuestionsOutput where
  "zero_questions_output = \<lparr>qo_Type = [], qo_Questions = []\<rparr>"

definition questions_output_fields :: "QuestionsOutput fields" where
  "questions_output_fields =
     [field ''type'' dec_string qo_Type qo_Type_update,
      field ''questions'' (dec_slice (dec_struct question_item_fields) zero_question_item)
        qo_Questions qo_Questions_update]"

section \<open>Parsing\<close>

definition tryParseQuestions :: "string \<Rightarrow> QuestionsOutput option" where
  "tryParseQuestions data =
     (let data = TrimSpace data in
      if data = [] then None
      else case unmarshal (dec_struct questions_output_fields) zero_questions_output data of
        None \<Rightarrow> None
      | Some q \<Rightarrow> if qo_Type q = ''questions'' \<and> qo_Questions q \<noteq> [] then Some q else None)"

definition tryParsePlan :: "string \<Rightarrow> PlanOutput option" where
  "tryParsePlan data =
     (let data = TrimSpace data in
      if data = [] then None
      else case unmarshal (dec_struct plan_output_fields) zero_plan_output data of
        None \<Rightarrow> None
      | Some p \<Rightarrow> if po_Subtasks p \<noteq> [] then Some p else None)"

text \<open>
  The regular expression of \<open>extractJSONBlock\<close>: three backquotes, an optional \<open>json\<close>, white
  space, then the shortest text from an opening brace to a closing one that white space and
  three backquotes follow. The leftmost match counts.
\<close>

definition re_space :: "char \<Rightarrow> bool" where
  "re_space c \<longleftrightarrow> c \<in> {CHR 0x20, CHR 0x09, CHR 0x0A, CHR 0x0C, CHR 0x0D}"

definition backquotes :: string where
  "backquotes = [CHR 0x60, CHR 0x60, CHR 0x60]"

fun find_close :: "string \<Rightarrow> string option" where
  "find_close [] = None"
| "find_close (c # s) =
     (if c = CHR 0x7D \<and> HasPrefix (dropWhile re_space s) backquotes then Some [c]
      else map_option (Cons c) (find_close s))"

definition block_at :: "string \<Rightarrow> string option" where
  "block_at s =
     (if HasPrefix s backquotes
      then let s1 = drop 3 s;
               s2 = (if HasPrefix s1 ''json'' then drop 4 s1 else s1)
           in case dropWhile re_space s2 of [] \<Rightarrow> None
              | c # s3 \<Rightarrow> if c = CHR 0x7B then map_option (Cons c) (find_close s3) else None
      else None)"

fun extractJSONBlock :: "string \<Rightarrow> string option" where
  "extractJSONBlock [] = None"
| "extractJSONBlock (c # s) =
     (case block_at (c # s) of Some b \<Rightarrow> Some b | None \<Rightarrow> extractJSONBlock s)"

text \<open>The text from an opening brace to the one that closes it, counting every brace byte.\<close>

fun match_braces :: "nat \<Rightarrow> string \<Rightarrow> string option" where
  "match_braces d [] = None"
| "match_braces d (c # s) =
     (if c = CHR 0x7B then map_option (Cons c) (match_braces (Suc d) s)
      else if c = CHR 0x7D then
        (if d = 1 then Some [c] else map_option (Cons c) (match_braces (d - 1) s))
      else map_option (Cons c) (match_braces d s))"

text \<open>A field of a line: of several members of one key the last one counts.\<close>

definition raw_get :: "(string \<times> json) list \<Rightarrow> string \<Rightarrow> json option" where
  "raw_get ms k = map_of (rev ms) k"

definition raw_string :: "(string \<times> json) list \<Rightarrow> string \<Rightarrow> string" where
  "raw_string ms k = (case raw_get ms k of None \<Rightarrow> []
     | Some v \<Rightarrow> (case dec_string v [] of None \<Rightarrow> [] | Some s \<Rightarrow> s))"

record text_block =
  tb_type :: string
  tb_text :: string

definition zero_text_block :: text_block where
  "zero_text_block = \<lparr>tb_type = [], tb_text = []\<rparr>"

definition text_block_fields :: "text_block fields" where
  "text_block_fields = [field ''type'' dec_string tb_type tb_type_update,
                        field ''text'' dec_string tb_text tb_text_update]"

definition message_fields :: "text_block list fields" where
  "message_fields = [field ''content'' (dec_slice (dec_struct text_block_fields) zero_text_block)
     (\<lambda>r. r) (\<lambda>f. f)]"

text \<open>The text parts one line of the stream contributes: the old \<open>content\<close> and \<open>text\<close> fields, and
  the strategies the code tries before them.\<close>

definition legacy_parts :: "(string \<times> json) list \<Rightarrow> string list" where
  "legacy_parts raw =
     (if raw_string raw ''content'' \<noteq> [] then [raw_string raw ''content''] else []) @
     (if raw_string raw ''text'' \<noteq> [] then [raw_string raw ''text''] else [])"

definition line_parts :: "string \<Rightarrow> string list" where
  "line_parts line =
     (case parse_json (TrimSpace line) of
        Some (JObj raw) \<Rightarrow>
          if raw_string raw ''type'' = ''system'' then []
          else if raw_string raw ''result'' \<noteq> [] then [raw_string raw ''result'']
          else
            (case (case raw_get raw ''message'' of None \<Rightarrow> None
                   | Some m \<Rightarrow> dec_struct message_fields m []) of
               Some blocks \<Rightarrow> map tb_text (filter (\<lambda>b. tb_type b = ''text'' \<and> tb_text b \<noteq> []) blocks)
             | None \<Rightarrow>
                 (case (case raw_get raw ''delta'' of None \<Rightarrow> None
                        | Some d \<Rightarrow> dec_struct text_block_fields d zero_text_block) of
                    Some b \<Rightarrow> if tb_text b \<noteq> [] then [tb_text b] else legacy_parts raw
                  | None \<Rightarrow> legacy_parts raw))
      | _ \<Rightarrow> [])"

definition extractFromStreamJSON :: "string \<Rightarrow> string option" where
  "extractFromStreamJSON data =
     (let combined = Join (concat (map line_parts (Split (CHR 0x0A) data))) [] in
      case Index combined [CHR 0x7B] of None \<Rightarrow> None
      | Some start \<Rightarrow> match_braces 0 (drop start combined))"

datatype planner_output = GotPlan PlanOutput | GotQuestions QuestionsOutput

definition try_both :: "string \<Rightarrow> planner_output option" where
  "try_both data = (case tryParseQuestions data of Some q \<Rightarrow> Some (GotQuestions q)
     | None \<Rightarrow> map_option GotPlan (tryParsePlan data))"

definition ParsePlanOrQuestions :: "string \<Rightarrow> string + planner_output" where
  "ParsePlanOrQuestions output =
     (let extracted = (case extractFromStreamJSON output of None \<Rightarrow> output | Some x \<Rightarrow> x) in
      case try_both extracted of Some r \<Rightarrow> Inr r
      | None \<Rightarrow>
          (case (case extractJSONBlock extracted of None \<Rightarrow> None | Some b \<Rightarrow> try_both b) of
             Some r \<Rightarrow> Inr r
           | None \<Rightarrow> Inl ''failed to parse planner output as plan or questions''))"

definition ParsePlanOutput :: "string \<Rightarrow> string + PlanOutput" where
  "ParsePlanOutput output = (case ParsePlanOrQuestions output of
     Inl e \<Rightarrow> Inl e
   | Inr (GotPlan p) \<Rightarrow> Inr p
   | Inr (GotQuestions q) \<Rightarrow> Inl ''output contains questions, not a plan'')"

section \<open>Validation\<close>

datatype plan_error = InvalidStrategy string | NoSubtasks | MissingID | DuplicateID string
  | MissingName string | MissingPrompt string | UnknownDependency string string

fun validate_ids :: "string list \<Rightarrow> Subtask list \<Rightarrow> plan_error + string list" where
  "validate_ids ids [] = Inr ids"
| "validate_ids ids (st # sts) =
     (if st_ID st = [] then Inl MissingID
      else if st_ID st \<in> set ids then Inl (DuplicateID (st_ID st))
      else if st_Name st = [] then Inl (MissingName (st_ID st))
      else if st_Prompt st = [] then Inl (MissingPrompt (st_ID st))
      else validate_ids (st_ID st # ids) sts)"

fun validate_deps :: "string list \<Rightarrow> Subtask list \<Rightarrow> plan_error + unit" where
  "validate_deps ids [] = Inr ()"
| "validate_deps ids (st # sts) =
     (case find (\<lambda>dep. dep \<notin> set ids) (st_DependsOn st) of
        Some dep \<Rightarrow> Inl (UnknownDependency (st_ID st) dep)
      | None \<Rightarrow> validate_deps ids sts)"

definition ValidatePlan :: "PlanOutput \<Rightarrow> plan_error + unit" where
  "ValidatePlan plan =
     (if po_Strategy plan \<noteq> ''parallel'' \<and> po_Strategy plan \<noteq> ''sequential''
      then Inl (InvalidStrategy (po_Strategy plan))
      else if po_Subtasks plan = [] then Inl NoSubtasks
      else case validate_ids [] (po_Subtasks plan) of
        Inl e \<Rightarrow> Inl e
      | Inr ids \<Rightarrow> validate_deps ids (po_Subtasks plan))"

section \<open>Docker log headers\<close>

definition is_log_header :: "string \<Rightarrow> bool" where
  "is_log_header data \<longleftrightarrow> byte (data ! 0) \<le> 2 \<and> data ! 1 = CHR 0x00 \<and> data ! 2 = CHR 0x00 \<and> data ! 3 = CHR 0x00"

definition frame_size :: "string \<Rightarrow> nat" where
  "frame_size data = byte (data ! 4) * 2 ^ 24 + byte (data ! 5) * 2 ^ 16 + byte (data ! 6) * 2 ^ 8 + byte (data ! 7)"

text \<open>The loop: the result so far is returned with what is left of the data.\<close>

function strip_frames :: "string \<Rightarrow> string \<Rightarrow> string \<times> string" where
  "strip_frames result data =
     (if length data < 8 then (result, data)
      else if \<not> is_log_header data then (result @ data, data)
      else let body = drop 8 data; size = min (frame_size data) (length body)
           in strip_frames (result @ take size body) (drop size body))"
  by pat_completeness auto

termination strip_frames
  by (relation "measure (\<lambda>(result, data). length data)") (auto simp: Let_def)

declare strip_frames.simps [simp del]

definition stripDockerLogHeaders :: "string \<Rightarrow> string" where
  "stripDockerLogHeaders data =
     (if length data < 8 then data
      else if \<not> is_log_header data then data
      else case strip_frames [] data of (result, rest) \<Rightarrow> if result = [] then rest else result)"

definition truncate_str :: "string \<Rightarrow> nat \<Rightarrow> string" where
  "truncate_str s maxLen = (if length s \<le> maxLen then s else take maxLen s @ ''...'')"

definition strPtr :: "string \<Rightarrow> string option" where
  "strPtr s = (if s = [] then None else Some s)"

section \<open>Validation is exact\<close>

lemma validate_ids_Inr:
  "validate_ids ids sts = Inr ids' \<longleftrightarrow>
     ids' = rev (map st_ID sts) @ ids \<and> distinct (map st_ID sts) \<and> set (map st_ID sts) \<inter> set ids = {} \<and>
     (\<forall>st \<in> set sts. st_ID st \<noteq> [] \<and> st_Name st \<noteq> [] \<and> st_Prompt st \<noteq> [])"
  by (induction ids sts rule: validate_ids.induct) auto

lemma validate_deps_Inr:
  "validate_deps ids sts = Inr () \<longleftrightarrow> (\<forall>st \<in> set sts. set (st_DependsOn st) \<subseteq> set ids)"
proof (induction ids sts rule: validate_deps.induct)
  case (2 ids st sts)
  show ?case
  proof (cases "find (\<lambda>dep. dep \<notin> set ids) (st_DependsOn st)")
    case None
    then have "set (st_DependsOn st) \<subseteq> set ids" by (auto simp: find_None_iff)
    with None 2 [OF None] show ?thesis by simp
  next
    case (Some dep)
    then have "dep \<in> set (st_DependsOn st)" "dep \<notin> set ids"
      by (auto simp: find_Some_iff)
    with Some show ?thesis by auto
  qed
qed simp

lemma ValidatePlan_iff:
  "ValidatePlan plan = Inr () \<longleftrightarrow>
     po_Strategy plan \<in> {''parallel'', ''sequential''} \<and> po_Subtasks plan \<noteq> [] \<and>
     distinct (map st_ID (po_Subtasks plan)) \<and>
     (\<forall>st \<in> set (po_Subtasks plan). st_ID st \<noteq> [] \<and> st_Name st \<noteq> [] \<and> st_Prompt st \<noteq> [] \<and>
        set (st_DependsOn st) \<subseteq> st_ID ` set (po_Subtasks plan))"
proof (cases "validate_ids [] (po_Subtasks plan)")
  case (Inl e)
  then have "\<not> (distinct (map st_ID (po_Subtasks plan)) \<and>
      (\<forall>st \<in> set (po_Subtasks plan). st_ID st \<noteq> [] \<and> st_Name st \<noteq> [] \<and> st_Prompt st \<noteq> []))"
    using validate_ids_Inr [of "[]" "po_Subtasks plan" "rev (map st_ID (po_Subtasks plan))"] by auto
  with Inl show ?thesis by (auto simp: ValidatePlan_def)
next
  case (Inr ids)
  then have i: "ids = rev (map st_ID (po_Subtasks plan))" "distinct (map st_ID (po_Subtasks plan))"
      "\<forall>st \<in> set (po_Subtasks plan). st_ID st \<noteq> [] \<and> st_Name st \<noteq> [] \<and> st_Prompt st \<noteq> []"
    by (auto simp: validate_ids_Inr)
  then have "set ids = st_ID ` set (po_Subtasks plan)" by simp
  with i Inr show ?thesis by (auto simp: ValidatePlan_def validate_deps_Inr)
qed

section \<open>Frames round trip\<close>

text \<open>Docker's multiplexed log: a header with the stream and the big-endian size before each chunk.\<close>

definition log_frame :: "nat \<times> string \<Rightarrow> string" where
  "log_frame = (\<lambda>(strm, chunk).
     [chr strm, CHR 0x00, CHR 0x00, CHR 0x00, chr (length chunk div 2 ^ 24 mod 256),
      chr (length chunk div 2 ^ 16 mod 256), chr (length chunk div 2 ^ 8 mod 256), chr (length chunk mod 256)]
     @ chunk)"

lemma log_frame_header:
  assumes "strm \<le> 2" "length chunk < 2 ^ 32"
  shows "is_log_header (log_frame (strm, chunk) @ r)" "frame_size (log_frame (strm, chunk) @ r) = length chunk"
    "drop 8 (log_frame (strm, chunk) @ r) = chunk @ r" "8 \<le> length (log_frame (strm, chunk) @ r)"
proof -
  let ?n = "length chunk"
  show "is_log_header (log_frame (strm, chunk) @ r)"
    using assms(1) by (simp add: is_log_header_def log_frame_def byte_chr)
  define a b c where "a = ?n div 256" and "b = a div 256" and "c = b div 256"
  have d: "?n div 2 ^ 8 = a" "?n div 2 ^ 16 = b" "?n div 2 ^ 24 = c"
    by (simp_all add: a_def b_def c_def div_mult2_eq [symmetric])
  have "c mod 256 = c" using assms(2) by (simp add: c_def b_def a_def div_mult2_eq [symmetric] less_mult_imp_div_less)
  moreover have "?n = 256 * a + ?n mod 256" "a = 256 * b + a mod 256" "b = 256 * c + b mod 256"
    by (simp_all add: a_def b_def c_def)
  ultimately have "?n div 2 ^ 24 * 2 ^ 24 + ?n div 2 ^ 16 mod 256 * 2 ^ 16 + ?n div 2 ^ 8 mod 256 * 2 ^ 8 + ?n mod 256 = ?n"
    and "?n div 2 ^ 24 mod 256 = ?n div 2 ^ 24"
    unfolding d by simp_all
  then show "frame_size (log_frame (strm, chunk) @ r) = ?n"
    by (simp add: frame_size_def log_frame_def chr_def)
qed (simp_all add: log_frame_def)

lemma strip_frames_log:
  assumes "list_all (\<lambda>(strm, chunk). strm \<le> 2 \<and> length chunk < 2 ^ 32) frames"
  shows "strip_frames result (concat (map log_frame frames)) = (result @ concat (map snd frames), [])"
  using assms
proof (induction frames arbitrary: result)
  case Nil
  show ?case by (simp add: strip_frames.simps)
next
  case (Cons f fs)
  obtain strm chunk where f: "f = (strm, chunk)" by (cases f)
  let ?r = "concat (map log_frame fs)"
  have h: "is_log_header (log_frame f @ ?r)" "frame_size (log_frame f @ ?r) = length chunk"
    "drop 8 (log_frame f @ ?r) = chunk @ ?r" "8 \<le> length (log_frame f @ ?r)"
    using log_frame_header [of strm chunk ?r] Cons.prems f by auto
  have "strip_frames result (log_frame f @ ?r) = strip_frames (result @ chunk) ?r"
    by (subst strip_frames.simps) (use h in \<open>simp add: Let_def\<close>)
  with Cons f show ?case by simp
qed

lemma stripDockerLogHeaders_log:
  assumes "list_all (\<lambda>(strm, chunk). strm \<le> 2 \<and> length chunk < 2 ^ 32) frames"
  shows "stripDockerLogHeaders (concat (map log_frame frames)) = concat (map snd frames)"
proof (cases frames)
  case Nil
  then show ?thesis by (simp add: stripDockerLogHeaders_def)
next
  case (Cons f fs)
  obtain strm chunk where f: "f = (strm, chunk)" by (cases f)
  then have "is_log_header (log_frame f @ concat (map log_frame fs))" "8 \<le> length (log_frame f @ concat (map log_frame fs))"
    using log_frame_header [of strm chunk "concat (map log_frame fs)"] assms Cons by auto
  then show ?thesis
    using strip_frames_log [OF assms, of "[]"] by (simp add: stripDockerLogHeaders_def Cons)
qed

section \<open>Numbers\<close>

lemma nat_digits_step: "\<not> n < 10 \<Longrightarrow> nat_digits n = nat_digits (n div 10) @ [digit (n mod 10)]"
  by (simp add: nat_digits.simps [of n])

lemma is_digit_digit: "d < 10 \<Longrightarrow> is_digit (digit d)"
  by (simp add: is_digit_def digit_def)

lemma nat_digits_all: "list_all is_digit (nat_digits n)"
proof (induction n rule: nat_digits.induct)
  case (1 n)
  show ?case
  proof (cases "n < 10")
    case True then show ?thesis by (simp add: nat_digits.simps [of n] is_digit_digit)
  next
    case False
    with 1 show ?thesis by (simp add: nat_digits_step is_digit_digit)
  qed
qed

lemma digit_zero_iff: "d < 10 \<Longrightarrow> digit d = CHR ''0'' \<longleftrightarrow> d = 0"
proof
  assume "d < 10" "digit d = CHR ''0''"
  then have "digit_value (CHR ''0'') = Some d" by (metis digit_value_digit)
  then show "d = 0" by (simp add: digit_value_def)
next
  assume "d = 0"
  then show "digit d = CHR ''0''" using chr_eqI [of 48 "CHR ''0''"] by (simp add: digit_def chr_def)
qed

lemma nat_digits_head: "0 < n \<Longrightarrow> hd (nat_digits n) \<noteq> CHR ''0''"
proof (induction n rule: nat_digits.induct)
  case (1 n)
  show ?case
  proof (cases "n < 10")
    case True
    with 1(2) show ?thesis by (simp add: nat_digits.simps [of n] digit_zero_iff)
  next
    case False
    then have "0 < n div 10" by (simp add: div_greater_zero_iff)
    with 1(1) [OF False] False show ?thesis by (simp add: nat_digits_step)
  qed
qed

lemma takeWhile_digits: "takeWhile is_digit (nat_digits n) = nat_digits n"
    "dropWhile is_digit (nat_digits n) = []"
  using nat_digits_all [of n] by (simp_all add: takeWhile_eq_all_conv dropWhile_eq_Nil_conv list_all_iff)

lemma int_part_digits: "int_part (nat_digits n) = Some (nat_digits n, [])"
proof (cases "n = 0")
  case True
  have "nat_digits 0 = ''0''" by (simp add: nat_digits.simps [of 0] digit_zero_iff)
  with True show ?thesis by (simp add: int_part_def)
next
  case False
  obtain c s where cs: "nat_digits n = c # s" by (cases "nat_digits n") auto
  with nat_digits_head [of n] False have "c \<noteq> CHR ''0''" by simp
  with takeWhile_digits [of n] cs show ?thesis
    by (simp add: int_part_def digits1_def split: list.splits if_splits)
qed

lemma digits_no_sign: "nat_digits n \<noteq> CHR ''-'' # s"
  using nat_digits_all [of n] by (auto simp: is_digit_def)

lemma nums_ok_int [simp]: "nums_ok (enc_int n)"
proof -
  have "parse_num (nat_digits m) = Some (nat_digits m, [])" for m
  proof -
    obtain c s where cs: "nat_digits m = c # s" by (cases "nat_digits m") auto
    with digits_no_sign [of m] have "c \<noteq> CHR ''-''" by auto
    with int_part_digits [of m] cs show ?thesis by (simp add: parse_num_def frac_part_def exp_part_def)
  qed
  moreover have "parse_num (CHR ''-'' # nat_digits m) = Some (CHR ''-'' # nat_digits m, [])" for m
    by (simp add: parse_num_def int_part_digits frac_part_def exp_part_def)
  ultimately show ?thesis by (simp add: enc_int_def itoa_def)
qed

lemma parse_int64_itoa:
  assumes "- (2 ^ 63) \<le> n" "n < 2 ^ 63"
  shows "parse_int64 (itoa n) = Some n"
proof (cases "n < 0")
  case True
  with assms show ?thesis by (simp add: parse_int64_def itoa_def parse_nat_digits)
next
  case False
  obtain c s where cs: "nat_digits (nat n) = c # s" by (cases "nat_digits (nat n)") auto
  with digits_no_sign [of "nat n"] have "c \<noteq> CHR ''-''" by auto
  with False assms cs parse_nat_digits [of "nat n"] show ?thesis
    by (simp add: parse_int64_def itoa_def)
qed

section \<open>Printing a plan\<close>

definition enc_plan :: "PlanOutput \<Rightarrow> json" where
  "enc_plan po = JObj
     [(''analysis'', JStr (po_Analysis po)), (''strategy'', JStr (po_Strategy po)),
      (''subtasks'', JArr (map enc_subtask (po_Subtasks po))),
      (''estimated_agents'', enc_int (po_EstimatedAgents po)), (''notes'', JStr (po_Notes po))]"

definition marshal_plan :: "PlanOutput \<Rightarrow> string" where
  "marshal_plan po = print_json (enc_plan po)"

text \<open>The plan with its strings made valid UTF-8.\<close>

definition valid_plan :: "PlanOutput \<Rightarrow> PlanOutput" where
  "valid_plan po = \<lparr>po_Analysis = to_valid (po_Analysis po), po_Strategy = to_valid (po_Strategy po),
     po_Subtasks = map valid_subtask (po_Subtasks po), po_EstimatedAgents = po_EstimatedAgents po,
     po_Notes = to_valid (po_Notes po)\<rparr>"

definition int64 :: "int \<Rightarrow> bool" where
  "int64 n \<longleftrightarrow> - (2 ^ 63) \<le> n \<and> n < 2 ^ 63"

lemma to_valid_plan_names [simp]:
  "to_valid ''analysis'' = ''analysis''" "to_valid ''strategy'' = ''strategy''"
  "to_valid ''subtasks'' = ''subtasks''" "to_valid ''estimated_agents'' = ''estimated_agents''"
  "to_valid ''notes'' = ''notes''"
  by (rule to_valid_ascii; simp)+

lemma chr_eq_iff [simp]: "m < 256 \<Longrightarrow> n < 256 \<Longrightarrow> chr m = chr n \<longleftrightarrow> m = n"
  by (metis byte_chr)

lemma valid_enc_int [simp]: "valid_json (enc_int n) = enc_int n"
  by (simp add: enc_int_def)

lemma dec_plan_enc:
  assumes "int64 (po_EstimatedAgents po)"
  shows "dec_struct plan_output_fields (valid_json (enc_plan po)) zero_plan_output = Some (valid_plan po)"
proof -
  have "dec_slice (dec_struct subtask_fields) zero_subtask
      (JArr (map (valid_json \<circ> enc_subtask) (po_Subtasks po))) x = Some (map valid_subtask (po_Subtasks po))" for x
    by (simp add: dec_slice_def comp_def dec_subtask_enc all_some_map)
  moreover have "dec_int (enc_int (po_EstimatedAgents po)) x = Some (po_EstimatedAgents po)" for x
    using assms by (simp add: dec_int_def enc_int_def parse_int64_itoa int64_def)
  ultimately show ?thesis
    by (simp add: enc_plan_def dec_struct_def lookup_field_def plan_output_fields_def field_def
        dec_string_def valid_plan_def zero_plan_output_def)
qed

lemma dec_questions_plan:
  "dec_struct questions_output_fields (valid_json (enc_plan po)) zero_questions_output = Some zero_questions_output"
  by (simp add: enc_plan_def dec_struct_def lookup_field_def questions_output_fields_def field_def)

lemma parse_marshal_plan: "parse_json (marshal_plan po) = Some (valid_json (enc_plan po))"
proof -
  have "nums_ok (enc_plan po)" by (simp add: enc_plan_def list_all_iff nums_ok_subtask)
  moreover have "foldr (\<lambda>v. max (json_depth v)) (map enc_subtask sts) 0 \<le> 2" for sts
    by (induction sts) (auto simp: depth_subtask)
  from le_trans [OF this [of "po_Subtasks po"], of 9998] have "json_depth (enc_plan po) \<le> json_max_depth"
    by (simp add: enc_plan_def enc_int_def json_max_depth_def)
  ultimately show ?thesis by (simp add: marshal_plan_def parse_print_json)
qed

lemma lead_space_brace: "lead_space go_spaces (CHR 0x7B # s) = 0"
    "lead_space (map rev go_spaces) (CHR 0x7D # s) = 0"
  by (simp_all add: lead_space_def go_spaces_def)

lemma marshal_plan_braces: "\<exists>s. marshal_plan po = CHR 0x7B # s @ [CHR 0x7D]"
  unfolding marshal_plan_def enc_plan_def print_json.simps by blast

lemma TrimSpace_braces: "TrimSpace (CHR 0x7B # s @ [CHR 0x7D]) = CHR 0x7B # s @ [CHR 0x7D]"
proof -
  have "drop_spaces go_spaces (CHR 0x7B # s @ [CHR 0x7D]) = CHR 0x7B # s @ [CHR 0x7D]"
    "drop_spaces (map rev go_spaces) (CHR 0x7D # rev s @ [CHR 0x7B]) = CHR 0x7D # rev s @ [CHR 0x7B]"
    by (subst drop_spaces.simps, simp add: lead_space_brace)+
  then show ?thesis by (simp add: TrimSpace_def)
qed

lemma TrimSpace_plan: "TrimSpace (marshal_plan po) = marshal_plan po"
  using marshal_plan_braces [of po] by (auto simp: TrimSpace_braces)

lemma try_both_plan:
  assumes "int64 (po_EstimatedAgents po)" "po_Subtasks po \<noteq> []"
  shows "try_both (marshal_plan po) = Some (GotPlan (valid_plan po))"
proof -
  have ne: "marshal_plan po \<noteq> []" using marshal_plan_braces [of po] by auto
  have "tryParseQuestions (marshal_plan po) = None"
    by (simp add: tryParseQuestions_def TrimSpace_plan unmarshal_def parse_marshal_plan
        dec_questions_plan Let_def) (simp add: zero_questions_output_def)
  moreover have "tryParsePlan (marshal_plan po) = Some (valid_plan po)"
    using assms ne by (simp add: tryParsePlan_def TrimSpace_plan unmarshal_def parse_marshal_plan
        dec_plan_enc Let_def) (simp add: valid_plan_def)
  ultimately show ?thesis by (simp add: try_both_def)
qed

section \<open>Finding the plan in the stream\<close>

text \<open>Text without braces, and a JSON value all of whose strings are such text.\<close>

definition no_braces :: "string \<Rightarrow> bool" where
  "no_braces s \<longleftrightarrow> CHR 0x7B \<notin> set s \<and> CHR 0x7D \<notin> set s"

fun json_no_braces :: "json \<Rightarrow> bool" where
  "json_no_braces (JNum n) = no_braces n"
| "json_no_braces (JStr s) = no_braces s"
| "json_no_braces (JArr vs) = list_all json_no_braces vs"
| "json_no_braces (JObj ms) = list_all (\<lambda>(k, v). no_braces k \<and> json_no_braces v) ms"
| "json_no_braces v = True"

text \<open>A balanced text: the brace counter leaves it at the depth it entered.\<close>

definition balanced :: "string \<Rightarrow> bool" where
  "balanced s \<longleftrightarrow> (\<forall>d r. 0 < d \<longrightarrow> match_braces d (s @ r) = map_option (append s) (match_braces d r))"

lemma balancedD: "balanced s \<Longrightarrow> 0 < d \<Longrightarrow> match_braces d (s @ r) = map_option (append s) (match_braces d r)"
  by (simp add: balanced_def)

lemma append_fun: "append [] = (\<lambda>x. x)" "append (c # s) = (\<lambda>x. c # s @ x)" "append (s @ t) = (\<lambda>x. s @ t @ x)"
  by auto

lemma balanced_Nil [simp, intro]: "balanced []"
  by (simp add: balanced_def append_fun option.map_ident)

lemma balanced_append [intro]: "balanced s \<Longrightarrow> balanced t \<Longrightarrow> balanced (s @ t)"
  by (simp add: balanced_def append_fun option.map_comp comp_def)

lemma balanced_char [intro]: "c \<noteq> CHR 0x7B \<Longrightarrow> c \<noteq> CHR 0x7D \<Longrightarrow> balanced [c]"
  by (simp add: balanced_def append_fun)

lemma balanced_Cons: "c \<noteq> CHR 0x7B \<Longrightarrow> c \<noteq> CHR 0x7D \<Longrightarrow> balanced s \<Longrightarrow> balanced (c # s)"
  using balanced_append [OF balanced_char] by fastforce

lemma balanced_no_braces [intro]: "no_braces s \<Longrightarrow> balanced s"
  by (induction s) (auto simp: no_braces_def intro: balanced_Cons)

lemma balanced_braces:
  assumes "balanced s"
  shows "balanced (CHR 0x7B # s @ [CHR 0x7D])"
  unfolding balanced_def
  using balancedD [OF assms] by (auto simp: append_fun option.map_comp comp_def)

lemma balanced_Join: "balanced sep \<Longrightarrow> (\<And>x. x \<in> set xs \<Longrightarrow> balanced x) \<Longrightarrow> balanced (Join xs sep)"
  by (induction xs sep rule: Join.induct) auto

text \<open>The bytes an escape sequence is made of.\<close>

definition escape_bytes :: string where
  "escape_bytes = [CHR 0x5C, CHR 0x22] @ ''bfnrtu0123456789abcdef''"

lemma hex_digit_bytes:
  assumes "n < 16"
  shows "hex_digit n \<in> set escape_bytes"
proof -
  have "list_all (\<lambda>n. hex_digit n \<in> set escape_bytes) [0..<16]" by code_simp
  then show ?thesis using assms by (simp add: list_all_iff)
qed

lemma escape_byte_set:
  assumes "byte c < 128"
  shows "set (escape_byte c) \<subseteq> {x. x = c \<and> 32 \<le> byte x} \<union> set escape_bytes"
proof -
  have "byte c div 16 < 16" using assms by auto
  note h = hex_digit_bytes [OF this] hex_digit_bytes [of "byte c mod 16"]
  have "set [CHR 0x5C, CHR 0x22, CHR ''b'', CHR ''f'', CHR ''n'', CHR ''r'', CHR ''t'', CHR ''u'', CHR ''0'']
      \<subseteq> set escape_bytes" by (simp add: escape_bytes_def)
  with h show ?thesis by (auto simp: escape_byte_def)
qed

lemma rune_bytes:
  assumes "rune_len (c # s) \<noteq> 0" "128 \<le> byte c" "x \<in> set (take (rune_len (c # s)) (c # s))"
  shows "128 \<le> byte x"
proof -
  let ?n = "rune_len (c # s)"
  have l: "?n = lead_len c" "lead_len c \<noteq> 1" using assms(1,2) by (auto simp: rune_len_def lead_len_def split: if_splits)
  then have "list_all cont_byte (take (?n - 1) s)" using assms(1) by (auto simp: rune_len_def split: if_splits)
  moreover have "x = c \<or> x \<in> set (take (?n - 1) s)" using assms(1,3) by (cases ?n) auto
  ultimately show ?thesis using assms(2) by (auto simp: list_all_iff cont_byte_def)
qed

lemma escape_set: "x \<in> set (escape s) \<Longrightarrow> x \<in> set s \<and> 32 \<le> byte x \<or> x \<in> set escape_bytes"
proof (induction s rule: escape.induct)
  case (2 c s)
  let ?n = "rune_len (c # s)" and ?u = "CHR 0x5C # ''ufffd''"
  consider "byte c < 128" | "\<not> byte c < 128" "?n = 0" | "\<not> byte c < 128" "?n \<noteq> 0" by blast
  then show ?case
  proof cases
    case 1
    with 2 escape_byte_set [of c] show ?thesis by (auto simp: escape.simps(2))
  next
    case n: 2
    have "set ?u \<subseteq> set escape_bytes" by (simp add: escape_bytes_def)
    with n 2 show ?thesis by (auto simp: escape.simps(2))
  next
    case 3
    have "set (CHR 0x5C # ''u2028'') \<union> set (CHR 0x5C # ''u2029'') \<subseteq> set escape_bytes" by (simp add: escape_bytes_def)
    with 3 2(4) have "x \<in> set escape_bytes \<or> x \<in> set (take ?n (c # s)) \<or> x \<in> set (escape (drop (?n - 1) s))"
      by (auto simp: escape.simps(2) split: if_splits)
    then show ?thesis
    proof (elim disjE)
      assume "x \<in> set (take ?n (c # s))"
      with rune_bytes [of c s x] 3 show ?thesis by (auto dest: in_set_takeD)
    next
      assume "x \<in> set (escape (drop (?n - 1) s))"
      from 2(3) [OF 3 this] show ?thesis by (auto dest: in_set_dropD)
    qed simp
  qed
qed simp

lemma escape_no_braces: "no_braces s \<Longrightarrow> no_braces (escape s)"
  using escape_set [of _ s] by (fastforce simp: no_braces_def escape_bytes_def)

lemma quote_no_braces: "no_braces s \<Longrightarrow> no_braces (quote_json s)"
  using escape_no_braces by (auto simp: quote_json_def no_braces_def)

lemma balanced_member: "no_braces k \<Longrightarrow> balanced (print_json v) \<Longrightarrow> balanced (quote_json k @ '':'' @ print_json v)"
  by (rule balanced_append [OF balanced_no_braces [OF quote_no_braces]]) (auto intro: balanced_Cons)

lemma balanced_print: "json_no_braces v \<Longrightarrow> balanced (print_json v)"
proof (induction v rule: json_no_braces.induct)
  case (3 vs)
  then have "balanced (Join (map print_json vs) '','')"
    by (intro balanced_Join balanced_char) (auto simp: list_all_iff)
  then have "balanced ([CHR 0x5B] @ Join (map print_json vs) '','' @ [CHR 0x5D])"
    by (intro balanced_append balanced_char) auto
  then show ?case by simp
next
  case (4 ms)
  have "balanced (quote_json k @ '':'' @ print_json v)" if "(k, v) \<in> set ms" for k v
    using that 4 by (intro balanced_member) (auto simp: list_all_iff)
  then have "balanced (Join (map (\<lambda>(k, v). quote_json k @ '':'' @ print_json v) ms) '','')"
    by (intro balanced_Join balanced_char) auto
  then show ?case by (simp add: balanced_braces)
qed (auto intro!: balanced_no_braces quote_no_braces, simp_all add: no_braces_def)

lemma match_object:
  assumes "list_all (\<lambda>(k, v). no_braces k \<and> json_no_braces v) ms"
  shows "match_braces 0 (print_json (JObj ms) @ r) = Some (print_json (JObj ms))"
proof -
  have "balanced (quote_json k @ '':'' @ print_json v)" if "(k, v) \<in> set ms" for k v
    using that assms by (intro balanced_member balanced_print) (auto simp: list_all_iff)
  then have "balanced (Join (map (\<lambda>(k, v). quote_json k @ '':'' @ print_json v) ms) '','')"
    by (intro balanced_Join balanced_char) auto
  from balancedD [OF this, of 1 "CHR 0x7D # r"] show ?thesis by simp
qed

lemma Index_first: "c \<notin> set t \<Longrightarrow> Index (t @ c # s) [c] = Some (length t)"
  by (induction t) (auto simp: HasPrefix_iff)

text \<open>The text of all the messages of the stream.\<close>

definition stream_text :: "string \<Rightarrow> string" where
  "stream_text data = Join (concat (map line_parts (Split (CHR 0x0A) data))) []"

text \<open>A plan whose strings have no braces.\<close>

definition brace_free_subtask :: "Subtask \<Rightarrow> bool" where
  "brace_free_subtask st \<longleftrightarrow> list_all no_braces
     ([st_ID st, st_Name st, st_Description st, st_Prompt st, st_Complexity st, st_AgentRole st,
       st_Status st, st_AgentID st] @ st_DependsOn st @ st_FilesInvolved st)"

definition brace_free_plan :: "PlanOutput \<Rightarrow> bool" where
  "brace_free_plan po \<longleftrightarrow> list_all no_braces [po_Analysis po, po_Strategy po, po_Notes po] \<and>
     list_all brace_free_subtask (po_Subtasks po)"

lemma no_braces_digits: "no_braces (itoa n)"
proof -
  have "no_braces (nat_digits m)" for m
    using nat_digits_all [of m] by (auto simp: no_braces_def list_all_iff is_digit_def)
  then show ?thesis by (simp add: itoa_def) (simp add: no_braces_def)
qed

lemma extract_plan:
  assumes "brace_free_plan po" "stream_text output = t0 @ marshal_plan po @ t1" "CHR 0x7B \<notin> set t0"
  shows "extractFromStreamJSON output = Some (marshal_plan po)"
proof -
  obtain s where s: "marshal_plan po = CHR 0x7B # s" using marshal_plan_braces [of po] by blast
  have i: "Index (t0 @ marshal_plan po @ t1) [CHR 0x7B] = Some (length t0)"
    using Index_first [OF assms(3)] s by simp
  have st: "brace_free_subtask x \<Longrightarrow> json_no_braces (enc_subtask x)" for x
    by (auto simp: brace_free_subtask_def enc_subtask_def omit_empty_def enc_strings_def list_all_iff)
      (simp_all add: no_braces_def)
  have "\<exists>ms. enc_plan po = JObj ms \<and> list_all (\<lambda>(k, v). no_braces k \<and> json_no_braces v) ms"
    using assms(1) st
    by (auto simp: enc_plan_def brace_free_plan_def enc_int_def no_braces_digits list_all_iff) (simp_all add: no_braces_def)
  then have "match_braces 0 (marshal_plan po @ t1) = Some (marshal_plan po)"
    using match_object by (auto simp: marshal_plan_def)
  with i show ?thesis
    using assms(2) by (simp add: extractFromStreamJSON_def stream_text_def)
qed

lemma plan_from_stream:
  assumes "stream_text output = t0 @ marshal_plan po @ t1" "CHR 0x7B \<notin> set t0" "brace_free_plan po"
    "po_Subtasks po \<noteq> []" "int64 (po_EstimatedAgents po)"
  shows "ParsePlanOrQuestions output = Inr (GotPlan (valid_plan po))"
  using extract_plan [OF assms(3,1,2)] try_both_plan [OF assms(5,4)]
  by (simp add: ParsePlanOrQuestions_def)

section \<open>Examples\<close>

definition example_subtask :: "string \<Rightarrow> string \<Rightarrow> string list \<Rightarrow> Subtask" where
  "example_subtask i p deps = zero_subtask\<lparr>st_ID := i, st_Name := ''n'', st_Prompt := p, st_DependsOn := deps\<rparr>"

definition example_plan :: "Subtask list \<Rightarrow> PlanOutput" where
  "example_plan sts = zero_plan_output\<lparr>po_Strategy := ''parallel'', po_Subtasks := sts\<rparr>"

text \<open>A line of the stream: the final result event.\<close>

definition result_event :: "string \<Rightarrow> string" where
  "result_event s = print_json (JObj [(''type'', JStr ''result''), (''result'', JStr s)])"

lemma escape_no_newline: "CHR 0x0A \<notin> set (escape s)"
  using escape_set [of "CHR 0x0A" s] by (auto simp: escape_bytes_def)

lemma no_block: "CHR 0x60 \<notin> set s \<Longrightarrow> extractJSONBlock s = None"
  by (induction s) (auto simp: block_at_def backquotes_def)

lemma result_event_text: 
  "s \<noteq> [] \<Longrightarrow> stream_text (result_event s) = to_valid s"
proof -
  assume s: "s \<noteq> []"
  let ?ms = "[(''type'', JStr ''result''), (''result'', JStr s)]"
  have "parse_json (result_event s) = Some (valid_json (JObj ?ms))"
    unfolding result_event_def by (rule parse_print_json) (simp_all add: json_max_depth_def)
  also have "valid_json (JObj ?ms) = JObj [(''type'', JStr ''result''), (''result'', JStr (to_valid s))]"
    by (simp add: to_valid_ascii)
  finally have p: "parse_json (result_event s) = Some (JObj [(''type'', JStr ''result''), (''result'', JStr (to_valid s))])" .
  have "\<exists>x. result_event s = CHR 0x7B # x @ [CHR 0x7D]" by (simp add: result_event_def)
  then have t: "TrimSpace (result_event s) = result_event s" by (auto simp: TrimSpace_braces)
  have "escape ''type'' = ''type''" "escape ''result'' = ''result''" by code_simp+
  then have "CHR 0x0A \<notin> set (result_event s)"
    using escape_no_newline [of s] by (simp add: result_event_def quote_json_def)
  then have "Split (CHR 0x0A) (result_event s) = [result_event s]" by (rule Split_none)
  with t p s show ?thesis
    by (simp add: stream_text_def line_parts_def raw_string_def raw_get_def dec_string_def)
qed

definition small_plan :: "string \<Rightarrow> PlanOutput" where
  "small_plan prompt = example_plan [example_subtask ''a'' prompt [], example_subtask ''b'' ''p'' [''a'']]"

lemma result_event_plan:
  assumes "list_all (\<lambda>c. byte c < 128) (marshal_plan po)"
  shows "stream_text (result_event (marshal_plan po)) = marshal_plan po"
proof -
  have "marshal_plan po \<noteq> []" using marshal_plan_braces [of po] by auto
  then show ?thesis using assms by (simp add: result_event_text to_valid_ascii)
qed

lemma small_plans_ascii:
  "list_all (\<lambda>c. byte c < 128) (marshal_plan (small_plan ''p''))"
  "list_all (\<lambda>c. byte c < 128) (marshal_plan (small_plan [CHR 0x7B]))"
  by code_simp+

lemma try_both_result_event: "try_both (result_event s) = None"
proof -
  let ?ms = "[(''type'', JStr ''result''), (''result'', JStr s)]"
  have p: "parse_json (result_event s) = Some (valid_json (JObj ?ms))"
    unfolding result_event_def by (rule parse_print_json) (simp_all add: json_max_depth_def)
  have "\<exists>x. result_event s = CHR 0x7B # x @ [CHR 0x7D]" by (simp add: result_event_def)
  then have "TrimSpace (result_event s) = result_event s" "result_event s \<noteq> []" by (auto simp: TrimSpace_braces)
  with p show ?thesis
    by (simp add: try_both_def tryParseQuestions_def tryParsePlan_def unmarshal_def dec_struct_def lookup_field_def
        questions_output_fields_def plan_output_fields_def field_def dec_string_def zero_questions_output_def
        zero_plan_output_def to_valid_ascii Let_def)
qed

section \<open>Properties\<close>

text \<open>C13: \<open>ValidatePlan\<close> accepts exactly the plans with a known strategy and at least one subtask
  in which the subtask ids are distinct and non-empty, every subtask has a name and a prompt, and
  every dependency is the id of a subtask of the plan.\<close>

theorem ValidatePlan_exact:
  "ValidatePlan plan = Inr () \<longleftrightarrow>
     po_Strategy plan \<in> {''parallel'', ''sequential''} \<and> po_Subtasks plan \<noteq> [] \<and>
     distinct (map st_ID (po_Subtasks plan)) \<and>
     list_all (\<lambda>st. st_ID st \<noteq> [] \<and> st_Name st \<noteq> [] \<and> st_Prompt st \<noteq> [] \<and>
        set (st_DependsOn st) \<subseteq> st_ID ` set (po_Subtasks plan)) (po_Subtasks plan)"
  by (simp add: ValidatePlan_iff list_all_iff)



text \<open>Braces inside strings are counted like any other: a valid plan with an opening brace in a
  prompt, returned as the result event of the stream, is not found, and the planner's run fails.\<close>

theorem brace_in_prompt_lost:
  "ValidatePlan (small_plan [CHR 0x7B]) = Inr () \<and>
   ParsePlanOrQuestions (result_event (marshal_plan (small_plan [CHR 0x7B]))) =
     Inl ''failed to parse planner output as plan or questions''"
proof -
  let ?s = "marshal_plan (small_plan [CHR 0x7B])"
  have "(case Index ?s [CHR 0x7B] of None \<Rightarrow> None | Some start \<Rightarrow> match_braces 0 (drop start ?s)) = None"
    by code_simp
  then have "extractFromStreamJSON (result_event ?s) = None"
    using result_event_plan [OF small_plans_ascii(2)] by (simp add: extractFromStreamJSON_def stream_text_def)
  moreover have "list_all (\<lambda>c. c \<noteq> CHR 0x60) (result_event ?s)" by code_simp
  then have "extractJSONBlock (result_event ?s) = None" by (intro no_block) (auto simp: list_all_iff)
  moreover have "ValidatePlan (small_plan [CHR 0x7B]) = Inr ()"
    by (simp add: ValidatePlan_def small_plan_def example_plan_def example_subtask_def zero_plan_output_def zero_subtask_def)
  ultimately show ?thesis by (simp add: ParsePlanOrQuestions_def try_both_result_event)
qed

text \<open>C14: \<open>stripDockerLogHeaders\<close> removes exactly the headers of a multiplexed log: from the frames
  of any chunks of the three streams it gives the chunks back, in order.\<close>

theorem stripDockerLogHeaders_frames:
  assumes "list_all (\<lambda>(strm, chunk). strm \<le> 2 \<and> length chunk < 2 ^ 32) frames"
  shows "stripDockerLogHeaders (concat (map log_frame frames)) = concat (map snd frames)"
  by (rule stripDockerLogHeaders_log [OF assms])

theorem stripDockerLogHeaders_frames_witness:
  "stripDockerLogHeaders (concat (map log_frame [(1, ''ab''), (2, ''c'')])) = ''abc''"
  using stripDockerLogHeaders_frames [of "[(1, ''ab''), (2, ''c'')]"] by simp

end
