(* ===== verification/Prompts.thy ===== *)
theory Prompts
  imports Db_Models Go_Strings
begin

text \<open>
  The prompts the service writes for its agents: \<open>BuildResumePrompt\<close> and \<open>BuildSubtaskPrompt\<close> of
  \<open>internal/task/plan.go\<close>, \<open>APICommsInstructions\<close> of \<open>internal/task/comms.go\<close>, the planner's
  template and the team section of \<open>internal/task/planner.go\<close>. A \<open>strings.Builder\<close> is the list
  of the pieces written.
\<close>

definition workspaceFileRule :: string where
  "workspaceFileRule =
     ''## Workspace Rule\<newline>'' @
     ''All files you create or modify MUST be inside the workspace directory (/home/agent/workspace).\<newline>'' @
     ''Files created outside the workspace are invisible to the platform and will NOT be shown to the user.\<newline>'' @
     ''This includes output files, generated code, test files, documentation '' @
     [CHR 0xE2, CHR 0x80, CHR 0x94] @
     '' everything.\<newline>''"

definition APICommsInstructions :: "string \<Rightarrow> string \<Rightarrow> string \<Rightarrow> string" where
  "APICommsInstructions apiURL taskID subtaskID =
     ''## Agent Communication\<newline>'' @
     ''\<newline>'' @
     ''You are part of a team of agents working on the same task. Communicate via the klaudio API.\<newline>'' @
     ''\<newline>'' @
     ''### Sending messages to other agents\<newline>'' @
     ''To broadcast a message to all other agents:\<newline>'' @
     [CHR 0x60, CHR 0x60, CHR 0x60] @
     ''bash\<newline>'' @
     ''curl -s -X POST '' @
     apiURL @
     ''/api/tasks/'' @
     taskID @
     ''/messages '' @
     [CHR 0x5C] @
     ''\<newline>'' @
     ''  -H '' @
     [CHR 0x22] @
     ''Content-Type: application/json'' @
     [CHR 0x22] @
     '' '' @
     [CHR 0x5C] @
     ''\<newline>'' @
     ''  -d '' @
     [CHR 0x27] @
     ''{'' @
     [CHR 0x22] @
     ''from'' @
     [CHR 0x22] @
     '': '' @
     [CHR 0x22] @
     subtaskID @
     [CHR 0x22] @
     '', '' @
     [CHR 0x22] @
     ''content'' @
     [CHR 0x22] @
     '': '' @
     [CHR 0x22] @
     ''YOUR MESSAGE HERE'' @
     [CHR 0x22] @
     ''}'' @
     [CHR 0x27] @
     ''\<newline>'' @
     [CHR 0x60, CHR 0x60, CHR 0x60] @
     ''\<newline>'' @
     ''\<newline>'' @
     ''### Reading messages from other agents\<newline>'' @
     ''To see messages from the team (use after_id to only get NEW messages since your last poll):\<newline>'' @
     [CHR 0x60, CHR 0x60, CHR 0x60] @
     ''bash\<newline>'' @
     ''# First poll (get all):\<newline>'' @
     ''curl -s '' @
     [CHR 0x27] @
     apiURL @
     ''/api/tasks/'' @
     taskID @
     ''/messages'' @
     [CHR 0x27] @
     '' | jq '' @
     [CHR 0x27] @
     ''.messages[] | select(.msg_type=='' @
     [CHR 0x22] @
     ''message'' @
     [CHR 0x22] @
     '')'' @
     [CHR 0x27] @
     ''\<newline>'' @
     ''# Subsequent polls (only new messages '' @
     [CHR 0xE2, CHR 0x80, CHR 0x94] @
     '' replace LAST_ID with the highest id you saw):\<newline>'' @
     ''# curl -s '' @
     [CHR 0x27] @
     apiURL @
     ''/api/tasks/'' @
     taskID @
     ''/messages?after_id=LAST_ID'' @
     [CHR 0x27] @
     '' | jq '' @
     [CHR 0x27] @
     ''.messages[]'' @
     [CHR 0x27] @
     ''\<newline>'' @
     [CHR 0x60, CHR 0x60, CHR 0x60] @
     ''\<newline>'' @
     ''\<newline>'' @
     ''### Reading context from completed agents\<newline>'' @
     ''Check .klaudio/context/ for summaries from agents that completed before you.\<newline>'' @
     ''\<newline>'' @
     ''### When to communicate\<newline>'' @
     ''- IMMEDIATELY when you define a shared interface or API that others depend on\<newline>'' @
     ''- When you find a critical issue or blocker\<newline>'' @
     ''- When you complete a significant milestone\<newline>'' @
     ''- When you change something that affects other agents\<newline>''"

definition planner_prompt :: "string \<Rightarrow> string \<Rightarrow> string" where
  "planner_prompt prompt inputFiles =
     ''You are a software development planner. Your role is O\<newline>Y to analyze, never modify.\<newline>'' @
     ''\<newline>'' @
     ''RULES:\<newline>'' @
     ''- Do NOT modify any file. Use only read operations.\<newline>'' @
     ''- If something is unclear, you MUST ask questions before producing the plan.\<newline>'' @
     ''- Analyze the code structure, patterns, dependencies, and existing tests.\<newline>'' @
     ''- You can O\<newline>Y access files inside the workspace (/home/agent/workspace). If the task references files or paths outside the project folder, you cannot read or analyze them. In that case, note this limitation in the plan and ask the user to provide the files as input.\<newline>'' @
     ''- All output files listed in files_involved MUST be paths inside the workspace. Agents cannot create files outside of it '' @
     [CHR 0xE2, CHR 0x80, CHR 0x94] @
     '' the platform only shows files within the workspace to the user.\<newline>'' @
     ''\<newline>'' @
     ''Analyze the following task and produce a structured execution plan.\<newline>'' @
     ''\<newline>'' @
     ''## Task\<newline>'' @
     prompt @
     ''\<newline>'' @
     ''\<newline>'' @
     ''## Input files available\<newline>'' @
     inputFiles @
     ''\<newline>'' @
     ''\<newline>'' @
     ''## Phase 1: Questions (if needed)\<newline>'' @
     ''If something is unclear about the task, the codebase, or the files, BEFORE producing the plan\<newline>'' @
     ''emit a JSON with your questions. Each question can be:\<newline>'' @
     ''- Free text: just '' @
     [CHR 0x22] @
     ''text'' @
     [CHR 0x22] @
     '' (user types their answer)\<newline>'' @
     ''- Free text with suggestions: '' @
     [CHR 0x22] @
     ''text'' @
     [CHR 0x22] @
     '' + '' @
     [CHR 0x22] @
     ''suggestions'' @
     [CHR 0x22] @
     '' array (user can click a suggestion or type freely)\<newline>'' @
     ''- Multiple choice: '' @
     [CHR 0x22] @
     ''text'' @
     [CHR 0x22] @
     '' + '' @
     [CHR 0x22] @
     ''options'' @
     [CHR 0x22] @
     '' array (user picks one option, or types a custom answer)\<newline>'' @
     ''\<newline>'' @
     ''Use '' @
     [CHR 0x22] @
     ''suggestions'' @
     [CHR 0x22] @
     '' when you want to hint at common answers but allow free input.\<newline>'' @
     ''Use '' @
     [CHR 0x22] @
     ''options'' @
     [CHR 0x22] @
     '' when there are a clear set of valid choices.\<newline>'' @
     ''\<newline>'' @
     ''Example:\<newline>'' @
     ''{'' @
     [CHR 0x22] @
     ''type'' @
     [CHR 0x22] @
     '': '' @
     [CHR 0x22] @
     ''questions'' @
     [CHR 0x22] @
     '', '' @
     [CHR 0x22] @
     ''questions'' @
     [CHR 0x22] @
     '': [\<newline>'' @
     ''  {'' @
     [CHR 0x22] @
     ''id'' @
     [CHR 0x22] @
     '': '' @
     [CHR 0x22] @
     ''q-1'' @
     [CHR 0x22] @
     '', '' @
     [CHR 0x22] @
     ''text'' @
     [CHR 0x22] @
     '': '' @
     [CHR 0x22] @
     ''What style do you prefer?'' @
     [CHR 0x22] @
     '', '' @
     [CHR 0x22] @
     ''context'' @
     [CHR 0x22] @
     '': '' @
     [CHR 0x22] @
     ''Need to know the visual direction'' @
     [CHR 0x22] @
     '', '' @
     [CHR 0x22] @
     ''options'' @
     [CHR 0x22] @
     '': ['' @
     [CHR 0x22] @
     ''Minimal'' @
     [CHR 0x22] @
     '', '' @
     [CHR 0x22] @
     ''Modern'' @
     [CHR 0x22] @
     '', '' @
     [CHR 0x22] @
     ''Retro'' @
     [CHR 0x22] @
     '', '' @
     [CHR 0x22] @
     ''Playful'' @
     [CHR 0x22] @
     '']},\<newline>'' @
     ''  {'' @
     [CHR 0x22] @
     ''id'' @
     [CHR 0x22] @
     '': '' @
     [CHR 0x22] @
     ''q-2'' @
     [CHR 0x22] @
     '', '' @
     [CHR 0x22] @
     ''text'' @
     [CHR 0x22] @
     '': '' @
     [CHR 0x22] @
     ''Target format?'' @
     [CHR 0x22] @
     '', '' @
     [CHR 0x22] @
     ''suggestions'' @
     [CHR 0x22] @
     '': ['' @
     [CHR 0x22] @
     ''SVG'' @
     [CHR 0x22] @
     '', '' @
     [CHR 0x22] @
     ''PNG'' @
     [CHR 0x22] @
     '', '' @
     [CHR 0x22] @
     ''Both SVG and PNG'' @
     [CHR 0x22] @
     '']},\<newline>'' @
     ''  {'' @
     [CHR 0x22] @
     ''id'' @
     [CHR 0x22] @
     '': '' @
     [CHR 0x22] @
     ''q-3'' @
     [CHR 0x22] @
     '', '' @
     [CHR 0x22] @
     ''text'' @
     [CHR 0x22] @
     '': '' @
     [CHR 0x22] @
     ''Any specific color preference?'' @
     [CHR 0x22] @
     '', '' @
     [CHR 0x22] @
     ''context'' @
     [CHR 0x22] @
     '': '' @
     [CHR 0x22] @
     ''For the palette'' @
     [CHR 0x22] @
     ''}\<newline>'' @
     '']}\<newline>'' @
     ''\<newline>'' @
     ''Then WAIT for answers. You will receive them as additional input. Only after receiving all\<newline>'' @
     ''answers, proceed to Phase 2.\<newline>'' @
     ''\<newline>'' @
     ''If everything is clear, skip directly to Phase 2.\<newline>'' @
     ''\<newline>'' @
     ''## Phase 2: Plan\<newline>'' @
     ''Produce a plan in JSON format with the following structure:\<newline>'' @
     ''- Task analysis\<newline>'' @
     ''- Ordered list of subtasks\<newline>'' @
     ''- For each subtask: description, files involved, dependencies on other subtasks\<newline>'' @
     ''- Complexity estimate (low/medium/high)\<newline>'' @
     ''- Suggestion whether parallel agents are needed or sequential is sufficient\<newline>'' @
     ''\<newline>'' @
     ''Respond O\<newline>Y with the JSON, no other text.\<newline>'' @
     ''\<newline>'' @
     ''## Expected JSON Schema\<newline>'' @
     ''{\<newline>'' @
     ''  '' @
     [CHR 0x22] @
     ''analysis'' @
     [CHR 0x22] @
     '': '' @
     [CHR 0x22] @
     ''Brief task analysis'' @
     [CHR 0x22] @
     '',\<newline>'' @
     ''  '' @
     [CHR 0x22] @
     ''strategy'' @
     [CHR 0x22] @
     '': '' @
     [CHR 0x22] @
     ''parallel'' @
     [CHR 0x22] @
     '' | '' @
     [CHR 0x22] @
     ''sequential'' @
     [CHR 0x22] @
     '',\<newline>'' @
     ''  '' @
     [CHR 0x22] @
     ''subtasks'' @
     [CHR 0x22] @
     '': [\<newline>'' @
     ''    {\<newline>'' @
     ''      '' @
     [CHR 0x22] @
     ''id'' @
     [CHR 0x22] @
     '': '' @
     [CHR 0x22] @
     ''sub-1'' @
     [CHR 0x22] @
     '',\<newline>'' @
     ''      '' @
     [CHR 0x22] @
     ''name'' @
     [CHR 0x22] @
     '': '' @
     [CHR 0x22] @
     ''Subtask name'' @
     [CHR 0x22] @
     '',\<newline>'' @
     ''      '' @
     [CHR 0x22] @
     ''description'' @
     [CHR 0x22] @
     '': '' @
     [CHR 0x22] @
     ''What the executor agent must do'' @
     [CHR 0x22] @
     '',\<newline>'' @
     ''      '' @
     [CHR 0x22] @
     ''prompt'' @
     [CHR 0x22] @
     '': '' @
     [CHR 0x22] @
     ''Exact prompt to pass to the executor agent'' @
     [CHR 0x22] @
     '',\<newline>'' @
     ''      '' @
     [CHR 0x22] @
     ''depends_on'' @
     [CHR 0x22] @
     '': [],\<newline>'' @
     ''      '' @
     [CHR 0x22] @
     ''files_involved'' @
     [CHR 0x22] @
     '': ['' @
     [CHR 0x22] @
     ''path/to/file.go'' @
     [CHR 0x22] @
     ''],\<newline>'' @
     ''      '' @
     [CHR 0x22] @
     ''complexity'' @
     [CHR 0x22] @
     '': '' @
     [CHR 0x22] @
     ''low'' @
     [CHR 0x22] @
     '' | '' @
     [CHR 0x22] @
     ''medium'' @
     [CHR 0x22] @
     '' | '' @
     [CHR 0x22] @
     ''high'' @
     [CHR 0x22] @
     '',\<newline>'' @
     ''      '' @
     [CHR 0x22] @
     ''agent_role'' @
     [CHR 0x22] @
     '': '' @
     [CHR 0x22] @
     ''developer'' @
     [CHR 0x22] @
     '' | '' @
     [CHR 0x22] @
     ''reviewer'' @
     [CHR 0x22] @
     '' | '' @
     [CHR 0x22] @
     ''tester'' @
     [CHR 0x22] @
     ''\<newline>'' @
     ''    }\<newline>'' @
     ''  ],\<newline>'' @
     ''  '' @
     [CHR 0x22] @
     ''estimated_agents'' @
     [CHR 0x22] @
     '': 1,\<newline>'' @
     ''  '' @
     [CHR 0x22] @
     ''notes'' @
     [CHR 0x22] @
     '': '' @
     [CHR 0x22] @
     ''Additional notes for the user'' @
     [CHR 0x22] @
     ''\<newline>'' @
     ''}''"

definition BuildResumePrompt :: "string \<Rightarrow> string list \<Rightarrow> string list \<Rightarrow> string" where
  "BuildResumePrompt originalPrompt completedSubtasks failedSubtasks =
     ''You are resuming a previously paused task.\<newline>\<newline>'' @
     ''## Original Task\<newline>'' @ originalPrompt @ ''\<newline>\<newline>'' @
     (if completedSubtasks \<noteq> []
      then ''## Completed Subtasks\<newline>'' @
        concat (map (\<lambda>i. ''- '' @ i @ '' (completed successfully)\<newline>'') completedSubtasks) @ ''\<newline>''
      else []) @
     (if failedSubtasks \<noteq> []
      then ''## Failed Subtasks (need retry)\<newline>'' @
        concat (map (\<lambda>i. ''- '' @ i @ '' (failed, needs retry)\<newline>'') failedSubtasks) @ ''\<newline>''
      else []) @
     ''Continue from where execution was paused. Do not redo completed subtasks.\<newline>''"

record SubtaskPromptOpts =
  spo_DependencyContext :: string
  spo_BroadcastMessages :: string
  spo_RolePromptHint :: string
  spo_IsTeamExecution :: bool
  spo_APIURL :: string
  spo_TaskID :: string
  spo_RepoMemory :: string

text \<open>The fallback listing: for each dependency the first subtask of that id.\<close>

definition dependency_line :: "Subtask list \<Rightarrow> string \<Rightarrow> string" where
  "dependency_line allSubtasks depID =
     (case find (\<lambda>d. st_ID d = depID) allSubtasks of None \<Rightarrow> []
      | Some d \<Rightarrow> ''- **'' @ st_Name d @ ''** ('' @ st_ID d @ ''): '' @ st_Description d @ ''\<newline>'')"

definition BuildSubtaskPrompt :: "Subtask \<Rightarrow> Subtask list \<Rightarrow> string \<Rightarrow> SubtaskPromptOpts \<Rightarrow> string" where
  "BuildSubtaskPrompt subtask allSubtasks taskPrompt opts =
     ''You are executing a subtask as part of a larger plan.\<newline>\<newline>'' @
     ''## Overall Task\<newline>'' @ taskPrompt @ ''\<newline>\<newline>'' @
     (if spo_RepoMemory opts \<noteq> [] then ''## Repository Context\<newline>'' @ spo_RepoMemory opts @ ''\<newline>\<newline>'' else []) @
     (if spo_RolePromptHint opts \<noteq> [] then ''## Your Role\<newline>'' @ spo_RolePromptHint opts @ ''\<newline>\<newline>'' else []) @
     (if spo_DependencyContext opts \<noteq> [] then spo_DependencyContext opts @ ''\<newline>\<newline>''
      else if st_DependsOn subtask \<noteq> []
      then ''## Completed Dependencies\<newline>'' @
        concat (map (dependency_line allSubtasks) (st_DependsOn subtask)) @ ''\<newline>''
      else []) @
     (if spo_BroadcastMessages opts \<noteq> [] then spo_BroadcastMessages opts @ ''\<newline>\<newline>'' else []) @
     ''## Your Subtask\<newline>'' @
     ''**ID**: '' @ st_ID subtask @ ''\<newline>'' @
     ''**Name**: '' @ st_Name subtask @ ''\<newline>'' @
     ''**Description**: '' @ st_Description subtask @ ''\<newline>\<newline>'' @
     ''## Instructions\<newline>'' @ st_Prompt subtask @ ''\<newline>'' @
     (if st_FilesInvolved subtask \<noteq> []
      then ''\<newline>## Files to work with\<newline>'' @ concat (map (\<lambda>f. ''- '' @ f @ ''\<newline>'') (st_FilesInvolved subtask))
      else []) @
     (if spo_IsTeamExecution opts \<and> spo_APIURL opts \<noteq> []
      then ''\<newline>'' @ APICommsInstructions (spo_APIURL opts) (spo_TaskID opts) (st_ID subtask) else []) @
     ''\<newline>'' @ workspaceFileRule"

text \<open>The section on the team in the planner's prompt, from the template and its decoded roles.\<close>

definition role_line :: "TeamRole \<Rightarrow> string" where
  "role_line r =
     ''- **'' @ tr_Name r @ ''**'' @
     (if tr_MaxInstances r > 0 then '' (max '' @ itoa (tr_MaxInstances r) @ '')'' else []) @
     '': '' @ tr_Description r @
     (if tr_RunLast r then '' [runs after all other subtasks complete]'' else []) @ ''\<newline>''"

definition team_section :: "TeamTemplate \<Rightarrow> TeamRole list \<Rightarrow> string" where
  "team_section tt roles =
     ''## Team Composition\<newline>\<newline>'' @
     ''Team template: **'' @ tt_Name tt @ ''** '' @ [CHR 0xE2, CHR 0x80, CHR 0x94] @ '' '' @ tt_Description tt @ ''\<newline>\<newline>'' @
     (if tt_Mode tt = ''collaborative''
      then ''**Execution mode: COLLABORATIVE**\<newline>'' @
     ''All worker agents will run SIMULTANEOUSLY. A team manager agent will coordinate them.\<newline>'' @
     ''Dependencies ('' @
     [CHR 0x60] @
     ''depends_on'' @
     [CHR 0x60] @
     '') are treated as soft guidance '' @
     [CHR 0xE2, CHR 0x80, CHR 0x94] @
     '' workers handle coordination via messaging.\<newline>'' @
     ''Design subtasks that can run in parallel. Avoid strict sequential dependencies.\<newline>'' @
     ''\<newline>''
      else ''**Execution mode: Sequential (DAG)**\<newline>'' @
     ''Agents run in dependency order. Use '' @
     [CHR 0x60] @
     ''depends_on'' @
     [CHR 0x60] @
     '' to enforce execution order.\<newline>'' @
     ''\<newline>'') @
     ''You MUST assign each subtask to one of these roles using the '' @
     [CHR 0x60] @
     ''agent_role'' @
     [CHR 0x60] @
     '' field:\<newline>'' @
     ''\<newline>'' @
     concat (map role_line roles) @
     ''\<newline>Do not exceed **'' @ itoa (tt_MaxAgents tt) @ '' total agents** running in parallel.\<newline>'' @
     (if tt_Review tt
      then ''\<newline>'' @
     ''A **reviewer agent** will run automatically after all subtasks complete to verify consistency.\<newline>'' @
     ''You do NOT need to include a reviewer subtask unless you want custom review logic.\<newline>''
      else [])"

end
