(* ===== verification/Go_Slices.thy ===== *)
theory Go_Slices
  imports Klaudio_Prelude
begin

text \<open>
  Go's slices as the code of \<open>internal/stream\<close> uses them: a map from task ids to slices that
  \<open>append\<close> extends and shortens in place. Arrays live in a heap, so that two slice values can
  share one; a goroutine that kept an older slice value sees the writes of another one. The
  locale \<open>registry\<close> is the interface the message bus and the hub rely on: what a subscriber
  list is after adding and removing.
\<close>

section \<open>Arrays and slices\<close>

text \<open>The elements are references to channels or clients; 0 is nil. The heap lists the arrays; the
  length of an array is its capacity. Array 0 is the empty array of the nil slice.\<close>

type_synonym heap = "nat list list"

record slice =
  sl_ref :: nat
  sl_len :: nat

definition nil_slice :: slice where
  "nil_slice = \<lparr>sl_ref = 0, sl_len = 0\<rparr>"

definition slice_get :: "heap \<Rightarrow> slice \<Rightarrow> nat list" where
  "slice_get h s = take (sl_len s) (h ! sl_ref s)"

text \<open>\<open>append(s, xs...)\<close>: in place when the capacity is enough, else into a new array whose spare
  capacity the runtime chooses.\<close>

definition go_append :: "nat \<Rightarrow> heap \<Rightarrow> slice \<Rightarrow> nat list \<Rightarrow> heap \<times> slice" where
  "go_append spare h s xs =
     (let arr = h ! sl_ref s; n = sl_len s + length xs in
      if n \<le> length arr then (h[sl_ref s := go_copy arr (sl_len s) xs], s\<lparr>sl_len := n\<rparr>)
      else (h @ [take (sl_len s) arr @ xs @ replicate spare 0], \<lparr>sl_ref = length h, sl_len = n\<rparr>))"

section \<open>Subscriber lists\<close>

record registry =
  rg_heap :: heap
  rg_map :: "(string, slice) gomap"

definition reg_empty :: registry where
  "reg_empty = \<lparr>rg_heap = [[]], rg_map = []\<rparr>"

definition reg_slice :: "registry \<Rightarrow> string \<Rightarrow> slice" where
  "reg_slice r k = mget nil_slice (rg_map r) k"

definition reg_get :: "registry \<Rightarrow> string \<Rightarrow> nat list" where
  "reg_get r k = slice_get (rg_heap r) (reg_slice r k)"

text \<open>\<open>m[k] = append(m[k], c)\<close>\<close>

definition reg_add :: "nat \<Rightarrow> string \<Rightarrow> nat \<Rightarrow> registry \<Rightarrow> registry" where
  "reg_add spare k c r =
     (case go_append spare (rg_heap r) (reg_slice r k) [c] of
        (h, s) \<Rightarrow> \<lparr>rg_heap = h, rg_map = mput k s (rg_map r)\<rparr>)"

text \<open>The loop that finds the element, \<open>m[k] = append(cs[:i], cs[i+1:]...)\<close>, and
  \<open>delete(m, k)\<close> when nothing is left.\<close>

fun index_of :: "nat \<Rightarrow> nat list \<Rightarrow> nat option" where
  "index_of c [] = None"
| "index_of c (x # xs) = (if x = c then Some 0 else map_option Suc (index_of c xs))"

definition reg_cut :: "string \<Rightarrow> nat \<Rightarrow> registry \<Rightarrow> registry" where
  "reg_cut k c r =
     (let cs = reg_slice r k; xs = slice_get (rg_heap r) cs in
      case index_of c xs of None \<Rightarrow> r
      | Some i \<Rightarrow>
          (case go_append 0 (rg_heap r) (cs\<lparr>sl_len := i\<rparr>) (drop (Suc i) xs) of
             (h, s) \<Rightarrow> \<lparr>rg_heap = h, rg_map = mput k s (rg_map r)\<rparr>))"

definition reg_remove :: "string \<Rightarrow> nat \<Rightarrow> registry \<Rightarrow> registry" where
  "reg_remove k c r =
     (let r' = reg_cut k c r in
      if sl_len (reg_slice r' k) = 0 then r'\<lparr>rg_map := mdel k (rg_map r')\<rparr> else r')"

text \<open>No two keys share an array, and every slice lies inside its array.\<close>

definition reg_ok :: "registry \<Rightarrow> bool" where
  "reg_ok r \<longleftrightarrow>
     map_ok (rg_map r) \<and> rg_heap r \<noteq> [] \<and> rg_heap r ! 0 = [] \<and>
     (\<forall>k s. map_of (rg_map r) k = Some s \<longrightarrow>
        0 < sl_len s \<and> sl_ref s < length (rg_heap r) \<and> sl_len s \<le> length (rg_heap r ! sl_ref s)) \<and>
     (\<forall>k k' s s'. map_of (rg_map r) k = Some s \<longrightarrow> map_of (rg_map r) k' = Some s' \<longrightarrow>
        sl_ref s = sl_ref s' \<longrightarrow> k = k')"

section \<open>Lemmas\<close>

lemma reg_ok_empty: "reg_ok reg_empty"
  by (simp add: reg_ok_def reg_empty_def)

lemma reg_get_empty: "reg_get reg_empty k = []"
  by (simp add: reg_get_def reg_slice_def reg_empty_def slice_get_def nil_slice_def)

lemma index_of_None: "index_of c xs = None \<longleftrightarrow> c \<notin> set xs"
  by (induction xs) auto

lemma index_of_Some: "index_of c xs = Some i \<Longrightarrow> i < length xs \<and> remove1 c xs = take i xs @ drop (Suc i) xs"
  by (induction xs arbitrary: i) (auto split: if_splits)

lemma reg_slice_Some: "map_of (rg_map r) k = Some s \<Longrightarrow> reg_slice r k = s"
  by (simp add: reg_slice_def mget_def)

lemma reg_slice_None: "map_of (rg_map r) k = None \<Longrightarrow> reg_slice r k = nil_slice"
  by (simp add: reg_slice_def mget_def)

lemma reg_slice_ok:
  assumes "reg_ok r"
  shows "sl_ref (reg_slice r k) < length (rg_heap r)" "sl_len (reg_slice r k) \<le> length (rg_heap r ! sl_ref (reg_slice r k))"
  using assms by (cases "map_of (rg_map r) k"; auto simp: reg_ok_def reg_slice_Some reg_slice_None nil_slice_def)+

lemma reg_slice_other:
  assumes "reg_ok r" "k' \<noteq> k" "map_of (rg_map r) k' = Some s'" "0 < sl_len (reg_slice r k)"
  shows "sl_ref s' \<noteq> sl_ref (reg_slice r k)"
  using assms by (cases "map_of (rg_map r) k") (auto simp: reg_ok_def reg_slice_Some reg_slice_None nil_slice_def)

lemma length_slice_get: "sl_len s \<le> length (h ! sl_ref s) \<Longrightarrow> length (slice_get h s) = sl_len s"
  by (simp add: slice_get_def)

lemma go_append_get:
  assumes "sl_ref s < length h" "sl_len s \<le> length (h ! sl_ref s)" "go_append spare h s xs = (h', s')"
  shows "slice_get h' s' = slice_get h s @ xs" "sl_ref s' < length h'" "sl_len s' = sl_len s + length xs"
    "sl_len s' \<le> length (h' ! sl_ref s')"
  using assms by (auto simp: go_append_def slice_get_def Let_def go_copy_fit split: if_splits)

lemma go_append_other:
  assumes "go_append spare h s xs = (h', s')" "i < length h" "i \<noteq> sl_ref s"
  shows "h' ! i = h ! i" "length h \<le> length h'" "sl_ref s' \<noteq> i"
  using assms by (auto simp: go_append_def Let_def nth_append split: if_splits)

lemma reg_get_Some: "map_of (rg_map r) k = Some s \<Longrightarrow> reg_get r k = slice_get (rg_heap r) s"
  by (simp add: reg_get_def reg_slice_Some)

lemma reg_get_None: "reg_ok r \<Longrightarrow> map_of (rg_map r) k = None \<Longrightarrow> reg_get r k = []"
  by (simp add: reg_get_def reg_slice_None slice_get_def nil_slice_def)

text \<open>Storing the result of an \<open>append\<close> to a part of the slice of a key, or dropping the key when
  the result is empty.\<close>

lemma reg_store:
  assumes ok: "reg_ok r" and s: "sl_ref s = sl_ref (reg_slice r k)" "sl_len s \<le> sl_len (reg_slice r k)"
    and app: "go_append spare (rg_heap r) s xs = (h', s')"
    and m: "map_ok m'" "map_of m' = (map_of (rg_map r))(k := (if sl_len s' = 0 then None else Some s'))"
  shows "reg_ok \<lparr>rg_heap = h', rg_map = m'\<rparr>"
    and "reg_get \<lparr>rg_heap = h', rg_map = m'\<rparr> k' = (if k' = k then slice_get (rg_heap r) s @ xs else reg_get r k')"
proof -
  let ?r = "\<lparr>rg_heap = h', rg_map = m'\<rparr>"
  note in_heap = reg_slice_ok [OF ok, of k]
  then have b: "sl_ref s < length (rg_heap r)" "sl_len s \<le> length (rg_heap r ! sl_ref s)" using s by auto
  note new = go_append_get [OF b app]
  have h0: "rg_heap r ! 0 = []" "rg_heap r \<noteq> []" using ok by (auto simp: reg_ok_def)
  have zero: "sl_ref s = 0 \<Longrightarrow> sl_len s' \<noteq> 0 \<Longrightarrow> sl_ref s' = length (rg_heap r)"
    using app h0 by (auto simp: go_append_def Let_def split: if_splits)
  have nil: "h' ! 0 = []" "h' \<noteq> []"
  proof -
    show "h' ! 0 = []" using app h0 new(2) b go_append_other(1) [OF app, of 0]
      by (cases "sl_ref s = 0") (auto simp: go_append_def Let_def nth_append go_copy_def split: if_splits)
    show "h' \<noteq> []" using new(2) by auto
  qed
  have other: "sl_ref t < length h' \<and> h' ! sl_ref t = rg_heap r ! sl_ref t \<and> (sl_len s' \<noteq> 0 \<longrightarrow> sl_ref t \<noteq> sl_ref s')"
    if t: "map_of (rg_map r) k' = Some t" "k' \<noteq> k" for k' t
  proof -
    have b: "sl_ref t < length (rg_heap r)" "0 < sl_len t" "sl_len t \<le> length (rg_heap r ! sl_ref t)"
      using ok t by (auto simp: reg_ok_def)
    then have t0: "sl_ref t \<noteq> 0" using h0 by (metis length_0_conv less_le_not_le)
    have "sl_ref t \<noteq> sl_ref s"
    proof (cases "map_of (rg_map r) k")
      case None
      then show ?thesis using s t0 by (simp add: reg_slice_None nil_slice_def)
    next
      case (Some u)
      then show ?thesis using ok t s by (auto simp: reg_ok_def reg_slice_Some)
    qed
    with go_append_other [OF app b(1)] b show ?thesis by force
  qed
  have eq: "slice_get (rg_heap r) s @ xs = []" if "sl_len s' = 0"
    using new(1,3) that by (simp add: slice_get_def)
  show "reg_get ?r k' = (if k' = k then slice_get (rg_heap r) s @ xs else reg_get r k')"
  proof (cases "k' = k")
    case True
    then show ?thesis
      using new(1) eq m(2) nil by (simp add: reg_get_def reg_slice_def mget_def) (simp add: slice_get_def nil_slice_def)
  next
    case False
    with other [of k'] m(2) nil show ?thesis by (cases "map_of (rg_map r) k'")
      (auto simp: reg_get_def reg_slice_def mget_def slice_get_def nil_slice_def)
  qed
  show "reg_ok ?r"
    unfolding reg_ok_def
  proof (intro conjI allI impI)
    fix k1 s1
    assume "map_of (rg_map ?r) k1 = Some s1"
    then have "k1 = k \<and> s1 = s' \<and> sl_len s' \<noteq> 0 \<or> k1 \<noteq> k \<and> map_of (rg_map r) k1 = Some s1"
      using m(2) by (auto split: if_splits)
    then show "0 < sl_len s1" "sl_ref s1 < length (rg_heap ?r)" "sl_len s1 \<le> length (rg_heap ?r ! sl_ref s1)"
      using new ok other [of k1 s1] go_append_other(2) [OF app] by (auto simp: reg_ok_def)
  next
    fix k1 k2 s1 s2
    assume a: "map_of (rg_map ?r) k1 = Some s1" "map_of (rg_map ?r) k2 = Some s2" "sl_ref s1 = sl_ref s2"
    then show "k1 = k2"
      using other [of k1 s1] other [of k2 s2] ok m(2)
      by (cases "k1 = k"; cases "k2 = k") (auto simp: reg_ok_def split: if_splits)
  qed (use nil m in auto)
qed

lemma reg_add_ok:
  assumes "reg_ok r"
  shows "reg_ok (reg_add spare k c r)"
    and "reg_get (reg_add spare k c r) k' = (if k' = k then reg_get r k @ [c] else reg_get r k')"
proof -
  obtain h s where a: "go_append spare (rg_heap r) (reg_slice r k) [c] = (h, s)" by fastforce
  have "sl_len s \<noteq> 0" using go_append_get(3) [OF reg_slice_ok [OF assms] a] by simp
  then have "map_ok (mput k s (rg_map r))"
    "map_of (mput k s (rg_map r)) = (map_of (rg_map r))(k := if sl_len s = 0 then None else Some s)"
    using assms by (auto simp: reg_ok_def)
  note st = reg_store [OF assms refl le_refl a this]
  show "reg_ok (reg_add spare k c r)" using st(1) by (simp add: reg_add_def a)
  show "reg_get (reg_add spare k c r) k' = (if k' = k then reg_get r k @ [c] else reg_get r k')"
    using st(2) [of k'] by (simp add: reg_add_def a) (simp add: reg_get_def)
qed

lemma reg_get_mdel:
  assumes "reg_ok r"
  shows "reg_get (r\<lparr>rg_map := mdel k (rg_map r)\<rparr>) k' = (if k' = k then [] else reg_get r k')"
    "reg_ok (r\<lparr>rg_map := mdel k (rg_map r)\<rparr>)"
  using assms by (auto simp: reg_ok_def reg_get_def reg_slice_def mget_def slice_get_def nil_slice_def)

lemma reg_len: "reg_ok r \<Longrightarrow> sl_len (reg_slice r k) = length (reg_get r k)"
  using reg_slice_ok(2) [of r k] by (simp add: reg_get_def slice_get_def)

lemma reg_remove_laws:
  assumes "reg_ok r"
  shows "reg_ok (reg_remove k c r) \<and>
    reg_get (reg_remove k c r) k' = (if k' = k then remove1 c (reg_get r k) else reg_get r k')"
proof (cases "index_of c (reg_get r k)")
  case None
  then have "reg_cut k c r = r" by (simp add: reg_cut_def reg_get_def [symmetric] Let_def)
  moreover have "remove1 c (reg_get r k) = reg_get r k" using None by (simp add: index_of_None remove1_idem)
  ultimately show ?thesis
    using assms reg_get_mdel [OF assms, of k] by (auto simp: reg_remove_def reg_len Let_def)
next
  case (Some i)
  let ?s = "reg_slice r k" and ?xs = "reg_get r k"
  note i = index_of_Some [OF Some]
  obtain h s where a: "go_append 0 (rg_heap r) (?s\<lparr>sl_len := i\<rparr>) (drop (Suc i) ?xs) = (h, s)" by fastforce
  let ?m = "if sl_len s = 0 then mdel k (mput k s (rg_map r)) else mput k s (rg_map r)"
  have le: "sl_len (?s\<lparr>sl_len := i\<rparr>) \<le> sl_len ?s" using i by (simp add: reg_len [OF assms])
  then have get: "slice_get (rg_heap r) (?s\<lparr>sl_len := i\<rparr>) = take i ?xs"
    by (simp add: reg_get_def slice_get_def min_def)
  have "reg_cut k c r = \<lparr>rg_heap = h, rg_map = mput k s (rg_map r)\<rparr>"
    using Some a by (simp add: reg_cut_def reg_get_def [symmetric] Let_def)
  moreover have "reg_slice \<lparr>rg_heap = h, rg_map = mput k s (rg_map r)\<rparr> k = s" by (simp add: reg_slice_def)
  ultimately have "reg_remove k c r = \<lparr>rg_heap = h, rg_map = ?m\<rparr>" by (simp add: reg_remove_def Let_def)
  moreover have "map_ok ?m" "map_of ?m = (map_of (rg_map r))(k := if sl_len s = 0 then None else Some s)"
    using assms by (auto simp: reg_ok_def)
  note reg_store [OF assms _ le a this]
  ultimately show ?thesis using i get by simp
qed

section \<open>The interface\<close>

text \<open>What the clients of a subscriber registry rely on.\<close>

locale subscribers =
  fixes ok :: "'r \<Rightarrow> bool"
    and get :: "'r \<Rightarrow> string \<Rightarrow> nat list"
    and add :: "nat \<Rightarrow> string \<Rightarrow> nat \<Rightarrow> 'r \<Rightarrow> 'r"
    and remove :: "string \<Rightarrow> nat \<Rightarrow> 'r \<Rightarrow> 'r"
  assumes ok_add: "ok r \<Longrightarrow> ok (add spare k c r)"
    and ok_remove: "ok r \<Longrightarrow> ok (remove k c r)"
    and get_add: "ok r \<Longrightarrow> get (add spare k c r) k' = (if k' = k then get r k @ [c] else get r k')"
    and get_remove: "ok r \<Longrightarrow> get (remove k c r) k' = (if k' = k then remove1 c (get r k) else get r k')"
begin

definition proper :: "nat \<Rightarrow> 'r \<Rightarrow> bool" where
  "proper fresh r \<longleftrightarrow> ok r \<and> (\<forall>k. distinct (get r k) \<and> (\<forall>c \<in> set (get r k). c < fresh))"

lemma proper_add: "proper fresh r \<Longrightarrow> proper (Suc fresh) (add spare k fresh r)"
  by (auto simp: proper_def ok_add get_add less_Suc_eq)

lemma proper_remove: "proper fresh r \<Longrightarrow> proper fresh (remove k c r)"
  by (auto simp: proper_def ok_remove get_remove dest: notin_set_remove1 set_remove1_subset [THEN subsetD])

lemma proper_mono: "proper n r \<Longrightarrow> n \<le> m \<Longrightarrow> proper m r"
  by (fastforce simp: proper_def)

lemma removed: "proper fresh r \<Longrightarrow> c \<notin> set (get (remove k c r) k)"
  by (simp add: proper_def get_remove)

end

interpretation reg: subscribers reg_ok reg_get reg_add reg_remove
  by unfold_locales (simp_all add: reg_add_ok reg_remove_laws)

end
