(* ===== verification/Msg_Bus.thy ===== *)
theory Msg_Bus
  imports Go_Slices
begin

text \<open>
  The message bus, \<open>internal/stream/msgbus.go\<close>: subscriber channels per task. A channel is a
  number, its buffer a queue of at most 64 messages. The lock makes \<open>Subscribe\<close> and
  \<open>Unsubscribe\<close> atomic; \<open>Publish\<close> takes the slice of subscribers under the lock and sends
  after releasing it, so it is split into those steps.
\<close>

section \<open>State\<close>

record AgentMessageEvent =
  ame_ID :: int
  ame_TaskID :: string
  ame_FromAgentID :: "string option"
  ame_FromSubtaskID :: "string option"
  ame_ToAgentID :: "string option"
  ame_ToSubtaskID :: "string option"
  ame_MsgType :: string
  ame_Content :: string
  ame_CreatedAt :: string

record 'e message_bus =
  mb_subs :: registry
  mb_queues :: "nat \<Rightarrow> 'e list"
  mb_next :: nat \<comment> \<open>the next channel \<open>make\<close> gives out\<close>

definition chan_cap :: nat where
  "chan_cap = 64"

definition NewMessageBus :: "'e message_bus" where
  "NewMessageBus = \<lparr>mb_subs = reg_empty, mb_queues = (\<lambda>_. []), mb_next = 1\<rparr>"

definition mb_subscribers :: "'e message_bus \<Rightarrow> string \<Rightarrow> nat list" where
  "mb_subscribers mb t = reg_get (mb_subs mb) t"

section \<open>Operations\<close>

definition Subscribe :: "nat \<Rightarrow> string \<Rightarrow> 'e message_bus \<Rightarrow> nat \<times> 'e message_bus" where
  "Subscribe spare taskID mb =
     (let ch = mb_next mb
      in (ch, mb\<lparr>mb_subs := reg_add spare taskID ch (mb_subs mb),
                 mb_queues := (mb_queues mb)(ch := []), mb_next := Suc ch\<rparr>))"

definition Unsubscribe :: "string \<Rightarrow> nat \<Rightarrow> 'e message_bus \<Rightarrow> 'e message_bus" where
  "Unsubscribe taskID ch mb = mb\<lparr>mb_subs := reg_remove taskID ch (mb_subs mb)\<rparr>"

text \<open>\<open>select { case ch <- evt: default: }\<close>\<close>

definition try_send :: "'e \<Rightarrow> nat \<Rightarrow> 'e message_bus \<Rightarrow> 'e message_bus" where
  "try_send evt ch mb =
     (if length (mb_queues mb ch) < chan_cap
      then mb\<lparr>mb_queues := (mb_queues mb)(ch := mb_queues mb ch @ [evt])\<rparr> else mb)"

text \<open>The slice \<open>Publish\<close> reads under the lock, and its loop: element \<open>i\<close> is read from the array
  when the loop gets there.\<close>

definition publish_slice :: "string \<Rightarrow> 'e message_bus \<Rightarrow> slice" where
  "publish_slice taskID mb = reg_slice (mb_subs mb) taskID"

definition publish_step :: "'e \<Rightarrow> slice \<Rightarrow> nat \<Rightarrow> 'e message_bus \<Rightarrow> 'e message_bus" where
  "publish_step evt subs i mb = try_send evt (rg_heap (mb_subs mb) ! sl_ref subs ! i) mb"

definition Publish :: "string \<Rightarrow> 'e \<Rightarrow> 'e message_bus \<Rightarrow> 'e message_bus" where
  "Publish taskID evt mb =
     (let subs = publish_slice taskID mb in fold (publish_step evt subs) [0..<sl_len subs] mb)"

text \<open>What the subscriber does with its channel.\<close>

definition receive :: "nat \<Rightarrow> 'e message_bus \<Rightarrow> 'e option \<times> 'e message_bus" where
  "receive ch mb = (case mb_queues mb ch of [] \<Rightarrow> (None, mb)
     | e # q \<Rightarrow> (Some e, mb\<lparr>mb_queues := (mb_queues mb)(ch := q)\<rparr>))"

section \<open>Runs\<close>

datatype 'e mb_op = OpSubscribe nat string | OpUnsubscribe string nat | OpPublish string 'e | OpReceive nat

fun mb_do :: "'e mb_op \<Rightarrow> 'e message_bus \<Rightarrow> 'e message_bus" where
  "mb_do (OpSubscribe spare t) mb = snd (Subscribe spare t mb)"
| "mb_do (OpUnsubscribe t ch) mb = Unsubscribe t ch mb"
| "mb_do (OpPublish t e) mb = Publish t e mb"
| "mb_do (OpReceive ch) mb = snd (receive ch mb)"

definition mb_run :: "'e mb_op list \<Rightarrow> 'e message_bus" where
  "mb_run ops = fold mb_do ops NewMessageBus"

definition mb_ok :: "'e message_bus \<Rightarrow> bool" where
  "mb_ok mb \<longleftrightarrow> reg.proper (mb_next mb) (mb_subs mb) \<and>
     (\<forall>ch. length (mb_queues mb ch) \<le> chan_cap) \<and> (\<forall>ch \<ge> mb_next mb. mb_queues mb ch = [])"

section \<open>Sending\<close>

lemma try_send_sel [simp]:
  "mb_subs (try_send e ch mb) = mb_subs mb" "mb_next (try_send e ch mb) = mb_next mb"
  by (simp_all add: try_send_def)

lemma fold_publish_step:
  "fold (publish_step e s) is mb =
     fold (try_send e) (map (\<lambda>i. rg_heap (mb_subs mb) ! sl_ref s ! i) is) mb"
  by (induction "is" arbitrary: mb) (simp_all add: publish_step_def)

lemma Publish_fold:
  assumes "reg_ok (mb_subs mb)"
  shows "Publish t e mb = fold (try_send e) (mb_subscribers mb t) mb"
proof -
  let ?s = "reg_slice (mb_subs mb) t"
  have "map (\<lambda>i. rg_heap (mb_subs mb) ! sl_ref ?s ! i) [0..<sl_len ?s] = take (sl_len ?s) (rg_heap (mb_subs mb) ! sl_ref ?s)"
    using reg_slice_ok(2) [OF assms, of t] by (intro nth_equalityI) simp_all
  then show ?thesis
    by (simp add: Publish_def publish_slice_def fold_publish_step mb_subscribers_def reg_get_def slice_get_def Let_def)
qed

lemma fold_try_send_sel [simp]:
  "mb_subs (fold (try_send e) chs mb) = mb_subs mb" "mb_next (fold (try_send e) chs mb) = mb_next mb"
  by (induction chs arbitrary: mb) simp_all

lemma fold_try_send:
  "distinct chs \<Longrightarrow> mb_queues (fold (try_send e) chs mb) ch =
     (if ch \<in> set chs \<and> length (mb_queues mb ch) < chan_cap then mb_queues mb ch @ [e] else mb_queues mb ch)"
  by (induction chs arbitrary: mb) (auto simp: try_send_def)

section \<open>The invariant\<close>

lemma mb_ok_reg: "mb_ok mb \<Longrightarrow> reg_ok (mb_subs mb)"
  by (simp add: mb_ok_def reg.proper_def)

lemma mb_ok_distinct: "mb_ok mb \<Longrightarrow> distinct (mb_subscribers mb t)"
  by (simp add: mb_ok_def reg.proper_def mb_subscribers_def)

lemma mb_ok_fresh: "mb_ok mb \<Longrightarrow> ch \<in> set (mb_subscribers mb t) \<Longrightarrow> ch < mb_next mb"
  by (auto simp: mb_ok_def reg.proper_def mb_subscribers_def)

lemma Publish_queues:
  assumes "mb_ok mb"
  shows "mb_queues (Publish t e mb) ch =
    (if ch \<in> set (mb_subscribers mb t) \<and> length (mb_queues mb ch) < chan_cap
     then mb_queues mb ch @ [e] else mb_queues mb ch)"
  using fold_try_send [OF mb_ok_distinct [OF assms], of e t mb ch] by (simp add: Publish_fold mb_ok_reg assms)

lemma mb_ok_New: "mb_ok NewMessageBus"
  by (simp add: mb_ok_def NewMessageBus_def reg.proper_def reg_ok_empty reg_get_empty)

lemma mb_ok_do:
  assumes "mb_ok mb"
  shows "mb_ok (mb_do op mb)"
proof (cases op)
  case (OpSubscribe spare t)
  with assms show ?thesis by (auto simp: mb_ok_def Subscribe_def Let_def reg.proper_add)
next
  case (OpUnsubscribe t ch)
  with assms show ?thesis by (simp add: mb_ok_def Unsubscribe_def reg.proper_remove)
next
  case (OpPublish t e)
  have "mb_subs (Publish t e mb) = mb_subs mb" "mb_next (Publish t e mb) = mb_next mb"
    using assms by (simp_all add: Publish_fold mb_ok_reg)
  with OpPublish Publish_queues [OF assms] mb_ok_fresh [OF assms] assms show ?thesis
    by (fastforce simp: mb_ok_def)
next
  case (OpReceive ch)
  have l: "length (mb_queues mb c) \<le> chan_cap" for c using assms by (simp add: mb_ok_def)
  show ?thesis
  proof (cases "mb_queues mb ch")
    case (Cons e q)
    with l [of ch] have "length q \<le> chan_cap" by simp
    with Cons OpReceive assms show ?thesis by (auto simp: mb_ok_def receive_def)
  qed (use OpReceive assms in \<open>simp add: receive_def\<close>)
qed

lemma mb_ok_run: "mb_ok (mb_run ops)"
proof -
  have "mb_ok mb \<Longrightarrow> mb_ok (fold mb_do ops mb)" for mb :: "'a message_bus"
    by (induction ops arbitrary: mb) (simp_all add: mb_ok_do)
  then show ?thesis by (simp add: mb_run_def mb_ok_New)
qed

section \<open>The abstract bus\<close>

text \<open>The specification: a function from tasks to the lists of their subscribers in the order they
  subscribed, and a queue of bounded length per channel.\<close>

record 'e abs_bus =
  ab_subs :: "string \<Rightarrow> nat list"
  ab_queues :: "nat \<Rightarrow> 'e list"
  ab_next :: nat

definition abs_mb :: "'e message_bus \<Rightarrow> 'e abs_bus" where
  "abs_mb mb = \<lparr>ab_subs = mb_subscribers mb, ab_queues = mb_queues mb, ab_next = mb_next mb\<rparr>"

fun ab_do :: "'e mb_op \<Rightarrow> 'e abs_bus \<Rightarrow> 'e abs_bus" where
  "ab_do (OpSubscribe spare t) ab =
     ab\<lparr>ab_subs := (ab_subs ab)(t := ab_subs ab t @ [ab_next ab]),
        ab_queues := (ab_queues ab)(ab_next ab := []), ab_next := Suc (ab_next ab)\<rparr>"
| "ab_do (OpUnsubscribe t ch) ab = ab\<lparr>ab_subs := (ab_subs ab)(t := remove1 ch (ab_subs ab t))\<rparr>"
| "ab_do (OpPublish t e) ab =
     ab\<lparr>ab_queues := (\<lambda>ch. if ch \<in> set (ab_subs ab t) \<and> length (ab_queues ab ch) < chan_cap
          then ab_queues ab ch @ [e] else ab_queues ab ch)\<rparr>"
| "ab_do (OpReceive ch) ab = ab\<lparr>ab_queues := (ab_queues ab)(ch := tl (ab_queues ab ch))\<rparr>"

lemma abs_mb_do:
  assumes "mb_ok mb"
  shows "abs_mb (mb_do op mb) = ab_do op (abs_mb mb)"
proof (cases op)
  case (OpSubscribe spare t)
  with mb_ok_reg [OF assms] show ?thesis
    by (auto simp: abs_mb_def Subscribe_def mb_subscribers_def reg.get_add Let_def fun_eq_iff)
next
  case (OpUnsubscribe t ch)
  with mb_ok_reg [OF assms] show ?thesis
    by (auto simp: abs_mb_def Unsubscribe_def mb_subscribers_def reg.get_remove fun_eq_iff)
next
  case (OpPublish t e)
  have "mb_subs (Publish t e mb) = mb_subs mb" "mb_next (Publish t e mb) = mb_next mb"
    using assms by (simp_all add: Publish_fold mb_ok_reg)
  with OpPublish Publish_queues [OF assms] show ?thesis
    by (auto simp: abs_mb_def mb_subscribers_def fun_eq_iff)
next
  case (OpReceive ch)
  then show ?thesis by (auto simp: abs_mb_def receive_def mb_subscribers_def fun_eq_iff split: list.split)
qed

section \<open>Properties\<close>

text \<open>C15: The bus implements the abstract one: after any sequence of calls the slices in the heap,
  which \<open>append\<close> and the removal overwrite in place, hold for every task exactly the channels
  that subscribed and did not unsubscribe, in order, whatever capacities the runtime chose, and
  the queues agree.\<close>

theorem message_bus_refines:
  "abs_mb (mb_run ops) = fold ab_do ops (abs_mb NewMessageBus)"
proof -
  have "mb_ok mb \<Longrightarrow> abs_mb (fold mb_do ops mb) = fold ab_do ops (abs_mb mb)" for mb :: "'a message_bus"
    by (induction ops arbitrary: mb) (simp_all add: abs_mb_do mb_ok_do)
  then show ?thesis by (simp add: mb_run_def mb_ok_New)
qed

text \<open>\<open>Publish\<close>, when nothing runs between its steps, appends the message exactly once to the
  channel of every subscriber of the task that is not full, drops it for those that are full,
  and touches no other channel.\<close>

theorem Publish_delivers:
  "mb_queues (Publish t e (mb_run ops)) ch =
     (if ch \<in> set (mb_subscribers (mb_run ops) t) \<and> length (mb_queues (mb_run ops) ch) < 64
      then mb_queues (mb_run ops) ch @ [e] else mb_queues (mb_run ops) ch)"
  using Publish_queues [OF mb_ok_run, of t e ops ch] by (simp add: chan_cap_def)

text \<open>An \<open>Unsubscribe\<close> between the steps of a \<open>Publish\<close> disturbs it: the removal shifts the
  array the loop is reading. With channels 1, 2 and 3 subscribed, when channel 1 leaves before the
  loop starts, channel 3 gets the message twice; when it leaves after the first step, channel 2
  misses the message and channel 3 still gets it twice.\<close>

theorem Publish_race:
  "let mb = mb_run [OpSubscribe 3 ''t'', OpSubscribe 0 ''t'', OpSubscribe 0 ''t''];
       subs = publish_slice ''t'' mb;
       early = fold (publish_step ''m'' subs) [0, 1, 2] (Unsubscribe ''t'' 1 mb);
       late = fold (publish_step ''m'' subs) [1, 2] (Unsubscribe ''t'' 1 (publish_step ''m'' subs 0 mb))
   in map (mb_queues early) [1, 2, 3] = [[], [''m''], [''m'', ''m'']] \<and>
      map (mb_queues late) [1, 2, 3] = [[''m''], [], [''m'', ''m'']]"
  by code_simp

end
