(* ===== verification/Stream_Hub.thy ===== *)
theory Stream_Hub
  imports Go_Slices Ring_Buffer Go_Strings
begin

text \<open>
  The hub, \<open>internal/stream/hub.go\<close> and \<open>client.go\<close>: agent output streams, the web socket
  clients subscribed to them, the event loop that owns both maps, and the pump goroutine of each
  stream. Streams and clients are objects with identity: a stream is an index into \<open>hb_objs\<close>, a
  client a number. The clients of a task are a slice of \<open>Go_Slices\<close>.
\<close>

section \<open>State\<close>

record AgentStream =
  as_AgentID :: string
  as_TaskID :: string
  as_Buffer :: ring_buffer
  as_OutputCh :: "bytes list"
  as_InputCh :: "bytes list"
  as_Done :: bool \<comment> \<open>the channel is closed\<close>
  as_Closed :: bool \<comment> \<open>\<open>OutputCh\<close> is closed\<close>
  as_Pump :: bool \<comment> \<open>the pump goroutine runs\<close>

record Client =
  cl_TaskID :: string
  cl_AgentID :: string
  cl_Send :: "bytes list"
  cl_Done :: bool

record finishedAgent =
  fa_TaskID :: string
  fa_Buffer :: nat \<comment> \<open>the stream whose buffer it is\<close>

datatype hub_msg =
    MsgRegisterAgent string string
  | MsgUnregisterAgent string
  | MsgSubscribe nat
  | MsgUnsubscribe nat
  | MsgInjectMessage string bytes
  | MsgBroadcastEvent string bytes

record Hub =
  hb_streams :: "(string, nat) gomap"
  hb_finished :: "(string, finishedAgent) gomap"
  hb_clients :: registry
  hb_objs :: "AgentStream list"
  hb_conns :: "nat \<Rightarrow> Client"
  hb_handler :: bool \<comment> \<open>a rate limit handler is set\<close>
  hb_limits :: "(string \<times> string \<times> bytes) list" \<comment> \<open>the calls of it\<close>
  hb_msgCh :: "hub_msg list"
  hb_shutdown :: bool
  hb_done :: bool

definition send_cap :: nat where
  "send_cap = 256"

definition input_cap :: nat where
  "input_cap = 64"

definition output_cap :: nat where
  "output_cap = 256"

definition msg_cap :: nat where
  "msg_cap = 512"

definition NewAgentStream :: "string \<Rightarrow> string \<Rightarrow> AgentStream" where
  "NewAgentStream agentID taskID = \<lparr>as_AgentID = agentID, as_TaskID = taskID,
     as_Buffer = NewRingBuffer (int DefaultBufferSize), as_OutputCh = [], as_InputCh = [],
     as_Done = False, as_Closed = False, as_Pump = False\<rparr>"

definition NewClient :: "string \<Rightarrow> string \<Rightarrow> Client" where
  "NewClient taskID agentID = \<lparr>cl_TaskID = taskID, cl_AgentID = agentID, cl_Send = [], cl_Done = False\<rparr>"

definition NewHub :: "bool \<Rightarrow> (nat \<Rightarrow> Client) \<Rightarrow> Hub" where
  "NewHub handler conns = \<lparr>hb_streams = [], hb_finished = [], hb_clients = reg_empty, hb_objs = [],
     hb_conns = conns, hb_handler = handler, hb_limits = [], hb_msgCh = [], hb_shutdown = False,
     hb_done = False\<rparr>"

definition upd_stream :: "nat \<Rightarrow> (AgentStream \<Rightarrow> AgentStream) \<Rightarrow> Hub \<Rightarrow> Hub" where
  "upd_stream i f h = h\<lparr>hb_objs := (hb_objs h)[i := f (hb_objs h ! i)]\<rparr>"

definition upd_client :: "nat \<Rightarrow> (Client \<Rightarrow> Client) \<Rightarrow> Hub \<Rightarrow> Hub" where
  "upd_client c f h = h\<lparr>hb_conns := (hb_conns h)(c := f (hb_conns h c))\<rparr>"

section \<open>Handlers\<close>

definition doRegisterAgent :: "string \<Rightarrow> string \<Rightarrow> Hub \<Rightarrow> Hub" where
  "doRegisterAgent agentID taskID h =
     h\<lparr>hb_objs := hb_objs h @ [(NewAgentStream agentID taskID)\<lparr>as_Pump := True\<rparr>],
       hb_streams := mput agentID (length (hb_objs h)) (hb_streams h)\<rparr>"

definition doUnregisterAgent :: "string \<Rightarrow> Hub \<Rightarrow> Hub" where
  "doUnregisterAgent agentID h =
     (case map_of (hb_streams h) agentID of
        None \<Rightarrow> h
      | Some i \<Rightarrow>
          upd_stream i (as_Done_update (\<lambda>_. True))
            (h\<lparr>hb_streams := mdel agentID (hb_streams h),
               hb_finished := mput agentID \<lparr>fa_TaskID = as_TaskID (hb_objs h ! i), fa_Buffer = i\<rparr>
                 (hb_finished h)\<rparr>))"

definition doSubscribe :: "nat \<Rightarrow> nat \<Rightarrow> Hub \<Rightarrow> Hub" where
  "doSubscribe spare c h = h\<lparr>hb_clients := reg_add spare (cl_TaskID (hb_conns h c)) c (hb_clients h)\<rparr>"

definition doUnsubscribe :: "nat \<Rightarrow> Hub \<Rightarrow> Hub" where
  "doUnsubscribe c h = upd_client c (cl_Done_update (\<lambda>_. True))
     (h\<lparr>hb_clients := reg_remove (cl_TaskID (hb_conns h c)) c (hb_clients h)\<rparr>)"

definition doInjectMessage :: "string \<Rightarrow> bytes \<Rightarrow> Hub \<Rightarrow> Hub" where
  "doInjectMessage agentID data h =
     (case map_of (hb_streams h) agentID of
        None \<Rightarrow> h
      | Some i \<Rightarrow>
          if length (as_InputCh (hb_objs h ! i)) < input_cap
          then upd_stream i (as_InputCh_update (\<lambda>q. q @ [data])) h else h)"

text \<open>\<open>select { case c.Send <- data: default: }\<close>\<close>

definition client_send :: "bytes \<Rightarrow> nat \<Rightarrow> Hub \<Rightarrow> Hub" where
  "client_send data c h =
     (if length (cl_Send (hb_conns h c)) < send_cap
      then upd_client c (cl_Send_update (\<lambda>q. q @ [data])) h else h)"

definition hub_clients :: "Hub \<Rightarrow> string \<Rightarrow> nat list" where
  "hub_clients h taskID = reg_get (hb_clients h) taskID"

definition doBroadcastEvent :: "string \<Rightarrow> bytes \<Rightarrow> Hub \<Rightarrow> Hub" where
  "doBroadcastEvent taskID data h = fold (client_send data) (hub_clients h taskID) h"

fun handleMsg :: "nat \<Rightarrow> hub_msg \<Rightarrow> Hub \<Rightarrow> Hub" where
  "handleMsg spare (MsgRegisterAgent a t) h = doRegisterAgent a t h"
| "handleMsg spare (MsgUnregisterAgent a) h = doUnregisterAgent a h"
| "handleMsg spare (MsgSubscribe c) h = doSubscribe spare c h"
| "handleMsg spare (MsgUnsubscribe c) h = doUnsubscribe c h"
| "handleMsg spare (MsgInjectMessage a d) h = doInjectMessage a d h"
| "handleMsg spare (MsgBroadcastEvent t d) h = doBroadcastEvent t d h"

text \<open>One turn of the pump with the next chunk of output: into the buffer, to the rate limit
  handler, and to the clients of the task that want this agent.\<close>

definition fan_out :: "nat \<Rightarrow> bytes \<Rightarrow> Hub \<Rightarrow> Hub" where
  "fan_out i data h =
     (let s = hb_objs h ! i in
      fold (\<lambda>c h. if cl_AgentID (hb_conns h c) \<noteq> [] \<and> cl_AgentID (hb_conns h c) \<noteq> as_AgentID s then h
                  else client_send data c h)
        (hub_clients h (as_TaskID s)) h)"

definition pump_chunk :: "nat \<Rightarrow> bytes \<Rightarrow> Hub \<Rightarrow> Hub" where
  "pump_chunk i data h =
     (let s = hb_objs h ! i;
          h1 = upd_stream i (as_Buffer_update (\<lambda>b. snd (rb_Write b data))) h;
          h2 = (if hb_handler h1 \<and> Contains data ''rate_limit''
                then h1\<lparr>hb_limits := hb_limits h1 @ [(as_AgentID s, as_TaskID s, data)]\<rparr> else h1)
      in fan_out i data h2)"

definition cleanupAll :: "Hub \<Rightarrow> Hub" where
  "cleanupAll h =
     (let h1 = fold (\<lambda>(a, i). upd_stream i (as_Done_update (\<lambda>_. True))) (hb_streams h) h;
          h2 = h1\<lparr>hb_streams := []\<rparr>;
          h3 = fold (\<lambda>k h. fold (\<lambda>c. upd_client c (cl_Done_update (\<lambda>_. True))) (hub_clients h k) h)
                 (mkeys (rg_map (hb_clients h2))) h2
      in h3\<lparr>hb_clients := (hb_clients h3)\<lparr>rg_map := []\<rparr>\<rparr>)"

section \<open>Reading\<close>

definition stream_buffer :: "Hub \<Rightarrow> nat \<Rightarrow> bytes" where
  "stream_buffer h i = rb_ReadAll (as_Buffer (hb_objs h ! i))"

definition GetFullBuffer :: "Hub \<Rightarrow> string \<Rightarrow> bytes" where
  "GetFullBuffer h agentID =
     (case map_of (hb_streams h) agentID of
        Some i \<Rightarrow> stream_buffer h i
      | None \<Rightarrow> (case map_of (hb_finished h) agentID of
          Some fa \<Rightarrow> stream_buffer h (fa_Buffer fa)
        | None \<Rightarrow> []))"

text \<open>The two maps are ranged over in orders Go leaves open.\<close>

definition GetBackfill :: "Hub \<Rightarrow> string list \<Rightarrow> string list \<Rightarrow> string \<Rightarrow> string \<Rightarrow> bytes" where
  "GetBackfill h order1 order2 taskID agentID =
     (if agentID \<noteq> [] then GetFullBuffer h agentID
      else
        concat (map (\<lambda>a. case map_of (hb_streams h) a of None \<Rightarrow> []
            | Some i \<Rightarrow> if as_TaskID (hb_objs h ! i) = taskID then stream_buffer h i else []) order1) @
        concat (map (\<lambda>a. case map_of (hb_finished h) a of None \<Rightarrow> []
            | Some fa \<Rightarrow> if fa_TaskID fa = taskID then stream_buffer h (fa_Buffer fa) else []) order2))"

section \<open>Steps\<close>

text \<open>
  What can happen next: a caller puts a message on the channel, the event loop handles one or
  stops, the container writes output or closes the channel, a pump takes a chunk or stops, a web
  socket writer takes a frame, somebody calls \<open>Shutdown\<close>. With \<open>Done\<close> closed and output
  waiting, \<open>select\<close> may choose either.
\<close>

datatype hub_ev = EvSend hub_msg | EvHandle hub_msg | EvOutput nat bytes | EvClose nat | EvPump nat bytes
  | EvPumpStop nat | EvFrame nat bytes | EvShutdown | EvStop

inductive hub_step :: "Hub \<Rightarrow> hub_ev \<Rightarrow> Hub \<Rightarrow> bool" where
  send: "length (hb_msgCh h) < msg_cap \<Longrightarrow> hub_step h (EvSend m) (h\<lparr>hb_msgCh := hb_msgCh h @ [m]\<rparr>)"
| handle: "\<not> hb_done h \<Longrightarrow> hb_msgCh h = m # ms \<Longrightarrow>
    hub_step h (EvHandle m) (handleMsg spare m (h\<lparr>hb_msgCh := ms\<rparr>))"
| container: "i < length (hb_objs h) \<Longrightarrow> \<not> as_Closed (hb_objs h ! i) \<Longrightarrow> length (as_OutputCh (hb_objs h ! i)) < output_cap \<Longrightarrow>
    hub_step h (EvOutput i d) (upd_stream i (as_OutputCh_update (\<lambda>q. q @ [d])) h)"
| close_output: "i < length (hb_objs h) \<Longrightarrow> hub_step h (EvClose i) (upd_stream i (as_Closed_update (\<lambda>_. True)) h)"
| pump: "i < length (hb_objs h) \<Longrightarrow> as_Pump (hb_objs h ! i) \<Longrightarrow> as_OutputCh (hb_objs h ! i) = d # q \<Longrightarrow>
    hub_step h (EvPump i d) (pump_chunk i d (upd_stream i (as_OutputCh_update (\<lambda>_. q)) h))"
| pump_stop: "i < length (hb_objs h) \<Longrightarrow> as_Pump (hb_objs h ! i) \<Longrightarrow>
    as_Done (hb_objs h ! i) \<or> as_Closed (hb_objs h ! i) \<and> as_OutputCh (hb_objs h ! i) = [] \<Longrightarrow>
    hub_step h (EvPumpStop i) (upd_stream i (as_Pump_update (\<lambda>_. False)) h)"
| frame: "cl_Send (hb_conns h c) = d # q \<Longrightarrow>
    hub_step h (EvFrame c d) (upd_client c (cl_Send_update (\<lambda>_. q)) h)"
| shut: "hub_step h EvShutdown (h\<lparr>hb_shutdown := True\<rparr>)"
| stop: "hb_shutdown h \<Longrightarrow> \<not> hb_done h \<Longrightarrow> hub_step h EvStop ((cleanupAll h)\<lparr>hb_done := True\<rparr>)"

inductive hub_run :: "Hub \<Rightarrow> hub_ev list \<Rightarrow> Hub \<Rightarrow> bool" for h0 where
  start: "hub_run h0 [] h0"
| run: "hub_run h0 tr h \<Longrightarrow> hub_step h e h' \<Longrightarrow> hub_run h0 (tr @ [e]) h'"

definition pumped :: "nat \<Rightarrow> hub_ev list \<Rightarrow> bytes list" where
  "pumped i tr = concat (map (\<lambda>e. case e of EvPump j d \<Rightarrow> if j = i then [d] else [] | _ \<Rightarrow> []) tr)"

definition produced :: "nat \<Rightarrow> hub_ev list \<Rightarrow> bytes list" where
  "produced i tr = concat (map (\<lambda>e. case e of EvOutput j d \<Rightarrow> if j = i then [d] else [] | _ \<Rightarrow> []) tr)"

section \<open>What the handlers leave alone\<close>

lemma upd_stream_sel [simp]:
  "length (hb_objs (upd_stream i f h)) = length (hb_objs h)" "hb_clients (upd_stream i f h) = hb_clients h"
  "hb_streams (upd_stream i f h) = hb_streams h" "hb_finished (upd_stream i f h) = hb_finished h"
  "hb_conns (upd_stream i f h) = hb_conns h" "hb_handler (upd_stream i f h) = hb_handler h"
  "hb_msgCh (upd_stream i f h) = hb_msgCh h"
  by (simp_all add: upd_stream_def)

lemma upd_stream_nth: "j < length (hb_objs h) \<Longrightarrow>
   hb_objs (upd_stream i f h) ! j = (if j = i then f (hb_objs h ! j) else hb_objs h ! j)"
  by (auto simp: upd_stream_def)

lemma upd_client_sel [simp]:
  "hb_objs (upd_client c f h) = hb_objs h" "hb_clients (upd_client c f h) = hb_clients h"
  "hb_streams (upd_client c f h) = hb_streams h" "hb_finished (upd_client c f h) = hb_finished h"
  "hb_conns (upd_client c f h) = (hb_conns h)(c := f (hb_conns h c))"
  "hb_msgCh (upd_client c f h) = hb_msgCh h"
  by (simp_all add: upd_client_def)

lemma client_send_sel [simp]:
  "hb_objs (client_send d c h) = hb_objs h" "hb_clients (client_send d c h) = hb_clients h"
  "hb_streams (client_send d c h) = hb_streams h" "hb_finished (client_send d c h) = hb_finished h"
  "cl_AgentID (hb_conns (client_send d c h) x) = cl_AgentID (hb_conns h x)"
  "cl_TaskID (hb_conns (client_send d c h) x) = cl_TaskID (hb_conns h x)"
  by (simp_all add: client_send_def)

definition wants :: "Hub \<Rightarrow> string \<Rightarrow> nat \<Rightarrow> bool" where
  "wants h a c \<longleftrightarrow> cl_AgentID (hb_conns h c) = [] \<or> cl_AgentID (hb_conns h c) = a"

lemma fold_client_send_sel:
  "hb_objs (fold (client_send d) cs h) = hb_objs h" "hb_clients (fold (client_send d) cs h) = hb_clients h"
  "hb_streams (fold (client_send d) cs h) = hb_streams h" "hb_finished (fold (client_send d) cs h) = hb_finished h"
  by (induction cs arbitrary: h) simp_all

lemma fold_client_send:
  "distinct cs \<Longrightarrow> hb_conns (fold (client_send d) cs h) c =
     (if c \<in> set cs \<and> length (cl_Send (hb_conns h c)) < send_cap
      then (hb_conns h c)\<lparr>cl_Send := cl_Send (hb_conns h c) @ [d]\<rparr> else hb_conns h c)"
  by (induction cs arbitrary: h) (auto simp: client_send_def)

lemma fan_out_filter: "fan_out i d h =
   fold (client_send d) (filter (wants h (as_AgentID (hb_objs h ! i))) (hub_clients h (as_TaskID (hb_objs h ! i)))) h"
proof -
  have "fold (\<lambda>c h. if cl_AgentID (hb_conns h c) \<noteq> [] \<and> cl_AgentID (hb_conns h c) \<noteq> a then h else client_send d c h) cs h
      = fold (client_send d) (filter (wants h a) cs) h" for a cs
  proof (induction cs arbitrary: h)
    case (Cons c cs)
    have "wants (client_send d c h) a = wants h a" by (simp add: wants_def fun_eq_iff)
    with Cons show ?case by (auto simp: wants_def)
  qed simp
  then show ?thesis by (simp add: fan_out_def Let_def)
qed

lemma fan_out_sel [simp]:
  "hb_objs (fan_out i d h) = hb_objs h" "hb_clients (fan_out i d h) = hb_clients h"
  "hb_streams (fan_out i d h) = hb_streams h" "hb_finished (fan_out i d h) = hb_finished h"
  by (simp_all add: fan_out_filter fold_client_send_sel)

lemma pump_chunk_sel [simp]:
  "hb_objs (pump_chunk i d h) = hb_objs (upd_stream i (as_Buffer_update (\<lambda>b. snd (rb_Write b d))) h)"
  "hb_clients (pump_chunk i d h) = hb_clients h"
  "hb_streams (pump_chunk i d h) = hb_streams h" "hb_finished (pump_chunk i d h) = hb_finished h"
  by (simp_all add: pump_chunk_def Let_def)

section \<open>Histories\<close>

text \<open>Every stream's buffer holds the chunks its pump took, and these with the waiting ones are the
  chunks the container wrote.\<close>

definition stream_ok :: "hub_ev list \<Rightarrow> nat \<Rightarrow> AgentStream \<Rightarrow> bool" where
  "stream_ok tr i s \<longleftrightarrow>
     as_Buffer s = rb_writes (NewRingBuffer (int DefaultBufferSize)) (pumped i tr) \<and>
     produced i tr = pumped i tr @ as_OutputCh s"

definition hist_ok :: "hub_ev list \<Rightarrow> Hub \<Rightarrow> bool" where
  "hist_ok tr h \<longleftrightarrow> (\<forall>i < length (hb_objs h). stream_ok tr i (hb_objs h ! i)) \<and>
     (\<forall>i \<ge> length (hb_objs h). pumped i tr = [] \<and> produced i tr = [])"

lemma trace_simps [simp]:
  "pumped i [] = []" "produced i [] = []"
  "pumped i (tr @ [EvPump j d]) = pumped i tr @ (if j = i then [d] else [])"
  "produced i (tr @ [EvOutput j d]) = produced i tr @ (if j = i then [d] else [])"
  by (simp_all add: pumped_def produced_def)

definition silent :: "hub_ev \<Rightarrow> bool" where
  "silent e \<longleftrightarrow> (case e of EvPump _ _ \<Rightarrow> False | EvOutput _ _ \<Rightarrow> False | _ \<Rightarrow> True)"

lemma silent_trace: "silent e \<Longrightarrow> pumped i (tr @ [e]) = pumped i tr" "silent e \<Longrightarrow> produced i (tr @ [e]) = produced i tr"
  by (auto simp: silent_def pumped_def produced_def split: hub_ev.splits)

text \<open>A handler may add new streams and set flags of old ones.\<close>

definition same_io :: "AgentStream \<Rightarrow> AgentStream \<Rightarrow> bool" where
  "same_io s t \<longleftrightarrow> as_Buffer s = as_Buffer t \<and> as_OutputCh s = as_OutputCh t \<and>
     as_AgentID s = as_AgentID t \<and> as_TaskID s = as_TaskID t"

definition grows :: "Hub \<Rightarrow> Hub \<Rightarrow> bool" where
  "grows h h' \<longleftrightarrow> length (hb_objs h) \<le> length (hb_objs h') \<and>
     (\<forall>i < length (hb_objs h). same_io (hb_objs h ! i) (hb_objs h' ! i)) \<and>
     (\<forall>i \<ge> length (hb_objs h). i < length (hb_objs h') \<longrightarrow>
        as_Buffer (hb_objs h' ! i) = NewRingBuffer (int DefaultBufferSize) \<and> as_OutputCh (hb_objs h' ! i) = [])"

lemma hist_ok_grows: "hist_ok tr h \<Longrightarrow> grows h h' \<Longrightarrow> silent e \<Longrightarrow> hist_ok (tr @ [e]) h'"
  unfolding hist_ok_def grows_def stream_ok_def same_io_def
  by (auto simp: silent_trace rb_writes_def) (metis not_le_imp_less fold_simps(1) append_Nil rb_writes_def)+

lemma grows_objs: "hb_objs h' = hb_objs h \<Longrightarrow> grows h h'"
  by (simp add: grows_def same_io_def)

lemma grows_upd: "(\<And>s. same_io s (f s)) \<Longrightarrow> hb_objs h' = hb_objs (upd_stream i f h) \<Longrightarrow> grows h h'"
  by (auto simp: grows_def upd_stream_nth) (simp add: same_io_def)

lemma fold_done_objs:
  "grows h (fold (\<lambda>(a, i). upd_stream i (as_Done_update (\<lambda>_. True))) xs h)"
proof (induction xs arbitrary: h)
  case (Cons x xs)
  obtain a i where x: "x = (a, i)" by (cases x)
  have "grows h (upd_stream i (as_Done_update (\<lambda>_. True)) h)" by (rule grows_upd) (auto simp: same_io_def)
  with Cons [of "upd_stream i (as_Done_update (\<lambda>_. True)) h"] show ?case
    by (auto simp: x grows_def same_io_def)
qed (simp add: grows_objs)

lemma fold_upd_client_objs: "hb_objs (fold (\<lambda>c. upd_client c f) cs h) = hb_objs h"
  by (induction cs arbitrary: h) simp_all

lemma fold_clients_objs: "hb_objs (fold (\<lambda>k h. fold (\<lambda>c. upd_client c f) (hub_clients h k) h) ks h) = hb_objs h"
  by (induction ks arbitrary: h) (simp_all add: fold_upd_client_objs)

lemma grows_cleanup: "grows h (cleanupAll h)"
  using fold_done_objs [of h "hb_streams h"]
  by (simp add: cleanupAll_def Let_def fold_clients_objs grows_def)

lemma grows_handle: "grows h (handleMsg spare m h)"
proof (cases m)
  case (MsgRegisterAgent a t)
  then show ?thesis
    by (auto simp: doRegisterAgent_def grows_def same_io_def nth_append NewAgentStream_def)
next
  case (MsgUnregisterAgent a)
  have "grows h (doUnregisterAgent a h)"
  proof (cases "map_of (hb_streams h) a")
    case (Some i)
    then show ?thesis
      by (intro grows_upd [of "as_Done_update (\<lambda>_. True)" _ i]) (simp_all add: doUnregisterAgent_def upd_stream_def same_io_def)
  qed (simp add: doUnregisterAgent_def grows_objs)
  with MsgUnregisterAgent show ?thesis by simp
next
  case (MsgInjectMessage a d)
  have "grows h (doInjectMessage a d h)"
  proof (cases "map_of (hb_streams h) a")
    case (Some i)
    have "grows h (upd_stream i (as_InputCh_update (\<lambda>q. q @ [d])) h)"
      by (intro grows_upd [of "as_InputCh_update (\<lambda>q. q @ [d])" _ i]) (simp_all add: same_io_def)
    with Some show ?thesis by (simp add: doInjectMessage_def grows_objs)
  qed (simp add: doInjectMessage_def grows_objs)
  with MsgInjectMessage show ?thesis by simp
qed (auto intro!: grows_objs simp: doSubscribe_def doUnsubscribe_def doBroadcastEvent_def fold_client_send_sel)

lemma grows_msgs: "grows h (handleMsg spare m (h\<lparr>hb_msgCh := ms\<rparr>))"
  using grows_handle [of "h\<lparr>hb_msgCh := ms\<rparr>" spare m] by (simp add: grows_def)

lemma hist_ok_step: "hub_step h e h' \<Longrightarrow> hist_ok tr h \<Longrightarrow> hist_ok (tr @ [e]) h'"
proof (induction rule: hub_step.induct)
  case (container i h d)
  then show ?case by (auto simp: hist_ok_def stream_ok_def upd_stream_nth pumped_def produced_def)
next
  case (pump i h d q)
  then show ?case
    by (auto simp: hist_ok_def stream_ok_def upd_stream_nth pumped_def produced_def rb_writes_def)
next
  case (handle h m ms spare)
  then show ?case by (intro hist_ok_grows [OF _ grows_msgs]) (simp_all add: silent_def)
next
  case (stop h)
  have "grows h ((cleanupAll h)\<lparr>hb_done := True\<rparr>)" using grows_cleanup [of h] by (simp add: grows_def)
  with stop show ?case by (intro hist_ok_grows) (simp_all add: silent_def)
next
  case (close_output i h)
  then show ?case
    by (intro hist_ok_grows [OF _ grows_upd [of "as_Closed_update (\<lambda>_. True)" _ i]]) (simp_all add: same_io_def silent_def)
next
  case (pump_stop i h)
  then show ?case
    by (intro hist_ok_grows [OF _ grows_upd [of "as_Pump_update (\<lambda>_. False)" _ i]]) (simp_all add: same_io_def silent_def)
qed (auto intro!: hist_ok_grows [OF _ grows_objs] simp: silent_def)

lemma hist_ok_run: "hub_run h0 tr h \<Longrightarrow> hb_objs h0 = [] \<Longrightarrow> hist_ok tr h"
proof (induction rule: hub_run.induct)
  case start
  then show ?case by (simp add: hist_ok_def)
qed (simp add: hist_ok_step)

section \<open>References\<close>

definition refs_ok :: "Hub \<Rightarrow> bool" where
  "refs_ok h \<longleftrightarrow> (\<forall>a i. map_of (hb_streams h) a = Some i \<longrightarrow> i < length (hb_objs h)) \<and>
     (\<forall>a fa. map_of (hb_finished h) a = Some fa \<longrightarrow> fa_Buffer fa < length (hb_objs h)) \<and>
     map_ok (hb_streams h) \<and> reg_ok (hb_clients h)"

lemma refs_ok_same: "refs_ok h \<Longrightarrow> hb_streams h' = hb_streams h \<Longrightarrow> hb_finished h' = hb_finished h \<Longrightarrow>
    hb_clients h' = hb_clients h \<Longrightarrow> length (hb_objs h') = length (hb_objs h) \<Longrightarrow> refs_ok h'"
  by (simp add: refs_ok_def)

lemma refs_ok_handle: "refs_ok h \<Longrightarrow> refs_ok (handleMsg spare m h)"
proof (cases m)
  case (MsgRegisterAgent a t)
  moreover assume "refs_ok h"
  ultimately show ?thesis by (auto simp: refs_ok_def doRegisterAgent_def less_Suc_eq split: if_splits)
next
  case (MsgUnregisterAgent a)
  moreover assume "refs_ok h"
  ultimately show ?thesis
    by (auto simp: refs_ok_def doUnregisterAgent_def split: option.split if_splits)
next
  case (MsgSubscribe c)
  moreover assume "refs_ok h"
  ultimately show ?thesis by (simp add: refs_ok_def doSubscribe_def reg.ok_add)
next
  case (MsgUnsubscribe c)
  moreover assume "refs_ok h"
  ultimately show ?thesis by (simp add: refs_ok_def doUnsubscribe_def reg.ok_remove)
next
  case (MsgInjectMessage a d)
  moreover assume "refs_ok h"
  ultimately show ?thesis by (auto intro: refs_ok_same simp: doInjectMessage_def split: option.split)
next
  case (MsgBroadcastEvent t d)
  moreover assume "refs_ok h"
  ultimately show ?thesis by (auto intro: refs_ok_same simp: doBroadcastEvent_def fold_client_send_sel)
qed

lemma fold_done_sel:
  "hb_clients (fold (\<lambda>(a, i). upd_stream i f) xs h) = hb_clients h"
  "hb_conns (fold (\<lambda>(a, i). upd_stream i f) xs h) = hb_conns h"
  "hb_finished (fold (\<lambda>(a, i). upd_stream i f) xs h) = hb_finished h"
  "length (hb_objs (fold (\<lambda>(a, i). upd_stream i f) xs h)) = length (hb_objs h)"
  by (induction xs arbitrary: h) auto

lemma fold_upd_client_sel:
  "hb_clients (fold (\<lambda>c. upd_client c f) cs h) = hb_clients h"
  "hb_streams (fold (\<lambda>c. upd_client c f) cs h) = hb_streams h"
  "hb_finished (fold (\<lambda>c. upd_client c f) cs h) = hb_finished h"
  by (induction cs arbitrary: h) simp_all

lemma fold_clients_sel:
  "hb_clients (fold (\<lambda>k h. fold (\<lambda>c. upd_client c f) (hub_clients h k) h) ks h) = hb_clients h"
  "hb_streams (fold (\<lambda>k h. fold (\<lambda>c. upd_client c f) (hub_clients h k) h) ks h) = hb_streams h"
  "hb_finished (fold (\<lambda>k h. fold (\<lambda>c. upd_client c f) (hub_clients h k) h) ks h) = hb_finished h"
  by (induction ks arbitrary: h) (simp_all add: fold_upd_client_sel)

lemma cleanup_sel:
  "hb_streams (cleanupAll h) = []" "rg_map (hb_clients (cleanupAll h)) = []"
  "rg_heap (hb_clients (cleanupAll h)) = rg_heap (hb_clients h)"
  "hb_finished (cleanupAll h) = hb_finished h" "length (hb_objs (cleanupAll h)) = length (hb_objs h)"
  by (simp_all add: cleanupAll_def Let_def fold_clients_sel fold_done_sel fold_clients_objs)

lemma refs_ok_step: "hub_step h e h' \<Longrightarrow> refs_ok h \<Longrightarrow> refs_ok h'"
proof (induction rule: hub_step.induct)
  case (handle h m ms spare)
  then have "refs_ok (h\<lparr>hb_msgCh := ms\<rparr>)" by (simp add: refs_ok_def)
  then show ?case by (rule refs_ok_handle)
next
  case (stop h)
  then show ?case by (simp add: refs_ok_def cleanup_sel reg_ok_def)
qed (auto elim: refs_ok_same)

lemma refs_ok_run: "hub_run h0 tr h \<Longrightarrow> refs_ok h0 \<Longrightarrow> refs_ok h"
  by (induction rule: hub_run.induct) (simp_all add: refs_ok_step)

lemma refs_ok_New: "refs_ok (NewHub handler conns)"
  by (simp add: refs_ok_def NewHub_def reg_ok_empty)

section \<open>Closing down\<close>

lemma done_fold:
  "j < length (hb_objs h) \<Longrightarrow> as_Done (hb_objs h ! j) \<or> j \<in> snd ` set xs \<Longrightarrow>
   as_Done (hb_objs (fold (\<lambda>(a, i). upd_stream i (as_Done_update (\<lambda>_. True))) xs h) ! j)"
proof (induction xs arbitrary: h)
  case (Cons x xs)
  obtain a i where x: "x = (a, i)" by (cases x)
  show ?case
    unfolding x fold_simps comp_def case_prod_conv
    by (rule Cons.IH) (use Cons.prems in \<open>auto simp: x upd_stream_nth\<close>)
qed simp

lemma client_done_fold:
  "cl_Done (hb_conns h c) \<or> c \<in> set cs \<Longrightarrow>
   cl_Done (hb_conns (fold (\<lambda>c. upd_client c (cl_Done_update (\<lambda>_. True))) cs h) c)"
  by (induction cs arbitrary: h) auto

lemma clients_done_fold:
  "cl_Done (hb_conns h c) \<or> (\<exists>k \<in> set ks. c \<in> set (hub_clients h k)) \<Longrightarrow>
   cl_Done (hb_conns (fold (\<lambda>k h. fold (\<lambda>c. upd_client c (cl_Done_update (\<lambda>_. True))) (hub_clients h k) h) ks h) c)"
proof (induction ks arbitrary: h)
  case (Cons k ks)
  let ?h = "fold (\<lambda>c. upd_client c (cl_Done_update (\<lambda>_. True))) (hub_clients h k) h"
  have "hub_clients ?h = hub_clients h" by (simp add: hub_clients_def fold_upd_client_sel fun_eq_iff)
  moreover have "cl_Done (hb_conns ?h c)" if "cl_Done (hb_conns h c) \<or> c \<in> set (hub_clients h k)"
    using that by (rule client_done_fold)
  ultimately have "cl_Done (hb_conns ?h c) \<or> (\<exists>k \<in> set ks. c \<in> set (hub_clients ?h k))"
    using Cons.prems by auto
  from Cons.IH [OF this] show ?case by simp
qed simp

section \<open>Properties\<close>


text \<open>What a late client gets does not change when the agent ends: unregistering keeps the
  buffer of the agent, and of every other one, readable.\<close>

theorem unregister_keeps_backfill:
  "GetFullBuffer (doUnregisterAgent a h) b = GetFullBuffer h b"
proof (cases "map_of (hb_streams h) a")
  case (Some i)
  have "stream_buffer (upd_stream i (as_Done_update (\<lambda>_. True)) h') j = stream_buffer h' j" for h' j
    by (cases "i < length (hb_objs h')"; cases "j = i") (simp_all add: stream_buffer_def upd_stream_def not_less list_update_beyond)
  moreover have "stream_buffer (h\<lparr>hb_streams := x, hb_finished := y\<rparr>) j = stream_buffer h j" for x y j
    by (simp add: stream_buffer_def)
  ultimately show ?thesis
    using Some by (simp add: GetFullBuffer_def doUnregisterAgent_def split: option.split)
qed (simp add: doUnregisterAgent_def)

lemma client_send_count:
  "cl_Send (hb_conns (fold (client_send d) cs h) c) =
     cl_Send (hb_conns h c) @ replicate (min (count_list cs c) (send_cap - length (cl_Send (hb_conns h c)))) d"
proof (induction cs arbitrary: h)
  case (Cons x cs)
  have "cl_Send (hb_conns (fold (client_send d) (x # cs) h) c) =
      cl_Send (hb_conns (client_send d x h) c) @
      replicate (min (count_list cs c) (send_cap - length (cl_Send (hb_conns (client_send d x h) c)))) d"
    using Cons [of "client_send d x h"] by simp
  also have "\<dots> = cl_Send (hb_conns h c) @
      replicate (min (count_list (x # cs) c) (send_cap - length (cl_Send (hb_conns h c)))) d"
  proof (cases "x = c \<and> length (cl_Send (hb_conns h c)) < send_cap")
    case True
    then obtain k where k: "send_cap - length (cl_Send (hb_conns h c)) = Suc k"
      by (metis Suc_diff_Suc)
    then have "send_cap - Suc (length (cl_Send (hb_conns h c))) = k" by simp
    with True k show ?thesis by (simp add: client_send_def)
  next
    case False
    then show ?thesis by (auto simp: client_send_def)
  qed
  finally show ?case .
qed simp

lemma count_filter: "count_list (filter P xs) x = (if P x then count_list xs x else 0)"
  by (induction xs) auto

lemma upd_same [simp]:
  "wants (upd_stream i f h) = wants h" "hub_clients (upd_stream i f h) = hub_clients h"
  by (simp_all add: wants_def hub_clients_def fun_eq_iff)

lemma pump_chunk_as:
  assumes "i < length (hb_objs h)"
  shows "as_AgentID (hb_objs (upd_stream i (as_Buffer_update f) h) ! i) = as_AgentID (hb_objs h ! i)"
    "as_TaskID (hb_objs (upd_stream i (as_Buffer_update f) h) ! i) = as_TaskID (hb_objs h ! i)"
  using assms by (simp_all add: upd_stream_nth)

lemma pump_chunk_clients:
  assumes "i < length (hb_objs h)"
  shows "cl_Send (hb_conns (pump_chunk i data h) c) =
     cl_Send (hb_conns h c) @
     replicate (min (if wants h (as_AgentID (hb_objs h ! i)) c
                     then count_list (hub_clients h (as_TaskID (hb_objs h ! i))) c else 0)
                  (send_cap - length (cl_Send (hb_conns h c)))) data"
proof -
  have lim: "hub_clients (h'\<lparr>hb_limits := l\<rparr>) = hub_clients h'" "wants (h'\<lparr>hb_limits := l\<rparr>) = wants h'" for h' l
    by (simp_all add: hub_clients_def wants_def fun_eq_iff)
  show ?thesis
    using assms by (simp add: pump_chunk_def Let_def fan_out_filter client_send_count count_filter pump_chunk_as lim)
qed

text \<open>An agent writes once, and its stream is unregistered before the pump takes the chunk.\<close>

definition lost_trace :: "hub_ev list" where
  "lost_trace = [EvSend (MsgRegisterAgent ''a'' ''t''), EvHandle (MsgRegisterAgent ''a'' ''t''),
     EvOutput 0 ''x'', EvSend (MsgUnregisterAgent ''a''), EvHandle (MsgUnregisterAgent ''a''), EvPumpStop 0]"

definition lost_hub :: Hub where
  "lost_hub = \<lparr>hb_streams = [], hb_finished = [(''a'', \<lparr>fa_TaskID = ''t'', fa_Buffer = 0\<rparr>)], hb_clients = reg_empty,
      hb_objs = [(NewAgentStream ''a'' ''t'')\<lparr>as_OutputCh := [''x''], as_Done := True\<rparr>],
      hb_conns = (\<lambda>_. NewClient ''t'' []), hb_handler = False, hb_limits = [], hb_msgCh = [],
      hb_shutdown = False, hb_done = False\<rparr>"

lemma hub_run_via:
  assumes "hub_run h0 tr h" "hub_step h e h1" "h1 = h'"
  shows "hub_run h0 (tr @ [e]) h'"
  using hub_run.run assms by simp

lemma lost_run: "hub_run (NewHub False (\<lambda>_. NewClient ''t'' [])) lost_trace lost_hub"
proof -
  let ?c = "\<lambda>_. NewClient ''t'' []" and ?f = "\<lparr>fa_TaskID = ''t'', fa_Buffer = 0\<rparr>"
  let ?h = "\<lambda>ss fs os ms. \<lparr>hb_streams = ss, hb_finished = fs, hb_clients = reg_empty, hb_objs = os, hb_conns = ?c,
      hb_handler = False, hb_limits = [], hb_msgCh = ms, hb_shutdown = False, hb_done = False\<rparr> :: Hub"
  let ?s = "(NewAgentStream ''a'' ''t'')\<lparr>as_Pump := True\<rparr>"
  let ?R = "MsgRegisterAgent ''a'' ''t''" and ?U = "MsgUnregisterAgent ''a''"
  note sel = NewHub_def msg_cap_def output_cap_def doRegisterAgent_def doUnregisterAgent_def upd_stream_def
    NewAgentStream_def mput_def mdel_def lost_hub_def
  have "hub_run (NewHub False ?c) [] (?h [] [] [] [])" by (simp add: NewHub_def hub_run.start)
  then have "hub_run (NewHub False ?c) ([] @ [EvSend ?R]) (?h [] [] [] [?R])"
    by (rule hub_run_via [OF _ hub_step.send]) (simp_all add: sel)
  then have "hub_run (NewHub False ?c) (([] @ [EvSend ?R]) @ [EvHandle ?R]) (?h [(''a'', 0)] [] [?s] [])"
    by (rule hub_run_via [OF _ hub_step.handle [where spare = 0]]) (simp_all add: sel)
  then have "hub_run (NewHub False ?c) ((([] @ [EvSend ?R]) @ [EvHandle ?R]) @ [EvOutput 0 ''x''])
      (?h [(''a'', 0)] [] [?s\<lparr>as_OutputCh := [''x'']\<rparr>] [])"
    by (rule hub_run_via [OF _ hub_step.container]) (simp_all add: sel)
  then have "hub_run (NewHub False ?c) (((([] @ [EvSend ?R]) @ [EvHandle ?R]) @ [EvOutput 0 ''x'']) @ [EvSend ?U])
      (?h [(''a'', 0)] [] [?s\<lparr>as_OutputCh := [''x'']\<rparr>] [?U])"
    by (rule hub_run_via [OF _ hub_step.send]) (simp_all add: sel)
  then have "hub_run (NewHub False ?c) ((((([] @ [EvSend ?R]) @ [EvHandle ?R]) @ [EvOutput 0 ''x'']) @ [EvSend ?U]) @ [EvHandle ?U])
      (?h [] [(''a'', ?f)] [?s\<lparr>as_OutputCh := [''x''], as_Done := True\<rparr>] [])"
    by (rule hub_run_via [OF _ hub_step.handle [where spare = 0]]) (simp_all add: sel)
  then have "hub_run (NewHub False ?c) (((((([] @ [EvSend ?R]) @ [EvHandle ?R]) @ [EvOutput 0 ''x'']) @ [EvSend ?U]) @ [EvHandle ?U]) @ [EvPumpStop 0])
      lost_hub"
    by (rule hub_run_via [OF _ hub_step.pump_stop]) (simp_all add: sel)
  then show ?thesis by (simp add: lost_trace_def)
qed



text \<open>C18: Closing down reaches everybody: after \<open>cleanupAll\<close> in any state the hub can reach, every
  stream that was registered and every client that was subscribed has its \<open>Done\<close> channel closed,
  and nobody is registered or subscribed any more.\<close>

theorem cleanup_closes_all:
  assumes "hub_run (NewHub handler conns) tr h"
  shows "list_all (\<lambda>(a, i). as_Done (hb_objs (cleanupAll h) ! i)) (hb_streams h) \<and>
     (c \<in> set (hub_clients h k) \<longrightarrow> cl_Done (hb_conns (cleanupAll h) c)) \<and>
     hb_streams (cleanupAll h) = [] \<and> hub_clients (cleanupAll h) k = []"
proof -
  have ok: "refs_ok h" using refs_ok_run [OF assms refs_ok_New] .
  let ?h1 = "fold (\<lambda>(a, i). upd_stream i (as_Done_update (\<lambda>_. True))) (hb_streams h) h"
  have "as_Done (hb_objs (cleanupAll h) ! i)" if ai: "(a, i) \<in> set (hb_streams h)" for a i
  proof -
    have "map_of (hb_streams h) a = Some i" using ok ai by (simp add: refs_ok_def map_ok_def mkeys_def)
    then have "i < length (hb_objs h)" using ok by (simp add: refs_ok_def)
    moreover have "i \<in> snd ` set (hb_streams h)" using ai by force
    ultimately have "as_Done (hb_objs ?h1 ! i)" by (intro done_fold) auto
    then show ?thesis by (simp add: cleanupAll_def Let_def fold_clients_objs)
  qed
  moreover have "cl_Done (hb_conns (cleanupAll h) c)" if c: "c \<in> set (hub_clients h k)"
  proof -
    let ?h2 = "?h1\<lparr>hb_streams := []\<rparr>"
    have cl: "hb_clients ?h2 = hb_clients h" by (simp add: fold_done_sel)
    have "k \<in> set (mkeys (rg_map (hb_clients h)))"
      using c reg_get_None [of "hb_clients h" k] ok
      by (cases "map_of (rg_map (hb_clients h)) k") (auto simp: hub_clients_def refs_ok_def set_mkeys)
    moreover have "hub_clients ?h2 = hub_clients h" by (simp add: hub_clients_def cl fun_eq_iff)
    ultimately show ?thesis
      using c clients_done_fold [where h = ?h2 and ks = "mkeys (rg_map (hb_clients ?h2))"]
      by (auto simp: cleanupAll_def Let_def fold_done_sel)
  qed
  moreover have "hub_clients (cleanupAll h) k = []"
    using ok by (simp add: hub_clients_def reg_get_def reg_slice_def slice_get_def nil_slice_def cleanup_sel)
  ultimately show ?thesis by (auto simp: list_all_iff cleanup_sel)
qed

theorem cleanup_closes_all_witness:
  "hub_run (NewHub False (\<lambda>_. NewClient ''t'' [])) lost_trace lost_hub \<and>
   hb_streams (cleanupAll lost_hub) = [] \<and> hub_clients (cleanupAll lost_hub) ''t'' = []"
  using lost_run cleanup_closes_all [OF lost_run, of _ "''t''"] by simp

text \<open>The end of an agent's output can be lost: there is a run in which the container wrote a
  chunk that the pump never takes, because unregistering closed \<open>Done\<close> first; no buffer and no
  client ever has it.\<close>

theorem unregister_loses_output:
  "hub_run (NewHub False (\<lambda>_. NewClient ''t'' [])) lost_trace lost_hub \<and>
   produced 0 lost_trace = [''x''] \<and> pumped 0 lost_trace = [] \<and>
   \<not> as_Pump (hb_objs lost_hub ! 0) \<and> GetFullBuffer lost_hub ''a'' = []"
  using lost_run
  by (simp add: lost_trace_def produced_def pumped_def lost_hub_def NewAgentStream_def GetFullBuffer_def
      stream_buffer_def rb_ReadAll_def NewRingBuffer_def Let_def)


end
