(* ===== verification/Rate_Limit.thy ===== *)
theory Rate_Limit
  imports Plan_Output Stream_Hub
begin

text \<open>
  Rate limit detection, \<open>internal/ratelimit/detector.go\<close>, and how the hub feeds it
  (\<open>SetRateLimitHandler\<close> in \<open>cmd/klaudio/main.go\<close>). The lock makes each operation atomic;
  the two readings of the clock an event handler makes are arguments.
\<close>

section \<open>State\<close>

record rl_state =
  rs_AgentID :: string
  rs_TaskID :: string
  rs_IsLimited :: bool
  rs_RetryIn :: int
  rs_Attempt :: int
  rs_MaxRetries :: int
  rs_Message :: string
  rs_ResetAt :: time
  rs_DetectedAt :: time

record Tracker =
  tk_states :: "(string, rl_state) gomap"

definition NewTracker :: Tracker where
  "NewTracker = \<lparr>tk_states = []\<rparr>"

text \<open>Go's zero time, 1 January of the year 1.\<close>

definition zero_time :: time where
  "zero_time = - 62135596800 * 10 ^ 9"

record streamEvent =
  se_Type :: string
  se_Subtype :: string
  se_Data :: "json option"

record rateLimitData =
  rd_RetryIn :: int
  rd_Attempt :: int
  rd_MaxRetries :: int
  rd_Message :: string

text \<open>\<open>json.RawMessage\<close> takes any value as it is.\<close>

definition dec_raw :: "json option decoder" where
  "dec_raw v x = Some (Some v)"

definition zero_event :: streamEvent where
  "zero_event = \<lparr>se_Type = [], se_Subtype = [], se_Data = None\<rparr>"

definition event_fields :: "streamEvent fields" where
  "event_fields = [field ''type'' dec_string se_Type se_Type_update,
     field ''subtype'' dec_string se_Subtype se_Subtype_update,
     field ''data'' dec_raw se_Data se_Data_update]"

definition zero_limit_data :: rateLimitData where
  "zero_limit_data = \<lparr>rd_RetryIn = 0, rd_Attempt = 0, rd_MaxRetries = 0, rd_Message = []\<rparr>"

definition limit_data_fields :: "rateLimitData fields" where
  "limit_data_fields = [field ''retry_in_seconds'' dec_int rd_RetryIn rd_RetryIn_update,
     field ''attempt'' dec_int rd_Attempt rd_Attempt_update,
     field ''max_retries'' dec_int rd_MaxRetries rd_MaxRetries_update,
     field ''message'' dec_string rd_Message rd_Message_update]"

text \<open>Where the code drops the error of \<open>json.Unmarshal\<close>, the members of the right type are still
  stored.\<close>

fun dec_members_part :: "'r fields \<Rightarrow> (string \<times> json) list \<Rightarrow> 'r \<Rightarrow> 'r" where
  "dec_members_part fs [] r = r"
| "dec_members_part fs ((k, v) # ms) r =
     (case lookup_field fs k of None \<Rightarrow> dec_members_part fs ms r
      | Some d \<Rightarrow> dec_members_part fs ms (case d v r of None \<Rightarrow> r | Some r' \<Rightarrow> r'))"

definition dec_struct_part :: "'r fields \<Rightarrow> json option \<Rightarrow> 'r \<Rightarrow> 'r" where
  "dec_struct_part fs v r = (case v of Some (JObj ms) \<Rightarrow> dec_members_part fs ms r | _ \<Rightarrow> r)"

section \<open>Operations\<close>

definition put_state :: "rl_state \<Rightarrow> Tracker \<Rightarrow> Tracker" where
  "put_state st t = t\<lparr>tk_states := mput (rs_AgentID st) st (tk_states t)\<rparr>"

text \<open>\<open>int64\<close> arithmetic wraps: \<open>time.Duration(n) * time.Second\<close>.\<close>

definition wrap64 :: "int \<Rightarrow> int" where
  "wrap64 n = (n + 2 ^ 63) mod 2 ^ 64 - 2 ^ 63"

definition handleRateLimitEvent :: "string \<Rightarrow> string \<Rightarrow> time \<Rightarrow> time \<Rightarrow> json option \<Rightarrow> Tracker \<Rightarrow> rl_state \<times> Tracker" where
  "handleRateLimitEvent agentID taskID now1 now2 data t =
     (let d = (case (case data of None \<Rightarrow> None | Some v \<Rightarrow> dec_struct limit_data_fields v zero_limit_data) of
                 None \<Rightarrow> \<lparr>rd_RetryIn = 30, rd_Attempt = 1, rd_MaxRetries = 10, rd_Message = ''Rate limited''\<rparr>
               | Some d \<Rightarrow> d);
          state = \<lparr>rs_AgentID = agentID, rs_TaskID = taskID, rs_IsLimited = True, rs_RetryIn = rd_RetryIn d,
            rs_Attempt = rd_Attempt d, rs_MaxRetries = rd_MaxRetries d, rs_Message = rd_Message d,
            rs_ResetAt = now1 + wrap64 (rd_RetryIn d * 10 ^ 9), rs_DetectedAt = now2\<rparr>
      in (state, put_state state t))"

definition plain_state :: "bool \<Rightarrow> string \<Rightarrow> string \<Rightarrow> time \<Rightarrow> json option \<Rightarrow> rl_state" where
  "plain_state limited agentID taskID now data =
     (let d = dec_struct_part limit_data_fields data zero_limit_data in
      \<lparr>rs_AgentID = agentID, rs_TaskID = taskID, rs_IsLimited = limited, rs_RetryIn = 0,
       rs_Attempt = rd_Attempt d, rs_MaxRetries = rd_MaxRetries d, rs_Message = rd_Message d,
       rs_ResetAt = zero_time, rs_DetectedAt = now\<rparr>)"

definition handleRetryEvent :: "string \<Rightarrow> string \<Rightarrow> time \<Rightarrow> json option \<Rightarrow> Tracker \<Rightarrow> rl_state \<times> Tracker" where
  "handleRetryEvent agentID taskID now data t =
     (let state = plain_state False agentID taskID now data in (state, put_state state t))"

definition handleExhaustedEvent :: "string \<Rightarrow> string \<Rightarrow> time \<Rightarrow> json option \<Rightarrow> Tracker \<Rightarrow> rl_state \<times> Tracker" where
  "handleExhaustedEvent agentID taskID now data t =
     (let state = plain_state True agentID taskID now data in (state, put_state state t))"

definition handleGenericRateLimit :: "string \<Rightarrow> string \<Rightarrow> time \<Rightarrow> time \<Rightarrow> Tracker \<Rightarrow> rl_state \<times> Tracker" where
  "handleGenericRateLimit agentID taskID now1 now2 t =
     (let state = \<lparr>rs_AgentID = agentID, rs_TaskID = taskID, rs_IsLimited = True, rs_RetryIn = 30,
        rs_Attempt = 1, rs_MaxRetries = 10, rs_Message = ''Rate limited by API'',
        rs_ResetAt = now1 + 30 * 10 ^ 9, rs_DetectedAt = now2\<rparr>
      in (state, put_state state t))"

definition isRateLimitError :: "string \<Rightarrow> bool" where
  "isRateLimitError line =
     (let lower = lower_ascii line in
      Contains lower ''rate_limit'' \<or> Contains lower ''rate limit'' \<or> Contains lower ''overloaded'' \<or>
      Contains lower ''too many requests'' \<or> Contains lower ''429'' \<or> Contains lower ''resourceexhausted'')"

fun detect_lines :: "string \<Rightarrow> string \<Rightarrow> time \<Rightarrow> time \<Rightarrow> string list \<Rightarrow> Tracker \<Rightarrow> rl_state option \<times> Tracker" where
  "detect_lines agentID taskID now1 now2 [] t = (None, t)"
| "detect_lines agentID taskID now1 now2 (l # ls) t =
     (let line = TrimSpace l; next = detect_lines agentID taskID now1 now2 ls t in
      if line = [] \<or> hd line \<noteq> CHR 0x7B then next
      else case unmarshal (dec_struct event_fields) zero_event line of
        None \<Rightarrow> next
      | Some evt \<Rightarrow>
          if se_Type evt = ''system'' \<and> se_Subtype evt = ''rate_limit''
          then apfst Some (handleRateLimitEvent agentID taskID now1 now2 (se_Data evt) t)
          else if se_Type evt = ''system'' \<and> se_Subtype evt = ''rate_limit_retry''
          then apfst Some (handleRetryEvent agentID taskID now1 (se_Data evt) t)
          else if se_Type evt = ''system'' \<and> se_Subtype evt = ''rate_limit_exhausted''
          then apfst Some (handleExhaustedEvent agentID taskID now1 (se_Data evt) t)
          else if se_Type evt = ''error'' \<and> isRateLimitError line
          then apfst Some (handleGenericRateLimit agentID taskID now1 now2 t)
          else next)"

definition DetectFromOutput :: "string \<Rightarrow> string \<Rightarrow> time \<Rightarrow> time \<Rightarrow> bytes \<Rightarrow> Tracker \<Rightarrow> rl_state option \<times> Tracker" where
  "DetectFromOutput agentID taskID now1 now2 data t =
     detect_lines agentID taskID now1 now2 (Split (CHR 0x0A) data) t"

definition ClearAgent :: "string \<Rightarrow> Tracker \<Rightarrow> Tracker" where
  "ClearAgent agentID t = t\<lparr>tk_states := mdel agentID (tk_states t)\<rparr>"

definition GetAgentState :: "Tracker \<Rightarrow> string \<Rightarrow> rl_state option" where
  "GetAgentState t agentID = map_of (tk_states t) agentID"

definition GetTaskStates :: "Tracker \<Rightarrow> string list \<Rightarrow> string \<Rightarrow> rl_state list" where
  "GetTaskStates t order taskID =
     filter (\<lambda>s. rs_TaskID s = taskID) (map (\<lambda>a. the (map_of (tk_states t) a)) order)"

section \<open>Lemmas\<close>

lemma wrap64_id: "- (2 ^ 63) \<le> n \<Longrightarrow> n < 2 ^ 63 \<Longrightarrow> wrap64 n = n"
  by (simp add: wrap64_def)

lemmas handlers = handleRateLimitEvent_def handleRetryEvent_def handleExhaustedEvent_def
  handleGenericRateLimit_def plain_state_def put_state_def

lemma detect_lines_state:
  "case detect_lines agentID taskID now1 now2 ls t of
     (None, t') \<Rightarrow> t' = t
   | (Some s, t') \<Rightarrow> rs_AgentID s = agentID \<and> rs_TaskID s = taskID \<and> tk_states t' = mput agentID s (tk_states t)"
proof (induction ls)
  case (Cons l ls)
  then show ?case
    by (simp add: Let_def handlers split: option.split prod.split)
qed simp

lemma unmarshal_object:
  "unmarshal (dec_struct fs) zero s = (case parse_json s of None \<Rightarrow> None | Some v \<Rightarrow> dec_struct fs v zero)"
  by (simp add: unmarshal_def)

section \<open>Properties\<close>

definition overloaded_event :: json where
  "overloaded_event = JObj [(''type'', JStr ''error''), (''error'', JStr ''overloaded'')]"

text \<open>C19: Scanning a chunk changes the tracker exactly when it reports a state: then that state,
  which names the agent and the task, becomes the state of the agent, and no other agent's state
  changes.\<close>

theorem DetectFromOutput_records:
  "case DetectFromOutput agentID taskID now1 now2 data t of
     (None, t') \<Rightarrow> t' = t
   | (Some s, t') \<Rightarrow> rs_AgentID s = agentID \<and> rs_TaskID s = taskID \<and>
       GetAgentState t' = (GetAgentState t)(agentID \<mapsto> s)"
  using detect_lines_state [where agentID = agentID and taskID = taskID and ?now1.0 = now1 and ?now2.0 = now2 and ls = "Split (CHR 0x0A) data" and t = t]
  by (auto simp: DetectFromOutput_def GetAgentState_def fun_eq_iff split: option.splits prod.splits)

text \<open>C20: The reset time of a rate limit is the time of detection plus the announced seconds as long
  as these are at most 9223372036, about 292 years; one second more and the 64-bit product wraps,
  and the reset time lies before the detection.\<close>

theorem rate_limit_reset:
  assumes "0 \<le> n" "n \<le> 9223372036"
  shows "rs_ResetAt (fst (handleRateLimitEvent a task now1 now2
      (Some (JObj [(''retry_in_seconds'', enc_int n)])) t)) = now1 + n * 10 ^ 9 \<and>
    rs_ResetAt (fst (handleRateLimitEvent a task now1 now2
      (Some (JObj [(''retry_in_seconds'', enc_int 9223372037)])) t)) < now1"
proof -
  have "dec_struct limit_data_fields (JObj [(''retry_in_seconds'', enc_int k)]) zero_limit_data =
      Some (zero_limit_data\<lparr>rd_RetryIn := k\<rparr>)" if "int64 k" for k
    using that by (simp add: dec_struct_def lookup_field_def limit_data_fields_def field_def dec_int_def enc_int_def
        parse_int64_itoa int64_def)
  from this [of n] this [of 9223372037] assms show ?thesis
    by (simp add: handleRateLimitEvent_def wrap64_id int64_def Let_def) (simp add: wrap64_def)
qed

theorem rate_limit_reset_witness:
  "rs_ResetAt (fst (handleRateLimitEvent ''a'' ''t'' 5 6 (Some (JObj [(''retry_in_seconds'', enc_int 2)])) NewTracker))
     = 2000000005"
  using rate_limit_reset [of 2 "''a''" "''t''" 5 6 NewTracker] by simp

text \<open>The hub passes a chunk on only when it contains \<open>rate_limit\<close>. An error event that reports
  an overloaded API is one the detector would recognise and record, but the pump never shows it to
  the detector.\<close>

theorem overload_not_reported:
  "fst (DetectFromOutput a task now1 now2 (print_json overloaded_event) t) =
     Some (fst (handleGenericRateLimit a task now1 now2 t)) \<and>
   hb_limits (pump_chunk i (print_json overloaded_event) h) = hb_limits h"
proof -
  let ?s = "print_json overloaded_event"
  have lim: "hb_limits (fold (client_send d) cs h') = hb_limits h'" for d cs h'
    by (induction cs arbitrary: h') (simp_all add: client_send_def upd_client_def)
  have "\<not> Contains ?s ''rate_limit''" by code_simp
  then have "hb_limits (pump_chunk i ?s h) = hb_limits h"
    by (simp add: pump_chunk_def fan_out_filter lim Let_def) (simp add: upd_stream_def)
  moreover have p: "parse_json ?s = Some (valid_json overloaded_event)"
    by (rule parse_print_json) (simp_all add: overloaded_event_def json_max_depth_def)
  have "\<exists>x. ?s = CHR 0x7B # x @ [CHR 0x7D]" by (simp add: overloaded_event_def)
  then have "TrimSpace ?s = ?s" "?s \<noteq> []" "hd ?s = CHR 0x7B" by (auto simp: TrimSpace_braces)
  moreover have "list_all (\<lambda>c. c \<noteq> CHR 0x0A) ?s" "isRateLimitError ?s" by code_simp+
  moreover from this have "Split (CHR 0x0A) ?s = [?s]" by (intro Split_none) (auto simp: list_all_iff)
  ultimately show ?thesis
    using p by (simp add: DetectFromOutput_def unmarshal_object overloaded_event_def dec_struct_def lookup_field_def
        event_fields_def field_def dec_string_def zero_event_def to_valid_ascii Let_def)
qed

end
