(* ===== verification/Go_Path.thy ===== *)
theory Go_Path
  imports Go_Strings
begin

text \<open>
  What the code uses of \<open>path/filepath\<close> on Unix: \<open>Clean\<close>, \<open>Join\<close>, \<open>Base\<close> and \<open>Ext\<close>, with
  the lemmas that a cleaned path has no empty, dot or inner dot-dot elements.
\<close>

section \<open>Clean\<close>

definition slash :: char where
  "slash = CHR ''/''"

text \<open>The elements kept so far, last one first. A \<open>..\<close> removes the last element, or stays when there
  is none to remove and the path is relative.\<close>

fun clean_elems :: "bool \<Rightarrow> string list \<Rightarrow> string list \<Rightarrow> string list" where
  "clean_elems rooted stack [] = rev stack"
| "clean_elems rooted stack (e # es) =
     (if e = [] \<or> e = ''.'' then clean_elems rooted stack es
      else if e = ''..'' then
        (case stack of [] \<Rightarrow> clean_elems rooted (if rooted then [] else [''..'']) es
         | t # ts \<Rightarrow> if t = ''..'' then clean_elems rooted (''..'' # stack) es else clean_elems rooted ts es)
      else clean_elems rooted (e # stack) es)"

definition is_rooted :: "string \<Rightarrow> bool" where
  "is_rooted path = HasPrefix path [slash]"

definition Clean :: "string \<Rightarrow> string" where
  "Clean path =
     (let es = clean_elems (is_rooted path) [] (Split slash path) in
      if is_rooted path then slash # Join es [slash]
      else if es = [] then ''.'' else Join es [slash])"

definition path_Join :: "string list \<Rightarrow> string" where
  "path_Join elems =
     (case filter (\<lambda>e. e \<noteq> []) elems of [] \<Rightarrow> [] | es \<Rightarrow> Clean (Join es [slash]))"

section \<open>Base and Ext\<close>

definition strip_slashes :: "string \<Rightarrow> string" where
  "strip_slashes path = rev (dropWhile (\<lambda>c. c = slash) (rev path))"

definition Base :: "string \<Rightarrow> string" where
  "Base path =
     (if path = [] then ''.''
      else let p = last (Split slash (strip_slashes path)) in if p = [] then [slash] else p)"

text \<open>All but the last element.\<close>

definition path_Dir :: "string \<Rightarrow> string" where
  "path_Dir path = Clean (rev (dropWhile (\<lambda>c. c \<noteq> slash) (rev path)))"

text \<open>From the last dot of the last element on.\<close>

definition Ext :: "string \<Rightarrow> string" where
  "Ext path =
     (let e = last (Split slash path); (t, r) = (takeWhile (\<lambda>c. c \<noteq> CHR ''.'') (rev e), dropWhile (\<lambda>c. c \<noteq> CHR ''.'') (rev e))
      in if r = [] then [] else CHR ''.'' # rev t)"

section \<open>Lemmas\<close>

text \<open>Proper elements: what a cleaned path consists of, after leading \<open>..\<close> of a relative one.\<close>

definition proper_elem :: "string \<Rightarrow> bool" where
  "proper_elem e \<longleftrightarrow> e \<notin> {[], ''.'', ''..''} \<and> slash \<notin> set e"

lemma Split_no_sep: "p \<in> set (Split c s) \<Longrightarrow> c \<notin> set p"
  by (induction s arbitrary: p) (auto split: list.splits if_splits)

lemma Split_sep: "c \<notin> set p \<Longrightarrow> Split c (p @ c # s) = p # Split c s"
  by (induction p) auto

lemma Split_Join: "xs \<noteq> [] \<Longrightarrow> (\<And>x. x \<in> set xs \<Longrightarrow> c \<notin> set x) \<Longrightarrow> Split c (Join xs [c]) = xs"
  by (induction xs "[c]" rule: Join.induct) (simp_all add: Split_none Split_sep)

text \<open>In a rooted path no \<open>..\<close> survives; in a relative one they are all in front.\<close>

lemma clean_rooted:
  "list_all proper_elem stack \<Longrightarrow> (\<And>e. e \<in> set es \<Longrightarrow> slash \<notin> set e) \<Longrightarrow>
   list_all proper_elem (clean_elems True stack es)"
proof (induction "True" stack es rule: clean_elems.induct)
  case (2 stack e es)
  then show ?case by (cases stack) (auto simp: proper_elem_def)
qed (simp add: list_all_iff)

lemma clean_proper:
  "list_all proper_elem es \<Longrightarrow> clean_elems rooted stack es = rev stack @ es"
  by (induction es arbitrary: stack) (auto simp: proper_elem_def)

lemma Clean_rooted_elems:
  assumes "is_rooted path"
  obtains es where "list_all proper_elem es" "Clean path = slash # Join es [slash]"
proof -
  have "list_all proper_elem (clean_elems True [] (Split slash path))"
    by (rule clean_rooted) (auto dest: Split_no_sep)
  with assms show ?thesis by (intro that [of "clean_elems True [] (Split slash path)"]) (simp_all add: Clean_def Let_def)
qed

lemma Join_no_slash: "Join (x # xs) sep = (if xs = [] then x else x @ sep @ Join xs sep)"
  by (cases xs) simp_all

text \<open>Cleaning a rooted path twice changes nothing.\<close>

lemma Clean_idem: "is_rooted path \<Longrightarrow> Clean (Clean path) = Clean path"
proof -
  assume "is_rooted path"
  then obtain es where es: "list_all proper_elem es" "Clean path = slash # Join es [slash]"
    by (rule Clean_rooted_elems)
  have "Split slash (slash # Join es [slash]) = [] # (if es = [] then [[]] else es)"
    using es(1) by (auto simp: list_all_iff proper_elem_def intro!: Split_Join)
  then have "clean_elems True [] (Split slash (slash # Join es [slash])) = es"
    using clean_proper [OF es(1), of True "[]"] by auto
  then show ?thesis by (simp add: es(2) Clean_def [of "slash # Join es [slash]"] is_rooted_def Let_def)
qed

end
