(* ===== verification/Go_Fs.thy ===== *)
theory Go_Fs
  imports Go_Path "HOL-Library.Char_ord" "HOL-Library.List_Lexorder"
begin

text \<open>
  The file system the code works on: a map from paths to directories and files, and the calls of
  \<open>os\<close> and \<open>path/filepath\<close> the code makes, as functions on it. A path is whether it is rooted
  and its cleaned elements, so two spellings of one path are one key. The root and the working
  directory always exist. Symbolic links and permissions are not modelled.
\<close>

section \<open>Paths and nodes\<close>

type_synonym path = "bool \<times> string list"

definition path_of :: "string \<Rightarrow> path" where
  "path_of p = (is_rooted p, clean_elems (is_rooted p) [] (Split slash p))"

datatype fnode = Dir | File bytes

type_synonym fs = "(path, fnode) gomap"

datatype os_error = NotExist | OsError string

fun os_msg :: "os_error \<Rightarrow> string" where
  "os_msg NotExist = ''no such file or directory''"
| "os_msg (OsError e) = e"

definition fs_node :: "fs \<Rightarrow> path \<Rightarrow> fnode option" where
  "fs_node fs p = (if snd p = [] then Some Dir else map_of fs p)"

definition parent :: "path \<Rightarrow> path" where
  "parent p = (fst p, butlast (snd p))"

text \<open>\<open>under p q\<close>: \<open>q\<close> is \<open>p\<close> or lies below it.\<close>

definition under :: "path \<Rightarrow> path \<Rightarrow> bool" where
  "under p q \<longleftrightarrow> fst p = fst q \<and> take (length (snd p)) (snd q) = snd p"

definition sub_path :: "path \<Rightarrow> string list \<Rightarrow> path" where
  "sub_path p es = (fst p, snd p @ es)"

text \<open>The elements of \<open>q\<close> relative to \<open>p\<close>.\<close>

definition rel_to :: "path \<Rightarrow> path \<Rightarrow> string list" where
  "rel_to p q = drop (length (snd p)) (snd q)"

section \<open>Calls\<close>

definition fs_Stat :: "path \<Rightarrow> fs \<Rightarrow> os_error + fnode" where
  "fs_Stat p fs = (case fs_node fs p of None \<Rightarrow> Inl NotExist | Some n \<Rightarrow> Inr n)"

text \<open>\<open>MkdirAll\<close>: the missing directories from the top down; a file on the way is an error.\<close>

fun mkdir_elems :: "bool \<Rightarrow> string list \<Rightarrow> string list \<Rightarrow> fs \<Rightarrow> os_error + fs" where
  "mkdir_elems b seen [] fs = Inr fs"
| "mkdir_elems b seen (e # es) fs =
     (case fs_node fs (b, seen @ [e]) of
        Some (File _) \<Rightarrow> Inl (OsError ''not a directory'')
      | Some Dir \<Rightarrow> mkdir_elems b (seen @ [e]) es fs
      | None \<Rightarrow> mkdir_elems b (seen @ [e]) es (mput (b, seen @ [e]) Dir fs))"

definition fs_MkdirAll :: "path \<Rightarrow> fs \<Rightarrow> os_error + fs" where
  "fs_MkdirAll p fs = mkdir_elems (fst p) [] (snd p) fs"

definition fs_ReadFile :: "path \<Rightarrow> fs \<Rightarrow> os_error + bytes" where
  "fs_ReadFile p fs = (case fs_node fs p of None \<Rightarrow> Inl NotExist
     | Some Dir \<Rightarrow> Inl (OsError ''is a directory'') | Some (File c) \<Rightarrow> Inr c)"

definition fs_WriteFile :: "path \<Rightarrow> bytes \<Rightarrow> fs \<Rightarrow> os_error + fs" where
  "fs_WriteFile p c fs =
     (case fs_node fs p of Some Dir \<Rightarrow> Inl (OsError ''is a directory'')
      | _ \<Rightarrow> (case fs_node fs (parent p) of
          None \<Rightarrow> Inl NotExist | Some (File _) \<Rightarrow> Inl (OsError ''not a directory'')
        | Some Dir \<Rightarrow> Inr (mput p (File c) fs)))"

text \<open>\<open>ReadDir\<close>: the entries in the order of their names, each with whether it is a directory.\<close>

definition children :: "path \<Rightarrow> fs \<Rightarrow> (string \<times> fnode) list" where
  "children p fs = map (\<lambda>(q, n). (last (snd q), n)) (filter (\<lambda>(q, n). snd q \<noteq> [] \<and> parent q = p) fs)"

definition fs_ReadDir :: "path \<Rightarrow> fs \<Rightarrow> os_error + (string \<times> bool) list" where
  "fs_ReadDir p fs =
     (case fs_node fs p of None \<Rightarrow> Inl NotExist | Some (File _) \<Rightarrow> Inl (OsError ''not a directory'')
      | Some Dir \<Rightarrow> Inr (map (\<lambda>(e, n). (e, n = Dir)) (sort_key fst (children p fs))))"

definition fs_RemoveAll :: "path \<Rightarrow> fs \<Rightarrow> fs" where
  "fs_RemoveAll p fs = filter (\<lambda>(q, n). \<not> under p q) fs"

definition fs_Remove :: "path \<Rightarrow> fs \<Rightarrow> os_error + fs" where
  "fs_Remove p fs =
     (case fs_node fs p of None \<Rightarrow> Inl NotExist
      | Some _ \<Rightarrow> if snd p = [] then Inl (OsError ''device or resource busy'')
          else if children p fs \<noteq> [] then Inl (OsError ''directory not empty'') else Inr (mdel p fs))"

text \<open>\<open>Rename\<close> onto a path that does not exist yet.\<close>

definition fs_Rename :: "path \<Rightarrow> path \<Rightarrow> fs \<Rightarrow> os_error + fs" where
  "fs_Rename p q fs =
     (if fs_node fs p = None \<or> fs_node fs (parent q) \<noteq> Some Dir then Inl NotExist
      else if fs_node fs q \<noteq> None then Inl (OsError ''file exists'')
      else if under p q then Inl (OsError ''invalid argument'')
      else Inr (map (\<lambda>(r, n). if under p r then (sub_path q (rel_to p r), n) else (r, n)) fs))"

text \<open>\<open>filepath.Walk\<close> visits a directory before its entries and these by name: the order of the
  element lists. The tree is read before the visits change anything.\<close>

definition walk_paths :: "path \<Rightarrow> fs \<Rightarrow> path list" where
  "walk_paths p fs = map (sub_path p) (sort (map (\<lambda>(q, n). rel_to p q) (filter (\<lambda>(q, n). under p q) fs)))"

text \<open>The copy loop of \<open>copyDir\<close> and \<open>copyDirForResume\<close>: every visited path, relative to the source,
  is made below the destination.\<close>

fun copy_paths :: "path \<Rightarrow> path \<Rightarrow> path list \<Rightarrow> fs \<Rightarrow> os_error option \<times> fs" where
  "copy_paths src dst [] fs = (None, fs)"
| "copy_paths src dst (p # ps) fs =
     (let target = sub_path dst (rel_to src p) in
      case fs_node fs p of
        None \<Rightarrow> (Some NotExist, fs)
      | Some Dir \<Rightarrow> (case fs_MkdirAll target fs of Inl e \<Rightarrow> (Some e, fs) | Inr fs' \<Rightarrow> copy_paths src dst ps fs')
      | Some (File c) \<Rightarrow>
          (case fs_WriteFile target c fs of Inl e \<Rightarrow> (Some e, fs) | Inr fs' \<Rightarrow> copy_paths src dst ps fs'))"

section \<open>Well-formed file systems\<close>

definition fs_ok :: "fs \<Rightarrow> bool" where
  "fs_ok fs \<longleftrightarrow> map_ok fs \<and> (\<forall>p \<in> fst ` set fs. snd p \<noteq> [] \<and> fs_node fs (parent p) = Some Dir)"

lemma fs_ok_Nil [simp]: "fs_ok []"
  by (simp add: fs_ok_def)

lemma fs_node_mput: "snd p \<noteq> [] \<Longrightarrow> fs_node (mput p n fs) q = (if q = p then Some n else fs_node fs q)"
  by (simp add: fs_node_def)

lemma keys_fs: "fst ` set fs = dom (map_of fs)"
  by (simp add: dom_map_of_conv_image_fst)

lemma fs_ok_mput:
  assumes "fs_ok fs" "snd p \<noteq> []" "fs_node fs (parent p) = Some Dir" "n = Dir \<or> fs_node fs p \<noteq> Some Dir"
  shows "fs_ok (mput p n fs)"
proof -
  have "length (butlast (snd p)) \<noteq> length (snd p)" using assms(2) by (cases "snd p") simp_all
  then have pp: "parent p \<noteq> p" unfolding parent_def by (metis snd_conv)
  have par: "fs_node (mput p n fs) (parent q) = Some Dir" if "fs_node fs (parent q) = Some Dir" for q
    using that assms(2,4) by (auto simp: fs_node_mput)
  show ?thesis
    unfolding fs_ok_def
  proof (intro conjI ballI)
    show "map_ok (mput p n fs)" using assms(1) by (simp add: fs_ok_def)
    fix q assume "q \<in> fst ` set (mput p n fs)"
    then have "q = p \<or> q \<in> fst ` set fs" by (auto simp: keys_fs split: if_splits)
    then show "snd q \<noteq> []" "fs_node (mput p n fs) (parent q) = Some Dir"
      using assms(1,2) par [OF assms(3)] par [of q] by (auto simp: fs_ok_def)
  qed
qed

lemma parent_snoc [simp]: "parent (b, es @ [e]) = (b, es)"
  by (simp add: parent_def)

lemma mkdir_elems_ok:
  "mkdir_elems b d es fs = Inr fs' \<Longrightarrow> fs_ok fs \<Longrightarrow> fs_node fs (b, d) = Some Dir \<Longrightarrow>
   fs_ok fs' \<and> fs_node fs' (b, d @ es) = Some Dir \<and>
   (\<forall>q. fs_node fs' q = (if fst q = b \<and> (\<exists>k. k \<le> length es \<and> snd q = d @ take k es) then Some Dir else fs_node fs q))"
proof (induction b d es fs rule: mkdir_elems.induct)
  case (1 b d fs)
  then show ?case by auto
next
  case (2 b d e es fs)
  let ?q = "(b, d @ [e])"
  define fs1 where "fs1 = (if fs_node fs ?q = None then mput ?q Dir fs else fs)"
  from 2(3) have nf: "fs_node fs ?q = None \<or> fs_node fs ?q = Some Dir"
    and r: "mkdir_elems b (d @ [e]) es fs1 = Inr fs'"
    by (auto simp: fs1_def split: option.splits fnode.splits)
  have n1: "fs_node fs1 q = (if q = ?q then Some Dir else fs_node fs q)" for q
    using nf by (auto simp: fs1_def fs_node_mput)
  have ok1: "fs_ok fs1" using 2(4,5) fs_ok_mput [OF 2(4), of ?q Dir] by (simp add: fs1_def)
  have IH: "fs_ok fs' \<and> fs_node fs' (b, (d @ [e]) @ es) = Some Dir \<and>
      (\<forall>q. fs_node fs' q = (if fst q = b \<and> (\<exists>k. k \<le> length es \<and> snd q = (d @ [e]) @ take k es) then Some Dir else fs_node fs1 q))"
  proof (cases "fs_node fs ?q")
    case None
    then have fs1: "fs1 = mput ?q Dir fs" by (simp add: fs1_def)
    from n1 have "fs_node fs1 ?q = Some Dir" by simp
    with 2(1) [OF None] r ok1 show ?thesis unfolding fs1 by blast
  next
    case (Some n)
    with nf have n: "n = Dir" by simp
    from Some have fs1: "fs1 = fs" by (simp add: fs1_def)
    from n1 have "fs_node fs1 ?q = Some Dir" by simp
    with 2(2) [OF Some n] r ok1 show ?thesis unfolding fs1 by blast
  qed
  have pre: "(\<exists>k. k \<le> length (e # es) \<and> es' = d @ take k (e # es)) \<longleftrightarrow>
      es' = d \<or> (\<exists>k. k \<le> length es \<and> es' = (d @ [e]) @ take k es)" for es'
  proof
    assume "\<exists>k. k \<le> length (e # es) \<and> es' = d @ take k (e # es)"
    then obtain k where "k \<le> length (e # es)" "es' = d @ take k (e # es)" by blast
    then show "es' = d \<or> (\<exists>k. k \<le> length es \<and> es' = (d @ [e]) @ take k es)" by (cases k) auto
  next
    assume "es' = d \<or> (\<exists>k. k \<le> length es \<and> es' = (d @ [e]) @ take k es)"
    then show "\<exists>k. k \<le> length (e # es) \<and> es' = d @ take k (e # es)"
    proof
      assume "\<exists>k. k \<le> length es \<and> es' = (d @ [e]) @ take k es"
      then obtain k where "k \<le> length es" "es' = (d @ [e]) @ take k es" by blast
      then show ?thesis by (intro exI [of _ "Suc k"]) simp
    qed (intro exI [of _ 0], simp)
  qed
  have "fs_node fs1 q = fs_node fs q" if "\<not> (fst q = b \<and> (\<exists>k. k \<le> length es \<and> snd q = (d @ [e]) @ take k es))" for q
    using that n1 [of q] by (cases q) (auto dest: spec [of _ 0])
  with IH 2(5) show ?case unfolding pre by (auto split: if_splits)
qed

lemma take_eq_sym: "take (length xs) ys = xs \<longleftrightarrow> (\<exists>k. k \<le> length ys \<and> xs = take k ys)"
proof
  assume t: "take (length xs) ys = xs"
  then have "length xs \<le> length ys" by (metis length_take min.cobounded1)
  then show "\<exists>k. k \<le> length ys \<and> xs = take k ys" using t by metis
qed auto

lemma fs_MkdirAll_ok:
  assumes "fs_MkdirAll p fs = Inr fs'" "fs_ok fs"
  shows "fs_ok fs'" "fs_node fs' p = Some Dir"
    "fs_node fs' q = (if under q p then Some Dir else fs_node fs q)"
proof -
  have root: "fs_node fs (fst p, []) = Some Dir" by (simp add: fs_node_def)
  note m = mkdir_elems_ok [OF assms(1) [unfolded fs_MkdirAll_def] assms(2) root]
  from m show "fs_ok fs'" by blast
  from m show "fs_node fs' p = Some Dir" by simp
  have u: "(fst q = fst p \<and> (\<exists>k. k \<le> length (snd p) \<and> snd q = [] @ take k (snd p))) \<longleftrightarrow> under q p"
    unfolding under_def by (auto simp: take_eq_sym)
  from m have "fs_node fs' q = (if fst q = fst p \<and> (\<exists>k. k \<le> length (snd p) \<and> snd q = [] @ take k (snd p))
      then Some Dir else fs_node fs q)" by blast
  then show "fs_node fs' q = (if under q p then Some Dir else fs_node fs q)" unfolding u .
qed

lemma under_refl [simp]: "under p p"
  by (simp add: under_def)

lemma under_sub [simp]: "under p (sub_path p es)"
  by (simp add: under_def sub_path_def)

lemma under_iff: "under p q \<longleftrightarrow> (\<exists>es. q = sub_path p es)"
proof
  assume "under p q"
  then have "fst q = fst p" "snd q = snd p @ drop (length (snd p)) (snd q)"
    unfolding under_def using append_take_drop_id [of "length (snd p)" "snd q"] by simp_all
  then have "q = sub_path p (drop (length (snd p)) (snd q))" by (simp add: sub_path_def prod_eq_iff)
  then show "\<exists>es. q = sub_path p es" ..
qed auto

lemma sub_path_simps [simp]: "sub_path p [] = p" "rel_to p (sub_path p es) = es" "fst (sub_path p es) = fst p"
  "sub_path p es = sub_path p es' \<longleftrightarrow> es = es'" "sub_path (sub_path p es) es' = sub_path p (es @ es')"
  by (auto simp: sub_path_def rel_to_def)

lemma under_trans: "under p q \<Longrightarrow> under q r \<Longrightarrow> under p r"
  unfolding under_iff by auto

lemma sub_path_self [simp]: "sub_path p es = p \<longleftrightarrow> es = []" "p = sub_path p es \<longleftrightarrow> es = []"
  by (auto simp: sub_path_def prod_eq_iff)

lemma parent_sub: "es \<noteq> [] \<Longrightarrow> parent (sub_path p es) = sub_path p (butlast es)"
  by (simp add: parent_def sub_path_def butlast_append)

lemma fs_WriteFile_ok:
  assumes "fs_WriteFile p c fs = Inr fs'"
  shows "fs_ok fs \<Longrightarrow> fs_ok fs'" "fs_node fs' q = (if q = p then Some (File c) else fs_node fs q)"
proof -
  have p: "snd p \<noteq> []" "fs_node fs (parent p) = Some Dir" "fs_node fs p \<noteq> Some Dir" "fs' = mput p (File c) fs"
    using assms by (auto simp: fs_WriteFile_def fs_node_def split: option.splits fnode.splits if_splits)
  show "fs_ok fs \<Longrightarrow> fs_ok fs'" using p fs_ok_mput [of fs p "File c"] by simp
  show "fs_node fs' q = (if q = p then Some (File c) else fs_node fs q)" using p by (simp add: fs_node_mput)
qed

section \<open>Copying a tree\<close>

lemma fs_ok_parent: "fs_ok fs \<Longrightarrow> fs_node fs p = Some n \<Longrightarrow> fs_node fs (parent p) = Some Dir"
  by (cases "snd p = []") (auto simp: fs_ok_def fs_node_def parent_def dest!: map_of_SomeD)

lemma fs_ok_prefix:
  assumes "fs_ok fs" "fs_node fs (b, es) = Some Dir"
  shows "fs_node fs (b, take k es) = Some Dir"
  using assms(2)
proof (induction es rule: rev_induct)
  case (snoc e es)
  have "fs_node fs (b, es) = Some Dir" using fs_ok_parent [OF assms(1) snoc.prems] by simp
  with snoc show ?case by (cases "k \<le> length es") auto
qed simp

lemma mkdir_elems_Inr:
  "(\<And>k. k \<le> length es \<Longrightarrow> fs_node fs (b, d @ take k es) \<in> {None, Some Dir}) \<Longrightarrow> \<exists>fs'. mkdir_elems b d es fs = Inr fs'"
proof (induction b d es fs rule: mkdir_elems.induct)
  case (2 b d e es fs)
  have n: "fs_node fs (b, d @ [e]) \<in> {None, Some Dir}" using 2(3) [of 1] by simp
  have r: "fs_node fs (b, (d @ [e]) @ take k es) \<in> {None, Some Dir}" if "k \<le> length es" for k
    using 2(3) [of "Suc k"] that by simp
  show ?case
  proof (cases "fs_node fs (b, d @ [e])")
    case None
    have "fs_node (mput (b, d @ [e]) Dir fs) (b, (d @ [e]) @ take k es) \<in> {None, Some Dir}" if "k \<le> length es" for k
      using r [OF that] by (subst fs_node_mput) auto
    with 2(1) [OF None] None show ?thesis by simp
  next
    case (Some x)
    with n have "x = Dir" by simp
    with 2(2) [OF Some this] r Some show ?thesis by simp
  qed
qed simp

lemma fs_MkdirAll_Inr:
  assumes "fs_ok fs" "fs_node fs (parent p) = Some Dir" "fs_node fs p \<in> {None, Some Dir}"
  obtains fs' where "fs_MkdirAll p fs = Inr fs'"
proof -
  have "fs_node fs (fst p, [] @ take k (snd p)) \<in> {None, Some Dir}" if "k \<le> length (snd p)" for k
  proof (cases "k = length (snd p)")
    case True
    then show ?thesis using assms(3) by simp
  next
    case False
    with that have "take k (snd p) = take k (butlast (snd p))" by (simp add: take_butlast)
    then show ?thesis using fs_ok_prefix [OF assms(1), of "fst p" "butlast (snd p)" k] assms(2) by (simp add: parent_def)
  qed
  from mkdir_elems_Inr [OF this] that show ?thesis by (auto simp: fs_MkdirAll_def)
qed

text \<open>The visits done so far have made their copies; the rest of the file system is as it was, with
  the destination's directories.\<close>

definition copied :: "path \<Rightarrow> path \<Rightarrow> string list set \<Rightarrow> fs \<Rightarrow> fs \<Rightarrow> bool" where
  "copied src dst seen fs fs' \<longleftrightarrow> fs_ok fs' \<and> fs_node fs' dst = Some Dir \<and>
     (\<forall>es. es \<noteq> [] \<longrightarrow> fs_node fs' (sub_path dst es) = (if es \<in> seen then fs_node fs (sub_path src es) else fs_node fs (sub_path dst es))) \<and>
     (\<forall>q. \<not> under dst q \<longrightarrow> \<not> under q dst \<longrightarrow> fs_node fs' q = fs_node fs q)"

lemma apart_sub:
  assumes "\<not> under src dst" "\<not> under dst src"
  shows "\<not> under dst (sub_path src es)" "\<not> under (sub_path src es) dst"
proof -
  show "\<not> under dst (sub_path src es)"
  proof
    assume "under dst (sub_path src es)"
    then obtain es' where "sub_path src es = sub_path dst es'" by (auto simp: under_iff)
    then have e: "snd src @ es = snd dst @ es'" "fst src = fst dst" by (simp_all add: sub_path_def)
    from e(1) obtain us where us: "snd src = snd dst @ us \<or> snd src @ us = snd dst"
      by (auto simp: append_eq_append_conv2)
    have "under dst src \<or> under src dst"
      using us by (auto simp: under_def e(2) dest: sym)
    with assms show False by blast
  qed
  show "\<not> under (sub_path src es) dst" using assms(1) under_trans under_sub by blast
qed

text \<open>No path is a file below one of the two and a directory below the other.\<close>

definition can_overlay :: "path \<Rightarrow> path \<Rightarrow> fs \<Rightarrow> bool" where
  "can_overlay src dst fs \<longleftrightarrow> (\<forall>es. fs_node fs (sub_path src es) \<noteq> None \<longrightarrow> fs_node fs (sub_path dst es) \<noteq> None \<longrightarrow>
     (fs_node fs (sub_path src es) = Some Dir) = (fs_node fs (sub_path dst es) = Some Dir))"

lemma copy_paths_copied:
  assumes "\<not> under src dst" "\<not> under dst src" "fs_ok fs" and srcdir: "fs_node fs src = Some Dir"
    and overlay: "can_overlay src dst fs"
  shows "copied src dst seen fs fs1 \<Longrightarrow> distinct ess \<Longrightarrow> sorted ess \<Longrightarrow>
    (\<And>es. es \<in> set ess \<Longrightarrow> fs_node fs (sub_path src es) \<noteq> None) \<Longrightarrow>
    (\<And>es e. es \<in> set ess \<Longrightarrow> es \<noteq> [] \<Longrightarrow> butlast es \<noteq> [] \<Longrightarrow> butlast es \<in> seen \<union> set ess) \<Longrightarrow>
    \<exists>fs2. copy_paths src dst (map (sub_path src) ess) fs1 = (None, fs2) \<and> copied src dst (seen \<union> set ess) fs fs2"
proof (induction ess arbitrary: seen fs1)
  case (Cons es ess)
  let ?p = "sub_path src es" and ?t = "sub_path dst es"
  have c: "fs_ok fs1" "fs_node fs1 dst = Some Dir"
    "\<And>es. es \<noteq> [] \<Longrightarrow> fs_node fs1 (sub_path dst es) = (if es \<in> seen then fs_node fs (sub_path src es) else fs_node fs (sub_path dst es))"
    "\<And>q. \<not> under dst q \<Longrightarrow> \<not> under q dst \<Longrightarrow> fs_node fs1 q = fs_node fs q"
    using Cons.prems(1) by (auto simp: copied_def)
  have src1: "fs_node fs1 ?p = fs_node fs ?p" using c(4) apart_sub [OF assms(1,2)] by blast
  obtain n where n: "fs_node fs ?p = Some n" using Cons.prems(4) by fastforce
  have par: "fs_node fs1 (sub_path dst (butlast es)) = Some Dir" if "es \<noteq> []"
  proof (cases "butlast es = []")
    case True
    then show ?thesis using c(2) by simp
  next
    case False
    have "butlast es \<notin> set (es # ess)"
    proof
      assume a: "butlast es \<in> set (es # ess)"
      have "length (butlast es) \<noteq> length es" using that by (cases es) simp_all
      then have "butlast es \<noteq> es" by metis
      with a have "butlast es \<in> set ess" by simp
      with Cons.prems(3) have "es \<le> butlast es" by simp
      moreover have "butlast es @ [last es] = es" using that by simp
      then have "butlast es < es" by (metis list_less_def lexord_append_rightI list.distinct(1))
      ultimately show False by simp
    qed
    then have "butlast es \<in> seen" using Cons.prems(5) [of es] that False by auto
    moreover have "fs_node fs (sub_path src (butlast es)) = Some Dir"
    proof -
      have "?p \<in> fst ` set fs \<or> snd ?p = []" using n by (auto simp: fs_node_def keys_fs split: if_splits)
      then show ?thesis using assms(3) that parent_sub [OF that, of src] by (auto simp: fs_ok_def sub_path_def)
    qed
    ultimately show ?thesis using c(3) [OF False] by simp
  qed
  have new: "fs_node fs1 ?t \<in> {None, Some Dir}" if "n = Dir"
  proof (cases "es = []")
    case True
    then show ?thesis using c(2) by simp
  next
    case False
    then show ?thesis using c(3) [OF False] n that overlay [unfolded can_overlay_def, rule_format, of es]
      by (cases "fs_node fs ?t") simp_all
  qed
  have newf: "fs_node fs1 ?t \<noteq> Some Dir" if "n = File d" "es \<noteq> []" for d
    using c(3) [OF that(2)] n that(1) overlay [unfolded can_overlay_def, rule_format, of es] by auto
  have "\<exists>fs2. copy_paths src dst (map (sub_path src) (es # ess)) fs1 = copy_paths src dst (map (sub_path src) ess) fs2
      \<and> fs_ok fs2 \<and> (\<forall>q. fs_node fs2 q = (if q = ?t \<or> es = [] \<and> n = Dir \<and> under q dst then Some n else fs_node fs1 q))"
    if nz: "es = [] \<longrightarrow> n = Dir"
  proof (cases "n = Dir")
    case True
    have "fs_node fs1 (parent ?t) = Some Dir"
      using par c(2) fs_ok_parent [OF c(1,2)] by (cases "es = []") (simp_all add: parent_sub)
    moreover note new [OF True]
    ultimately obtain fs2 where m: "fs_MkdirAll ?t fs1 = Inr fs2" using fs_MkdirAll_Inr [OF c(1)] by blast
    note ok = fs_MkdirAll_ok [OF m c(1)]
    have "fs_node fs2 q = (if q = ?t \<or> es = [] \<and> n = Dir \<and> under q dst then Some n else fs_node fs1 q)" for q
    proof (cases "q = ?t")
      case True
      then show ?thesis using ok(2) \<open>n = Dir\<close> by simp
    next
      case False
      show ?thesis
      proof (cases "under q ?t \<and> es \<noteq> []")
        case True
        then have k: "snd q = take (length (snd q)) (snd ?t)" "fst q = fst ?t" by (simp_all add: under_def)
        have "length (snd q) < length (snd ?t)"
        proof (rule ccontr)
          assume "\<not> length (snd q) < length (snd ?t)"
          then have "snd q = snd ?t" by (subst k(1)) simp
          with k(2) False show False by (simp add: prod_eq_iff)
        qed
        with k obtain k where "snd q = take k (snd ?t)" "fst q = fst ?t" "k < length (snd ?t)" by blast
        then have "q = (fst ?t, take k (butlast (snd ?t)))" by (simp add: prod_eq_iff take_butlast)
        moreover have "fs_node fs1 (fst ?t, butlast (snd ?t)) = Some Dir"
          using par True parent_sub [of es dst] by (simp add: parent_def)
        ultimately have "fs_node fs1 q = Some Dir" using fs_ok_prefix [OF c(1)] by simp
        with ok(3) [of q] True False show ?thesis by simp
      next
        case F: False
        then show ?thesis using ok(3) [of q] False \<open>n = Dir\<close> by auto
      qed
    qed
    moreover have "copy_paths src dst (map (sub_path src) (es # ess)) fs1 = copy_paths src dst (map (sub_path src) ess) fs2"
      using m src1 n True by simp
    ultimately show ?thesis using ok(1) by blast
  next
    case False
    then obtain d where d: "n = File d" "es \<noteq> []" using nz by (cases n) auto
    have "fs_node fs1 (parent ?t) = Some Dir" using par d(2) by (simp add: parent_sub)
    moreover note newf [OF d]
    ultimately obtain fs2 where w: "fs_WriteFile ?t d fs1 = Inr fs2"
      by (cases "fs_node fs1 ?t") (force simp: fs_WriteFile_def split: fnode.splits)+
    have "copy_paths src dst (map (sub_path src) (es # ess)) fs1 = copy_paths src dst (map (sub_path src) ess) fs2"
      using w src1 n d by simp
    moreover have "fs_node fs2 q = (if q = ?t \<or> es = [] \<and> n = Dir \<and> under q dst then Some n else fs_node fs1 q)" for q
      using fs_WriteFile_ok(2) [OF w] d by simp
    ultimately show ?thesis using fs_WriteFile_ok(1) [OF w c(1)] by blast
  qed
  moreover have nz: "es = [] \<longrightarrow> n = Dir" using srcdir n by auto
  ultimately obtain fs2 where fs2: "copy_paths src dst (map (sub_path src) (es # ess)) fs1 = copy_paths src dst (map (sub_path src) ess) fs2"
    "fs_ok fs2" "\<And>q. fs_node fs2 q = (if q = ?t \<or> es = [] \<and> n = Dir \<and> under q dst then Some n else fs_node fs1 q)"
    by blast
  have step: "copied src dst (insert es seen) fs fs2"
    unfolding copied_def
  proof (intro conjI allI impI)
    show "fs_ok fs2" by (rule fs2(2))
    show "fs_node fs2 dst = Some Dir" using fs2(3) [of dst] c(2) nz n by (cases "es = []") auto
    fix es' :: "string list" assume "es' \<noteq> []"
    then have "\<not> under (sub_path dst es') dst" by (simp add: under_def sub_path_def)
    then show "fs_node fs2 (sub_path dst es') =
        (if es' \<in> insert es seen then fs_node fs (sub_path src es') else fs_node fs (sub_path dst es'))"
      using fs2(3) [of "sub_path dst es'"] c(3) [OF \<open>es' \<noteq> []\<close>] n by auto
  next
    fix q assume q: "\<not> under dst q" "\<not> under q dst"
    then have "q \<noteq> ?t" by auto
    with q show "fs_node fs2 q = fs_node fs q" using fs2(3) [of q] c(4) [OF q] by simp
  qed
  have "\<exists>fs3. copy_paths src dst (map (sub_path src) ess) fs2 = (None, fs3) \<and> copied src dst (insert es seen \<union> set ess) fs fs3"
    by (rule Cons.IH [OF step]) (use Cons.prems in auto)
  with fs2(1) show ?case by auto
qed (simp add: copied_def)

lemma set_walk:
  assumes "snd p \<noteq> []"
  shows "es \<in> set (sort (map (\<lambda>(q, n). rel_to p q) (filter (\<lambda>(q, n). under p q) fs))) \<longleftrightarrow> fs_node fs (sub_path p es) \<noteq> None"
proof -
  have "es \<in> (\<lambda>(q, n). rel_to p q) ` {x \<in> set fs. case x of (q, n) \<Rightarrow> under p q} \<longleftrightarrow> sub_path p es \<in> fst ` set fs"
  proof
    assume "es \<in> (\<lambda>(q, n). rel_to p q) ` {x \<in> set fs. case x of (q, n) \<Rightarrow> under p q}"
    then obtain q n where q: "(q, n) \<in> set fs" "under p q" "es = rel_to p q" by auto
    then have "q = sub_path p es" by (auto simp: under_iff)
    with q(1) show "sub_path p es \<in> fst ` set fs" by force
  next
    assume "sub_path p es \<in> fst ` set fs"
    then obtain n where "(sub_path p es, n) \<in> set fs" by auto
    then show "es \<in> (\<lambda>(q, n). rel_to p q) ` {x \<in> set fs. case x of (q, n) \<Rightarrow> under p q}"
      by (intro image_eqI [of _ _ "(sub_path p es, n)"]) simp_all
  qed
  then show ?thesis using assms by (simp add: fs_node_def keys_fs domIff sub_path_def)
qed

lemma distinct_walk:
  assumes "fs_ok fs"
  shows "distinct (sort (map (\<lambda>(q, n). rel_to p q) (filter (\<lambda>(q, n). under p q) fs)))"
proof -
  let ?l = "filter (\<lambda>(q, n). under p q) fs"
  have "inj_on (rel_to p) (fst ` set ?l)"
  proof (rule inj_onI)
    fix q r assume q: "q \<in> fst ` set ?l" "r \<in> fst ` set ?l" "rel_to p q = rel_to p r"
    then have "under p q" "under p r" by auto
    with q(3) show "q = r" unfolding under_iff by auto
  qed
  moreover have "distinct (map fst ?l)" using assms by (simp add: fs_ok_def map_ok_def mkeys_def distinct_map_filter)
  ultimately have "distinct (map (rel_to p) (map fst ?l))"
    unfolding distinct_map [of "rel_to p"] set_map by blast
  moreover have "map (\<lambda>(q, n). rel_to p q) ?l = map (rel_to p) (map fst ?l)" by (simp add: case_prod_beta)
  ultimately show ?thesis unfolding distinct_sort by metis
qed

text \<open>The copy of a tree lies below the destination, over what was there; everything that is neither
  below the destination nor above it stays.\<close>

lemma copy_tree:
  assumes "fs_ok fs" "fs_node fs src = Some Dir" "\<not> under src dst" "\<not> under dst src" "can_overlay src dst fs"
    and "snd src \<noteq> []" and m: "fs_MkdirAll dst fs = Inr fs1"
  obtains fs2 where "copy_paths src dst (walk_paths src fs1) fs1 = (None, fs2)" "fs_ok fs2"
    "\<And>es. fs_node fs2 (sub_path dst es) =
       (if fs_node fs (sub_path src es) = None then fs_node fs1 (sub_path dst es) else fs_node fs (sub_path src es))"
    "\<And>q. \<not> under dst q \<Longrightarrow> \<not> under q dst \<Longrightarrow> fs_node fs2 q = fs_node fs q"
proof -
  note mk = fs_MkdirAll_ok [OF m assms(1)]
  have ab: "\<not> under (sub_path dst es) dst" if "es \<noteq> []" for es
    using that by (simp add: under_def sub_path_def)
  have c0: "copied src dst {} fs fs1"
    unfolding copied_def using mk ab by simp
  have below: "fs_node fs1 (sub_path src es) = fs_node fs (sub_path src es)" for es
    using mk(3) apart_sub [OF assms(3,4)] by simp
  let ?w = "sort (map (\<lambda>(q, n). rel_to src q) (filter (\<lambda>(q, n). under src q) fs1))"
  have w: "es \<in> set ?w \<longleftrightarrow> fs_node fs (sub_path src es) \<noteq> None" for es
    using set_walk [OF assms(6), of es fs1] below by simp
  have "\<exists>fs2. copy_paths src dst (map (sub_path src) ?w) fs1 = (None, fs2) \<and> copied src dst ({} \<union> set ?w) fs fs2"
  proof (rule copy_paths_copied [OF assms(3,4,1,2,5) c0])
    show "distinct ?w" by (rule distinct_walk [OF mk(1)])
    show "sorted ?w" by simp
    fix es assume "es \<in> set ?w"
    then show some: "fs_node fs (sub_path src es) \<noteq> None" using w by blast
    assume "es \<noteq> []"
    moreover from some obtain n where "fs_node fs (sub_path src es) = Some n" by auto
    ultimately have "fs_node fs (sub_path src (butlast es)) = Some Dir"
      using fs_ok_parent [OF assms(1)] by (metis parent_sub)
    with w [of "butlast es"] show "butlast es \<in> {} \<union> set ?w" by simp
  qed
  then obtain fs2 where r: "copy_paths src dst (walk_paths src fs1) fs1 = (None, fs2)" and c: "copied src dst (set ?w) fs fs2"
    unfolding walk_paths_def Un_empty_left by blast
  show thesis
  proof (rule that [OF r])
    show "fs_ok fs2" using c by (simp add: copied_def)
    show "fs_node fs2 q = fs_node fs q" if "\<not> under dst q" "\<not> under q dst" for q
      using c that unfolding copied_def by blast
    show "fs_node fs2 (sub_path dst es) =
       (if fs_node fs (sub_path src es) = None then fs_node fs1 (sub_path dst es) else fs_node fs (sub_path src es))" for es
    proof (cases "es = []")
      case True
      then show ?thesis using c mk(2) assms(2) by (simp add: copied_def)
    next
      case False
      then have "fs_node fs2 (sub_path dst es) = (if es \<in> set ?w then fs_node fs (sub_path src es) else fs_node fs (sub_path dst es))"
        using c unfolding copied_def by blast
      then show ?thesis using w [of es] mk(3) ab [OF False] by simp
    qed
  qed
qed

section \<open>The other calls\<close>

lemma mkdir_elems_keeps: "mkdir_elems b d es fs = Inr fs' \<Longrightarrow> fs_node fs q = Some n \<Longrightarrow> fs_node fs' q = Some n"
proof (induction b d es fs rule: mkdir_elems.induct)
  case (2 b d e es fs)
  have "fs_node (mput (b, d @ [e]) Dir fs) q = Some n" if "fs_node fs (b, d @ [e]) = None"
    using that 2(4) by (auto simp: fs_node_mput)
  with 2 show ?case by (auto split: option.splits fnode.splits)
qed simp

lemma fs_MkdirAll_keeps: "fs_MkdirAll p fs = Inr fs' \<Longrightarrow> fs_node fs q = Some n \<Longrightarrow> fs_node fs' q = Some n"
  unfolding fs_MkdirAll_def by (rule mkdir_elems_keeps)

lemma under_linear: "under p r \<Longrightarrow> under q r \<Longrightarrow> under p q \<or> under q p"
proof -
  assume "under p r" "under q r"
  then obtain es es' where "r = sub_path p es" "r = sub_path q es'" unfolding under_iff by blast
  then have e: "snd p @ es = snd q @ es'" "fst p = fst q" by (auto simp: sub_path_def)
  from e(1) obtain us where "snd p = snd q @ us \<or> snd p @ us = snd q" by (auto simp: append_eq_append_conv2)
  with e(2) show "under p q \<or> under q p" by (auto simp: under_def dest: sym)
qed

lemma under_parent: "under p (parent q) \<Longrightarrow> under p q"
proof -
  assume "under p (parent q)"
  moreover have "under (parent q) q"
    by (simp add: under_def parent_def butlast_conv_take)
  ultimately show ?thesis by (rule under_trans)
qed

lemma fs_RemoveAll_node: "snd q \<noteq> [] \<Longrightarrow> fs_node (fs_RemoveAll p fs) q = (if under p q then None else fs_node fs q)"
proof -
  assume "snd q \<noteq> []"
  moreover have "map_of (filter (\<lambda>(q, n). \<not> under p q) fs) q = (if under p q then None else map_of fs q)"
    by (induction fs) auto
  ultimately show ?thesis by (simp add: fs_node_def fs_RemoveAll_def)
qed

lemma fs_RemoveAll_ok:
  assumes "fs_ok fs"
  shows "fs_ok (fs_RemoveAll p fs)"
  unfolding fs_ok_def
proof (intro conjI ballI)
  show "map_ok (fs_RemoveAll p fs)"
    using assms by (simp add: fs_ok_def map_ok_def mkeys_def fs_RemoveAll_def distinct_map_filter)
  fix q assume "q \<in> fst ` set (fs_RemoveAll p fs)"
  then have q: "q \<in> fst ` set fs" "\<not> under p q" by (auto simp: fs_RemoveAll_def)
  show "snd q \<noteq> []" using q(1) assms unfolding fs_ok_def by blast
  have "fs_node fs (parent q) = Some Dir" using q(1) assms unfolding fs_ok_def by blast
  moreover have "\<not> under p (parent q)" using q(2) under_parent by blast
  ultimately show "fs_node (fs_RemoveAll p fs) (parent q) = Some Dir"
    using fs_RemoveAll_node [of "parent q" p fs] by (cases "snd (parent q) = []") (simp_all add: fs_node_def)
qed

lemma fs_ok_below_none:
  assumes "fs_ok fs" "fs_node fs q = None"
  shows "fs_node fs (sub_path q es) = None"
proof (induction es rule: rev_induct)
  case (snoc e es)
  have "parent (sub_path q (es @ [e])) = sub_path q es" by (simp add: parent_sub)
  with fs_ok_parent [OF assms(1), of "sub_path q (es @ [e])"] snoc show ?case
    by (cases "fs_node fs (sub_path q (es @ [e]))") auto
qed (simp add: assms(2))

text \<open>After \<open>Rename\<close> the tree is below the new path and nowhere else.\<close>

lemma fs_Rename_node:
  assumes "fs_Rename p q fs = Inr fs'" "fs_ok fs" "snd p \<noteq> []" "snd q \<noteq> []"
  shows "snd r \<noteq> [] \<Longrightarrow> fs_node fs' r = (if under q r then fs_node fs (sub_path p (rel_to q r))
                       else if under p r then None else fs_node fs r)"
proof -
  have fs': "fs' = map (\<lambda>(r, n). if under p r then (sub_path q (rel_to p r), n) else (r, n)) fs"
    and fresh: "fs_node fs q = None"
    using assms(1) by (auto simp: fs_Rename_def split: if_splits)
  have none: "under q r \<Longrightarrow> r \<notin> fst ` set fs" for r
    using fs_ok_below_none [OF assms(2) fresh] assms(4)
    by (auto simp: under_iff fs_node_def keys_fs sub_path_def domIff)
  assume r: "snd r \<noteq> []"
  have m: "map_of fs' r = (if under q r then map_of fs (sub_path p (rel_to q r)) else if under p r then None else map_of fs r)"
    if "\<forall>x \<in> fst ` set fs. \<not> under q x"
    using that unfolding fs'
  proof (induction fs)
    case (Cons a fs)
    obtain x n where a: "a = (x, n)" by fastforce
    with Cons show ?case by (auto simp: under_iff)
  qed simp
  have "\<forall>x \<in> fst ` set fs. \<not> under q x" using none by blast
  from m [OF this] r assms(3) show ?thesis by (simp add: fs_node_def sub_path_def)
qed

lemma fs_Rename_ok:
  assumes "fs_Rename p q fs = Inr fs'" "fs_ok fs" "snd p \<noteq> []" "snd q \<noteq> []"
  shows "fs_ok fs'"
proof -
  have fs': "fs' = map (\<lambda>(r, n). if under p r then (sub_path q (rel_to p r), n) else (r, n)) fs"
    and fresh: "fs_node fs q = None" and pq: "fs_node fs (parent q) = Some Dir" "\<not> under p q"
    using assms(1) by (auto simp: fs_Rename_def split: if_splits)
  have none: "under q r \<Longrightarrow> r \<notin> fst ` set fs" for r
    using fs_ok_below_none [OF assms(2) fresh] assms(4)
    by (auto simp: under_iff fs_node_def keys_fs sub_path_def domIff)
  let ?f = "\<lambda>r. if under p r then sub_path q (rel_to p r) else r"
  have keys: "map fst fs' = map ?f (map fst fs)" unfolding fs' by (induction fs) auto
  have inj: "inj_on ?f (fst ` set fs)"
  proof (rule inj_onI)
    fix a b assume "a \<in> fst ` set fs" "b \<in> fst ` set fs" "?f a = ?f b"
    with none [of a] none [of b] show "a = b"
      by (auto simp: under_iff split: if_splits)
  qed
  have node: "snd r \<noteq> [] \<Longrightarrow> fs_node fs' r = (if under q r then fs_node fs (sub_path p (rel_to q r))
      else if under p r then None else fs_node fs r)" for r
    by (rule fs_Rename_node [OF assms])
  show ?thesis
    unfolding fs_ok_def
  proof (intro conjI ballI)
    have "distinct (map fst fs)" using assms(2) by (simp add: fs_ok_def map_ok_def mkeys_def)
    then have "distinct (map ?f (map fst fs))" unfolding distinct_map [of ?f] set_map using inj by blast
    then show "map_ok fs'" by (simp add: map_ok_def mkeys_def keys)
    fix r assume "r \<in> fst ` set fs'"
    then have "r \<in> set (map fst fs')" by simp
    then obtain a where a: "a \<in> fst ` set fs" "r = ?f a" unfolding keys set_map by blast
    have par: "fs_node fs (parent a) = Some Dir" "snd a \<noteq> []" using a(1) assms(2) unfolding fs_ok_def by blast+
    show "snd r \<noteq> []" using a(2) par(2) assms(4) by (auto simp: sub_path_def)
    show "fs_node fs' (parent r) = Some Dir"
    proof (cases "snd (parent r) = []")
      case True
      then show ?thesis by (simp add: fs_node_def)
    next
      case ne: False
      show ?thesis
      proof (cases "under p a")
        case True
        then obtain es where es: "a = sub_path p es" by (auto simp: under_iff)
        then have r: "r = sub_path q es" using a(2) by simp
        show ?thesis
        proof (cases "es = []")
          case True
          have "\<not> under q (parent q)"
            using assms(4) by (simp add: under_def parent_def) (metis append_butlast_last_id append_eq_conv_conj length_append_singleton n_not_Suc_n take_all_iff length_butlast diff_le_self)
          moreover have "\<not> under p (parent q)" using pq(2) under_parent by blast
          ultimately show ?thesis using node [OF ne] r True pq(1) by simp
        next
          case False
          then have "parent r = sub_path q (butlast es)" by (simp add: r parent_sub)
          moreover have "fs_node fs (sub_path p (butlast es)) = Some Dir" using par(1) es parent_sub [OF False, of p] by simp
          ultimately show ?thesis using node [OF ne] by simp
        qed
      next
        case False
        then have r: "r = a" using a(2) by simp
        have "\<not> under q (parent a)" using none [of a] a(1) under_parent by blast
        moreover have "\<not> under p (parent a)" using False under_parent by blast
        ultimately show ?thesis using node [OF ne] r par(1) by simp
      qed
    qed
  qed
qed

end
