(* ===== verification/Go_Resolve.thy ===== *)
theory Go_Resolve
  imports Go_Fs
begin

text \<open>
  Where a path string leads: \<open>Abs\<close>, the resolution of a path against the working directory, and the
  lemma that resolving a joined path walks its parts one after the other. A part without \<open>..\<close> stays
  below the parts before it.
\<close>

definition Abs :: "string \<Rightarrow> string \<Rightarrow> string" where
  "Abs cwd p = (if is_rooted p then Clean p else path_Join [cwd, p])"

definition resolve :: "string \<Rightarrow> string \<Rightarrow> path" where
  "resolve cwd p = path_of (if is_rooted p then p else cwd @ slash # p)"

section \<open>Cleaning in steps\<close>

lemma clean_elems_append:
  "clean_elems r st (xs @ ys) = clean_elems r (rev (clean_elems r st xs)) ys"
  by (induction r st xs rule: clean_elems.induct) (auto split: list.split)

definition stack_elem :: "string \<Rightarrow> bool" where
  "stack_elem e \<longleftrightarrow> e \<noteq> [] \<and> e \<noteq> ''.''"

text \<open>Cleaning first as a relative path makes no difference.\<close>

lemma clean_twice_stack:
  "list_all stack_elem stk \<Longrightarrow>
   clean_elems r st (clean_elems False stk es) = clean_elems r st (rev stk @ es)"
proof (induction "False" stk es rule: clean_elems.induct)
  case (2 stack e es)
  consider (skip) "e = [] \<or> e = ''.''" | (up) "e = ''..''" | (push) "e \<notin> {[], ''.'', ''..''}" by blast
  then show ?case
  proof cases
    case skip
    then have "clean_elems r st (rev stack @ e # es) = clean_elems r st (rev stack @ es)"
      by (auto simp: clean_elems_append [of r st "rev stack"])
    with 2(1) 2(6) skip show ?thesis by auto
  next
    case push
    with 2(5) 2(6) show ?thesis by (simp add: stack_elem_def)
  next
    case up
    then have e: "e \<noteq> []" "e \<noteq> ''.''" by simp_all
    show ?thesis
    proof (cases stack)
      case Nil
      with 2(2) up show ?thesis by (simp add: stack_elem_def)
    next
      case (Cons t ts)
      show ?thesis
      proof (cases "t = ''..''")
        case True
        with 2(3) [OF _ up Cons True] 2(6) up Cons show ?thesis by (simp add: stack_elem_def)
      next
        case False
        have "clean_elems r st (rev ts @ t # ''..'' # es) = clean_elems r st (rev ts @ es)"
          using 2(6) Cons False by (simp add: clean_elems_append [of r st "rev ts"] stack_elem_def)
        with 2(4) [OF _ up Cons False] 2(6) up Cons False show ?thesis by simp
      qed
    qed
  qed
qed simp

lemma clean_twice: "clean_elems r st (clean_elems False [] es) = clean_elems r st es"
  using clean_twice_stack [of "[]" r st es] by simp

lemma clean_twice_rooted: "clean_elems True [] (clean_elems True [] es) = clean_elems True [] es"
  if "\<And>e. e \<in> set es \<Longrightarrow> slash \<notin> set e"
  using clean_proper [OF clean_rooted [of "[]" es], of True "[]"] that by simp

section \<open>Resolving joined paths\<close>

definition raw_elems :: "string \<Rightarrow> string \<Rightarrow> string list" where
  "raw_elems cwd p = (if is_rooted p then Split slash p else Split slash cwd @ Split slash p)"

lemma Split_append: "Split c (a @ c # b) = Split c a @ Split c b"
proof (induction a)
  case (Cons x a)
  then show ?case by (cases "Split c a") (auto simp: Split_nonempty)
qed simp

lemma Split_slash_no: "e \<in> set (Split slash p) \<Longrightarrow> slash \<notin> set e"
  by (rule Split_no_sep)

lemma is_rooted_append: "is_rooted a \<Longrightarrow> is_rooted (a @ b)"
  by (auto simp: is_rooted_def HasPrefix_iff)

lemma is_rooted_Nil [simp]: "\<not> is_rooted []"
  by (simp add: is_rooted_def)

lemma resolve_raw: "is_rooted cwd \<Longrightarrow> resolve cwd p = (True, clean_elems True [] (raw_elems cwd p))"
  by (simp add: resolve_def path_of_def raw_elems_def is_rooted_append Split_append)

lemma clean_rel_elems:
  "list_all (\<lambda>e. stack_elem e \<and> slash \<notin> set e) st \<Longrightarrow> (\<And>e. e \<in> set es \<Longrightarrow> slash \<notin> set e) \<Longrightarrow>
   list_all (\<lambda>e. stack_elem e \<and> slash \<notin> set e) (clean_elems False st es)"
proof (induction "False" st es rule: clean_elems.induct)
  case (2 stack e es)
  then show ?case by (cases stack) (auto simp: stack_elem_def slash_def)
qed (simp add: list_all_iff)

lemma Split_Join_elems:
  assumes "list_all (\<lambda>e. stack_elem e \<and> slash \<notin> set e) es" "es \<noteq> []"
  shows "Split slash (Join es [slash]) = es" "\<not> is_rooted (Join es [slash])"
proof -
  show "Split slash (Join es [slash]) = es"
    using assms by (intro Split_Join) (auto simp: list_all_iff)
  obtain x xs where es: "es = x # xs" using assms(2) by (cases es) auto
  with assms(1) obtain c cs where "x = c # cs" "c \<noteq> slash" by (cases x) (auto simp: stack_elem_def)
  then show "\<not> is_rooted (Join es [slash])" by (simp add: es Join_no_slash is_rooted_def)
qed

lemma resolve_Clean:
  assumes "is_rooted cwd"
  shows "resolve cwd (Clean p) = resolve cwd p"
proof (cases "is_rooted p")
  case True
  let ?es = "clean_elems True [] (Split slash p)"
  have pr: "list_all proper_elem ?es" by (rule clean_rooted) (auto dest: Split_no_sep)
  have "Split slash (slash # Join ?es [slash]) = [] # (if ?es = [] then [[]] else ?es)"
    using pr by (auto simp: list_all_iff proper_elem_def intro!: Split_Join)
  then have "clean_elems True [] (Split slash (Clean p)) = ?es"
    using clean_proper [OF pr, of True "[]"] True by (auto simp: Clean_def Let_def)
  moreover have "is_rooted (Clean p)" using True by (simp add: Clean_def Let_def is_rooted_def)
  ultimately show ?thesis using True by (simp add: resolve_raw [OF assms] raw_elems_def)
next
  case False
  let ?es = "clean_elems False [] (Split slash p)" and ?c = "rev (clean_elems True [] (Split slash cwd))"
  have el: "list_all (\<lambda>e. stack_elem e \<and> slash \<notin> set e) ?es"
    by (rule clean_rel_elems) (auto dest: Split_no_sep)
  have p: "clean_elems True ?c ?es = clean_elems True ?c (Split slash p)" by (rule clean_twice)
  show ?thesis
  proof (cases "?es = []")
    case True
    then have "Clean p = ''.''" using False by (simp add: Clean_def Let_def)
    moreover have "\<not> is_rooted ''.''" "Split slash ''.'' = [''.'']" by (simp_all add: is_rooted_def slash_def)
    ultimately show ?thesis using False p True
      by (simp add: resolve_raw [OF assms] raw_elems_def clean_elems_append [of True "[]" "Split slash cwd"])
  next
    case ne: False
    then have "Clean p = Join ?es [slash]" using False by (simp add: Clean_def Let_def)
    then show ?thesis using False p Split_Join_elems [OF el ne]
      by (simp add: resolve_raw [OF assms] raw_elems_def clean_elems_append [of True "[]" "Split slash cwd"])
  qed
qed

definition part_elems :: "string list \<Rightarrow> string list" where
  "part_elems bs = concat (map (Split slash) (filter (\<lambda>b. b \<noteq> []) bs))"

lemma raw_elems_Join: "raw_elems cwd (Join (a # bs) [slash]) = raw_elems cwd a @ concat (map (Split slash) bs)"
  if "a \<noteq> []"
proof -
  have r: "is_rooted (Join (a # bs) [slash]) = is_rooted a" using that by (cases a) (auto simp: Join_no_slash is_rooted_def)
  have "Split slash (Join (a # bs) [slash]) = Split slash a @ concat (map (Split slash) bs)"
    by (induction bs arbitrary: a) (simp_all add: Join_no_slash Split_append)
  then show ?thesis by (simp add: raw_elems_def r)
qed

lemma resolve_Join:
  assumes "is_rooted cwd" "a \<noteq> []"
  shows "resolve cwd (path_Join (a # bs)) = (True, clean_elems True (rev (snd (resolve cwd a))) (part_elems bs))"
proof -
  have "path_Join (a # bs) = Clean (Join (a # filter (\<lambda>b. b \<noteq> []) bs) [slash])"
    using assms(2) by (simp add: path_Join_def)
  then have "resolve cwd (path_Join (a # bs)) = resolve cwd (Join (a # filter (\<lambda>b. b \<noteq> []) bs) [slash])"
    by (simp only: resolve_Clean [OF assms(1)])
  then show ?thesis
    by (simp add: resolve_raw [OF assms(1)] raw_elems_Join [OF assms(2)] part_elems_def
        clean_elems_append [of True "[]" "raw_elems cwd a"])
qed

lemma resolve_proper: "is_rooted cwd \<Longrightarrow> list_all proper_elem (snd (resolve cwd p))"
  by (simp add: resolve_raw) (rule clean_rooted, auto simp: raw_elems_def dest: Split_no_sep split: if_splits)

lemma fst_resolve [simp]: "is_rooted cwd \<Longrightarrow> fst (resolve cwd p)"
  by (simp add: resolve_raw)

section \<open>Staying below\<close>

definition no_dotdot :: "string list \<Rightarrow> bool" where
  "no_dotdot es \<longleftrightarrow> ''..'' \<notin> set es"

lemma clean_no_dotdot:
  "no_dotdot es \<Longrightarrow> clean_elems r st es = rev st @ filter (\<lambda>e. e \<noteq> [] \<and> e \<noteq> ''.'') es"
  by (induction r st es rule: clean_elems.induct) (auto simp: no_dotdot_def)

text \<open>The path of parts without \<open>..\<close> below a path.\<close>

definition below :: "path \<Rightarrow> string list \<Rightarrow> path" where
  "below p bs = sub_path p (filter (\<lambda>e. e \<noteq> [] \<and> e \<noteq> ''.'') (part_elems bs))"

lemma resolve_below:
  assumes "is_rooted cwd" "a \<noteq> []" "no_dotdot (part_elems bs)"
  shows "resolve cwd (path_Join (a # bs)) = below (resolve cwd a) bs"
  using assms by (simp add: resolve_Join clean_no_dotdot below_def sub_path_def prod_eq_iff)

lemma under_below [simp]: "under p (below p bs)"
  by (simp add: below_def)

lemma resolve_Abs: "is_rooted cwd \<Longrightarrow> resolve cwd (Abs cwd p) = resolve cwd p"
proof -
  assume c: "is_rooted cwd"
  then have "cwd \<noteq> []" by auto
  show ?thesis
  proof (cases "is_rooted p")
    case True
    then show ?thesis by (simp add: Abs_def resolve_Clean [OF c])
  next
    case False
    have "resolve cwd (path_Join [cwd, p]) = (True, clean_elems True (rev (clean_elems True [] (Split slash cwd))) (part_elems [p]))"
      using resolve_Join [OF c \<open>cwd \<noteq> []\<close>, of "[p]"] c by (simp add: resolve_raw [OF c, of cwd] raw_elems_def)
    then show ?thesis
      using False by (simp add: Abs_def resolve_raw [OF c, of p] raw_elems_def part_elems_def
          clean_elems_append [of True "[]" "Split slash cwd"])
  qed
qed

section \<open>The directory of a path\<close>

lemma under_prefix: "under (b, es) (b, es @ es')"
  by (simp add: under_def)

text \<open>One of the two is above the other.\<close>

lemma resolve_Dir:
  assumes "is_rooted cwd"
  shows "under (resolve cwd (path_Dir p)) (resolve cwd p) \<or> under (resolve cwd p) (resolve cwd (path_Dir p))"
proof -
  let ?b = "rev (takeWhile (\<lambda>c. c \<noteq> slash) (rev p))" and ?a = "rev (dropWhile (\<lambda>c. c \<noteq> slash) (rev p))"
  have p: "p = ?a @ ?b" by (metis rev_append rev_rev_ident takeWhile_dropWhile_id)
  have nb: "slash \<notin> set ?b" by (auto dest: set_takeWhileD)
  have one: "under (True, clean_elems True st xs) (True, clean_elems True st (xs @ [b])) \<or>
      under (True, clean_elems True st (xs @ [b])) (True, clean_elems True st xs)" for st xs b
  proof -
    obtain ys where ys: "ys = clean_elems True st xs" by simp
    have "clean_elems True st (xs @ [b]) = clean_elems True (rev ys) [b]" by (simp add: clean_elems_append ys)
    moreover have "clean_elems True (rev ys) [b] \<in> {ys, butlast ys, ys @ [b], ys @ [''..'']}"
      by (cases ys rule: rev_cases) auto
    ultimately obtain zs where zs: "clean_elems True st (xs @ [b]) = zs" "zs \<in> {ys, butlast ys, ys @ [b], ys @ [''..'']}"
      by simp
    have "under (True, butlast ys) (True, ys)" by (simp add: under_def butlast_conv_take)
    with zs(2) under_prefix [of True ys] have "under (True, ys) (True, zs) \<or> under (True, zs) (True, ys)"
      by auto
    then show ?thesis by (simp add: zs(1) ys)
  qed
  show ?thesis
  proof (cases "?a = []")
    case True
    then have "slash \<notin> set p" using p nb by (metis append_Nil)
    then have "Split slash p = [p]" by (rule Split_none)
    moreover have "\<not> is_rooted p" using \<open>slash \<notin> set p\<close> by (auto simp: is_rooted_def HasPrefix_iff)
    ultimately have 1: "resolve cwd p = (True, clean_elems True [] (Split slash cwd @ [p]))"
      by (simp add: resolve_raw [OF assms] raw_elems_def)
    have "resolve cwd (path_Dir p) = resolve cwd []" by (simp only: path_Dir_def True resolve_Clean [OF assms])
    also have "\<dots> = (True, clean_elems True [] (Split slash cwd))"
      by (simp add: resolve_raw [OF assms] raw_elems_def clean_elems_append [of True "[]" "Split slash cwd"])
    finally show ?thesis using 1 one by simp
  next
    case False
    then have ne: "dropWhile (\<lambda>c. c \<noteq> slash) (rev p) \<noteq> []" by simp
    then obtain c ds where ds: "dropWhile (\<lambda>c. c \<noteq> slash) (rev p) = c # ds" by (meson list.exhaust)
    with hd_dropWhile [OF ne] have "c = slash" by simp
    with ds have a: "?a = rev ds @ [slash]" by simp
    define a where "a = rev ds"
    note a = a [folded a_def]
    obtain b where b: "b = ?b" by simp
    have pa: "p = a @ slash # b" using p a unfolding b by simp
    have r: "is_rooted p = is_rooted (a @ [slash])" unfolding pa by (cases a) (simp_all add: is_rooted_def)
    have s1: "Split slash p = Split slash a @ [b]"
      unfolding pa by (simp only: Split_append Split_none [OF nb [folded b]])
    have s2: "Split slash (a @ [slash]) = Split slash a @ [[]]" using Split_append [of slash a "[]"] by simp
    have "resolve cwd (path_Dir p) = resolve cwd (a @ [slash])" by (simp only: path_Dir_def resolve_Clean [OF assms] a)
    also have "\<dots> = (True, clean_elems True [] (if is_rooted p then Split slash a else Split slash cwd @ Split slash a))"
      by (simp add: resolve_raw [OF assms] raw_elems_def r [symmetric] s2 clean_elems_append [of True "[]" "Split slash a"]
          clean_elems_append [of True "[]" "Split slash cwd"]
          clean_elems_append [of True "rev (clean_elems True [] (Split slash cwd))" "Split slash a"])
    finally have 2: "resolve cwd (path_Dir p) = \<dots>" .
    have "resolve cwd p = (True, clean_elems True [] ((if is_rooted p then Split slash a else Split slash cwd @ Split slash a) @ [b]))"
      by (simp add: resolve_raw [OF assms] raw_elems_def s1)
    with 2 one show ?thesis by simp
  qed
qed

lemma resolve_Dir_below:
  assumes "is_rooted cwd" "under d (resolve cwd p)"
  shows "under d (resolve cwd (path_Dir p)) \<or> under (resolve cwd (path_Dir p)) d"
  using resolve_Dir [OF assms(1), of p] under_linear [OF _ assms(2)] under_trans [OF assms(2)] by blast

end
