(* ===== verification/World.thy ===== *)
theory World
  imports Db_Facts Go_Resolve Stream_Hub
begin

text \<open>
  The state that the code with side effects runs in: the database of \<open>Db_Store\<close>, the file system
  of \<open>Go_Fs\<close>, the messages sent to the stream hub and the calls made to the Docker SDK. What the
  Docker daemon, the generator of UUIDs and the operating system answer is given by functions of
  the tick. A context is the background one or the cancellable one of the current run; when the
  latter is done, statements fail with its error. The locale \<open>effect_logic\<close> lifts relations
  between worlds through the code; code that changes neither files nor calls nor messages is quiet.
\<close>

section \<open>Docker SDK\<close>

text \<open>What \<open>ContainerCreate\<close> is given.\<close>

record container =
  ct_Name :: string
  ct_Image :: string
  ct_Env :: "string list"
  ct_WorkingDir :: string
  ct_Binds :: "string list"

text \<open>What the channels of \<open>ContainerWait\<close> deliver first: a status with its error message, an error, or
  neither before the context is done.\<close>

datatype wait_answer = Exited int "string option" | WaitError string | WaitDone

datatype tar_type = TypeDir | TypeReg | TypeOther

text \<open>The archive of \<open>CopyFromContainer\<close>: its entries and the error the reader ends with, if any.\<close>

type_synonym tar_entry = "string \<times> tar_type \<times> bytes"

record docker_api =
  da_Create :: "nat \<Rightarrow> container \<Rightarrow> string + string"
  da_Start :: "nat \<Rightarrow> string \<Rightarrow> string option"
  da_Stop :: "nat \<Rightarrow> string \<Rightarrow> string option"
  da_Remove :: "nat \<Rightarrow> string \<Rightarrow> string option"
  da_Attach :: "nat \<Rightarrow> string \<Rightarrow> string option"
  da_Wait :: "nat \<Rightarrow> string \<Rightarrow> wait_answer"
  da_Logs :: "nat \<Rightarrow> string \<Rightarrow> string + bytes"
  da_Copy :: "nat \<Rightarrow> string \<Rightarrow> string \<Rightarrow> string + tar_entry list \<times> string option"

datatype docker_call =
    DCreate container "string + string" | DStart string | DStop string int | DRemove string
  | DAttach string | DWait string | DLogs string | DCopy string string

section \<open>The world\<close>

text \<open>\<open>RetryCtx\<close> is derived from the context of the run and has a timeout as well.\<close>

datatype ctx = Background | RunCtx | RetryCtx

record world = sql_world +
  w_fs :: fs
  w_calls :: "docker_call list"
  w_hub :: "hub_msg list"
  w_docker :: docker_api
  w_uuid :: "nat \<Rightarrow> string"
  w_osfault :: "nat \<Rightarrow> string option"
  w_mtime :: "nat \<Rightarrow> path \<Rightarrow> time"
  w_cwd :: string
  w_done :: "nat \<Rightarrow> bool"
  w_expired :: "nat \<Rightarrow> bool"
  w_pick :: "nat \<Rightarrow> bool"

definition ctx_canceled :: string where
  "ctx_canceled = ''context canceled''"

definition ctx_deadline :: string where
  "ctx_deadline = ''context deadline exceeded''"

fun ctx_done :: "ctx \<Rightarrow> 'm world_scheme \<Rightarrow> nat \<Rightarrow> string option" where
  "ctx_done Background w t = None"
| "ctx_done RunCtx w t = (if w_done w t then Some ctx_canceled else None)"
| "ctx_done RetryCtx w t = (if w_done w t then Some ctx_canceled else if w_expired w t then Some ctx_deadline else None)"

definition ctx_Err :: "ctx \<Rightarrow> 'm world_scheme \<Rightarrow> string option" where
  "ctx_Err c w = ctx_done c w (w_tick w)"

text \<open>The statements of \<open>m\<close> run with the context \<open>c\<close>.\<close>

definition ctx_fault :: "ctx \<Rightarrow> 'm world_scheme \<Rightarrow> nat \<Rightarrow> string option" where
  "ctx_fault c w t = (case ctx_done c w t of Some e \<Rightarrow> Some e | None \<Rightarrow> w_fault w t)"

definition in_ctx :: "ctx \<Rightarrow> ('m world_scheme, 'a) state \<Rightarrow> ('m world_scheme, 'a) state" where
  "in_ctx c m = State (\<lambda>w. case run_state m (w\<lparr>w_fault := ctx_fault c w\<rparr>) of
     (r, w') \<Rightarrow> (r, w'\<lparr>w_fault := w_fault w\<rparr>))"

definition New_UUID :: "('m world_scheme, string) state" where
  "New_UUID = State (\<lambda>w. (w_uuid w (w_tick w), tick w))"

section \<open>Files\<close>

text \<open>A call to the operating system: it fails with an error of its own, or does what \<open>f\<close> says. A
  failed call changes nothing.\<close>

definition os_call :: "(string \<Rightarrow> fs \<Rightarrow> os_error + 'a \<times> fs) \<Rightarrow> ('m world_scheme, os_error + 'a) state" where
  "os_call f = State (\<lambda>w.
     case w_osfault w (w_tick w) of
       Some e \<Rightarrow> (Inl (OsError e), tick w)
     | None \<Rightarrow> (case f (w_cwd w) (w_fs w) of
         Inl e \<Rightarrow> (Inl e, tick w)
       | Inr (x, fs) \<Rightarrow> (Inr x, (tick w)\<lparr>w_fs := fs\<rparr>)))"

definition os_read :: "(path \<Rightarrow> fs \<Rightarrow> os_error + 'a) \<Rightarrow> string \<Rightarrow> ('m world_scheme, os_error + 'a) state" where
  "os_read f p = os_call (\<lambda>cwd fs. map_sum id (\<lambda>x. (x, fs)) (f (resolve cwd p) fs))"

definition os_Stat :: "string \<Rightarrow> ('m world_scheme, os_error + fnode) state" where
  "os_Stat = os_read fs_Stat"

definition os_ReadDir :: "string \<Rightarrow> ('m world_scheme, os_error + (string \<times> bool) list) state" where
  "os_ReadDir = os_read fs_ReadDir"

definition os_ReadFile :: "string \<Rightarrow> ('m world_scheme, os_error + bytes) state" where
  "os_ReadFile = os_read fs_ReadFile"

definition os_MkdirAll :: "string \<Rightarrow> ('m world_scheme, os_error + unit) state" where
  "os_MkdirAll p = os_call (\<lambda>cwd fs. map_sum id (Pair ()) (fs_MkdirAll (resolve cwd p) fs))"

definition os_WriteFile :: "string \<Rightarrow> bytes \<Rightarrow> ('m world_scheme, os_error + unit) state" where
  "os_WriteFile p data = os_call (\<lambda>cwd fs. map_sum id (Pair ()) (fs_WriteFile (resolve cwd p) data fs))"

definition os_RemoveAll :: "string \<Rightarrow> ('m world_scheme, os_error + unit) state" where
  "os_RemoveAll p = os_call (\<lambda>cwd fs. Inr ((), fs_RemoveAll (resolve cwd p) fs))"

definition os_Rename :: "string \<Rightarrow> string \<Rightarrow> ('m world_scheme, os_error + unit) state" where
  "os_Rename p q = os_call (\<lambda>cwd fs. map_sum id (Pair ()) (fs_Rename (resolve cwd p) (resolve cwd q) fs))"

definition file_size :: "path \<Rightarrow> fs \<Rightarrow> int" where
  "file_size p fs = (case fs_node fs p of Some (File c) \<Rightarrow> int (length c) | _ \<Rightarrow> 0)"

text \<open>The error of a call as Go prints it.\<close>

definition os_str :: "('m world_scheme, os_error + 'a) state \<Rightarrow> ('m world_scheme, 'a) io" where
  "os_str m = do { r \<leftarrow> m; State_Monad.return (map_sum os_msg id r) }"

section \<open>Calls to Docker and the hub\<close>

definition docker_sdk :: "(docker_api \<Rightarrow> nat \<Rightarrow> 'a) \<Rightarrow> ('a \<Rightarrow> docker_call) \<Rightarrow> ('m world_scheme, 'a) state" where
  "docker_sdk f call = State (\<lambda>w.
     let r = f (w_docker w) (w_tick w) in (r, (tick w)\<lparr>w_calls := w_calls w @ [call r]\<rparr>))"

definition hub_send :: "hub_msg \<Rightarrow> ('m world_scheme, unit) state" where
  "hub_send msg = modify (\<lambda>w. w\<lparr>w_hub := w_hub w @ [msg]\<rparr>)"

text \<open>\<open>RegisterAgent\<close> waits for the answer of the event loop, \<open>UnregisterAgent\<close> and
  \<open>InjectMessage\<close> only send.\<close>

definition RegisterAgent :: "string \<Rightarrow> string \<Rightarrow> ('m world_scheme, unit) state" where
  "RegisterAgent agentID taskID = hub_send (MsgRegisterAgent agentID taskID)"

definition UnregisterAgent :: "string \<Rightarrow> ('m world_scheme, unit) state" where
  "UnregisterAgent agentID = hub_send (MsgUnregisterAgent agentID)"

definition InjectMessage :: "string \<Rightarrow> bytes \<Rightarrow> ('m world_scheme, unit) state" where
  "InjectMessage agentID msg = hub_send (MsgInjectMessage agentID msg)"

section \<open>Running\<close>

lemma run_in_ctx [simp]:
  "run_state (in_ctx c m) w = (case run_state m (w\<lparr>w_fault := ctx_fault c w\<rparr>) of (r, w') \<Rightarrow> (r, w'\<lparr>w_fault := w_fault w\<rparr>))"
  by (simp add: in_ctx_def)

lemma run_New_UUID [simp]: "run_state New_UUID w = (w_uuid w (w_tick w), tick w)"
  by (simp add: New_UUID_def)

lemma run_hub_send [simp]: "run_state (hub_send m) w = ((), w\<lparr>w_hub := w_hub w @ [m]\<rparr>)"
  by (simp add: hub_send_def)

lemma run_docker_sdk [simp]:
  "run_state (docker_sdk f call) w = (f (w_docker w) (w_tick w), (tick w)\<lparr>w_calls := w_calls w @ [call (f (w_docker w) (w_tick w))]\<rparr>)"
  by (simp add: docker_sdk_def Let_def)

lemma tick_more [simp]: "world.more (tick w) = world.more w"
  by (cases w) (simp add: tick_def)

lemma tick_upd [simp]: "tick (w\<lparr>w_calls := l\<rparr>) = (tick w)\<lparr>w_calls := l\<rparr>" "tick (w\<lparr>w_hub := h\<rparr>) = (tick w)\<lparr>w_hub := h\<rparr>"
  "tick (w\<lparr>w_fs := fs\<rparr>) = (tick w)\<lparr>w_fs := fs\<rparr>"
  by (simp_all add: tick_def)

lemma tick_world [simp]: "w_fs (tick w) = w_fs w" "w_calls (tick w) = w_calls w" "w_hub (tick w) = w_hub w"
  "w_docker (tick w) = w_docker w" "w_cwd (tick w) = w_cwd w" "w_uuid (tick w) = w_uuid w" "w_done (tick w) = w_done w" "w_expired (tick w) = w_expired w"
  "w_osfault (tick w) = w_osfault w" "w_mtime (tick w) = w_mtime w" "w_pick (tick w) = w_pick w"
  by (simp_all add: tick_def)

lemma ctx_done_upd [simp]: "ctx_done c (tick w) = ctx_done c w" "ctx_done c (w\<lparr>w_calls := l\<rparr>) = ctx_done c w"
  "ctx_done c (w\<lparr>w_hub := h\<rparr>) = ctx_done c w" "ctx_done c (w\<lparr>w_fs := fs\<rparr>) = ctx_done c w"
  "ctx_done c (w\<lparr>w_tick := k\<rparr>) = ctx_done c w" "ctx_done c (w\<lparr>w_store := s\<rparr>) = ctx_done c w" "ctx_done c (w\<lparr>w_fault := f\<rparr>) = ctx_done c w"
  by (rule ext, cases c; simp)+

section \<open>Relations that code keeps\<close>

text \<open>\<open>still_rel\<close>: the same answers to come and nothing of an extension changed. \<open>quiet_rel\<close>: also the
  same files, calls and messages.\<close>

definition still_rel :: "'m world_scheme \<Rightarrow> 'm world_scheme \<Rightarrow> bool" where
  "still_rel w w' \<longleftrightarrow> w_clock w' = w_clock w \<and> w_cwd w' = w_cwd w \<and> w_docker w' = w_docker w \<and> w_uuid w' = w_uuid w \<and>
     w_osfault w' = w_osfault w \<and> w_mtime w' = w_mtime w \<and> w_done w' = w_done w \<and> w_expired w' = w_expired w \<and> w_pick w' = w_pick w \<and>
     world.more w' = world.more w"

lemma still_ctx_done: "still_rel w w' \<Longrightarrow> ctx_done c w' = ctx_done c w"
  by (rule ext, cases c) (auto simp: still_rel_def)

definition quiet_rel :: "'m world_scheme \<Rightarrow> 'm world_scheme \<Rightarrow> bool" where
  "quiet_rel w w' \<longleftrightarrow> w_fs w' = w_fs w \<and> w_calls w' = w_calls w \<and> w_hub w' = w_hub w \<and> still_rel w w'"

interpretation quiet: step_logic quiet_rel
  by unfold_locales (auto simp: quiet_rel_def still_rel_def)

text \<open>Statements only change the database.\<close>

definition sql_rel :: "'m sql_world_scheme \<Rightarrow> 'm sql_world_scheme \<Rightarrow> bool" where
  "sql_rel w w' \<longleftrightarrow> sql_world.more w' = sql_world.more w \<and> w_clock w' = w_clock w \<and> w_fault w' = w_fault w"

interpretation sql: step_logic sql_rel
  by unfold_locales (auto simp: sql_rel_def)

lemma sql_exec [intro]: "sql.steps (exec f)"
  by (rule sql.stepsI) (simp add: exec_def tick_def sql_rel_def split: option.split sum.split)

lemma sql_query [intro]: "sql.steps (query f)"
  unfolding query_def by auto

lemma sql_time_now [intro]: "sql.steps time_now"
  by (rule sql.stepsI) (simp add: sql_rel_def tick_def)

lemma sql_update_task [intro]: "sql.steps (update_task i f)"
  unfolding update_task_def by auto

lemma sql_update_agent [intro]: "sql.steps (update_agent i f)"
  unfolding update_agent_def by auto

lemma sql_update_plan [intro]: "sql.steps (update_plan i f)"
  unfolding update_plan_def by auto

section \<open>The methods of the database\<close>

lemma sql_methods [intro]:
  "sql.steps (CreateTask a1)"
  "sql.steps (GetTask a2)"
  "sql.steps (ListTasks a3 b3)"
  "sql.steps (UpdateTaskStatus a4 b4)"
  "sql.steps (UpdateTaskStarted a5)"
  "sql.steps (UpdateTaskCompleted a6)"
  "sql.steps (UpdateTaskFailed a7 b7)"
  "sql.steps (UpdateTaskHasState a8 b8)"
  "sql.steps (DeleteTask a9)"
  "sql.steps (CountTasks a10)"
  "sql.steps (CreateEvent a11)"
  "sql.steps (ListEventsByTask a12 b12)"
  "sql.steps (CreateAgent a13)"
  "sql.steps (GetAgent a14)"
  "sql.steps (UpdateAgentStatus a15 b15)"
  "sql.steps (UpdateAgentCompleted a16 b16 c16)"
  "sql.steps (UpdateAgentContainer a17 b17)"
  "sql.steps (ListAgentsByTask a18)"
  "sql.steps (CreatePlan a19)"
  "sql.steps (GetPlanByTask a20)"
  "sql.steps (UpdatePlanStatus a21 b21)"
  "sql.steps (UpdatePlanSubtasks a22 b22)"
  "sql.steps (CreateTaskFile a23)"
  "sql.steps (ListTaskFiles a24 b24)"
  "sql.steps (CreateCheckpoint a25)"
  "sql.steps (GetLatestCheckpoint a26)"
  "sql.steps (ListCheckpointsByTask a27)"
  "sql.steps (DeleteCheckpoint a28)"
  "sql.steps (CreateRepoTemplate a29)"
  "sql.steps ListRepoTemplates"
  "sql.steps (GetRepoTemplate a30)"
  "sql.steps (UpdateRepoTemplate a31)"
  "sql.steps (DeleteRepoTemplate a32)"
  "sql.steps (CreateRepoMemory a33)"
  "sql.steps (GetRepoMemory a34 b34)"
  "sql.steps (GetRepoMemoryByCommit a35 b35 c35)"
  "sql.steps (DeleteRepoMemoriesByTemplate a36)"
  "sql.steps (CreatePlannerQuestion a37)"
  "sql.steps (AnswerPlannerQuestion a38 b38)"
  "sql.steps (ListPlannerQuestions a39)"
  "sql.steps (CreateTeamTemplate a40)"
  "sql.steps ListTeamTemplates"
  "sql.steps (GetTeamTemplate a41)"
  "sql.steps (UpdateTeamTemplate a42)"
  "sql.steps (DeleteTeamTemplate a43)"
  "sql.steps (CreateAgentMessage a44)"
  "sql.steps (ListAgentMessages a45 b45)"
  "sql.steps (ListAgentMessagesAfterID a46 b46)"
  unfolding CreateTask_def GetTask_def ListTasks_def UpdateTaskStatus_def UpdateTaskStarted_def UpdateTaskCompleted_def UpdateTaskFailed_def UpdateTaskHasState_def DeleteTask_def CountTasks_def CreateEvent_def ListEventsByTask_def CreateAgent_def GetAgent_def UpdateAgentStatus_def UpdateAgentCompleted_def UpdateAgentContainer_def ListAgentsByTask_def CreatePlan_def GetPlanByTask_def UpdatePlanStatus_def UpdatePlanSubtasks_def CreateTaskFile_def ListTaskFiles_def CreateCheckpoint_def GetLatestCheckpoint_def ListCheckpointsByTask_def DeleteCheckpoint_def CreateRepoTemplate_def ListRepoTemplates_def GetRepoTemplate_def UpdateRepoTemplate_def DeleteRepoTemplate_def CreateRepoMemory_def GetRepoMemory_def GetRepoMemoryByCommit_def DeleteRepoMemoriesByTemplate_def CreatePlannerQuestion_def AnswerPlannerQuestion_def ListPlannerQuestions_def CreateTeamTemplate_def ListTeamTemplates_def GetTeamTemplate_def UpdateTeamTemplate_def DeleteTeamTemplate_def CreateAgentMessage_def ListAgentMessages_def ListAgentMessagesAfterID_def
  by (intro sql.steps_intros sql_exec sql_query sql_time_now sql_update_task sql_update_agent sql_update_plan)+

lemma sql_quiet: "sql.steps m \<Longrightarrow> quiet.steps m"
  for m :: "('m world_scheme, 'a) state"
proof (rule quiet.stepsI)
  fix w :: "'m world_scheme" assume "sql.steps m"
  from sql.stepsD [OF this, of w] show "quiet_rel w (snd (run_state m w))"
    by (cases w, cases "snd (run_state m w)") (simp add: sql_rel_def quiet_rel_def still_rel_def)
qed

section \<open>Code that keeps a relation\<close>

locale effect_logic = step_logic R for R :: "'m world_scheme \<Rightarrow> 'm world_scheme \<Rightarrow> bool" +
  assumes R_quiet: "quiet_rel w w' \<Longrightarrow> R w w'"
begin

lemma steps_quiet: "quiet.steps m \<Longrightarrow> steps m"
  by (rule stepsI) (rule R_quiet, rule quiet.stepsD)

lemma steps_sql: "sql.steps m \<Longrightarrow> steps m"
  by (rule steps_quiet) (rule sql_quiet)

lemma steps_in_ctx [intro]: "steps m \<Longrightarrow> steps (in_ctx c m)"
proof (rule stepsI)
  fix w :: "'m world_scheme" assume m: "steps m"
  let ?w = "w\<lparr>w_fault := ctx_fault c w\<rparr>"
  obtain r w' where r: "run_state m ?w = (r, w')" by fastforce
  have "R w ?w" by (rule R_quiet) (simp add: quiet_rel_def still_rel_def)
  moreover have "R ?w w'" by (rule stepsE [OF m r])
  moreover have "R w' (w'\<lparr>w_fault := w_fault w\<rparr>)" by (rule R_quiet) (simp add: quiet_rel_def still_rel_def)
  ultimately show "R w (snd (run_state (in_ctx c m) w))" by (simp add: r) (blast intro: R_trans)
qed

lemma steps_New_UUID [intro]: "steps New_UUID"
  by (rule stepsI) (simp add: R_quiet quiet_rel_def still_rel_def)

lemma steps_os_read [intro]: "steps (os_read f p)"
proof (rule stepsI)
  fix w :: "'m world_scheme"
  show "R w (snd (run_state (os_read f p) w))"
    by (cases "f (resolve (w_cwd w) p) (w_fs w)")
       (simp_all add: os_read_def os_call_def R_quiet quiet_rel_def still_rel_def split: option.split)
qed

lemma steps_os_str [intro]: "steps m \<Longrightarrow> steps (os_str m)"
  unfolding os_str_def by auto

lemma steps_os_Stat [intro]: "steps (os_Stat p)"
  unfolding os_Stat_def by auto

lemma steps_os_ReadDir [intro]: "steps (os_ReadDir p)"
  unfolding os_ReadDir_def by auto

lemma steps_os_ReadFile [intro]: "steps (os_ReadFile p)"
  unfolding os_ReadFile_def by auto

lemma steps_ctx_sql [intro]: "sql.steps m \<Longrightarrow> steps (in_ctx c m)"
  by (intro steps_in_ctx steps_sql)

lemmas effect_intros = steps_intros steps_ctx_sql sql_methods steps_New_UUID steps_os_read steps_os_Stat steps_os_ReadDir
  steps_os_ReadFile steps_os_str

end

interpretation quiet: effect_logic quiet_rel
  by unfold_locales simp

interpretation still: effect_logic still_rel
  by unfold_locales (auto simp: quiet_rel_def still_rel_def)

lemma still_os_call [intro]: "still.steps (os_call f)"
  by (rule still.stepsI) (simp add: still_rel_def os_call_def split: option.split sum.split)

lemma still_hub_send [intro]: "still.steps (hub_send m)"
  by (rule still.stepsI) (simp add: still_rel_def)

lemma still_docker_sdk [intro]: "still.steps (docker_sdk f call)"
  by (rule still.stepsI) (simp add: still_rel_def)

text \<open>The Docker calls made are of the kind \<open>P\<close>.\<close>

definition calls_rel :: "(docker_call \<Rightarrow> bool) \<Rightarrow> 'm world_scheme \<Rightarrow> 'm world_scheme \<Rightarrow> bool" where
  "calls_rel P w w' \<longleftrightarrow> (\<exists>l. w_calls w' = w_calls w @ l \<and> list_all P l)"

interpretation calls: effect_logic "calls_rel P" for P
proof unfold_locales
  fix s t u :: "'b world_scheme"
  show "calls_rel P s s" by (auto simp: calls_rel_def intro: exI [of _ "[]"])
  show "calls_rel P s t \<Longrightarrow> calls_rel P t u \<Longrightarrow> calls_rel P s u"
    by (force simp: calls_rel_def)
  show "quiet_rel s t \<Longrightarrow> calls_rel P s t"
    by (auto simp: calls_rel_def quiet_rel_def intro: exI [of _ "[]"])
qed

lemma calls_os_call [intro]: "calls.steps P (os_call f)"
  by (rule calls.stepsI) (auto simp: calls_rel_def os_call_def intro: exI [of _ "[]"] split: option.split sum.split)

lemma calls_hub_send [intro]: "calls.steps P (hub_send m)"
  by (rule calls.stepsI) (auto simp: calls_rel_def intro: exI [of _ "[]"])

lemma calls_docker_sdk [intro]: "(\<And>r. P (call r)) \<Longrightarrow> calls.steps P (docker_sdk f call)"
  by (rule calls.stepsI) (auto simp: calls_rel_def intro: exI [of _ "[call r]" for r])

text \<open>Started in the working directory \<open>cwd\<close>, files change only below the directories \<open>D\<close>, and
  directories appear above them.\<close>

definition file_ok :: "path set \<Rightarrow> fs \<Rightarrow> fs \<Rightarrow> path \<Rightarrow> bool" where
  "file_ok D fs fs' q \<longleftrightarrow> fs_node fs' q = fs_node fs q \<or> (\<exists>d \<in> D. under d q) \<or>
     (fs_node fs q = None \<and> fs_node fs' q = Some Dir \<and> (\<exists>d \<in> D. under q d))"

definition files_rel :: "string \<Rightarrow> path set \<Rightarrow> 'm world_scheme \<Rightarrow> 'm world_scheme \<Rightarrow> bool" where
  "files_rel cwd D w w' \<longleftrightarrow> w_cwd w' = w_cwd w \<and>
     (w_cwd w = cwd \<longrightarrow> fs_ok (w_fs w) \<longrightarrow> fs_ok (w_fs w') \<and> (\<forall>q. file_ok D (w_fs w) (w_fs w') q))"

lemma file_ok_trans: "file_ok D a b q \<Longrightarrow> file_ok D b c q \<Longrightarrow> file_ok D a c q"
  by (auto simp: file_ok_def)

interpretation files: effect_logic "files_rel cwd D" for cwd D
proof unfold_locales
  fix s t u :: "'b world_scheme"
  show "files_rel cwd D s s" by (simp add: files_rel_def file_ok_def)
  show "quiet_rel s t \<Longrightarrow> files_rel cwd D s t" by (simp add: files_rel_def quiet_rel_def still_rel_def file_ok_def)
  show "files_rel cwd D s t \<Longrightarrow> files_rel cwd D t u \<Longrightarrow> files_rel cwd D s u"
    unfolding files_rel_def using file_ok_trans by metis
qed

lemma files_hub_send [intro]: "files.steps cwd D (hub_send m)"
  by (rule files.stepsI) (simp add: files_rel_def file_ok_def)

lemma files_docker_sdk [intro]: "files.steps cwd D (docker_sdk f call)"
  by (rule files.stepsI) (simp add: files_rel_def file_ok_def)

lemma files_os_call:
  assumes "\<And>fs x fs'. fs_ok fs \<Longrightarrow> f cwd fs = Inr (x, fs') \<Longrightarrow> fs_ok fs' \<and> (\<forall>q. file_ok D fs fs' q)"
  shows "files.steps cwd D (os_call f)"
  by (rule files.stepsI)
     (use assms in \<open>auto simp: files_rel_def os_call_def file_ok_def split: option.split sum.split\<close>)

lemma files_MkdirAll:
  assumes "d \<in> D" "under d (resolve cwd p) \<or> under (resolve cwd p) d"
  shows "files.steps cwd D (os_MkdirAll p)"
  unfolding os_MkdirAll_def
proof (rule files_os_call)
  fix fs x fs' assume ok: "fs_ok fs" and r: "map_sum id (Pair ()) (fs_MkdirAll (resolve cwd p) fs) = Inr (x, fs')"
  then have m: "fs_MkdirAll (resolve cwd p) fs = Inr fs'" by (cases "fs_MkdirAll (resolve cwd p) fs") auto
  note mk = fs_MkdirAll_ok [OF m ok]
  have "file_ok D fs fs' q" for q
  proof (cases "under q (resolve cwd p)")
    case True
    then have n: "fs_node fs' q = Some Dir" using mk(3) by simp
    show ?thesis
    proof (cases "fs_node fs q")
      case None
      have "under d q \<or> under q d" using assms(2) under_linear [OF _ True] under_trans [OF True] by blast
      with n None assms(1) show ?thesis by (auto simp: file_ok_def)
    next
      case (Some a)
      with fs_MkdirAll_keeps [OF m] show ?thesis by (simp add: file_ok_def)
    qed
  next
    case False
    then show ?thesis using mk(3) by (simp add: file_ok_def)
  qed
  with mk(1) show "fs_ok fs' \<and> (\<forall>q. file_ok D fs fs' q)" by blast
qed

lemma files_WriteFile:
  assumes "d \<in> D" "under d (resolve cwd p)"
  shows "files.steps cwd D (os_WriteFile p data)"
  unfolding os_WriteFile_def
proof (rule files_os_call)
  fix fs x fs' assume ok: "fs_ok fs" and r: "map_sum id (Pair ()) (fs_WriteFile (resolve cwd p) data fs) = Inr (x, fs')"
  then have m: "fs_WriteFile (resolve cwd p) data fs = Inr fs'" by (cases "fs_WriteFile (resolve cwd p) data fs") auto
  from fs_WriteFile_ok [OF m] ok assms show "fs_ok fs' \<and> (\<forall>q. file_ok D fs fs' q)"
    by (auto simp: file_ok_def)
qed

lemma files_RemoveAll:
  assumes "d \<in> D" "under d (resolve cwd p)"
  shows "files.steps cwd D (os_RemoveAll p)"
  unfolding os_RemoveAll_def
proof (rule files_os_call)
  fix fs :: fs and x :: unit and fs'
  assume ok: "fs_ok fs" and r: "(Inr ((), fs_RemoveAll (resolve cwd p) fs) :: os_error + unit \<times> fs) = Inr (x, fs')"
  have "file_ok D fs (fs_RemoveAll (resolve cwd p) fs) q" for q
  proof (cases "snd q = []")
    case True
    then show ?thesis by (simp add: file_ok_def fs_node_def)
  next
    case False
    then have "fs_node (fs_RemoveAll (resolve cwd p) fs) q = fs_node fs q \<or> under d q"
      using fs_RemoveAll_node [OF False, of "resolve cwd p" fs] under_trans [OF assms(2)] by (cases "under (resolve cwd p) q") simp_all
    with assms(1) show ?thesis by (auto simp: file_ok_def)
  qed
  moreover have "fs' = fs_RemoveAll (resolve cwd p) fs" using r by simp
  ultimately show "fs_ok fs' \<and> (\<forall>q. file_ok D fs fs' q)" using fs_RemoveAll_ok [OF ok] by blast
qed

lemma files_Rename:
  assumes "d \<in> D" "under d (resolve cwd p)" "d' \<in> D" "under d' (resolve cwd p')" "snd d \<noteq> []" "snd d' \<noteq> []"
  shows "files.steps cwd D (os_Rename p p')"
  unfolding os_Rename_def
proof (rule files_os_call)
  let ?p = "resolve cwd p" and ?q = "resolve cwd p'"
  fix fs x fs' assume ok: "fs_ok fs" and r: "map_sum id (Pair ()) (fs_Rename ?p ?q fs) = Inr (x, fs')"
  then have m: "fs_Rename ?p ?q fs = Inr fs'" by (cases "fs_Rename ?p ?q fs") auto
  have ne: "snd ?p \<noteq> []" "snd ?q \<noteq> []" using assms by (auto simp: under_def)
  have "file_ok D fs fs' q" for q
  proof (cases "snd q = []")
    case True
    then show ?thesis by (simp add: file_ok_def fs_node_def)
  next
    case False
    then have "fs_node fs' q = fs_node fs q \<or> under d q \<or> under d' q"
      using fs_Rename_node [OF m ok ne False] under_trans [OF assms(2)] under_trans [OF assms(4)]
      by (cases "under ?q q"; cases "under ?p q") simp_all
    with assms(1,3) show ?thesis by (auto simp: file_ok_def)
  qed
  with fs_Rename_ok [OF m ok ne] show "fs_ok fs' \<and> (\<forall>q. file_ok D fs fs' q)" by blast
qed

text \<open>The database's integrity is kept whatever the context.\<close>

lemma dbi_in_ctx [intro]: "dbi.steps m \<Longrightarrow> dbi.steps (in_ctx c m)"
proof (rule dbi.stepsI)
  fix w assume m: "dbi.steps m"
  obtain r w' where r: "run_state m (w\<lparr>w_fault := ctx_fault c w\<rparr>) = (r, w')" by fastforce
  from dbi.stepsE [OF m r] show "keeps_ok w (snd (run_state (in_ctx c m) w))"
    by (simp add: r keeps_ok_def)
qed

lemma dbi_os_call [intro]: "dbi.steps (os_call f)"
  by (rule dbi.stepsI) (simp add: keeps_ok_def os_call_def split: option.split sum.split)

lemma dbi_hub_send [intro]: "dbi.steps (hub_send m)"
  by (rule dbi.stepsI) (simp add: keeps_ok_def)

lemma dbi_docker_sdk [intro]: "dbi.steps (docker_sdk f call)"
  by (rule dbi.stepsI) (simp add: keeps_ok_def)

lemma dbi_New_UUID [intro]: "dbi.steps New_UUID"
  by (rule dbi.stepsI) (simp add: keeps_ok_def)

lemma dbi_os_str [intro]: "dbi.steps m \<Longrightarrow> dbi.steps (os_str m)"
  unfolding os_str_def by auto

section \<open>A world without faults\<close>

definition calm_docker :: docker_api where
  "calm_docker = \<lparr>da_Create = (\<lambda>t c. Inr (''c'' @ itoa (int t))), da_Start = (\<lambda>t i. None), da_Stop = (\<lambda>t i. None),
     da_Remove = (\<lambda>t i. None), da_Attach = (\<lambda>t i. None), da_Wait = (\<lambda>t i. Exited 0 None), da_Logs = (\<lambda>t i. Inr []),
     da_Copy = (\<lambda>t i p. Inr ([], None))\<rparr>"

definition calm_world :: "store \<Rightarrow> fs \<Rightarrow> docker_api \<Rightarrow> world" where
  "calm_world s fs d = \<lparr>w_store = s, w_tick = 0, w_clock = (\<lambda>t. int t * 1000000000), w_fault = (\<lambda>t. None), w_fs = fs,
     w_calls = [], w_hub = [], w_docker = d, w_uuid = (\<lambda>t. ''id-'' @ itoa (int t)), w_osfault = (\<lambda>t. None),
     w_mtime = (\<lambda>t p. 0), w_cwd = ''/srv'', w_done = (\<lambda>t. False), w_expired = (\<lambda>t. False), w_pick = (\<lambda>t. False)\<rparr>"

end
