(* ===== verification/Config_Load.thy ===== *)
theory Config_Load
  imports Go_Path Json_Codec
begin

text \<open>
  The configuration, \<open>internal/config/config.go\<close>: defaults, the YAML file, the environment,
  validation. The YAML package is not part of the repository: \<open>Load\<close> takes its
  \<open>Unmarshal\<close> as an argument, like the file, the environment, the home directory and the
  operating system. Of \<open>time.ParseDuration\<close> only the floating point step for fractions is an
  argument, everything else is its definition.
\<close>

section \<open>Numbers and durations\<close>

text \<open>\<open>strconv.Atoi\<close>: an optional sign and digits that fit into 64 bits.\<close>

definition Atoi :: "string \<Rightarrow> int option" where
  "Atoi s = (case s of [] \<Rightarrow> None
     | c # r \<Rightarrow> if c = CHR ''+'' then (case r of [] \<Rightarrow> None | d # _ \<Rightarrow> if d = CHR ''-'' then None else parse_int64 r)
                else parse_int64 s)"

text \<open>\<open>leadingInt\<close>: the value of the leading digits and the rest, or an overflow.\<close>

fun leadingInt :: "nat \<Rightarrow> string \<Rightarrow> (nat \<times> string) option" where
  "leadingInt v [] = Some (v, [])"
| "leadingInt v (c # s) =
     (case digit_value c of None \<Rightarrow> Some (v, c # s)
      | Some d \<Rightarrow> if v > 2 ^ 63 div 10 then None
                 else if v * 10 + d > 2 ^ 63 then None else leadingInt (v * 10 + d) s)"

text \<open>\<open>leadingFraction\<close>: value and scale of the digits after the point; digits that do not fit any
  more are skipped.\<close>

fun leadingFraction :: "nat \<Rightarrow> nat \<Rightarrow> bool \<Rightarrow> string \<Rightarrow> nat \<times> nat \<times> string" where
  "leadingFraction x scale overflow [] = (x, scale, [])"
| "leadingFraction x scale overflow (c # s) =
     (case digit_value c of None \<Rightarrow> (x, scale, c # s)
      | Some d \<Rightarrow>
          if overflow \<or> x > (2 ^ 63 - 1) div 10 \<or> x * 10 + d > 2 ^ 63 then leadingFraction x scale True s
          else leadingFraction (x * 10 + d) (scale * 10) False s)"

definition duration_unit :: "string \<Rightarrow> nat option" where
  "duration_unit u = map_of
     [(''ns'', 1), (''us'', 10 ^ 3), ([CHR 0xC2, CHR 0xB5, CHR ''s''], 10 ^ 3),
      ([CHR 0xCE, CHR 0xBC, CHR ''s''], 10 ^ 3), (''ms'', 10 ^ 6), (''s'', 10 ^ 9),
      (''m'', 60 * 10 ^ 9), (''h'', 3600 * 10 ^ 9)] u"

definition unit_char :: "char \<Rightarrow> bool" where
  "unit_char c \<longleftrightarrow> c \<noteq> CHR ''.'' \<and> digit_value c = None"

text \<open>One term of a duration: its nanoseconds and the rest. \<open>frac f unit scale\<close> is
  \<open>uint64(float64(f) * (float64(unit) / scale))\<close>.\<close>

definition duration_term :: "(nat \<Rightarrow> nat \<Rightarrow> nat \<Rightarrow> nat) \<Rightarrow> string \<Rightarrow> (nat \<times> string) option" where
  "duration_term frac s =
     (case s of [] \<Rightarrow> None
      | c # _ \<Rightarrow>
        if unit_char c then None
        else case leadingInt 0 s of None \<Rightarrow> None
        | Some (v, s1) \<Rightarrow>
          (let pre = length s \<noteq> length s1;
               (f, scale, s2) = (case s1 of [] \<Rightarrow> (0, 1, s1)
                  | p # r \<Rightarrow> if p = CHR ''.'' then leadingFraction 0 1 False r else (0, 1, s1));
               post = (case s1 of [] \<Rightarrow> False | p # r \<Rightarrow> p = CHR ''.'' \<and> length r \<noteq> length s2)
           in if \<not> pre \<and> \<not> post then None
              else case duration_unit (takeWhile unit_char s2) of None \<Rightarrow> None
              | Some u \<Rightarrow>
                if v > 2 ^ 63 div u then None
                else let w = v * u + (if f > 0 then frac f u scale else 0) in
                  if f > 0 \<and> w > 2 ^ 63 then None else Some (w, dropWhile unit_char s2)))"

lemma leadingInt_length: "leadingInt v s = Some (w, r) \<Longrightarrow> length r \<le> length s"
  by (induction v s rule: leadingInt.induct) (auto split: option.splits if_splits)

lemma leadingFraction_length: "leadingFraction x sc ov s = (f, sc', r) \<Longrightarrow> length r \<le> length s"
  by (induction x sc ov s rule: leadingFraction.induct) (auto split: option.splits if_splits)

lemma duration_unit_Nil [simp]: "duration_unit [] = None"
  by (simp add: duration_unit_def)

lemma unit_shorter: "duration_unit (takeWhile unit_char s) = Some u \<Longrightarrow> length (dropWhile unit_char s) < length s"
  by (cases s) (auto split: if_splits simp: less_Suc_eq_le length_dropWhile_le)

lemma duration_term_shorter: "duration_term frac s = Some (v, s') \<Longrightarrow> length s' < length s"
proof -
  assume t: "duration_term frac s = Some (v, s')"
  then obtain v0 s1 where s1: "leadingInt 0 s = Some (v0, s1)"
    by (auto simp: duration_term_def split: list.splits option.splits if_splits)
  have "\<exists>s2 u. length s2 \<le> length s1 \<and> duration_unit (takeWhile unit_char s2) = Some u \<and> s' = dropWhile unit_char s2"
  proof (cases "s1 = [] \<or> hd s1 \<noteq> CHR ''.''")
    case True
    with t s1 show ?thesis
      by (intro exI [of _ s1]) (auto simp: duration_term_def Let_def split: list.splits option.splits if_splits)
  next
    case False
    then obtain r where r: "s1 = CHR ''.'' # r" by (cases s1) auto
    obtain f sc s2 where f: "leadingFraction 0 1 False r = (f, sc, s2)" by (cases "leadingFraction 0 1 False r") auto
    with t s1 r leadingFraction_length [OF f] show ?thesis
      by (intro exI [of _ s2]) (auto simp: duration_term_def Let_def split: list.splits option.splits if_splits)
  qed
  then show ?thesis using unit_shorter leadingInt_length [OF s1] by fastforce
qed

function duration_terms :: "(nat \<Rightarrow> nat \<Rightarrow> nat \<Rightarrow> nat) \<Rightarrow> nat \<Rightarrow> string \<Rightarrow> nat option" where
  "duration_terms frac d s =
     (if s = [] then Some d
      else case duration_term frac s of None \<Rightarrow> None
      | Some (v, s') \<Rightarrow> if d + v > 2 ^ 63 then None else duration_terms frac (d + v) s')"
  by pat_completeness auto

termination duration_terms
  by (relation "measure (\<lambda>(frac, d, s). length s)") (auto dest: duration_term_shorter)

declare duration_terms.simps [simp del]

definition ParseDuration :: "(nat \<Rightarrow> nat \<Rightarrow> nat \<Rightarrow> nat) \<Rightarrow> string \<Rightarrow> int option" where
  "ParseDuration frac str =
     (let (neg, s) = (case str of [] \<Rightarrow> (False, [])
        | c # r \<Rightarrow> if c = CHR ''-'' \<or> c = CHR ''+'' then (c = CHR ''-'', r) else (False, str)) in
      if s = ''0'' then Some 0
      else if s = [] then None
      else case duration_terms frac 0 s of None \<Rightarrow> None
      | Some d \<Rightarrow> if neg then Some (- int d) else if d > 2 ^ 63 - 1 then None else Some (int d))"

section \<open>Data\<close>

record ServerConfig =
  sv_Port :: int
  sv_Host :: string

record DockerConfig =
  dk_Host :: string
  dk_ImageName :: string
  dk_Network :: string
  dk_MaxAgents :: int
  dk_MaxAgentsPerTask :: int

record ClaudeConfig =
  cc_AuthMode :: string
  cc_HostDir :: string
  cc_HostJsonFile :: string
  cc_SessionKey :: string

record DatabaseConfig =
  dc_Path :: string

record StorageConfig =
  sc_DataDir :: string
  sc_StatesDir :: string
  sc_FilesDir :: string

record StateConfig =
  stc_AutoSaveInterval :: int
  stc_AutoSaveEnabled :: bool
  stc_MaxCheckpoints :: int
  stc_RetentionDays :: int

record Config =
  cf_Server :: ServerConfig
  cf_Docker :: DockerConfig
  cf_Claude :: ClaudeConfig
  cf_Database :: DatabaseConfig
  cf_Storage :: StorageConfig
  cf_State :: StateConfig
  cf_FilePath :: string

section \<open>Loading\<close>

definition defaultDockerHost :: "bool \<Rightarrow> string" where
  "defaultDockerHost windows =
     (if windows then ''npipe:////./pipe/docker_engine'' else ''unix:///var/run/docker.sock'')"

definition defaultClaudeDir :: "string option \<Rightarrow> string" where
  "defaultClaudeDir home = (case home of None \<Rightarrow> [] | Some h \<Rightarrow> path_Join [h, ''.claude''])"

definition defaultClaudeJsonFile :: "string option \<Rightarrow> string" where
  "defaultClaudeJsonFile home = (case home of None \<Rightarrow> [] | Some h \<Rightarrow> path_Join [h, ''.claude.json''])"

definition defaults :: "bool \<Rightarrow> string option \<Rightarrow> Config" where
  "defaults windows home = \<lparr>
     cf_Server = \<lparr>sv_Port = 8080, sv_Host = ''0.0.0.0''\<rparr>,
     cf_Docker = \<lparr>dk_Host = defaultDockerHost windows, dk_ImageName = ''klaudio-agent'',
       dk_Network = ''klaudio-net'', dk_MaxAgents = 5, dk_MaxAgentsPerTask = 3\<rparr>,
     cf_Claude = \<lparr>cc_AuthMode = ''host'', cc_HostDir = defaultClaudeDir home,
       cc_HostJsonFile = defaultClaudeJsonFile home, cc_SessionKey = []\<rparr>,
     cf_Database = \<lparr>dc_Path = ''data/klaudio.db''\<rparr>,
     cf_Storage = \<lparr>sc_DataDir = ''data'', sc_StatesDir = ''data/states'', sc_FilesDir = ''data/files''\<rparr>,
     cf_State = \<lparr>stc_AutoSaveInterval = 5 * 60 * 10 ^ 9, stc_AutoSaveEnabled = True,
       stc_MaxCheckpoints = 3, stc_RetentionDays = 7\<rparr>,
     cf_FilePath = []\<rparr>"

text \<open>\<open>if v := os.Getenv(k); v != "" { ... }\<close>, and the same with a conversion that may fail.\<close>

definition env_string :: "(string \<Rightarrow> string) \<Rightarrow> string \<Rightarrow> (string \<Rightarrow> Config \<Rightarrow> Config) \<Rightarrow> Config \<Rightarrow> Config" where
  "env_string env k set_it c = (if env k = [] then c else set_it (env k) c)"

definition env_conv :: "(string \<Rightarrow> 'a option) \<Rightarrow> (string \<Rightarrow> string) \<Rightarrow> string \<Rightarrow> ('a \<Rightarrow> Config \<Rightarrow> Config) \<Rightarrow> Config \<Rightarrow> Config" where
  "env_conv conv env k set_it c =
     (if env k = [] then c else case conv (env k) of None \<Rightarrow> c | Some x \<Rightarrow> set_it x c)"

definition applyEnvOverrides :: "(nat \<Rightarrow> nat \<Rightarrow> nat \<Rightarrow> nat) \<Rightarrow> (string \<Rightarrow> string) \<Rightarrow> Config \<Rightarrow> Config" where
  "applyEnvOverrides frac env c = fold (\<lambda>f c. f c)
     [env_conv Atoi env ''KLAUDIO_PORT'' (\<lambda>x. cf_Server_update (sv_Port_update (\<lambda>_. x))),
      env_string env ''KLAUDIO_HOST'' (\<lambda>x. cf_Server_update (sv_Host_update (\<lambda>_. x))),
      env_string env ''DOCKER_HOST'' (\<lambda>x. cf_Docker_update (dk_Host_update (\<lambda>_. x))),
      env_string env ''KLAUDIO_DOCKER_IMAGE'' (\<lambda>x. cf_Docker_update (dk_ImageName_update (\<lambda>_. x))),
      env_conv Atoi env ''KLAUDIO_MAX_AGENTS'' (\<lambda>x. cf_Docker_update (dk_MaxAgents_update (\<lambda>_. x))),
      env_conv Atoi env ''KLAUDIO_MAX_AGENTS_PER_TASK'' (\<lambda>x. cf_Docker_update (dk_MaxAgentsPerTask_update (\<lambda>_. x))),
      env_string env ''CLAUDE_SESSION_KEY'' (\<lambda>x. cf_Claude_update (cc_SessionKey_update (\<lambda>_. x))),
      env_string env ''KLAUDIO_AUTH_MODE'' (\<lambda>x. cf_Claude_update (cc_AuthMode_update (\<lambda>_. x))),
      env_string env ''KLAUDIO_CLAUDE_DIR'' (\<lambda>x. cf_Claude_update (cc_HostDir_update (\<lambda>_. x))),
      env_string env ''KLAUDIO_DB_PATH'' (\<lambda>x. cf_Database_update (dc_Path_update (\<lambda>_. x))),
      env_string env ''KLAUDIO_DATA_DIR'' (\<lambda>x. cf_Storage_update (sc_DataDir_update (\<lambda>_. x))),
      env_string env ''KLAUDIO_STATES_DIR'' (\<lambda>x. cf_Storage_update (sc_StatesDir_update (\<lambda>_. x))),
      env_string env ''KLAUDIO_FILES_DIR'' (\<lambda>x. cf_Storage_update (sc_FilesDir_update (\<lambda>_. x))),
      env_string env ''KLAUDIO_AUTOSAVE_ENABLED''
        (\<lambda>x. cf_State_update (stc_AutoSaveEnabled_update (\<lambda>_. x = ''true'' \<or> x = ''1''))),
      env_conv (ParseDuration frac) env ''KLAUDIO_AUTOSAVE_INTERVAL''
        (\<lambda>x. cf_State_update (stc_AutoSaveInterval_update (\<lambda>_. x))),
      env_conv Atoi env ''KLAUDIO_MAX_CHECKPOINTS'' (\<lambda>x. cf_State_update (stc_MaxCheckpoints_update (\<lambda>_. x))),
      env_conv Atoi env ''KLAUDIO_RETENTION_DAYS'' (\<lambda>x. cf_State_update (stc_RetentionDays_update (\<lambda>_. x)))] c"

datatype config_error = BadPort int | NoImageName | BadMaxAgents | BadAuthMode string | NoSessionKey | NoDatabasePath
  | ReadError string string | ParseError string string | ValidationError config_error

definition validate :: "Config \<Rightarrow> config_error + unit" where
  "validate c =
     (if sv_Port (cf_Server c) < 1 \<or> sv_Port (cf_Server c) > 65535 then Inl (BadPort (sv_Port (cf_Server c)))
      else if dk_ImageName (cf_Docker c) = [] then Inl NoImageName
      else if dk_MaxAgents (cf_Docker c) < 1 then Inl BadMaxAgents
      else if cc_AuthMode (cf_Claude c) \<noteq> ''host'' \<and> cc_AuthMode (cf_Claude c) \<noteq> ''env''
        then Inl (BadAuthMode (cc_AuthMode (cf_Claude c)))
      else if cc_AuthMode (cf_Claude c) = ''env'' \<and> cc_SessionKey (cf_Claude c) = [] then Inl NoSessionKey
      else if dc_Path (cf_Database c) = [] then Inl NoDatabasePath
      else Inr ())"

datatype read_result = FileData bytes | FileMissing | FileError string

text \<open>\<open>yaml data c\<close> is \<open>c\<close> after \<open>yaml.Unmarshal(data, c)\<close>, or the error.\<close>

definition Load :: "bool \<Rightarrow> string option \<Rightarrow> (string \<Rightarrow> string) \<Rightarrow> (nat \<Rightarrow> nat \<Rightarrow> nat \<Rightarrow> nat) \<Rightarrow>
    (bytes \<Rightarrow> Config \<Rightarrow> string + Config) \<Rightarrow> (string \<Rightarrow> read_result) \<Rightarrow> string \<Rightarrow> config_error + Config" where
  "Load windows home env frac yaml read_file path =
     (let cfg = defaults windows home;
          loaded = (if path = [] then Inr cfg
            else case read_file path of
              FileMissing \<Rightarrow> Inr cfg
            | FileError e \<Rightarrow> Inl (ReadError path e)
            | FileData data \<Rightarrow> (case yaml data cfg of Inl e \<Rightarrow> Inl (ParseError path e) | Inr c \<Rightarrow> Inr c))
      in case loaded of Inl e \<Rightarrow> Inl e
      | Inr cfg \<Rightarrow>
          (let cfg = applyEnvOverrides frac env cfg in
           case validate cfg of Inl e \<Rightarrow> Inl (ValidationError e)
           | Inr _ \<Rightarrow> Inr (cfg\<lparr>cf_FilePath := path\<rparr>)))"

definition ListenAddr :: "Config \<Rightarrow> string" where
  "ListenAddr c = sv_Host (cf_Server c) @ '':'' @ itoa (sv_Port (cf_Server c))"

text \<open>\<open>Save\<close>, with the YAML package's \<open>Marshal\<close> and the writing of the file as arguments; the result
  is the error, if any.\<close>

datatype save_error = NoFilePath | MarshalError string | WriteError string string

definition Save :: "(Config \<Rightarrow> string + bytes) \<Rightarrow> (string \<Rightarrow> bytes \<Rightarrow> string option) \<Rightarrow> Config \<Rightarrow> save_error option" where
  "Save yaml_marshal write_file c =
     (if cf_FilePath c = [] then Some NoFilePath
      else case yaml_marshal c of Inl e \<Rightarrow> Some (MarshalError e)
      | Inr data \<Rightarrow> (case write_file (cf_FilePath c) data of
            Some e \<Rightarrow> Some (WriteError (cf_FilePath c) e) | None \<Rightarrow> None))"

section \<open>Properties\<close>

lemma env_string_keeps: "(\<And>x c. f (s x c) = f c) \<Longrightarrow> f (env_string env k s c) = f c"
  by (simp add: env_string_def)

lemma env_conv_keeps: "(\<And>x c. f (s x c) = f c) \<Longrightarrow> f (env_conv conv env k s c) = f c"
  by (simp add: env_conv_def split: option.split)

text \<open>C21: A configuration that \<open>Load\<close> returns can be used, whatever the file, the environment and the
  YAML package gave: the port is a TCP port, at least one agent may run, an image and a database
  path are set, the authentication mode is known and has its key, and it remembers its file.\<close>

theorem Load_usable:
  "case Load windows home env frac yaml read_file path of Inl e \<Rightarrow> True
   | Inr c \<Rightarrow> 1 \<le> sv_Port (cf_Server c) \<and> sv_Port (cf_Server c) \<le> 65535 \<and> 1 \<le> dk_MaxAgents (cf_Docker c) \<and>
       dk_ImageName (cf_Docker c) \<noteq> [] \<and> dc_Path (cf_Database c) \<noteq> [] \<and>
       (if cc_AuthMode (cf_Claude c) = ''env'' then cc_SessionKey (cf_Claude c) \<noteq> []
        else cc_AuthMode (cf_Claude c) = ''host'') \<and> cf_FilePath c = path"
  by (auto simp: Load_def validate_def Let_def split: sum.split read_result.split if_splits)

text \<open>The environment wins over the file, and a value that does not parse leaves the file's: the
  port of a loaded configuration is the environment's when that is a number, else the file's,
  else 8080; with neither a file nor an environment the defaults load.\<close>

theorem Load_port:
  "(case Load windows home env frac yaml read_file path of Inl e \<Rightarrow> True
    | Inr c \<Rightarrow> sv_Port (cf_Server c) =
        (case Atoi (env ''KLAUDIO_PORT'') of Some n \<Rightarrow> n
         | None \<Rightarrow> (case read_file path of
             FileData data \<Rightarrow> if path = [] then 8080
               else (case yaml data (defaults windows home) of Inl e \<Rightarrow> 0 | Inr c \<Rightarrow> sv_Port (cf_Server c))
           | _ \<Rightarrow> 8080))) \<and>
   Load windows home (\<lambda>_. []) frac yaml read_file [] = Inr (defaults windows home)"
proof -
  have port: "sv_Port (cf_Server (applyEnvOverrides frac env c)) =
      (case Atoi (env ''KLAUDIO_PORT'') of Some n \<Rightarrow> n | None \<Rightarrow> sv_Port (cf_Server c))" for c env
    by (simp add: applyEnvOverrides_def env_string_keeps [where f = "\<lambda>c. sv_Port (cf_Server c)"]
        env_conv_keeps [where f = "\<lambda>c. sv_Port (cf_Server c)"]) (simp add: env_conv_def Atoi_def split: option.split)
  have "applyEnvOverrides frac (\<lambda>_. []) c = c" for c
    by (simp add: applyEnvOverrides_def env_string_def env_conv_def)
  then have "Load windows home (\<lambda>_. []) frac yaml read_file [] = Inr (defaults windows home)"
    by (simp add: Load_def validate_def defaults_def Let_def)
  moreover have "case Load windows home env frac yaml read_file path of Inl e \<Rightarrow> True
    | Inr c \<Rightarrow> sv_Port (cf_Server c) =
        (case Atoi (env ''KLAUDIO_PORT'') of Some n \<Rightarrow> n
         | None \<Rightarrow> (case read_file path of
             FileData data \<Rightarrow> if path = [] then 8080
               else (case yaml data (defaults windows home) of Inl e \<Rightarrow> 0 | Inr c \<Rightarrow> sv_Port (cf_Server c))
           | _ \<Rightarrow> 8080))"
    by (auto simp: Load_def port Let_def defaults_def split: sum.split read_result.split option.split)
  ultimately show ?thesis by blast
qed

end
