(* ===== verification/Docker_Manager.thy ===== *)
theory Docker_Manager
  imports World Config_Load
begin

text \<open>
  \<open>internal/docker/manager.go\<close>: what the code asks of the Docker SDK, whose answers are in the
  world. The archive of \<open>CopyFromContainer\<close> is unpacked on the host; the path of an entry is not
  checked, so an entry with \<open>..\<close> leads out of the destination. Resource statistics and the
  building of images are not modelled.
\<close>

record docker_manager =
  dm_imageName :: string
  dm_network :: string
  dm_cfg :: Config

record VolumeMount =
  vm_HostPath :: string
  vm_ContainerPath :: string
  vm_ReadOnly :: bool

record ContainerOpts =
  co_Name :: string
  co_Prompt :: string
  co_EnvVars :: "(string, string) gomap"
  co_Volumes :: "VolumeMount list"
  co_WorkDir :: string

text \<open>The client's construction and the ping succeed or give an error.\<close>

definition docker_NewManager :: "string option \<Rightarrow> string option \<Rightarrow> Config \<Rightarrow> string + docker_manager" where
  "docker_NewManager client ping cfg =
     (case client of Some e \<Rightarrow> Inl (''creating docker client: '' @ e)
      | None \<Rightarrow> (case ping of
          Some e \<Rightarrow> Inl (''pinging docker daemon at '' @ dk_Host (cf_Docker cfg) @ '': '' @ e)
        | None \<Rightarrow> Inr \<lparr>dm_imageName = dk_ImageName (cf_Docker cfg), dm_network = dk_Network (cf_Docker cfg), dm_cfg = cfg\<rparr>))"

text \<open>The variables come in the order of the range over the map.\<close>

definition buildEnvList :: "(string, string) gomap \<Rightarrow> string list" where
  "buildEnvList vars = map (\<lambda>(k, v). k @ ''='' @ v) vars"

definition volume_bind :: "VolumeMount \<Rightarrow> string" where
  "volume_bind v = vm_HostPath v @ '':'' @ vm_ContainerPath v @ (if vm_ReadOnly v then '':ro'' else '''')"

definition container_env :: "docker_manager \<Rightarrow> ContainerOpts \<Rightarrow> string list" where
  "container_env m opts =
     buildEnvList (co_EnvVars opts) @
     (if co_Prompt opts \<noteq> [] then [''CLAUDE_PROMPT='' @ co_Prompt opts] else []) @
     (if cc_AuthMode (cf_Claude (dm_cfg m)) = ''env'' \<and> cc_SessionKey (cf_Claude (dm_cfg m)) \<noteq> []
      then [''CLAUDE_CODE_MAX_SESSION_KEY='' @ cc_SessionKey (cf_Claude (dm_cfg m))] else [])"

text \<open>The credentials that exist on the host are mounted one by one, read-only.\<close>

definition auth_files :: "docker_manager \<Rightarrow> (string \<times> string) list" where
  "auth_files m =
     (let c = cf_Claude (dm_cfg m) in
      if cc_AuthMode c = ''host'' \<and> cc_HostDir c \<noteq> []
      then [(path_Join [cc_HostDir c, ''.credentials.json''], ''/tmp/.claude-credentials.json''),
            (path_Join [cc_HostDir c, ''settings.json''], ''/tmp/.claude-settings.json''),
            (path_Join [cc_HostDir c, ''settings.local.json''], ''/tmp/.claude-settings-local.json'')] @
           (if cc_HostJsonFile c \<noteq> [] then [(cc_HostJsonFile c, ''/tmp/.claude.json.host'')] else [])
      else [])"

fun auth_binds :: "(string \<times> string) list \<Rightarrow> ('m world_scheme, string list) state" where
  "auth_binds [] = State_Monad.return []"
| "auth_binds ((host, inside) # fs) = do {
     r \<leftarrow> os_Stat host;
     bs \<leftarrow> auth_binds fs;
     State_Monad.return (case r of Inl _ \<Rightarrow> bs | Inr _ \<Rightarrow> (host @ '':'' @ inside @ '':ro'') # bs)
   }"

definition CreateContainer :: "docker_manager \<Rightarrow> ContainerOpts \<Rightarrow> ('m world_scheme, string) io" where
  "CreateContainer m opts = do {
     auth \<leftarrow> auth_binds (auth_files m);
     let c = \<lparr>ct_Name = co_Name opts, ct_Image = dm_imageName m, ct_Env = container_env m opts,
       ct_WorkingDir = (if co_WorkDir opts = [] then ''/home/agent/workspace'' else co_WorkDir opts),
       ct_Binds = map volume_bind (co_Volumes opts) @ auth\<rparr>;
     or_fail (''creating container '' @ co_Name opts) (docker_sdk (\<lambda>d t. da_Create d t c) (DCreate c)) ok
   }"

definition opt_err :: "string \<Rightarrow> string option \<Rightarrow> string + unit" where
  "opt_err msg e = (case e of None \<Rightarrow> Inr () | Some e \<Rightarrow> Inl (msg @ '': '' @ e))"

definition StartContainer :: "string \<Rightarrow> ('m world_scheme, unit) io" where
  "StartContainer i = do {
     e \<leftarrow> docker_sdk (\<lambda>d t. da_Start d t i) (\<lambda>_. DStart i);
     State_Monad.return (opt_err (''starting container '' @ i) e) }"

definition StopContainer :: "string \<Rightarrow> int \<Rightarrow> ('m world_scheme, unit) io" where
  "StopContainer i timeoutSec = do {
     e \<leftarrow> docker_sdk (\<lambda>d t. da_Stop d t i) (\<lambda>_. DStop i timeoutSec);
     State_Monad.return (opt_err (''stopping container '' @ i) e) }"

definition RemoveContainer :: "string \<Rightarrow> ('m world_scheme, unit) io" where
  "RemoveContainer i = do {
     e \<leftarrow> docker_sdk (\<lambda>d t. da_Remove d t i) (\<lambda>_. DRemove i);
     State_Monad.return (opt_err (''removing container '' @ i) e) }"

definition AttachContainer :: "string \<Rightarrow> ('m world_scheme, unit) io" where
  "AttachContainer i = do {
     e \<leftarrow> docker_sdk (\<lambda>d t. da_Attach d t i) (\<lambda>_. DAttach i);
     State_Monad.return (opt_err (''attaching to container '' @ i) e) }"

text \<open>What the two channels of \<open>WaitContainer\<close> deliver: the exit code and the error. Without a
  cancellable context the third branch of the \<open>select\<close> is never ready.\<close>

definition WaitContainer :: "ctx \<Rightarrow> string \<Rightarrow> ('m world_scheme, int \<times> string option) state" where
  "WaitContainer c i = do {
     a \<leftarrow> docker_sdk (\<lambda>d t. da_Wait d t i) (\<lambda>_. DWait i);
     stop \<leftarrow> gets (ctx_Err c);
     State_Monad.return (case a of
        Exited code msg \<Rightarrow> (code, map_option (\<lambda>e. ''container error: '' @ e) msg)
      | WaitError e \<Rightarrow> (- 1, Some (''waiting for container '' @ i @ '': '' @ e))
      | WaitDone \<Rightarrow> (- 1, Some (case stop of Some e \<Rightarrow> e | None \<Rightarrow> ctx_canceled))) }"

definition ContainerLogs :: "string \<Rightarrow> ('m world_scheme, bytes) io" where
  "ContainerLogs i = or_fail (''getting logs for container '' @ i) (docker_sdk (\<lambda>d t. da_Logs d t i) (\<lambda>_. DLogs i)) ok"

text \<open>Unpacking; creating a file and writing it is one step.\<close>

fun unpack_entries :: "string \<Rightarrow> tar_entry list \<Rightarrow> string option \<Rightarrow> ('m world_scheme, unit) io" where
  "unpack_entries dst [] fin = (case fin of None \<Rightarrow> ok () | Some e \<Rightarrow> err (''reading tar entry: '' @ e))"
| "unpack_entries dst ((name, ty, data) # es) fin =
     (let target = path_Join [dst, name] in
      case ty of
        TypeDir \<Rightarrow> or_fail (''creating directory '' @ target) (os_str (os_MkdirAll target)) (\<lambda>_. unpack_entries dst es fin)
      | TypeReg \<Rightarrow>
          or_fail (''creating directory '' @ path_Dir target) (os_str (os_MkdirAll (path_Dir target))) (\<lambda>_.
          or_fail (''creating file '' @ target) (os_str (os_WriteFile target data)) (\<lambda>_. unpack_entries dst es fin))
      | TypeOther \<Rightarrow> unpack_entries dst es fin)"

definition CopyFromContainer :: "string \<Rightarrow> string \<Rightarrow> string \<Rightarrow> ('m world_scheme, unit) io" where
  "CopyFromContainer i srcPath dstPath =
     or_fail (''copying from container '' @ i) (docker_sdk (\<lambda>d t. da_Copy d t i srcPath) (\<lambda>_. DCopy i srcPath)) (\<lambda>(es, fin).
     or_fail (''creating destination '' @ dstPath) (os_str (os_MkdirAll dstPath)) (\<lambda>_.
     unpack_entries dstPath es fin))"

section \<open>What the calls are\<close>

lemma quiet_auth_binds [intro]: "quiet.steps (auth_binds fs)"
  by (induction fs rule: auth_binds.induct) auto

lemma auth_binds_ro: "set (fst (run_state (auth_binds fs) w)) \<subseteq> (\<lambda>(h, i). h @ '':'' @ i @ '':ro'') ` set fs"
proof (induction fs arbitrary: w rule: auth_binds.induct)
  case (2 host inside fs)
  obtain r w1 where r: "run_state (os_Stat host) w = (r, w1)" by fastforce
  obtain bs w2 where bs: "run_state (auth_binds fs) w1 = (bs, w2)" by fastforce
  from 2 [of w1] bs have "set bs \<subseteq> (\<lambda>(h, i). h @ '':'' @ i @ '':ro'') ` set fs" by simp
  then show ?case by (auto simp: r bs split: sum.split)
qed simp

definition is_ro :: "string \<Rightarrow> bool" where
  "is_ro b \<longleftrightarrow> HasSuffix b '':ro''"

lemma is_ro_append [simp]: "is_ro (a @ '':ro'')"
  unfolding is_ro_def HasSuffix_def by simp

lemma is_ro_auth [simp]: "is_ro (h @ CHR '':'' # i @ '':ro'')"
  using is_ro_append [of "h @ CHR '':'' # i"] by simp

text \<open>A container is created with the binds of the volumes and of the credentials, and nothing is
  writable but what a volume makes so.\<close>

definition binds_ok :: "VolumeMount list \<Rightarrow> docker_call \<Rightarrow> bool" where
  "binds_ok vs c = (case c of DCreate ct r \<Rightarrow> \<forall>b \<in> set (ct_Binds ct). is_ro b \<or> b \<in> volume_bind ` set (filter (\<lambda>v. \<not> vm_ReadOnly v) vs) | _ \<Rightarrow> True)"

lemma CreateContainer_binds:
  assumes "set (co_Volumes opts) \<subseteq> set vs"
  shows "calls.steps (binds_ok vs) (CreateContainer m opts)"
proof (rule calls.stepsI)
  fix w :: "'b world_scheme"
  obtain bs w1 where a: "run_state (auth_binds (auth_files m)) w = (bs, w1)" by fastforce
  have q: "w_calls w1 = w_calls w"
    using quiet.stepsE [OF quiet_auth_binds a] by (simp add: quiet_rel_def)
  have ro: "\<forall>b \<in> set bs. is_ro b"
    using auth_binds_ro [of "auth_files m" w] a by auto
  have vol: "is_ro (volume_bind v) \<or> volume_bind v \<in> volume_bind ` set (filter (\<lambda>v. \<not> vm_ReadOnly v) vs)"
    if "v \<in> set (co_Volumes opts)" for v
    using that assms by (cases "vm_ReadOnly v") (auto simp: volume_bind_def)
  show "calls_rel (binds_ok vs) w (snd (run_state (CreateContainer m opts) w))"
    using ro vol
    by (auto simp: CreateContainer_def a Let_def calls_rel_def q binds_ok_def split: sum.split)
qed

lemma calls_docker [intro]:
  "P (DStart i) \<Longrightarrow> calls.steps P (StartContainer i)"
  "P (DStop i n) \<Longrightarrow> calls.steps P (StopContainer i n)"
  "P (DRemove i) \<Longrightarrow> calls.steps P (RemoveContainer i)"
  "P (DAttach i) \<Longrightarrow> calls.steps P (AttachContainer i)"
  "P (DWait i) \<Longrightarrow> calls.steps P (WaitContainer c i)"
  "P (DLogs i) \<Longrightarrow> calls.steps P (ContainerLogs i)"
  unfolding StartContainer_def StopContainer_def RemoveContainer_def AttachContainer_def WaitContainer_def ContainerLogs_def
  by (intro calls.steps_intros calls_docker_sdk; simp)+

lemma files_docker [intro]:
  "files.steps cwd D (CreateContainer m opts)"
  "files.steps cwd D (StartContainer i)"
  "files.steps cwd D (StopContainer i n)"
  "files.steps cwd D (RemoveContainer i)"
  "files.steps cwd D (AttachContainer i)"
  "files.steps cwd D (WaitContainer c i)"
  "files.steps cwd D (ContainerLogs i)"
  unfolding CreateContainer_def StartContainer_def StopContainer_def RemoveContainer_def AttachContainer_def
    WaitContainer_def ContainerLogs_def
  by (intro files.steps_intros files_docker_sdk files.steps_quiet [OF quiet_auth_binds])+

lemma still_auth_binds [intro]: "still.steps (auth_binds fs)"
  by (rule still.steps_quiet) (rule quiet_auth_binds)

lemma still_docker [intro]:
  "still.steps (CreateContainer m opts)"
  "still.steps (StartContainer i)"
  "still.steps (StopContainer i n)"
  "still.steps (RemoveContainer i)"
  "still.steps (AttachContainer i)"
  "still.steps (WaitContainer c i)"
  "still.steps (ContainerLogs i)"
  unfolding CreateContainer_def StartContainer_def StopContainer_def RemoveContainer_def AttachContainer_def
    WaitContainer_def ContainerLogs_def
  by (intro still.steps_intros still_docker_sdk still_auth_binds)+

lemma CreateContainer_run:
  assumes "run_state (CreateContainer m opts) w = (r, w')"
  obtains ct a where "w_calls w' = w_calls w @ [DCreate ct a]" "w_hub w' = w_hub w" "w_fs w' = w_fs w" "still_rel w w'"
    "case r of Inl _ \<Rightarrow> \<exists>e. a = Inl e | Inr i \<Rightarrow> a = Inr i"
proof -
  obtain bs w1 where b: "run_state (auth_binds (auth_files m)) w = (bs, w1)" by fastforce
  have q: "w_calls w1 = w_calls w" "w_hub w1 = w_hub w" "w_fs w1 = w_fs w"
    using quiet.stepsE [OF quiet_auth_binds b] by (simp_all add: quiet_rel_def)
  show thesis
    using assms that [OF _ _ _ still.stepsE [OF still_docker(1) assms]] q
    by (auto simp: CreateContainer_def b Let_def split: sum.splits)
qed

section \<open>Unpacking stays below the destination\<close>

lemma files_unpack:
  assumes "is_rooted cwd" "d \<in> D"
  shows "dst \<noteq> [] \<Longrightarrow> under d (resolve cwd dst) \<Longrightarrow> list_all (\<lambda>(name, ty, data). no_dotdot (Split slash name)) es \<Longrightarrow> files.steps cwd D (unpack_entries dst es fin)"
proof (induction dst es fin rule: unpack_entries.induct)
  case (1 dst fin)
  then show ?case by (auto split: option.split)
next
  case (2 dst name ty data es fin)
  have nd: "no_dotdot (part_elems [name])" using 2(6) by (simp add: part_elems_def no_dotdot_def)
  have t: "under d (resolve cwd (path_Join [dst, name]))"
    using resolve_below [OF assms(1) 2(4) nd] under_trans [OF 2(5) under_below] by simp
  have td: "under d (resolve cwd (path_Dir (path_Join [dst, name]))) \<or> under (resolve cwd (path_Dir (path_Join [dst, name]))) d"
    by (rule resolve_Dir_below [OF assms(1) t])
  have m: "files.steps cwd D (os_str (os_MkdirAll (path_Join [dst, name])))"
    "files.steps cwd D (os_str (os_MkdirAll (path_Dir (path_Join [dst, name]))))"
    "files.steps cwd D (os_str (os_WriteFile (path_Join [dst, name]) data))"
    using t td by (auto intro!: files.steps_os_str files_MkdirAll [OF assms(2)] files_WriteFile [OF assms(2)])
  from 2 m show ?case by (cases ty) (auto simp: Let_def intro!: files.steps_or_fail)
qed

text \<open>C22: Copying from a container writes only below the destination, and creates directories on the
  way to it, when no name in the archive has a \<open>..\<close> element. The code does not check this: the entry
  \<open>../evil\<close> of an archive unpacked into \<open>/srv/a\<close> becomes the file \<open>/srv/evil\<close>.\<close>

theorem CopyFromContainer_confined:
  assumes "is_rooted (w_cwd w)" "fs_ok (w_fs w)" "dstPath \<noteq> []"
    and "\<And>es fin. da_Copy (w_docker w) (w_tick w) i srcPath = Inr (es, fin) \<Longrightarrow>
           list_all (\<lambda>(name, ty, data). no_dotdot (Split slash name)) es"
    and "run_state (CopyFromContainer i srcPath dstPath) w = (r, w')"
  shows "fs_ok (w_fs w') \<and>
    (\<forall>q. fs_node (w_fs w') q = fs_node (w_fs w) q \<or> under (resolve (w_cwd w) dstPath) q \<or>
         (fs_node (w_fs w) q = None \<and> fs_node (w_fs w') q = Some Dir \<and> under q (resolve (w_cwd w) dstPath)))"
proof -
  let ?D = "{resolve (w_cwd w) dstPath}" and ?a = "da_Copy (w_docker w) (w_tick w) i srcPath"
  let ?w1 = "(tick w)\<lparr>w_calls := w_calls w @ [DCopy i srcPath]\<rparr>"
  have "files_rel (w_cwd w) ?D ?w1 w'"
  proof (cases ?a)
    case (Inl e)
    with assms(5) have "w' = ?w1" by (simp add: CopyFromContainer_def)
    then show ?thesis by simp
  next
    case (Inr p)
    obtain es fin where p: "p = (es, fin)" by fastforce
    have u: "files.steps (w_cwd w) ?D (unpack_entries dstPath es fin)"
      by (rule files_unpack [OF assms(1) _ assms(3)]) (use assms(4) Inr p in auto)
    have "files.steps (w_cwd w) ?D (or_fail (''creating destination '' @ dstPath) (os_str (os_MkdirAll dstPath)) (\<lambda>_. unpack_entries dstPath es fin))"
      by (intro files.steps_or_fail files.steps_os_str files_MkdirAll [of "resolve (w_cwd w) dstPath"] u) simp_all
    moreover have "run_state (or_fail (''creating destination '' @ dstPath) (os_str (os_MkdirAll dstPath)) (\<lambda>_. unpack_entries dstPath es fin)) ?w1 = (r, w')"
      using assms(5) Inr p by (simp add: CopyFromContainer_def)
    ultimately show ?thesis by (rule files.stepsE)
  qed
  then show ?thesis using assms(2) by (simp add: files_rel_def file_ok_def)
qed

definition good_archive :: docker_api where
  "good_archive = calm_docker\<lparr>da_Copy := (\<lambda>t i p. Inr ([(''b/'', TypeDir, []), (''b/c.txt'', TypeReg, ''x'')], None))\<rparr>"

theorem CopyFromContainer_confined_witness:
  "(let w = calm_world (empty_store True) [] good_archive;
        w' = snd (run_state (CopyFromContainer ''c'' ''/home/agent/workspace/'' ''/srv/a'') w)
    in fs_node (w_fs w') (True, [''srv'', ''a'', ''b'', ''c.txt'']) = Some (File ''x'') \<and> fs_ok (w_fs w') \<and>
       (\<forall>q. fs_node (w_fs w') q = fs_node (w_fs w) q \<or> under (resolve (w_cwd w) ''/srv/a'') q \<or>
         (fs_node (w_fs w) q = None \<and> fs_node (w_fs w') q = Some Dir \<and> under q (resolve (w_cwd w) ''/srv/a''))))"
proof -
  let ?w = "calm_world (empty_store True) [] good_archive"
  let ?m = "CopyFromContainer ''c'' ''/home/agent/workspace/'' ''/srv/a''"
  have e: "fs_node (w_fs (snd (run_state ?m ?w))) (True, [''srv'', ''a'', ''b'', ''c.txt'']) = Some (File ''x'')"
    by code_simp
  have r: "is_rooted (w_cwd ?w)" by code_simp
  have a: "list_all (\<lambda>(name, ty, data). no_dotdot (Split slash name)) es"
    if "da_Copy (w_docker ?w) (w_tick ?w) ''c'' ''/home/agent/workspace/'' = Inr (es, fin)" for es fin
  proof -
    have "es = [(''b/'', TypeDir, []), (''b/c.txt'', TypeReg, ''x'')]" using that by (simp add: calm_world_def good_archive_def)
    then show ?thesis by (simp add: no_dotdot_def slash_def)
  qed
  have "fs_ok (w_fs ?w)" by (simp add: calm_world_def)
  note confined = CopyFromContainer_confined [where w = ?w and i = "''c''" and srcPath = "''/home/agent/workspace/''"
    and dstPath = "''/srv/a''" and r = "fst (run_state ?m ?w)" and w' = "snd (run_state ?m ?w)", OF r this _ a]
  show ?thesis unfolding Let_def by (intro conjI e confined [THEN conjunct1] confined [THEN conjunct2]) simp_all
qed

definition evil_archive :: docker_api where
  "evil_archive = calm_docker\<lparr>da_Copy := (\<lambda>t i p. Inr ([(''../evil'', TypeReg, ''x'')], None))\<rparr>"

lemma CopyFromContainer_escapes:
  "fs_node (w_fs (snd (run_state (CopyFromContainer ''c'' ''/home/agent/workspace/'' ''/srv/a'')
     (calm_world (empty_store True) [] evil_archive)))) (True, [''srv'', ''evil'']) = Some (File ''x'')"
  by code_simp

end
