(* ===== verification/Traces.thy ===== *)
theory Traces
  imports Docker_Manager
begin

text \<open>
  The Docker calls and hub messages of a run. \<open>traces m P\<close>: whatever the outside answers, \<open>m\<close> only
  appends to the logs of calls and messages, leaves an extension of the world alone, and its result,
  the calls and the messages are related by \<open>P\<close>. The rules follow the combinators, so that a
  component's theorem about its calls is one pass of \<open>intro\<close>.
\<close>

definition traces :: "('m world_scheme, 'a) state \<Rightarrow> ('a \<Rightarrow> docker_call list \<Rightarrow> hub_msg list \<Rightarrow> bool) \<Rightarrow> bool" where
  "traces m P \<longleftrightarrow> (\<forall>w r w'. run_state m w = (r, w') \<longrightarrow>
     (\<exists>l h. w_calls w' = w_calls w @ l \<and> w_hub w' = w_hub w @ h \<and> still_rel w w' \<and> P r l h))"

lemma tracesD:
  assumes "traces m P" "run_state m w = (r, w')"
  obtains l h where "w_calls w' = w_calls w @ l" "w_hub w' = w_hub w @ h" "still_rel w w'" "P r l h"
  using assms unfolding traces_def by blast

lemma traces_return: "P x [] [] \<Longrightarrow> traces (State_Monad.return x) P"
  by (simp add: traces_def)

lemma traces_bind:
  assumes "traces m Q" "\<And>x l h. Q x l h \<Longrightarrow> traces (f x) (\<lambda>y l' h'. P y (l @ l') (h @ h'))"
  shows "traces (m \<bind> f) P"
  unfolding traces_def
proof (intro allI impI)
  fix w r w' assume "run_state (m \<bind> f) w = (r, w')"
  then obtain x w1 where r: "run_state m w = (x, w1)" "run_state (f x) w1 = (r, w')"
    by (auto split: prod.splits)
  from assms(1) r(1) obtain l h where 1: "w_calls w1 = w_calls w @ l" "w_hub w1 = w_hub w @ h" "still_rel w w1" "Q x l h"
    by (rule tracesD)
  from assms(2) [OF 1(4)] r(2) obtain l' h' where 2: "w_calls w' = w_calls w1 @ l'" "w_hub w' = w_hub w1 @ h'" "still_rel w1 w'"
    "P r (l @ l') (h @ h')"
    by (rule tracesD)
  from 1(3) 2(3) have "still_rel w w'" by (rule still.R_trans)
  with 1 2 show "\<exists>l h. w_calls w' = w_calls w @ l \<and> w_hub w' = w_hub w @ h \<and> still_rel w w' \<and> P r l h" by force
qed

lemma traces_conseq: "traces m Q \<Longrightarrow> (\<And>x l h. Q x l h \<Longrightarrow> P x l h) \<Longrightarrow> traces m P"
  unfolding traces_def by blast

lemma traces_all: "traces m Q \<Longrightarrow> (\<And>x l h. P x l h) \<Longrightarrow> traces m P"
  by (rule traces_conseq)

definition new_calls :: "'m world_scheme \<Rightarrow> 'm world_scheme \<Rightarrow> docker_call list" where
  "new_calls w w' = drop (length (w_calls w)) (w_calls w')"

definition new_msgs :: "'m world_scheme \<Rightarrow> 'm world_scheme \<Rightarrow> hub_msg list" where
  "new_msgs w w' = drop (length (w_hub w)) (w_hub w')"

lemma tracesE:
  assumes "traces m P" "run_state m w = (r, w')"
  shows "P r (new_calls w w') (new_msgs w w')"
proof -
  obtain l h where "w_calls w' = w_calls w @ l" "w_hub w' = w_hub w @ h" "P r l h"
    using assms by (rule tracesD)
  then show ?thesis by (simp add: new_calls_def new_msgs_def)
qed

section \<open>Single steps\<close>

lemma traces_quiet: "quiet.steps m \<Longrightarrow> (\<And>x. P x [] []) \<Longrightarrow> traces m P"
  unfolding traces_def by (auto dest: quiet.stepsE simp: quiet_rel_def)

lemma traces_os_call: "(\<And>x. P x [] []) \<Longrightarrow> traces (os_call f) P"
  unfolding traces_def by (auto simp: os_call_def still_rel_def split: option.splits sum.splits)

lemma traces_docker_sdk: "(\<And>r. P r [call r] []) \<Longrightarrow> traces (docker_sdk f call) P"
  unfolding traces_def by (auto simp: still_rel_def)

lemma traces_hub_send: "P () [] [m] \<Longrightarrow> traces (hub_send m) P"
  unfolding traces_def by (auto simp: still_rel_def)

section \<open>Sequences that start with a step\<close>

text \<open>\<open>silent m\<close>: no calls, no messages.\<close>

definition silent :: "('m world_scheme, 'a) state \<Rightarrow> bool" where
  "silent m \<longleftrightarrow> traces m (\<lambda>x l h. l = [] \<and> h = [])"

lemma silent_quiet: "quiet.steps m \<Longrightarrow> silent m"
  unfolding silent_def by (rule traces_quiet) simp_all

lemma silent_sql [intro]: "sql.steps m \<Longrightarrow> silent (in_ctx c m)"
  by (rule silent_quiet) auto

lemma silent_os_call [intro]: "silent (os_call f)"
  unfolding silent_def by (rule traces_os_call) simp

lemma silent_return [intro]: "silent (State_Monad.return x)"
  unfolding silent_def by (rule traces_return) simp

lemma silent_bind [intro]: "silent m \<Longrightarrow> (\<And>x. silent (f x)) \<Longrightarrow> silent (m \<bind> f)"
  unfolding silent_def by (erule traces_bind) (auto elim: traces_conseq)

lemma silent_os_str [intro]: "silent m \<Longrightarrow> silent (os_str m)"
  unfolding os_str_def by auto

lemma silent_ignore [intro]: "silent m \<Longrightarrow> silent (ignore m)"
  unfolding ignore_def by auto

lemma silent_try_bind [intro]: "silent m \<Longrightarrow> (\<And>e. silent (h e)) \<Longrightarrow> (\<And>x. silent (k x)) \<Longrightarrow> silent (try_bind m h k)"
  unfolding try_bind_def by (rule silent_bind) (auto split: sum.split)

lemma silent_ok [intro]: "silent (ok x)"
  unfolding ok_def by auto

lemma silent_err [intro]: "silent (err x)"
  unfolding err_def by auto

lemma silent_or_fail [intro]: "silent m \<Longrightarrow> (\<And>x. silent (k x)) \<Longrightarrow> silent (or_fail msg m k)"
  unfolding or_fail_def by auto

lemma silent_when [intro]: "silent m \<Longrightarrow> silent (when_do b m)"
  unfolding when_do_def by auto

lemma silent_for_each [intro]: "(\<And>x. silent (f x)) \<Longrightarrow> silent (for_each xs f)"
  by (induction xs) auto

lemma silent_basic [intro]: "silent New_UUID" "silent time_now" "silent (gets g)"
  by (rule silent_quiet, rule quiet.steps_New_UUID sql_quiet [OF sql_time_now] quiet.steps_gets)+

lemma silent_os [intro]: "silent (os_Stat p)" "silent (os_ReadDir p)" "silent (os_ReadFile p)" "silent (os_MkdirAll p)"
  "silent (os_WriteFile p d)" "silent (os_RemoveAll p)" "silent (os_Rename p q)"
  unfolding os_Stat_def os_ReadDir_def os_ReadFile_def os_read_def os_MkdirAll_def os_WriteFile_def os_RemoveAll_def os_Rename_def
  by (rule silent_os_call)+

lemma traces_silent: "silent m \<Longrightarrow> (\<And>x. P x [] []) \<Longrightarrow> traces m P"
  unfolding silent_def by (auto elim: traces_conseq)

lemma traces_silent_bind: "silent m \<Longrightarrow> (\<And>x. traces (f x) P) \<Longrightarrow> traces (m \<bind> f) P"
  unfolding silent_def by (erule traces_bind) auto

lemma traces_silent_try:
  "silent m \<Longrightarrow> (\<And>e. traces (h e) P) \<Longrightarrow> (\<And>x. traces (k x) P) \<Longrightarrow> traces (try_bind m h k) P"
  unfolding try_bind_def by (rule traces_silent_bind) (auto split: sum.split)

lemma traces_silent_or_fail:
  "silent m \<Longrightarrow> (\<And>e. P (Inl e) [] []) \<Longrightarrow> (\<And>x. traces (k x) P) \<Longrightarrow> traces (or_fail msg m k) P"
  unfolding or_fail_def by (rule traces_silent_try) (auto simp: err_def intro: traces_return)

lemma traces_ok: "P (Inr x) [] [] \<Longrightarrow> traces (ok x) P"
  unfolding ok_def by (rule traces_return)

lemma traces_err: "P (Inl e) [] [] \<Longrightarrow> traces (err e) P"
  unfolding err_def by (rule traces_return)

lemma traces_ignore: "traces m (\<lambda>x l h. P () l h) \<Longrightarrow> traces (ignore m) P"
  unfolding ignore_def by (erule traces_bind) (auto intro: traces_return)

lemma traces_hub_bind: "traces (f ()) (\<lambda>y l h. P y l (m # h)) \<Longrightarrow> traces (hub_send m \<bind> f) P"
  by (rule traces_bind [OF traces_hub_send [of "\<lambda>x l h. l = [] \<and> h = [m]"]]) auto

lemma traces_sdk_bind: "(\<And>r. traces (f r) (\<lambda>y l h. P y (call r # l) h)) \<Longrightarrow> traces (docker_sdk g call \<bind> f) P"
  by (rule traces_bind [OF traces_docker_sdk [of "\<lambda>x l h. l = [call x] \<and> h = []"]]) auto

text \<open>A call of the manager that makes one call of the SDK, \<open>c\<close>, whatever its result.\<close>

definition one_call :: "docker_call \<Rightarrow> ('m world_scheme, 'a) state \<Rightarrow> bool" where
  "one_call c m \<longleftrightarrow> traces m (\<lambda>x l h. l = [c] \<and> h = [])"

lemma one_calls [intro]: "one_call (DStart i) (StartContainer i)" "one_call (DStop i n) (StopContainer i n)"
  "one_call (DRemove i) (RemoveContainer i)" "one_call (DAttach i) (AttachContainer i)" "one_call (DWait i) (WaitContainer c i)"
  unfolding one_call_def StartContainer_def StopContainer_def RemoveContainer_def AttachContainer_def WaitContainer_def
  by (rule traces_sdk_bind, (rule traces_silent_bind silent_basic)?, (rule traces_silent_bind silent_basic)?, rule traces_return, simp)+

lemma one_call_logs [intro]: "one_call (DLogs i) (ContainerLogs i)"
  unfolding one_call_def ContainerLogs_def or_fail_def try_bind_def
  by (rule traces_sdk_bind) (auto split: sum.split intro: traces_ok traces_err)

lemma one_call_ignore [intro]: "one_call c m \<Longrightarrow> one_call c (ignore m)"
  unfolding one_call_def by (rule traces_ignore)

lemma traces_one: "one_call c m \<Longrightarrow> (\<And>x. P x [c] []) \<Longrightarrow> traces m P"
  unfolding one_call_def by (auto elim: traces_conseq)

lemma traces_one_bind: "one_call c m \<Longrightarrow> (\<And>x. traces (f x) (\<lambda>y l h. P y (c # l) h)) \<Longrightarrow> traces (m \<bind> f) P"
  unfolding one_call_def by (erule traces_bind) auto

lemma traces_one_try:
  "one_call c m \<Longrightarrow> (\<And>e. traces (f e) (\<lambda>y l h. P y (c # l) h)) \<Longrightarrow> (\<And>x. traces (k x) (\<lambda>y l h. P y (c # l) h)) \<Longrightarrow>
   traces (try_bind m f k) P"
  unfolding try_bind_def by (erule traces_one_bind) (auto split: sum.split)

lemma traces_create_try:
  assumes "\<And>ct e e'. traces (f e) (\<lambda>y l h. P y (DCreate ct (Inl e') # l) h)"
    and "\<And>ct i. traces (k i) (\<lambda>y l h. P y (DCreate ct (Inr i) # l) h)"
  shows "traces (try_bind (CreateContainer m opts) f k) P"
proof -
  have "traces (CreateContainer m opts) (\<lambda>r l h. h = [] \<and> (\<exists>ct a. l = [DCreate ct a] \<and> (case r of Inl _ \<Rightarrow> \<exists>e. a = Inl e | Inr i \<Rightarrow> a = Inr i)))"
    unfolding traces_def by (auto elim!: CreateContainer_run)
  then show ?thesis
    unfolding try_bind_def by (rule traces_bind) (auto split: sum.splits intro: assms)
qed

lemma traces_create_or_fail:
  assumes "\<And>ct e e'. P (Inl e) [DCreate ct (Inl e')] []"
    and "\<And>ct i. traces (k i) (\<lambda>y l h. P y (DCreate ct (Inr i) # l) h)"
  shows "traces (or_fail msg (CreateContainer m opts) k) P"
  unfolding or_fail_def by (rule traces_create_try) (auto intro: assms traces_err)

lemma traces_hub [simp]:
  "RegisterAgent a t = hub_send (MsgRegisterAgent a t)" "UnregisterAgent a = hub_send (MsgUnregisterAgent a)"
  by (simp_all add: RegisterAgent_def UnregisterAgent_def)

lemma traces_if: "(b \<Longrightarrow> traces m P) \<Longrightarrow> (\<not> b \<Longrightarrow> traces n P) \<Longrightarrow> traces (if b then m else n) P"
  by simp

lemma traces_option:
  "(x = None \<Longrightarrow> traces m P) \<Longrightarrow> (\<And>y. x = Some y \<Longrightarrow> traces (f y) P) \<Longrightarrow> traces (case x of None \<Rightarrow> m | Some y \<Rightarrow> f y) P"
  by (simp split: option.split)

lemma traces_sum:
  "(\<And>y. x = Inl y \<Longrightarrow> traces (f y) P) \<Longrightarrow> (\<And>y. x = Inr y \<Longrightarrow> traces (g y) P) \<Longrightarrow>
   traces (case x of Inl y \<Rightarrow> f y | Inr y \<Rightarrow> g y) P"
  by (simp split: sum.split)

lemma traces_prod: "(\<And>a b. x = (a, b) \<Longrightarrow> traces (f a b) P) \<Longrightarrow> traces (case x of (a, b) \<Rightarrow> f a b) P"
  by (simp split: prod.split)

lemma silent_if [intro]: "silent m \<Longrightarrow> silent n \<Longrightarrow> silent (if b then m else n)"
  by simp

lemma silent_option [intro]: "silent m \<Longrightarrow> (\<And>y. silent (f y)) \<Longrightarrow> silent (case x of None \<Rightarrow> m | Some y \<Rightarrow> f y)"
  by (simp split: option.split)

lemma silent_sum [intro]: "(\<And>y. silent (f y)) \<Longrightarrow> (\<And>y. silent (g y)) \<Longrightarrow> silent (case x of Inl y \<Rightarrow> f y | Inr y \<Rightarrow> g y)"
  by (simp split: sum.split)

lemma silent_prod [intro]: "(\<And>a b. silent (f a b)) \<Longrightarrow> silent (case x of (a, b) \<Rightarrow> f a b)"
  by (simp split: prod.split)

lemmas silent_intros = silent_sql silent_ignore silent_basic silent_os silent_os_str silent_return silent_ok silent_err
  silent_or_fail silent_try_bind silent_bind silent_when silent_for_each silent_if silent_option silent_sum silent_prod sql_methods

lemmas traces_steps = traces_create_or_fail traces_create_try traces_hub_bind traces_ok traces_err traces_return
  traces_option traces_sum traces_prod traces_if

lemmas one_call_rules = one_calls one_call_logs one_calls [THEN one_call_ignore] one_call_logs [THEN one_call_ignore]

lemmas traces_silents = traces_silent_bind traces_silent_or_fail traces_silent_try

end
