(* ===== verification/Agent_Pool.thy ===== *)
theory Agent_Pool
  imports Traces
begin

text \<open>
  \<open>internal/agent/pool.go\<close>: the pool of agent containers. \<open>Spawn\<close> checks the limits in one
  critical section and registers the agent in another; in between it talks to the database and to
  Docker. The step relation \<open>pool_step\<close> interleaves the critical sections of several callers, and
  the theorems bound the number of agents under it and say what each operation leaves behind. The
  status that \<open>monitorContainer\<close> writes into the instance it takes out is not kept: nothing reads it.
\<close>

section \<open>State\<close>

datatype spawn_error = ErrPoolFull | ErrTaskLimitReached | SpawnFailed string

record AgentInstance =
  ai_ID :: string
  ai_TaskID :: string
  ai_SubtaskID :: string
  ai_ContainerID :: string
  ai_Role :: string
  ai_Status :: string
  ai_StartedAt :: time

record AgentResult =
  ar_ExitCode :: int
  ar_Error :: "string option"

record SpawnOpts =
  so_TaskID :: string
  so_SubtaskID :: string
  so_Role :: string
  so_Prompt :: string
  so_WorkspaceDir :: string
  so_EnvVars :: "(string, string) gomap"

text \<open>A waiter is the number of its channel; a channel holds its result once that has been sent.\<close>

record pool =
  pl_maxAgents :: int
  pl_maxPerTask :: int
  pl_active :: "(string, AgentInstance) gomap"
  pl_waiters :: "(string, nat) gomap"
  pl_chans :: "AgentResult option list"

record pool_world = world +
  w_pool :: pool
  w_monitors :: "(ctx \<times> AgentInstance \<times> nat) list" \<comment> \<open>goroutines of \<open>monitorContainer\<close>\<close>

lemma tick_pool: "w_pool (tick w) = w_pool w" "w_monitors (tick w) = w_monitors w"
  by (simp_all add: tick_def)

definition NewPool :: "Config \<Rightarrow> pool" where
  "NewPool cfg = \<lparr>pl_maxAgents = dk_MaxAgents (cf_Docker cfg),
     pl_maxPerTask = (if dk_MaxAgentsPerTask (cf_Docker cfg) \<le> 0 then 3 else dk_MaxAgentsPerTask (cf_Docker cfg)),
     pl_active = [], pl_waiters = [], pl_chans = []\<rparr>"

definition of_task :: "string \<Rightarrow> pool \<Rightarrow> AgentInstance list" where
  "of_task taskID p = map snd (filter (\<lambda>(i, a). ai_TaskID a = taskID) (pl_active p))"

section \<open>Spawn\<close>

definition spawn_check :: "string \<Rightarrow> pool \<Rightarrow> spawn_error option" where
  "spawn_check taskID p =
     (if int (length (pl_active p)) \<ge> pl_maxAgents p then Some ErrPoolFull
      else if int (length (of_task taskID p)) \<ge> pl_maxPerTask p then Some ErrTaskLimitReached
      else None)"

definition spawn_register :: "AgentInstance \<Rightarrow> pool \<Rightarrow> nat \<times> pool" where
  "spawn_register a p =
     (let ch = length (pl_chans p) in
      (ch, p\<lparr>pl_active := mput (ai_ID a) a (pl_active p), pl_waiters := mput (ai_ID a) ch (pl_waiters p),
             pl_chans := pl_chans p @ [None]\<rparr>))"

definition container_name :: "SpawnOpts \<Rightarrow> string" where
  "container_name opts = ''klaudio-'' @ take 8 (so_TaskID opts) @ ''-'' @ so_SubtaskID opts"

definition spawn_container :: "docker_manager \<Rightarrow> ctx \<Rightarrow> SpawnOpts \<Rightarrow> ('m world_scheme, AgentInstance) io" where
  "spawn_container dm c opts = do {
     agentID \<leftarrow> New_UUID;
     now \<leftarrow> time_now;
     let role = (if so_Role opts = [] then ''developer'' else so_Role opts);
     let dbAgent = \<lparr>agent_ID = agentID, agent_TaskID = so_TaskID opts, agent_SubtaskID = Some (so_SubtaskID opts),
       agent_ContainerID = None, agent_Role = role, agent_Status = ''created'', agent_ExitCode = None,
       agent_Error = None, agent_CreatedAt = now, agent_StartedAt = None, agent_CompletedAt = None\<rparr>;
     or_fail ''creating agent record'' (in_ctx c (CreateAgent dbAgent)) (\<lambda>_.
     or_fail ''creating container''
       (CreateContainer dm \<lparr>co_Name = container_name opts, co_Prompt = so_Prompt opts, co_EnvVars = so_EnvVars opts,
          co_Volumes = [\<lparr>vm_HostPath = so_WorkspaceDir opts, vm_ContainerPath = ''/home/agent/workspace'', vm_ReadOnly = False\<rparr>],
          co_WorkDir = []\<rparr>) (\<lambda>containerID. do {
       _ \<leftarrow> ignore (in_ctx c (UpdateAgentContainer agentID containerID));
       _ \<leftarrow> RegisterAgent agentID (so_TaskID opts);
       now \<leftarrow> time_now;
       let agent = \<lparr>ai_ID = agentID, ai_TaskID = so_TaskID opts, ai_SubtaskID = so_SubtaskID opts,
         ai_ContainerID = containerID, ai_Role = role, ai_Status = ''running'', ai_StartedAt = now\<rparr>;
       try_bind (StartContainer containerID)
         (\<lambda>e. do {
            _ \<leftarrow> ignore (RemoveContainer containerID);
            _ \<leftarrow> UnregisterAgent agentID;
            err (''starting container: '' @ e) })
         (\<lambda>_. ok agent) }))
   }"

definition Spawn :: "docker_manager \<Rightarrow> ctx \<Rightarrow> SpawnOpts \<Rightarrow> ('m pool_world_scheme, spawn_error + AgentInstance) state" where
  "Spawn dm c opts = do {
     full \<leftarrow> gets (\<lambda>w. spawn_check (so_TaskID opts) (w_pool w));
     (case full of
        Some e \<Rightarrow> err e
      | None \<Rightarrow> try_bind (spawn_container dm c opts) (\<lambda>e. err (SpawnFailed e)) (\<lambda>agent. do {
          ch \<leftarrow> State (\<lambda>w. case spawn_register agent (w_pool w) of (ch, p) \<Rightarrow> (ch, w\<lparr>w_pool := p\<rparr>));
          _ \<leftarrow> modify (\<lambda>w. w\<lparr>w_monitors := w_monitors w @ [(c, agent, ch)]\<rparr>);
          ok agent }))
   }"

section \<open>The end of an agent\<close>

text \<open>The \<open>select\<close> between the exit and the context: when both are ready, \<open>w_pick\<close> says which is taken.
  An exit without a message has the error \<open>nil\<close>.\<close>

definition await_exit :: "ctx \<Rightarrow> string \<Rightarrow> ('m world_scheme, AgentResult) state" where
  "await_exit c containerID = do {
     (code, e) \<leftarrow> WaitContainer c containerID;
     stop \<leftarrow> gets (\<lambda>w. if w_pick w (w_tick w) then ctx_Err c w else None);
     State_Monad.return (case stop of
        Some e \<Rightarrow> \<lparr>ar_ExitCode = - 1, ar_Error = Some e\<rparr>
      | None \<Rightarrow> \<lparr>ar_ExitCode = code, ar_Error = e\<rparr>)
   }"

definition pool_remove :: "string \<Rightarrow> pool \<Rightarrow> pool" where
  "pool_remove i p = p\<lparr>pl_active := mdel i (pl_active p), pl_waiters := mdel i (pl_waiters p)\<rparr>"

definition pool_send :: "nat \<Rightarrow> AgentResult \<Rightarrow> pool \<Rightarrow> pool" where
  "pool_send ch r p = p\<lparr>pl_chans := (pl_chans p)[ch := Some r]\<rparr>"

definition monitorContainer :: "ctx \<Rightarrow> AgentInstance \<Rightarrow> nat \<Rightarrow> ('m pool_world_scheme, unit) state" where
  "monitorContainer c agent ch = do {
     result \<leftarrow> await_exit c (ai_ContainerID agent);
     _ \<leftarrow> ignore (RemoveContainer (ai_ContainerID agent));
     _ \<leftarrow> modify (\<lambda>w. w\<lparr>w_pool := pool_remove (ai_ID agent) (w_pool w)\<rparr>);
     _ \<leftarrow> UnregisterAgent (ai_ID agent);
     _ \<leftarrow> ignore (in_ctx Background (UpdateAgentCompleted (ai_ID agent) (ar_ExitCode result) (ar_Error result)));
     modify (\<lambda>w. w\<lparr>w_pool := pool_send ch result (w_pool w)\<rparr>)
   }"

definition Terminate :: "string \<Rightarrow> ('m pool_world_scheme, unit) io" where
  "Terminate agentID = do {
     a \<leftarrow> gets (\<lambda>w. map_of (pl_active (w_pool w)) agentID);
     (case a of
        None \<Rightarrow> err (''agent '' @ agentID @ '' not found'')
      | Some agent \<Rightarrow> do { _ \<leftarrow> ignore (StopContainer (ai_ContainerID agent) 10); ok () })
   }"

text \<open>The agents of the task in the order of the range over the map.\<close>

fun terminate_all :: "AgentInstance list \<Rightarrow> ('m pool_world_scheme, string list) state" where
  "terminate_all [] = State_Monad.return []"
| "terminate_all (a # as) = do {
     r \<leftarrow> Terminate (ai_ID a);
     es \<leftarrow> terminate_all as;
     State_Monad.return (case r of Inl e \<Rightarrow> e # es | Inr _ \<Rightarrow> es) }"

definition TerminateTaskAgents :: "string \<Rightarrow> ('m pool_world_scheme, unit) io" where
  "TerminateTaskAgents taskID = do {
     as \<leftarrow> gets (\<lambda>w. of_task taskID (w_pool w));
     errs \<leftarrow> terminate_all as;
     (if errs = [] then ok () else err (''errors terminating agents: ['' @ Join errs '' '' @ '']''))
   }"

definition pool_SendMessage :: "string \<Rightarrow> bytes \<Rightarrow> ('m pool_world_scheme, unit) io" where
  "pool_SendMessage agentID msg = do {
     a \<leftarrow> gets (\<lambda>w. map_of (pl_active (w_pool w)) agentID);
     (case a of
        None \<Rightarrow> err (''agent '' @ agentID @ '' not found or not active'')
      | Some _ \<Rightarrow> do { _ \<leftarrow> InjectMessage agentID msg; ok () })
   }"

section \<open>Reading\<close>

definition pool_Get :: "string \<Rightarrow> pool \<Rightarrow> AgentInstance option" where
  "pool_Get agentID p = map_of (pl_active p) agentID"

definition GetBySubtask :: "string \<Rightarrow> pool \<Rightarrow> AgentInstance option" where
  "GetBySubtask subtaskID p = find (\<lambda>a. ai_SubtaskID a = subtaskID) (map snd (pl_active p))"

definition ActiveCount :: "pool \<Rightarrow> nat" where
  "ActiveCount p = length (pl_active p)"

definition ActiveForTask :: "string \<Rightarrow> pool \<Rightarrow> AgentInstance list" where
  "ActiveForTask taskID p = of_task taskID p"

text \<open>\<open>Wait\<close> gives the agent's channel; for an agent that is not there, or no longer, a new one that
  already holds an error.\<close>

definition pool_Wait :: "string \<Rightarrow> pool \<Rightarrow> nat \<times> pool" where
  "pool_Wait agentID p =
     (case map_of (pl_waiters p) agentID of
        Some ch \<Rightarrow> (ch, p)
      | None \<Rightarrow> (length (pl_chans p),
          p\<lparr>pl_chans := pl_chans p @ [Some \<lparr>ar_ExitCode = - 1, ar_Error = Some (''agent '' @ agentID @ '' not found'')\<rparr>]\<rparr>))"

section \<open>Concurrent callers\<close>

text \<open>
  The steps of the pool when any number of goroutines call \<open>Spawn\<close>: a call passes the check and is
  then between its critical sections, for the task that the list \<open>fly\<close> records; it gives up, or
  registers its agent; an agent's monitor removes it.
\<close>

inductive pool_step :: "pool \<times> string list \<Rightarrow> pool \<times> string list \<Rightarrow> bool" where
  passes: "spawn_check t p = None \<Longrightarrow> pool_step (p, fly) (p, t # fly)"
| gives_up: "t \<in> set fly \<Longrightarrow> pool_step (p, fly) (p, remove1 t fly)"
| registers: "ai_TaskID a \<in> set fly \<Longrightarrow> ai_ID a \<notin> set (mkeys (pl_active p)) \<Longrightarrow>
    pool_step (p, fly) (snd (spawn_register a p), remove1 (ai_TaskID a) fly)"
| finishes: "pool_step (p, fly) (pool_remove i p, fly)"
| sends: "pool_step (p, fly) (pool_send ch r p, fly)"

text \<open>Runs in which never more than \<open>k\<close> calls are between their critical sections.\<close>

inductive pool_runs :: "nat \<Rightarrow> pool \<times> string list \<Rightarrow> bool" for k where
  pool_start: "pl_active p = [] \<Longrightarrow> pool_runs k (p, [])"
| pool_next: "pool_runs k s \<Longrightarrow> pool_step s s' \<Longrightarrow> length (snd s') \<le> k \<Longrightarrow> pool_runs k s'"

section \<open>How many agents there are\<close>

lemma mput_new: "k \<notin> set (mkeys m) \<Longrightarrow> mput k v m = m @ [(k, v)]"
  by (induction m) (auto simp: mput_def)

lemma length_filter_mdel: "length (filter P (mdel k m)) \<le> length (filter P m)"
  by (induction m) (auto simp: mdel_def AList.delete_eq)

lemma length_mdel_le: "length (mdel k m) \<le> length m"
  by (simp add: mdel_def AList.delete_eq)

lemma count_remove1: "t \<in> set xs \<Longrightarrow> count_list xs t = Suc (count_list (remove1 t xs) t)"
  by (induction xs) auto

lemma count_remove1_le: "count_list (remove1 t xs) u \<le> count_list xs u"
  by (induction xs) auto

lemma count_remove1_other: "t \<noteq> u \<Longrightarrow> count_list (remove1 t xs) u = count_list xs u"
  by (induction xs) auto

text \<open>What the steps preserve: the agents and the calls under way together stay within the limits, up
  to one less than the number of calls that may be under way.\<close>

definition pool_inv :: "nat \<Rightarrow> pool \<times> string list \<Rightarrow> bool" where
  "pool_inv k s \<longleftrightarrow> length (snd s) \<le> k \<and>
     int (length (pl_active (fst s)) + length (snd s)) \<le> max 0 (pl_maxAgents (fst s)) + int (k - 1) \<and>
     (\<forall>t. int (length (of_task t (fst s)) + count_list (snd s) t) \<le> max 0 (pl_maxPerTask (fst s)) + int (k - 1))"

lemma of_task_register:
  "ai_ID a \<notin> set (mkeys (pl_active p)) \<Longrightarrow>
   length (of_task t (snd (spawn_register a p))) = length (of_task t p) + (if ai_TaskID a = t then 1 else 0)"
  by (simp add: of_task_def spawn_register_def mput_new Let_def)

lemma pool_inv_step:
  assumes "pool_step s s'" "pool_inv k s" "length (snd s') \<le> k"
  shows "pool_inv k s'"
  using assms(1)
proof (cases rule: pool_step.cases)
  case (passes t p fly)
  have k: "Suc (length fly) \<le> k" using assms(3) passes(2) by simp
  have c: "count_list fly t \<le> length fly" by (rule count_le_length)
  have lim: "int (length (pl_active p)) < pl_maxAgents p" "int (length (of_task t p)) < pl_maxPerTask p"
    using passes(3) by (auto simp: spawn_check_def split: if_splits)
  have "int (length (pl_active p) + length (t # fly)) \<le> max 0 (pl_maxAgents p) + int (k - 1)"
    using k lim(1) by (simp add: max_def of_nat_diff)
  moreover have "int (length (of_task u p) + count_list (t # fly) u) \<le> max 0 (pl_maxPerTask p) + int (k - 1)" for u
  proof (cases "u = t")
    case True
    then show ?thesis using k c lim(2) by (simp add: max_def of_nat_diff)
  next
    case False
    then show ?thesis using assms(2) passes(1) by (simp add: pool_inv_def)
  qed
  ultimately show ?thesis using k passes(1,2) by (simp add: pool_inv_def)
next
  case (gives_up t fly p)
  then have l: "length (remove1 t fly) \<le> length fly" by (simp add: length_remove1)
  have c: "count_list (remove1 t fly) u \<le> count_list fly u" for u by (rule count_remove1_le)
  from assms(2) gives_up(1) have inv: "length fly \<le> k"
    "int (length (pl_active p) + length fly) \<le> max 0 (pl_maxAgents p) + int (k - 1)"
    "\<And>u. int (length (of_task u p) + count_list fly u) \<le> max 0 (pl_maxPerTask p) + int (k - 1)"
    by (simp_all add: pool_inv_def)
  have "int (length (of_task u p) + count_list (remove1 t fly) u) \<le> max 0 (pl_maxPerTask p) + int (k - 1)" for u
    using inv(3) [of u] c [of u] by linarith
  then show ?thesis using gives_up(2) inv(1,2) l by (simp add: pool_inv_def)
next
  case (registers a fly p)
  have fly: "length (remove1 (ai_TaskID a) fly) = length fly - 1" "fly \<noteq> []"
    using registers(3) by (auto simp: length_remove1)
  have act: "length (pl_active (snd (spawn_register a p))) = Suc (length (pl_active p))"
    using registers(4) by (simp add: spawn_register_def length_mput Let_def)
  have lim: "pl_maxAgents (snd (spawn_register a p)) = pl_maxAgents p" "pl_maxPerTask (snd (spawn_register a p)) = pl_maxPerTask p"
    by (simp_all add: spawn_register_def Let_def)
  have cnt: "length (of_task u (snd (spawn_register a p))) + count_list (remove1 (ai_TaskID a) fly) u =
      length (of_task u p) + count_list fly u" for u
    using of_task_register [OF registers(4)] count_remove1 [OF registers(3)] count_remove1_other by (cases "ai_TaskID a = u") auto
  from fly act have "length (pl_active (snd (spawn_register a p))) + length (remove1 (ai_TaskID a) fly) = length (pl_active p) + length fly"
    by (cases fly) simp_all
  with cnt lim assms(2,3) registers(1,2) show ?thesis unfolding pool_inv_def by simp
next
  case (finishes p fly i)
  have l: "length (pl_active (pool_remove i p)) \<le> length (pl_active p)"
    by (simp add: pool_remove_def length_mdel_le)
  have c: "length (of_task u (pool_remove i p)) \<le> length (of_task u p)" for u
    by (simp add: pool_remove_def of_task_def length_filter_mdel)
  have lim: "pl_maxAgents (pool_remove i p) = pl_maxAgents p" "pl_maxPerTask (pool_remove i p) = pl_maxPerTask p"
    by (simp_all add: pool_remove_def)
  from assms(2) finishes(1) have inv: "length fly \<le> k"
    "int (length (pl_active p) + length fly) \<le> max 0 (pl_maxAgents p) + int (k - 1)"
    "\<And>u. int (length (of_task u p) + count_list fly u) \<le> max 0 (pl_maxPerTask p) + int (k - 1)"
    by (simp_all add: pool_inv_def)
  have "int (length (of_task u (pool_remove i p)) + count_list fly u) \<le> max 0 (pl_maxPerTask p) + int (k - 1)" for u
    using inv(3) [of u] c [of u] by linarith
  then show ?thesis using finishes(2) inv(1,2) l by (simp add: pool_inv_def lim)
next
  case (sends p fly ch r)
  then show ?thesis using assms(2) by (simp add: pool_inv_def pool_send_def of_task_def)
qed

lemma pool_runs_inv: "pool_runs k s \<Longrightarrow> pool_inv k s"
proof (induction rule: pool_runs.induct)
  case (pool_start p)
  then show ?case by (simp add: pool_inv_def of_task_def)
next
  case (pool_next s s')
  then show ?case by (blast intro: pool_inv_step)
qed

text \<open>C23: While at most \<open>k\<close> calls of \<open>Spawn\<close> are under way at a time, the pool never holds more than
  \<open>maxAgents + k - 1\<close> agents, nor more than \<open>maxPerTask + k - 1\<close> of a task; with one caller at a
  time the limits are exact.\<close>

theorem pool_limits:
  assumes "pool_runs k (p, fly)"
  shows "int (ActiveCount p) \<le> max 0 (pl_maxAgents p) + int (k - 1) \<and>
    int (length (ActiveForTask t p)) \<le> max 0 (pl_maxPerTask p) + int (k - 1)"
  using pool_runs_inv [OF assms] by (auto simp: pool_inv_def ActiveCount_def ActiveForTask_def dest: spec [of _ t])

definition sample_agent :: "string \<Rightarrow> AgentInstance" where
  "sample_agent i = \<lparr>ai_ID = i, ai_TaskID = ''t'', ai_SubtaskID = ''s'', ai_ContainerID = ''c'', ai_Role = ''developer'',
     ai_Status = ''running'', ai_StartedAt = 0\<rparr>"

definition one_agent_pool :: pool where
  "one_agent_pool = \<lparr>pl_maxAgents = 1, pl_maxPerTask = 1, pl_active = [], pl_waiters = [], pl_chans = []\<rparr>"

text \<open>Two calls that overlap put two agents into a pool for one.\<close>

definition overfull_pool :: pool where
  "overfull_pool = snd (spawn_register (sample_agent ''b'') (snd (spawn_register (sample_agent ''a'') one_agent_pool)))"

lemma overfull_run: "pool_runs 2 (overfull_pool, [])"
proof -
  have ok: "spawn_check ''t'' one_agent_pool = None" by code_simp
  have 0: "pool_runs 2 (one_agent_pool, [])" by (rule pool_start) (simp add: one_agent_pool_def)
  have 1: "pool_runs 2 (one_agent_pool, [''t''])" by (rule pool_next [OF 0]) (auto intro: passes [OF ok])
  have 2: "pool_runs 2 (one_agent_pool, [''t'', ''t''])" by (rule pool_next [OF 1]) (auto intro: passes [OF ok])
  have a: "ai_TaskID (sample_agent i) = ''t''" "ai_ID (sample_agent i) = i" for i by (simp_all add: sample_agent_def)
  have 3: "pool_runs 2 (snd (spawn_register (sample_agent ''a'') one_agent_pool), [''t''])"
    by (rule pool_next [OF 2])
       (use registers [of "sample_agent ''a''" "[''t'', ''t'']" one_agent_pool] in \<open>simp_all add: a one_agent_pool_def\<close>)
  have k: "''b'' \<notin> set (mkeys (pl_active (snd (spawn_register (sample_agent ''a'') one_agent_pool))))" by code_simp
  show ?thesis
    unfolding overfull_pool_def
    by (rule pool_next [OF 3])
       (use registers [of "sample_agent ''b''" "[''t'']"] k in \<open>simp_all add: a\<close>)
qed

theorem pool_limits_witness:
  "ActiveCount overfull_pool = 2 \<and> pl_maxAgents overfull_pool = 1 \<and>
   int (ActiveCount overfull_pool) \<le> max 0 (pl_maxAgents overfull_pool) + int (2 - 1) \<and>
   int (length (ActiveForTask ''t'' overfull_pool)) \<le> max 0 (pl_maxPerTask overfull_pool) + int (2 - 1)"
proof -
  have "ActiveCount overfull_pool = 2 \<and> pl_maxAgents overfull_pool = 1" by code_simp
  with pool_limits [OF overfull_run, of "''t''"] show ?thesis by blast
qed

section \<open>What a call of Spawn leaves behind\<close>

definition spawn_ok :: "SpawnOpts \<Rightarrow> AgentInstance \<Rightarrow> docker_call list \<Rightarrow> hub_msg list \<Rightarrow> bool" where
  "spawn_ok opts a l h \<longleftrightarrow> ai_TaskID a = so_TaskID opts \<and> ai_SubtaskID a = so_SubtaskID opts \<and> ai_Status a = ''running'' \<and>
     (\<exists>ct. l = [DCreate ct (Inr (ai_ContainerID a)), DStart (ai_ContainerID a)]) \<and> h = [MsgRegisterAgent (ai_ID a) (so_TaskID opts)]"

definition spawn_undone :: "SpawnOpts \<Rightarrow> docker_call list \<Rightarrow> hub_msg list \<Rightarrow> bool" where
  "spawn_undone opts l h \<longleftrightarrow> (l = [] \<and> h = []) \<or> (\<exists>ct e. l = [DCreate ct (Inl e)] \<and> h = []) \<or>
     (\<exists>ct i j. l = [DCreate ct (Inr i), DStart i, DRemove i] \<and> h = [MsgRegisterAgent j (so_TaskID opts), MsgUnregisterAgent j])"

lemma traces_spawn_container:
  "traces (spawn_container dm c opts) (\<lambda>r l h. case r of Inl _ \<Rightarrow> spawn_undone opts l h | Inr a \<Rightarrow> spawn_ok opts a l h)"
  unfolding spawn_container_def Let_def traces_hub
  by (rule traces_steps | rule traces_one_bind traces_one_try, rule one_call_rules
    | rule traces_silents, (intro silent_intros)[1] | force simp: spawn_undone_def spawn_ok_def)+

definition limits_hold :: "string \<Rightarrow> pool \<Rightarrow> bool" where
  "limits_hold taskID p \<longleftrightarrow> int (ActiveCount p) < pl_maxAgents p \<and> int (length (ActiveForTask taskID p)) < pl_maxPerTask p"

text \<open>C24: \<open>Spawn\<close> refuses exactly at the limits and then does nothing. Otherwise it either starts one
  container, registers its stream and puts the agent into the pool with an empty result channel and
  a monitor; or it fails, leaves the pool alone, has removed the container if it got one, and has
  unregistered the stream if it had registered one.\<close>

theorem Spawn_outcome:
  "case run_state (Spawn dm c opts) w of (r, w') \<Rightarrow>
     \<exists>l h. w_calls w' = w_calls w @ l \<and> w_hub w' = w_hub w @ h \<and>
       (case r of
          Inl ErrPoolFull \<Rightarrow> w' = w \<and> pl_maxAgents (w_pool w) \<le> int (ActiveCount (w_pool w))
        | Inl ErrTaskLimitReached \<Rightarrow> w' = w \<and> pl_maxPerTask (w_pool w) \<le> int (length (ActiveForTask (so_TaskID opts) (w_pool w)))
        | Inl (SpawnFailed e) \<Rightarrow> w_pool w' = w_pool w \<and> w_monitors w' = w_monitors w \<and> spawn_undone opts l h
        | Inr a \<Rightarrow> spawn_ok opts a l h \<and> limits_hold (so_TaskID opts) (w_pool w) \<and> pool_Get (ai_ID a) (w_pool w') = Some a \<and>
            (\<exists>ch. pool_Wait (ai_ID a) (w_pool w') = (ch, w_pool w') \<and> pl_chans (w_pool w') ! ch = None \<and>
                  w_monitors w' = w_monitors w @ [(c, a, ch)]))"
proof (cases "spawn_check (so_TaskID opts) (w_pool w)")
  case (Some e)
  then have "run_state (Spawn dm c opts) w = (Inl e, w)" by (simp add: Spawn_def)
  with Some show ?thesis
    by (auto simp: spawn_check_def ActiveCount_def ActiveForTask_def split: if_splits spawn_error.splits)
next
  case None
  obtain r1 w1 where r: "run_state (spawn_container dm c opts) w = (r1, w1)" by fastforce
  obtain l h where t: "w_calls w1 = w_calls w @ l" "w_hub w1 = w_hub w @ h" "still_rel w w1"
    "case r1 of Inl _ \<Rightarrow> spawn_undone opts l h | Inr a \<Rightarrow> spawn_ok opts a l h"
    using tracesD [OF traces_spawn_container r] by blast
  have p: "w_pool w1 = w_pool w" "w_monitors w1 = w_monitors w"
    using t(3) by (cases w; cases w1; simp add: still_rel_def)+
  have lim: "limits_hold (so_TaskID opts) (w_pool w)"
    using None by (auto simp: limits_hold_def ActiveCount_def ActiveForTask_def spawn_check_def split: if_splits)
  show ?thesis
    using None r t(1,2,4) p lim
    by (cases r1) (auto simp: Spawn_def spawn_register_def Let_def pool_Get_def pool_Wait_def)
qed

definition wait_result :: "'m world_scheme \<Rightarrow> ctx \<Rightarrow> string \<Rightarrow> int \<times> string option" where
  "wait_result w c i = (case da_Wait (w_docker w) (w_tick w) i of
     Exited code msg \<Rightarrow> (code, map_option (\<lambda>e. ''container error: '' @ e) msg)
   | WaitError e \<Rightarrow> (- 1, Some (''waiting for container '' @ i @ '': '' @ e))
   | WaitDone \<Rightarrow> (- 1, Some (case ctx_done c w (Suc (w_tick w)) of Some e \<Rightarrow> e | None \<Rightarrow> ctx_canceled)))"

definition exit_result :: "'m world_scheme \<Rightarrow> ctx \<Rightarrow> string \<Rightarrow> AgentResult" where
  "exit_result w c i =
     (if w_pick w (Suc (w_tick w)) \<and> ctx_done c w (Suc (w_tick w)) \<noteq> None then \<lparr>ar_ExitCode = - 1, ar_Error = ctx_done c w (Suc (w_tick w))\<rparr>
      else \<lparr>ar_ExitCode = fst (wait_result w c i), ar_Error = snd (wait_result w c i)\<rparr>)"

lemma run_WaitContainer:
  "run_state (WaitContainer c i) w = (wait_result w c i, (tick w)\<lparr>w_calls := w_calls w @ [DWait i]\<rparr>)"
  by (simp add: WaitContainer_def wait_result_def ctx_Err_def split: wait_answer.split)

lemma run_await_exit:
  "run_state (await_exit c i) w = (exit_result w c i, (tick w)\<lparr>w_calls := w_calls w @ [DWait i]\<rparr>)"
  by (simp add: await_exit_def run_WaitContainer exit_result_def ctx_Err_def split: prod.split option.split)

lemma run_RemoveContainer:
  "run_state (RemoveContainer i) w =
     (opt_err (''removing container '' @ i) (da_Remove (w_docker w) (w_tick w) i), (tick w)\<lparr>w_calls := w_calls w @ [DRemove i]\<rparr>)"
  by (simp add: RemoveContainer_def)

definition completed_agent :: "AgentResult \<Rightarrow> time \<Rightarrow> Agent \<Rightarrow> Agent" where
  "completed_agent res now r = r\<lparr>agent_Status := (if ar_ExitCode res \<noteq> 0 then ''failed'' else ''completed''),
     agent_ExitCode := Some (ar_ExitCode res), agent_Error := ar_Error res, agent_CompletedAt := Some now\<rparr>"

lemma UpdateAgentCompleted_calm:
  assumes "\<And>t. w_fault w t = None" "run_state (in_ctx Background (UpdateAgentCompleted i (ar_ExitCode res) (ar_Error res))) w = (r, w')"
  obtains now where "tb_agents (w_store w') = map (\<lambda>r. if agent_ID r = i then completed_agent res now r else r) (tb_agents (w_store w))"
proof -
  have "ctx_fault Background w t = None" for t by (simp add: ctx_fault_def assms(1))
  then show thesis
    using assms(2)
    by (intro that [of "w_clock w (w_tick w)"])
       (auto simp: UpdateAgentCompleted_def update_agent_def exec_def update_rows_def completed_agent_def)
qed

text \<open>C25: When an agent's container has ended, \<open>monitorContainer\<close> has removed it, unregistered the
  stream, taken the agent out of the pool, recorded exit code and error in the database, and sent
  the result once. A \<open>Wait\<close> that comes only then gets a failure instead of the result.\<close>

theorem monitorContainer_result:
  assumes "ch < length (pl_chans (w_pool w))" "\<And>t. w_fault w t = None"
    and "run_state (monitorContainer c a ch) w = (u, w')"
  defines "res \<equiv> exit_result w c (ai_ContainerID a)"
  shows "new_calls w w' = [DWait (ai_ContainerID a), DRemove (ai_ContainerID a)] \<and>
    new_msgs w w' = [MsgUnregisterAgent (ai_ID a)] \<and>
    pool_Get (ai_ID a) (w_pool w') = None \<and> pl_chans (w_pool w') ! ch = Some res \<and>
    (\<exists>now. tb_agents (w_store w') = map (\<lambda>r. if agent_ID r = ai_ID a then completed_agent res now r else r) (tb_agents (w_store w))) \<and>
    (case pool_Wait (ai_ID a) (w_pool w') of (ch', p) \<Rightarrow>
       pl_chans p ! ch' = Some \<lparr>ar_ExitCode = - 1, ar_Error = Some (''agent '' @ ai_ID a @ '' not found'')\<rparr>)"
proof -
  let ?i = "ai_ContainerID a"
  define w1 where "w1 = (tick (tick w))\<lparr>w_calls := w_calls w @ [DWait ?i, DRemove ?i], w_pool := pool_remove (ai_ID a) (w_pool w),
    w_hub := w_hub w @ [MsgUnregisterAgent (ai_ID a)]\<rparr>"
  obtain r w2 where u: "run_state (in_ctx Background (UpdateAgentCompleted (ai_ID a) (ar_ExitCode res) (ar_Error res))) w1 = (r, w2)"
    by fastforce
  have w': "w' = w2\<lparr>w_pool := pool_send ch res (w_pool w2)\<rparr>"
    using assms(3) u by (simp del: run_in_ctx add: monitorContainer_def run_await_exit run_RemoveContainer res_def w1_def UnregisterAgent_def tick_pool)
  obtain now where now: "tb_agents (w_store w2) = map (\<lambda>r. if agent_ID r = ai_ID a then completed_agent res now r else r) (tb_agents (w_store w1))"
    using UpdateAgentCompleted_calm [OF _ u] assms(2) by (auto simp: w1_def)
  have q: "w_calls w2 = w_calls w1" "w_hub w2 = w_hub w1" "still_rel w1 w2"
    using quiet.stepsE [OF quiet.steps_ctx_sql [OF sql_methods(16)] u] by (simp_all add: quiet_rel_def)
  have p: "w_pool w2 = w_pool w1" using q(3) by (cases w1; cases w2) (simp add: still_rel_def)
  have "\<exists>now. tb_agents (w_store w') = map (\<lambda>r. if agent_ID r = ai_ID a then completed_agent res now r else r) (tb_agents (w_store w))"
    using now by (auto simp: w' w1_def)
  then show ?thesis
    using assms(1) by (simp add: w' q(1,2) p w1_def new_calls_def new_msgs_def pool_Get_def pool_remove_def pool_send_def pool_Wait_def nth_append)
qed

definition calm_pool :: "store \<Rightarrow> fs \<Rightarrow> docker_api \<Rightarrow> pool \<Rightarrow> pool_world" where
  "calm_pool s fs d p = world.extend (calm_world s fs d) \<lparr>w_pool = p, w_monitors = []\<rparr>"

lemma calm_pool_simps [simp]: "w_pool (calm_pool s fs d p) = p" "w_fault (calm_pool s fs d p) t = None"
  "w_docker (calm_pool s fs d p) = d"
  by (simp_all add: calm_pool_def calm_world_def world.defs)

theorem monitorContainer_result_witness:
  "(let w = calm_pool (empty_store True) [] calm_docker (snd (spawn_register (sample_agent ''a'') one_agent_pool));
        w' = snd (run_state (monitorContainer Background (sample_agent ''a'') 0) w)
    in new_calls w w' = [DWait ''c'', DRemove ''c''] \<and> pl_chans (w_pool w') ! 0 = Some \<lparr>ar_ExitCode = 0, ar_Error = None\<rparr> \<and>
       (case pool_Wait ''a'' (w_pool w') of (ch', p) \<Rightarrow>
          pl_chans p ! ch' = Some \<lparr>ar_ExitCode = - 1, ar_Error = Some ''agent a not found''\<rparr>))"
proof -
  let ?w = "calm_pool (empty_store True) [] calm_docker (snd (spawn_register (sample_agent ''a'') one_agent_pool))"
  let ?m = "monitorContainer Background (sample_agent ''a'') 0"
  have ch: "0 < length (pl_chans (w_pool ?w))" by (simp add: spawn_register_def Let_def)
  have res: "exit_result ?w Background ''c'' = \<lparr>ar_ExitCode = 0, ar_Error = None\<rparr>"
    by (simp add: exit_result_def wait_result_def calm_docker_def)
  have a: "ai_ID (sample_agent ''a'') = ''a''" "ai_ContainerID (sample_agent ''a'') = ''c''" by (simp_all add: sample_agent_def)
  have r: "run_state ?m ?w = ((), snd (run_state ?m ?w))" by (simp add: prod_eq_iff)
  show ?thesis
    using monitorContainer_result [OF ch calm_pool_simps(2) r] by (simp add: Let_def a res)
qed

end
