(* ===== verification/Assigner.thy ===== *)
theory Assigner
  imports Agent_Pool
begin

text \<open>
  \<open>internal/agent/assignment.go\<close>: the assigner gives every subtask that is pending and whose
  dependencies are completed an agent of the pool, in the order of the plan, until the pool is full.
  The builder of prompts is an argument, as in the code.
\<close>

record Assignment =
  as_Agent :: string
  as_Subtask :: string

record AssignPlan =
  apl_Subtasks :: "Subtask list"
  apl_TaskPrompt :: string

text \<open>The first subtask with the name decides; a name without a subtask is not met.\<close>

definition dependenciesMet :: "Subtask list \<Rightarrow> Subtask \<Rightarrow> bool" where
  "dependenciesMet subtasks subtask =
     list_all (\<lambda>depID. case find (\<lambda>s. st_ID s = depID) subtasks of
        None \<Rightarrow> False | Some s \<Rightarrow> st_Status s = ''completed'') (st_DependsOn subtask)"

type_synonym prompt_builder = "Subtask \<Rightarrow> Subtask list \<Rightarrow> string \<Rightarrow> string"

text \<open>The loop over the indices; the plan's subtasks are changed in place.\<close>

fun assign_loop :: "docker_manager \<Rightarrow> ctx \<Rightarrow> prompt_builder \<Rightarrow> string \<Rightarrow> string \<Rightarrow> (string, string) gomap \<Rightarrow>
    nat list \<Rightarrow> AssignPlan \<Rightarrow> Assignment list \<Rightarrow>
    ('m pool_world_scheme, string option \<times> AssignPlan \<times> Assignment list) state" where
  "assign_loop dm c pb taskID ws env [] plan as = State_Monad.return (None, plan, as)"
| "assign_loop dm c pb taskID ws env (i # is) plan as =
     (let st = apl_Subtasks plan ! i in
      if st_Status st \<noteq> ''pending'' \<or> \<not> dependenciesMet (apl_Subtasks plan) st
      then assign_loop dm c pb taskID ws env is plan as
      else do {
        r \<leftarrow> Spawn dm c \<lparr>so_TaskID = taskID, so_SubtaskID = st_ID st,
               so_Role = (if st_AgentRole st = [] then ''developer'' else st_AgentRole st),
               so_Prompt = pb st (apl_Subtasks plan) (apl_TaskPrompt plan), so_WorkspaceDir = ws, so_EnvVars = env\<rparr>;
        (case r of
           Inl (SpawnFailed e) \<Rightarrow> State_Monad.return (Some (''spawning agent for subtask '' @ st_ID st @ '': '' @ e), plan, as)
         | Inl _ \<Rightarrow> State_Monad.return (None, plan, as)
         | Inr ag \<Rightarrow> assign_loop dm c pb taskID ws env is
             (plan\<lparr>apl_Subtasks := (apl_Subtasks plan)[i := st\<lparr>st_Status := ''running'', st_AgentID := ai_ID ag\<rparr>]\<rparr>)
             (as @ [\<lparr>as_Agent = ai_ID ag, as_Subtask = st_ID st\<rparr>])) })"

definition AssignReady :: "docker_manager \<Rightarrow> ctx \<Rightarrow> prompt_builder \<Rightarrow> AssignPlan \<Rightarrow> string \<Rightarrow> string \<Rightarrow>
    (string, string) gomap \<Rightarrow> ('m pool_world_scheme, string option \<times> AssignPlan \<times> Assignment list) state" where
  "AssignReady dm c pb plan taskID ws env = assign_loop dm c pb taskID ws env [0..<length (apl_Subtasks plan)] plan []"

section \<open>What an assignment changes\<close>

text \<open>A subtask that was pending with its dependencies completed is running, with the agent of its
  assignment; everything else of the plan is as before.\<close>

definition assigned :: "AssignPlan \<Rightarrow> AssignPlan \<Rightarrow> Assignment list \<Rightarrow> bool" where
  "assigned plan plan' as \<longleftrightarrow> apl_TaskPrompt plan' = apl_TaskPrompt plan \<and>
     length (apl_Subtasks plan') = length (apl_Subtasks plan) \<and>
     (\<forall>i < length (apl_Subtasks plan). let st = apl_Subtasks plan ! i; st' = apl_Subtasks plan' ! i in
        st' = st \<or> (st_Status st = ''pending'' \<and> dependenciesMet (apl_Subtasks plan) st \<and>
          (\<exists>a \<in> set as. as_Subtask a = st_ID st \<and> st' = st\<lparr>st_Status := ''running'', st_AgentID := as_Agent a\<rparr>)))"

lemma find_map_status:
  assumes "length ys = length xs" "\<And>i. i < length xs \<Longrightarrow> st_ID (ys ! i) = st_ID (xs ! i)"
  shows "(\<exists>i < length xs. find (\<lambda>s. st_ID s = d) xs = Some (xs ! i) \<and> find (\<lambda>s. st_ID s = d) ys = Some (ys ! i)) \<or>
         (find (\<lambda>s. st_ID s = d) xs = None \<and> find (\<lambda>s. st_ID s = d) ys = None)"
  using assms
proof (induction ys xs rule: list_induct2)
  case (Cons y ys x xs)
  have "st_ID y = st_ID x" using Cons.prems [of 0] by simp
  have IH: "(\<exists>i < length xs. find (\<lambda>s. st_ID s = d) xs = Some (xs ! i) \<and> find (\<lambda>s. st_ID s = d) ys = Some (ys ! i)) \<or>
         (find (\<lambda>s. st_ID s = d) xs = None \<and> find (\<lambda>s. st_ID s = d) ys = None)"
    using Cons.IH Cons.prems [of "Suc i" for i] by auto
  show ?case
  proof (cases "st_ID x = d")
    case True
    then show ?thesis using \<open>st_ID y = st_ID x\<close> by auto
  next
    case False
    then have f: "find (\<lambda>s. st_ID s = d) (x # xs) = find (\<lambda>s. st_ID s = d) xs" "find (\<lambda>s. st_ID s = d) (y # ys) = find (\<lambda>s. st_ID s = d) ys"
      using \<open>st_ID y = st_ID x\<close> by simp_all
    show ?thesis
    proof (cases "find (\<lambda>s. st_ID s = d) xs = None \<and> find (\<lambda>s. st_ID s = d) ys = None")
      case True
      then show ?thesis using f by auto
    next
      case False
      then obtain i where "i < length xs" "find (\<lambda>s. st_ID s = d) xs = Some (xs ! i)" "find (\<lambda>s. st_ID s = d) ys = Some (ys ! i)"
        using IH by blast
      then show ?thesis using f by (intro disjI1 exI [of _ "Suc i"]) simp
    qed
  qed
qed simp

lemma assigned_deps:
  assumes "assigned plan plan' as" "dependenciesMet (apl_Subtasks plan') st"
  shows "dependenciesMet (apl_Subtasks plan) st"
  unfolding dependenciesMet_def list_all_iff
proof
  fix d assume d: "d \<in> set (st_DependsOn st)"
  let ?xs = "apl_Subtasks plan" and ?ys = "apl_Subtasks plan'"
  have len: "length ?ys = length ?xs" using assms(1) by (simp add: assigned_def)
  have ch: "?ys ! i = ?xs ! i \<or> (\<exists>a. ?ys ! i = (?xs ! i)\<lparr>st_Status := ''running'', st_AgentID := a\<rparr>)" if "i < length ?xs" for i
    using assms(1) that by (auto simp: assigned_def Let_def)
  then have ids: "st_ID (?ys ! i) = st_ID (?xs ! i)" if "i < length ?xs" for i using that by fastforce
  from assms(2) d have c: "case find (\<lambda>s. st_ID s = d) ?ys of None \<Rightarrow> False | Some s \<Rightarrow> st_Status s = ''completed''"
    by (auto simp: dependenciesMet_def list_all_iff)
  then have "find (\<lambda>s. st_ID s = d) ?ys \<noteq> None" by (auto split: option.splits)
  with find_map_status [OF len ids, of d] obtain i where i: "i < length ?xs"
    "find (\<lambda>s. st_ID s = d) ?xs = Some (?xs ! i)" "find (\<lambda>s. st_ID s = d) ?ys = Some (?ys ! i)" by blast
  from c i(3) have "st_Status (?ys ! i) = ''completed''" by simp
  with ch [OF i(1)] have "?ys ! i = ?xs ! i" by auto
  with c i(2,3) show "case find (\<lambda>s. st_ID s = d) ?xs of None \<Rightarrow> False | Some s \<Rightarrow> st_Status s = ''completed''" by simp
qed

lemma assigned_mono: "assigned plan plan' as \<Longrightarrow> set as \<subseteq> set as' \<Longrightarrow> assigned plan plan' as'"
  unfolding assigned_def Let_def by blast

lemma assigned_step:
  assumes a: "assigned plan plan' as" and i: "i < length (apl_Subtasks plan')"
    and st: "st = apl_Subtasks plan' ! i" "st_Status st = ''pending''" "dependenciesMet (apl_Subtasks plan') st"
    and x: "as_Subtask x = st_ID st"
  shows "assigned plan (plan'\<lparr>apl_Subtasks := (apl_Subtasks plan')[i := st\<lparr>st_Status := ''running'', st_AgentID := as_Agent x\<rparr>]\<rparr>) (as @ [x])"
proof -
  let ?xs = "apl_Subtasks plan" and ?ys = "apl_Subtasks plan'"
  have len: "length ?ys = length ?xs" using a by (simp add: assigned_def)
  have "?ys ! i = ?xs ! i \<or> (\<exists>b. ?ys ! i = (?xs ! i)\<lparr>st_Status := ''running'', st_AgentID := b\<rparr>)"
    using a i len by (auto simp: assigned_def Let_def)
  with st have same: "?ys ! i = ?xs ! i" by auto
  have dep: "dependenciesMet ?xs (?xs ! i)" using assigned_deps [OF a] st same by simp
  have m: "assigned plan plan' (as @ [x])" by (rule assigned_mono [OF a]) auto
  show ?thesis
    unfolding assigned_def
  proof (intro conjI allI impI)
    show "apl_TaskPrompt (plan'\<lparr>apl_Subtasks := ?ys[i := st\<lparr>st_Status := ''running'', st_AgentID := as_Agent x\<rparr>]\<rparr>) = apl_TaskPrompt plan"
      using a by (simp add: assigned_def)
    fix j assume j: "j < length ?xs"
    show "let s = ?xs ! j; s' = apl_Subtasks (plan'\<lparr>apl_Subtasks := ?ys[i := st\<lparr>st_Status := ''running'', st_AgentID := as_Agent x\<rparr>]\<rparr>) ! j
      in s' = s \<or> (st_Status s = ''pending'' \<and> dependenciesMet ?xs s \<and>
          (\<exists>a \<in> set (as @ [x]). as_Subtask a = st_ID s \<and> s' = s\<lparr>st_Status := ''running'', st_AgentID := as_Agent a\<rparr>))"
    proof (cases "j = i")
      case True
      then show ?thesis using st same dep x j len by (simp add: Let_def)
    next
      case False
      then show ?thesis using m j by (simp add: assigned_def Let_def)
    qed
  qed (simp add: len)
qed

lemma assign_loop_assigned:
  "assigned plan plan' as \<Longrightarrow> list_all (\<lambda>i. i < length (apl_Subtasks plan)) is \<Longrightarrow>
   case fst (run_state (assign_loop dm c pb taskID ws env is plan' as) w) of (e, plan'', as') \<Rightarrow> assigned plan plan'' as'"
proof (induction dm c pb taskID ws env "is" plan' as arbitrary: w rule: assign_loop.induct)
  case (1 dm c pb taskID ws env plan' as)
  then show ?case by simp
next
  case (2 dm c pb taskID ws env i "is" plan' as)
  have len: "length (apl_Subtasks plan') = length (apl_Subtasks plan)" using 2(3) by (simp add: assigned_def)
  define st where "st = apl_Subtasks plan' ! i"
  show ?case
  proof (cases "st_Status st \<noteq> ''pending'' \<or> \<not> dependenciesMet (apl_Subtasks plan') st")
    case True
    then show ?thesis using 2(1) [OF st_def] 2(3,4) by (simp add: st_def Let_def)
  next
    case False
    define opts where "opts = \<lparr>so_TaskID = taskID, so_SubtaskID = st_ID st,
      so_Role = (if st_AgentRole st = [] then ''developer'' else st_AgentRole st),
      so_Prompt = pb st (apl_Subtasks plan') (apl_TaskPrompt plan'), so_WorkspaceDir = ws, so_EnvVars = env\<rparr>"
    obtain r w1 where r: "run_state (Spawn dm c opts) w = (r, w1)" by fastforce
    define rest :: "spawn_error + AgentInstance \<Rightarrow> ('a pool_world_scheme, string option \<times> AssignPlan \<times> Assignment list) state"
      where "rest r = (case r of
           Inl (SpawnFailed e) \<Rightarrow> State_Monad.return (Some (''spawning agent for subtask '' @ st_ID st @ '': '' @ e), plan', as)
         | Inl _ \<Rightarrow> State_Monad.return (None, plan', as)
         | Inr ag \<Rightarrow> assign_loop dm c pb taskID ws env is
             (plan'\<lparr>apl_Subtasks := (apl_Subtasks plan')[i := st\<lparr>st_Status := ''running'', st_AgentID := ai_ID ag\<rparr>]\<rparr>)
             (as @ [\<lparr>as_Agent = ai_ID ag, as_Subtask = st_ID st\<rparr>]))" for r
    have "assign_loop dm c pb taskID ws env (i # is) plan' as = Spawn dm c opts \<bind> rest"
      unfolding assign_loop.simps Let_def rest_def [abs_def] opts_def st_def by (rule if_not_P [OF False [unfolded st_def]])
    then have run: "run_state (assign_loop dm c pb taskID ws env (i # is) plan' as) w = run_state (rest r) w1"
      using r by simp
    show ?thesis
    proof (cases r)
      case (Inl e)
      then show ?thesis unfolding run rest_def using 2(3) by (cases e) simp_all
    next
      case (Inr ag)
      have s: "assigned plan (plan'\<lparr>apl_Subtasks := (apl_Subtasks plan')[i := st\<lparr>st_Status := ''running'', st_AgentID := ai_ID ag\<rparr>]\<rparr>)
          (as @ [\<lparr>as_Agent = ai_ID ag, as_Subtask = st_ID st\<rparr>])"
        using assigned_step [OF 2(3), of i st "\<lparr>as_Agent = ai_ID ag, as_Subtask = st_ID st\<rparr>"] False 2(4) len st_def by simp
      show ?thesis
        unfolding run rest_def using 2(2) [OF st_def False s] 2(4) Inr by simp
    qed
  qed
qed

text \<open>What \<open>AssignReady\<close> does to the plan, whatever the pool, Docker and the database answer.\<close>

theorem AssignReady_assigned:
  "case fst (run_state (AssignReady dm c pb plan taskID ws env) w) of (e, plan', as) \<Rightarrow> assigned plan plan' as"
  unfolding AssignReady_def
  by (rule assign_loop_assigned) (auto simp: assigned_def Let_def list_all_iff)

end
