(* ===== verification/Go_Time.thy ===== *)
theory Go_Time
  imports Db_Models Go_Strings
begin

text \<open>
  The layouts \<open>time.RFC3339\<close> and \<open>time.RFC3339Nano\<close> of a time in UTC, the latter as \<open>MarshalJSON\<close>
  writes it. The date is computed from the number of days since the epoch, with years that begin
  in March, so that the day that leap years add is a year's last.
\<close>

section \<open>Dates\<close>

text \<open>Year, month and day of a day.\<close>

definition civil :: "int \<Rightarrow> int \<times> int \<times> int" where
  "civil days =
     (let z = days + 719468;
          era = z div 146097;
          doe = z mod 146097;
          yoe = (doe - doe div 1460 + doe div 36524 - doe div 146096) div 365;
          doy = doe - (365 * yoe + yoe div 4 - yoe div 100);
          mp = (5 * doy + 2) div 153;
          m = (if mp < 10 then mp + 3 else mp - 9)
      in ((if m \<le> 2 then 1 else 0) + yoe + 400 * era, m, doy - (153 * mp + 2) div 5 + 1))"

section \<open>Layouts\<close>

definition pad :: "nat \<Rightarrow> int \<Rightarrow> string" where
  "pad n i = replicate (n - length (itoa i)) (CHR ''0'') @ itoa i"

definition go_second :: int where
  "go_second = 1000000000"

definition date_time :: "time \<Rightarrow> string" where
  "date_time t =
     (case civil (t div (86400 * go_second)) of (y, m, d) \<Rightarrow>
        let s = t div go_second mod 86400
        in pad 4 y @ ''-'' @ pad 2 m @ ''-'' @ pad 2 d @ ''T'' @
           pad 2 (s div 3600) @ '':'' @ pad 2 (s div 60 mod 60) @ '':'' @ pad 2 (s mod 60))"

definition RFC3339 :: "time \<Rightarrow> string" where
  "RFC3339 t = date_time t @ ''Z''"

text \<open>The fraction of the second without trailing zeros.\<close>

definition fraction :: "int \<Rightarrow> string" where
  "fraction ns = (if ns = 0 then [] else CHR ''.'' # rev (dropWhile (\<lambda>c. c = CHR ''0'') (rev (pad 9 ns))))"

definition RFC3339Nano :: "time \<Rightarrow> string" where
  "RFC3339Nano t = date_time t @ fraction (t mod go_second) @ ''Z''"

text \<open>\<open>MarshalJSON\<close> refuses a year outside of four digits.\<close>

definition marshal_time :: "time \<Rightarrow> string + string" where
  "marshal_time t =
     (let y = fst (civil (t div (86400 * go_second))) in
      if 0 \<le> y \<and> y \<le> 9999 then Inr (RFC3339Nano t)
      else Inl ''json: error calling MarshalJSON for type time.Time: Time.MarshalJSON: year outside of range [0,9999]'')"

lemma civil_examples: "civil 0 = (1970, 1, 1)" "civil 11016 = (2000, 2, 29)" "civil (- 1) = (1969, 12, 31)"
  by code_simp+

end
