(* ===== verification/State_Store.thy ===== *)
theory State_Store
  imports Traces Json_Codec Go_Time
begin

text \<open>
  \<open>internal/state\<close>: checkpoints. A save writes the copies and the metadata into a temporary
  directory, renames it, and then records the checkpoint in the database. The operations hold the
  store's mutex, so each is one run. \<open>filepath.Walk\<close> reads the tree before its visits change
  anything; the sources and destinations of the copies lie apart. Slices are built by \<open>append\<close>, so
  an empty one is \<open>nil\<close> and printed as \<open>null\<close>.
\<close>

section \<open>Walking\<close>

text \<open>The relative paths that \<open>filepath.Walk\<close> visits: the root, then what is below it. A name in a
  directory is never empty, a dot or dot-dot, and has no slash.\<close>

definition walk_rels :: "path \<Rightarrow> fs \<Rightarrow> string list list" where
  "walk_rels p fs = [] # filter (\<lambda>es. es \<noteq> [] \<and> list_all proper_elem es) (sort (map (\<lambda>(q, n). rel_to p q) (filter (\<lambda>(q, n). under p q) fs)))"

definition walk_names :: "string \<Rightarrow> ('m world_scheme, string list list) state" where
  "walk_names root = gets (\<lambda>w. walk_rels (resolve (w_cwd w) root) (w_fs w))"

definition rel_str :: "string list \<Rightarrow> string" where
  "rel_str es = Join es [slash]"

text \<open>A visit takes the file's information, reads the names of a directory and calls the function; an
  error of the first two is given to the function, and all of them return it. The first error ends the
  walk.\<close>

fun walk_visits :: "string \<Rightarrow> (string \<Rightarrow> string \<Rightarrow> fnode \<Rightarrow> ('m world_scheme, unit) io) \<Rightarrow> string list list \<Rightarrow>
    ('m world_scheme, unit) io" where
  "walk_visits root f [] = ok ()"
| "walk_visits root f (es # ess) =
     (let p = path_Join [root, rel_str es] in
      try_bind (os_str (os_Stat p)) err (\<lambda>n.
      try_bind (if n = Dir then os_str (os_ReadDir p) else ok []) err (\<lambda>_.
      try_bind (f p (rel_str es) n) err (\<lambda>_. walk_visits root f ess))))"

definition Walk :: "string \<Rightarrow> (string \<Rightarrow> string \<Rightarrow> fnode \<Rightarrow> ('m world_scheme, unit) io) \<Rightarrow> ('m world_scheme, unit) io" where
  "Walk root f = do { ess \<leftarrow> walk_names root; walk_visits root f ess }"

section \<open>Files of a checkpoint\<close>

text \<open>The size so far is kept when the walk ends with an error.\<close>

fun size_visits :: "string \<Rightarrow> string list list \<Rightarrow> int \<Rightarrow> ('m world_scheme, int \<times> string option) state" where
  "size_visits root [] sofar = State_Monad.return (sofar, None)"
| "size_visits root (es # ess) sofar =
     (let p = path_Join [root, rel_str es] in
      try_bind (os_str (os_Stat p)) (\<lambda>e. State_Monad.return (sofar, Some e)) (\<lambda>n.
      case n of
        File c \<Rightarrow> size_visits root ess (sofar + int (length c))
      | Dir \<Rightarrow> try_bind (os_str (os_ReadDir p)) (\<lambda>e. State_Monad.return (sofar, Some e)) (\<lambda>_. size_visits root ess sofar)))"

definition calculateDirSize :: "string \<Rightarrow> ('m world_scheme, int \<times> string option) state" where
  "calculateDirSize dir = do { ess \<leftarrow> walk_names dir; size_visits dir ess 0 }"

text \<open>Opening, creating and copying is reading and writing.\<close>

definition copyFile :: "string \<Rightarrow> string \<Rightarrow> ('m world_scheme, unit) io" where
  "copyFile src dst = try_bind (os_str (os_ReadFile src)) err (\<lambda>data. os_str (os_WriteFile dst data))"

definition copy_visit :: "string \<Rightarrow> string \<Rightarrow> string \<Rightarrow> fnode \<Rightarrow> ('m world_scheme, unit) io" where
  "copy_visit dst path relPath info =
     (let target = path_Join [dst, relPath] in
      if info = Dir then os_str (os_MkdirAll target) else copyFile path target)"

definition copyDir :: "string \<Rightarrow> string \<Rightarrow> ('m world_scheme, unit) io" where
  "copyDir src dst =
     or_fail (''stat source '' @ src) (os_str (os_Stat src)) (\<lambda>info.
     if info \<noteq> Dir then err (''source '' @ src @ '' is not a directory'')
     else or_fail (''creating destination '' @ dst) (os_str (os_MkdirAll dst)) (\<lambda>_.
          Walk src (copy_visit dst)))"

text \<open>\<open>MarshalIndent(v, "", "  ")\<close>.\<close>

definition new_line :: "nat \<Rightarrow> string" where
  "new_line n = CHR 0x0A # replicate (2 * n) (CHR '' '')"

fun print_indent :: "nat \<Rightarrow> json \<Rightarrow> string" where
  "print_indent n (JArr vs) =
     (if vs = [] then ''[]''
      else CHR 0x5B # new_line (Suc n) @ Join (map (print_indent (Suc n)) vs) ('','' @ new_line (Suc n)) @ new_line n @ [CHR 0x5D])"
| "print_indent n (JObj ms) =
     (if ms = [] then ''{}''
      else CHR 0x7B # new_line (Suc n) @
        Join (map (\<lambda>(k, v). quote_json k @ '': '' @ print_indent (Suc n) v) ms) ('','' @ new_line (Suc n)) @ new_line n @ [CHR 0x7D])"
| "print_indent n v = print_json v"

text \<open>The value or the error of its marshalling.\<close>

definition writeJSON :: "string \<Rightarrow> string + json \<Rightarrow> ('m world_scheme, unit) io" where
  "writeJSON path v =
     or_fail (''creating directory for '' @ path) (os_str (os_MkdirAll (path_Dir path))) (\<lambda>_.
     case v of Inl e \<Rightarrow> err (''marshaling JSON: '' @ e)
     | Inr j \<Rightarrow> os_str (os_WriteFile path (print_indent 0 j)))"

definition readJSON :: "string \<Rightarrow> ('m world_scheme, json) io" where
  "readJSON path =
     or_fail (''reading '' @ path) (os_str (os_ReadFile path)) (\<lambda>data.
     case parse_json data of None \<Rightarrow> err (''unmarshaling '' @ path @ '': invalid JSON'') | Some j \<Rightarrow> ok j)"

section \<open>What is saved\<close>

record StateStore =
  ss_baseDir :: string

record SaveOpts =
  sv_WorkspaceDir :: string
  sv_ContainerIDs :: "string list"
  sv_PlanProgress :: PlanProgress
  sv_AgentStates :: "AgentState list"
  sv_RepoState :: "RepoState option"
  sv_DockerManager :: "docker_manager option"
  sv_StreamHub :: "Hub option"
  sv_TaskPrompt :: string
  sv_PlanJSON :: string

record RestoreResult =
  rr_Checkpoint :: Checkpoint
  rr_WorkspaceDir :: string
  rr_ClaudeMemoryDir :: string
  rr_ResumePrompt :: string

record CheckpointInfo =
  ci_ID :: string
  ci_TaskID :: string
  ci_CreatedAt :: time
  ci_SizeBytes :: int

definition NewStateStore :: "string \<Rightarrow> StateStore" where
  "NewStateStore baseDir = \<lparr>ss_baseDir = baseDir\<rparr>"

definition enc_slice :: "('a \<Rightarrow> json) \<Rightarrow> 'a list \<Rightarrow> json" where
  "enc_slice f xs = (if xs = [] then JNull else JArr (map f xs))"

definition enc_progress :: "PlanProgress \<Rightarrow> json" where
  "enc_progress p = JObj [(''plan_id'', JStr (pp_PlanID p)), (''completed_subtasks'', enc_slice JStr (pp_CompletedSubtasks p)),
     (''current_subtask'', JStr (pp_CurrentSubtask p)), (''failed_subtasks'', enc_slice JStr (pp_FailedSubtasks p))]"

definition enc_agent_state :: "AgentState \<Rightarrow> json" where
  "enc_agent_state a = JObj [(''agent_id'', JStr (AgentState.as_AgentID a)), (''subtask_id'', JStr (as_SubtaskID a)),
     (''status'', JStr (as_Status a)), (''last_output'', JStr (as_LastOutput a))]"

definition enc_repo_state :: "RepoState \<Rightarrow> json" where
  "enc_repo_state r = JObj [(''branch'', JStr (rs_Branch r)), (''last_commit_hash'', JStr (rs_LastCommitHash r)),
     (''uncommitted_files'', enc_slice JStr (rs_UncommittedFiles r))]"

definition enc_pointer :: "('a \<Rightarrow> json) \<Rightarrow> 'a option \<Rightarrow> json" where
  "enc_pointer f x = (case x of None \<Rightarrow> JNull | Some y \<Rightarrow> f y)"

text \<open>The argument is the content of an interface value; a \<open>nil\<close> slice or pointer in it is not \<open>nil\<close>.\<close>

definition marshalOptional :: "json option \<Rightarrow> string option" where
  "marshalOptional v = map_option (print_indent 0) v"

definition marshalRequired :: "json \<Rightarrow> string" where
  "marshalRequired v = print_indent 0 v"

definition bullets :: "string \<Rightarrow> string list \<Rightarrow> string" where
  "bullets what ids = concat (map (\<lambda>i. ''- '' @ i @ '' ('' @ what @ '')\<newline>'') ids)"

definition last_output :: "AgentState \<Rightarrow> string" where
  "last_output a =
     (if as_LastOutput a = [] then []
      else ''## Last Output (agent '' @ AgentState.as_AgentID a @ '')\<newline>'' @
        (let output = as_LastOutput a in if length output > 4096 then drop (length output - 4096) output else output) @
        ''\<newline>\<newline>'')"

definition buildResumePrompt :: "SaveOpts \<Rightarrow> string" where
  "buildResumePrompt opts =
     (let p = sv_PlanProgress opts in
      ''You are resuming a previously interrupted task.\<newline>\<newline>'' @
      ''## Original Task\<newline>'' @ sv_TaskPrompt opts @ ''\<newline>\<newline>'' @
      (if sv_PlanJSON opts \<noteq> [] then ''## Execution Plan\<newline>'' @ sv_PlanJSON opts @ ''\<newline>\<newline>'' else []) @
      ''## Progress\<newline>'' @
      (if pp_CompletedSubtasks p \<noteq> [] then ''Completed subtasks:\<newline>'' @ bullets ''completed'' (pp_CompletedSubtasks p) else []) @
      (if pp_CurrentSubtask p \<noteq> [] then ''Current subtask (to resume): '' @ pp_CurrentSubtask p @ ''\<newline>'' else []) @
      (if pp_FailedSubtasks p \<noteq> [] then ''Failed subtasks (need retry):\<newline>'' @ bullets ''failed'' (pp_FailedSubtasks p) else []) @
      ''\<newline>'' @
      concat (map last_output (sv_AgentStates opts)) @
      ''## Instructions\<newline>'' @
      ''Resume execution from the current subtask. The workspace files reflect the state at the time of interruption. '' @
      ''Your memory directory contains previously saved context. '' @
      ''Continue without redoing completed subtasks.\<newline>'')"

section \<open>Saving\<close>

definition copyWorkspace :: "string \<Rightarrow> SaveOpts \<Rightarrow> ('m world_scheme, unit) io" where
  "copyWorkspace tmpDir opts =
     (let workspaceDst = path_Join [tmpDir, ''workspace''] in
      if sv_ContainerIDs opts \<noteq> [] \<and> sv_DockerManager opts \<noteq> None
      then or_fail ''copying workspace from container''
             (CopyFromContainer (hd (sv_ContainerIDs opts)) ''/home/agent/workspace/'' workspaceDst) ok
      else if sv_WorkspaceDir opts \<noteq> []
      then try_bind (os_Stat (sv_WorkspaceDir opts)) (\<lambda>_. ok ()) (\<lambda>_. copyDir (sv_WorkspaceDir opts) workspaceDst)
      else ok ())"

definition copyClaudeMemory :: "string \<Rightarrow> SaveOpts \<Rightarrow> ('m world_scheme, unit) io" where
  "copyClaudeMemory tmpDir opts =
     (if sv_ContainerIDs opts = [] \<or> sv_DockerManager opts = None then ok ()
      else or_fail ''copying Claude memory from container''
             (CopyFromContainer (hd (sv_ContainerIDs opts)) ''/home/agent/.claude/'' (path_Join [tmpDir, ''claude-memory''])) ok)"

fun save_logs :: "Hub \<Rightarrow> string \<Rightarrow> AgentState list \<Rightarrow> ('m world_scheme, unit) io" where
  "save_logs hub tmpDir [] = ok ()"
| "save_logs hub tmpDir (a # as) =
     (let agentDir = path_Join [tmpDir, ''agent-states'', AgentState.as_AgentID a]; bufferData = GetFullBuffer hub (AgentState.as_AgentID a) in
      or_fail ''creating agent state dir'' (os_str (os_MkdirAll agentDir)) (\<lambda>_.
      or_fail ''writing agent output log''
        (if bufferData \<noteq> [] then os_str (os_WriteFile (path_Join [agentDir, ''output.log'']) bufferData) else ok ()) (\<lambda>_.
      or_fail ''writing agent metadata'' (writeJSON (path_Join [agentDir, ''metadata.json'']) (Inr (enc_agent_state a))) (\<lambda>_.
      save_logs hub tmpDir as))))"

definition saveAgentLogs :: "string \<Rightarrow> SaveOpts \<Rightarrow> ('m world_scheme, unit) io" where
  "saveAgentLogs tmpDir opts = (case sv_StreamHub opts of None \<Rightarrow> ok () | Some hub \<Rightarrow> save_logs hub tmpDir (sv_AgentStates opts))"

text \<open>The metadata: a map, whose keys are printed in order.\<close>

definition checkpoint_meta :: "string \<Rightarrow> string \<Rightarrow> SaveOpts \<Rightarrow> string \<Rightarrow> time \<Rightarrow> string + json" where
  "checkpoint_meta checkpointID taskID opts resumePrompt now =
     (case marshal_time now of Inl e \<Rightarrow> Inl e
      | Inr t \<Rightarrow> Inr (JObj
          [(''agent_states'', enc_slice enc_agent_state (sv_AgentStates opts)), (''created_at'', JStr t), (''id'', JStr checkpointID),
           (''plan_progress'', enc_progress (sv_PlanProgress opts)), (''repo_state'', enc_pointer enc_repo_state (sv_RepoState opts)),
           (''resume_prompt'', JStr resumePrompt), (''task_id'', JStr taskID)]))"

text \<open>The part that writes below the temporary directory; it gives the time of the checkpoint. Then the
  rename.\<close>

definition write_files :: "string \<Rightarrow> string \<Rightarrow> string \<Rightarrow> SaveOpts \<Rightarrow> ('m world_scheme, time) io" where
  "write_files checkpointID taskID tmpDir opts =
     or_fail ''creating temp state directory'' (os_str (os_MkdirAll tmpDir)) (\<lambda>_. do {
       _ \<leftarrow> ignore (copyWorkspace tmpDir opts);
       _ \<leftarrow> ignore (copyClaudeMemory tmpDir opts);
       _ \<leftarrow> ignore (saveAgentLogs tmpDir opts);
       or_fail ''writing plan progress''
         (writeJSON (path_Join [tmpDir, ''plan-progress.json'']) (Inr (enc_progress (sv_PlanProgress opts)))) (\<lambda>_. do {
         now \<leftarrow> time_now;
         or_fail ''writing checkpoint metadata''
           (writeJSON (path_Join [tmpDir, ''checkpoint.json''])
              (checkpoint_meta checkpointID taskID opts (buildResumePrompt opts) now)) (\<lambda>_. ok now) }) })"

definition write_checkpoint :: "string \<Rightarrow> string \<Rightarrow> string \<Rightarrow> string \<Rightarrow> SaveOpts \<Rightarrow> ('m world_scheme, time) io" where
  "write_checkpoint checkpointID taskID stateDir tmpDir opts =
     try_bind (write_files checkpointID taskID tmpDir opts) err (\<lambda>now.
     or_fail ''renaming temp dir to final'' (os_str (os_Rename tmpDir stateDir)) (\<lambda>_. ok now))"

definition doSaveCheckpoint :: "StateStore \<Rightarrow> ctx \<Rightarrow> string \<Rightarrow> SaveOpts \<Rightarrow> ('m world_scheme, Checkpoint) io" where
  "doSaveCheckpoint s c taskID opts = do {
     checkpointID \<leftarrow> New_UUID;
     let stateDir = path_Join [ss_baseDir s, taskID, checkpointID];
     let tmpDir = stateDir @ ''.tmp'';
     try_bind (write_checkpoint checkpointID taskID stateDir tmpDir opts)
       (\<lambda>e. do { _ \<leftarrow> ignore (os_RemoveAll tmpDir); err e })
       (\<lambda>now. do {
          (bytes, _) \<leftarrow> calculateDirSize stateDir;
          let cp = \<lparr>cp_ID = checkpointID, cp_TaskID = taskID, cp_StateDir = stateDir,
            cp_PlanProgress = marshalRequired (enc_progress (sv_PlanProgress opts)),
            cp_AgentStates = marshalOptional (Some (enc_slice enc_agent_state (sv_AgentStates opts))),
            cp_RepoState = marshalOptional (Some (enc_pointer enc_repo_state (sv_RepoState opts))),
            cp_ResumePrompt = Some (buildResumePrompt opts), cp_SizeBytes = Some bytes, cp_CreatedAt = now\<rparr>;
          or_fail ''saving checkpoint to DB'' (in_ctx c (CreateCheckpoint cp)) (\<lambda>_. ok cp) }) }"

definition SaveCheckpoint :: "StateStore \<Rightarrow> ctx \<Rightarrow> string \<Rightarrow> SaveOpts \<Rightarrow> ('m world_scheme, Checkpoint) io" where
  "SaveCheckpoint s c taskID opts = doSaveCheckpoint s c taskID opts"

definition SaveCheckpointLive :: "StateStore \<Rightarrow> ctx \<Rightarrow> string \<Rightarrow> SaveOpts \<Rightarrow> ('m world_scheme, Checkpoint) io" where
  "SaveCheckpointLive s c taskID opts = doSaveCheckpoint s c taskID opts"

section \<open>Restoring\<close>

text \<open>The metadata is read and only used for a warning.\<close>

definition RestoreCheckpoint :: "ctx \<Rightarrow> string \<Rightarrow> ('m world_scheme, RestoreResult) io" where
  "RestoreCheckpoint c taskID =
     or_fail ''getting latest checkpoint'' (in_ctx c (GetLatestCheckpoint taskID)) (\<lambda>r.
     case r of
       None \<Rightarrow> err (''no checkpoint found for task '' @ taskID)
     | Some cp \<Rightarrow>
         or_fail (''state directory '' @ cp_StateDir cp @ '' not found'') (os_str (os_Stat (cp_StateDir cp))) (\<lambda>_. do {
           _ \<leftarrow> ignore (readJSON (path_Join [cp_StateDir cp, ''checkpoint.json'']));
           ok \<lparr>rr_Checkpoint = cp, rr_WorkspaceDir = path_Join [cp_StateDir cp, ''workspace''],
               rr_ClaudeMemoryDir = path_Join [cp_StateDir cp, ''claude-memory''],
               rr_ResumePrompt = (case cp_ResumePrompt cp of None \<Rightarrow> [] | Some p \<Rightarrow> p)\<rparr> }))"

section \<open>Listing and deleting\<close>

text \<open>The entry's time is that of its directory when \<open>Info\<close> succeeds, and the zero time otherwise.\<close>

definition no_mtime :: time where
  "no_mtime = - 62135596800 * go_second"

definition entry_time :: "string \<Rightarrow> ('m world_scheme, time) state" where
  "entry_time p = do {
     t \<leftarrow> gets (\<lambda>w. w_mtime w (w_tick w) (resolve (w_cwd w) p));
     r \<leftarrow> os_Stat p;
     State_Monad.return (case r of Inl _ \<Rightarrow> no_mtime | Inr _ \<Rightarrow> t) }"

fun checkpoint_infos :: "string \<Rightarrow> string \<Rightarrow> (string \<times> bool) list \<Rightarrow> ('m world_scheme, CheckpointInfo list) state" where
  "checkpoint_infos taskDir taskID [] = State_Monad.return []"
| "checkpoint_infos taskDir taskID ((name, isDir) # entries) =
     (if \<not> isDir \<or> HasSuffix name ''.tmp'' then checkpoint_infos taskDir taskID entries
      else do {
        let cpDir = path_Join [taskDir, name];
        (bytes, _) \<leftarrow> calculateDirSize cpDir;
        createdAt \<leftarrow> entry_time cpDir;
        infos \<leftarrow> checkpoint_infos taskDir taskID entries;
        State_Monad.return (\<lparr>ci_ID = name, ci_TaskID = taskID, ci_CreatedAt = createdAt, ci_SizeBytes = bytes\<rparr> # infos) })"

text \<open>\<open>sort.Slice\<close> is not stable; \<open>ties\<close> permutes the entries first, which gives every order it can
  produce.\<close>

definition newest_first :: "(CheckpointInfo list \<Rightarrow> CheckpointInfo list) \<Rightarrow> CheckpointInfo list \<Rightarrow> CheckpointInfo list" where
  "newest_first ties infos = sort_key (\<lambda>i. - ci_CreatedAt i) (ties infos)"

definition ss_ListCheckpoints :: "StateStore \<Rightarrow> (CheckpointInfo list \<Rightarrow> CheckpointInfo list) \<Rightarrow> string \<Rightarrow>
    ('m world_scheme, CheckpointInfo list) io" where
  "ss_ListCheckpoints s ties taskID = do {
     let taskDir = path_Join [ss_baseDir s, taskID];
     r \<leftarrow> os_ReadDir taskDir;
     (case r of
        Inl NotExist \<Rightarrow> ok []
      | Inl (OsError e) \<Rightarrow> err (''reading task state dir: '' @ e)
      | Inr entries \<Rightarrow> do { infos \<leftarrow> checkpoint_infos taskDir taskID entries; ok (newest_first ties infos) }) }"

definition ss_DeleteCheckpoint :: "StateStore \<Rightarrow> ctx \<Rightarrow> string \<Rightarrow> string \<Rightarrow> ('m world_scheme, unit) io" where
  "ss_DeleteCheckpoint s c taskID checkpointID = do {
     r \<leftarrow> os_RemoveAll (path_Join [ss_baseDir s, taskID, checkpointID]);
     (case r of
        Inl (OsError e) \<Rightarrow> err (''removing checkpoint dir: '' @ e)
      | _ \<Rightarrow> do { _ \<leftarrow> ignore (in_ctx c (DeleteCheckpoint checkpointID)); ok () }) }"

section \<open>Retention\<close>

text \<open>\<open>-time.Duration(retentionDays) * 24 * time.Hour\<close> in 64 bits; adding to a time does not wrap
  between the years that occur.\<close>

definition retention_span :: "int \<Rightarrow> int" where
  "retention_span retentionDays = signed_take_bit 63 (- retentionDays * 24 * 3600 * go_second)"

definition expired :: "int \<Rightarrow> time \<Rightarrow> nat \<Rightarrow> CheckpointInfo \<Rightarrow> bool" where
  "expired maxPerTask cutoff i cp \<longleftrightarrow> (maxPerTask > 0 \<and> int i \<ge> maxPerTask) \<or> ci_CreatedAt cp < cutoff"

fun cleanup_checkpoints :: "StateStore \<Rightarrow> ctx \<Rightarrow> int \<Rightarrow> time \<Rightarrow> string \<Rightarrow> nat \<Rightarrow> CheckpointInfo list \<Rightarrow> ('m world_scheme, unit) state" where
  "cleanup_checkpoints s c maxPerTask cutoff taskID i [] = State_Monad.return ()"
| "cleanup_checkpoints s c maxPerTask cutoff taskID i (cp # cps) = do {
     _ \<leftarrow> when_do (expired maxPerTask cutoff i cp) (ignore (ss_DeleteCheckpoint s c taskID (ci_ID cp)));
     cleanup_checkpoints s c maxPerTask cutoff taskID (Suc i) cps }"

definition Cleanup :: "StateStore \<Rightarrow> (CheckpointInfo list \<Rightarrow> CheckpointInfo list) \<Rightarrow> ctx \<Rightarrow> int \<Rightarrow> int \<Rightarrow> ('m world_scheme, unit) io" where
  "Cleanup s ties c retentionDays maxPerTask = do {
     r \<leftarrow> os_ReadDir (ss_baseDir s);
     (case r of
        Inl NotExist \<Rightarrow> ok ()
      | Inl (OsError e) \<Rightarrow> err (''reading base state dir: '' @ e)
      | Inr entries \<Rightarrow> do {
          now \<leftarrow> time_now;
          let cutoff = now + retention_span retentionDays;
          _ \<leftarrow> for_each entries (\<lambda>(taskID, isDir). when_do isDir
            (try_bind (ss_ListCheckpoints s ties taskID) (\<lambda>_. State_Monad.return ())
               (cleanup_checkpoints s c maxPerTask cutoff taskID 0)));
          ok () }) }"

section \<open>Automatic saves\<close>

text \<open>\<open>av_cancel\<close> and \<open>av_done\<close>: the fields are not \<open>nil\<close>.\<close>

record AutoSaver =
  av_store :: StateStore
  av_interval :: int
  av_cancel :: bool
  av_done :: bool

definition DefaultAutoSaveInterval :: int where
  "DefaultAutoSaveInterval = 5 * 60 * go_second"

definition NewAutoSaver :: "StateStore \<Rightarrow> int \<Rightarrow> AutoSaver" where
  "NewAutoSaver s interval = \<lparr>av_store = s,
     av_interval = (if interval \<le> 0 then DefaultAutoSaveInterval else interval), av_cancel = False, av_done = False\<rparr>"

text \<open>Whether the goroutine is started.\<close>

definition av_Start :: "AutoSaver \<Rightarrow> bool \<times> AutoSaver" where
  "av_Start a = (if av_cancel a then (False, a) else (True, a\<lparr>av_cancel := True, av_done := True\<rparr>))"

text \<open>Whether the goroutine is cancelled, and whether \<open>Stop\<close> waits for a goroutine to have ended.\<close>

definition av_Stop :: "AutoSaver \<Rightarrow> (bool \<times> bool) \<times> AutoSaver" where
  "av_Stop a = ((av_cancel a, av_done a), a\<lparr>av_cancel := False\<rparr>)"

text \<open>What the goroutine's \<open>select\<close> receives, as long as the task runs.\<close>

datatype saver_event = SaverTick | SaverDone

fun av_run :: "AutoSaver \<Rightarrow> ctx \<Rightarrow> string \<Rightarrow> SaveOpts \<Rightarrow> saver_event list \<Rightarrow> ('m world_scheme, unit) state" where
  "av_run a c taskID opts [] = State_Monad.return ()"
| "av_run a c taskID opts (SaverTick # es) = do {
     _ \<leftarrow> ignore (SaveCheckpointLive (av_store a) c taskID opts);
     av_run a c taskID opts es }"
| "av_run a c taskID opts (SaverDone # es) = State_Monad.return ()"

end
