(* ===== verification/Checkpoint_Facts.thy ===== *)
theory Checkpoint_Facts
  imports State_Store
begin

text \<open>
  Correctness of the checkpoints of \<open>State_Store\<close>: what a save may touch, what it leaves behind when
  it fails, and that restoring finds the workspace as it was when it was saved.
\<close>

section \<open>Paths of a checkpoint\<close>

lemma Join_snoc: "Join (xs @ [e]) sep @ t = Join (xs @ [e @ t]) sep"
  by (induction xs) (simp_all add: Join_no_slash)

lemma clean_elems_snoc: "e \<notin> {[], ''.'', ''..''} \<Longrightarrow> clean_elems r st (es @ [e]) = clean_elems r st es @ [e]"
  by (simp add: clean_elems_append)

lemma Join_append_last: "xs \<noteq> [] \<Longrightarrow> Join (xs @ [e]) sep = Join xs sep @ sep @ e"
  by (induction xs rule: induct_list012) simp_all

lemma is_rooted_Join: "a \<noteq> [] \<Longrightarrow> is_rooted (Join (a # bs) [slash]) = is_rooted a"
  by (cases a) (auto simp: Join_no_slash is_rooted_def)

text \<open>Appending to the last part of a joined path.\<close>

lemma path_Join_suffix:
  assumes "proper_elem e" "proper_elem (e @ t)" "a \<noteq> []"
  shows "path_Join (a # bs @ [e]) @ t = path_Join (a # bs @ [e @ t])"
proof -
  let ?bs = "filter (\<lambda>b. b \<noteq> []) bs"
  have ne: "e \<noteq> []" "e @ t \<noteq> []" "slash \<notin> set e" "slash \<notin> set (e @ t)" "e \<notin> {[], ''.'', ''..''}" "e @ t \<notin> {[], ''.'', ''..''}"
    using assms(1,2) by (auto simp: proper_elem_def)
  have j: "path_Join (a # bs @ [x]) = Clean (Join (a # ?bs) [slash] @ slash # x)" if "x \<noteq> []" for x
    using that assms(3) Join_append_last [of "a # ?bs" x "[slash]"] by (simp add: path_Join_def)
  have r: "is_rooted (Join (a # ?bs) [slash] @ slash # x) = (Join (a # ?bs) [slash] = [] \<or> is_rooted (Join (a # ?bs) [slash]))" for x
    by (cases "Join (a # ?bs) [slash]") (simp_all add: is_rooted_def)
  have c: "clean_elems b [] (Split slash (Join (a # ?bs) [slash] @ slash # x)) =
      clean_elems b [] (Split slash (Join (a # ?bs) [slash])) @ [x]" if "slash \<notin> set x" "x \<notin> {[], ''.'', ''..''}" for b x
    using that by (simp add: Split_append Split_none clean_elems_snoc)
  show ?thesis
    unfolding j [OF ne(1)] j [OF ne(2)] Clean_def Let_def r c [OF ne(3,5)] c [OF ne(4,6)]
    by (simp add: Join_snoc)
qed

lemma proper_no_dotdot: "proper_elem e \<Longrightarrow> no_dotdot (part_elems [e])"
  by (auto simp: proper_elem_def no_dotdot_def part_elems_def Split_none)

lemma proper_tmp: "proper_elem e \<Longrightarrow> proper_elem (e @ ''.tmp'')"
  by (cases e) (auto simp: proper_elem_def slash_def)

text \<open>Elements without a slash, dot or dot-dot.\<close>

lemma part_elems_proper: "list_all proper_elem bs \<Longrightarrow> part_elems bs = bs"
  by (induction bs) (auto simp: part_elems_def proper_elem_def Split_none)

lemma resolve_elems:
  assumes "is_rooted cwd" "a \<noteq> []" "list_all proper_elem bs"
  shows "resolve cwd (path_Join (a # bs)) = sub_path (resolve cwd a) bs"
proof -
  have p: "part_elems bs = bs" by (rule part_elems_proper [OF assms(3)])
  have "no_dotdot bs" "filter (\<lambda>e. e \<noteq> [] \<and> e \<noteq> ''.'') bs = bs"
    using assms(3) by (auto simp: no_dotdot_def list_all_iff proper_elem_def)
  then show ?thesis using resolve_below [OF assms(1,2), of bs] p by (simp add: below_def)
qed

lemma rel_str_part: "list_all proper_elem es \<Longrightarrow> part_elems [rel_str es] = es"
proof (cases "es = []")
  case False
  assume p: "list_all proper_elem es"
  then have "rel_str es \<noteq> []" using False by (cases es) (auto simp: rel_str_def Join_no_slash proper_elem_def)
  moreover have "Split slash (rel_str es) = es"
    unfolding rel_str_def by (rule Split_Join [OF False]) (use p in \<open>auto simp: list_all_iff proper_elem_def\<close>)
  ultimately show ?thesis by (simp add: part_elems_def)
qed (simp add: part_elems_def rel_str_def)

lemma resolve_rel:
  assumes "is_rooted cwd" "a \<noteq> []" "list_all proper_elem es"
  shows "resolve cwd (path_Join [a, rel_str es]) = sub_path (resolve cwd a) es"
proof -
  have p: "part_elems [rel_str es] = es" by (rule rel_str_part [OF assms(3)])
  have "no_dotdot es" "filter (\<lambda>e. e \<noteq> [] \<and> e \<noteq> ''.'') es = es"
    using assms(3) by (auto simp: no_dotdot_def list_all_iff proper_elem_def)
  then show ?thesis using resolve_below [OF assms(1,2), of "[rel_str es]"] p by (simp add: below_def)
qed

lemma Clean_ne: "Clean p \<noteq> []"
proof (cases "is_rooted p \<or> clean_elems False [] (Split slash p) = []")
  case False
  have "list_all (\<lambda>e. stack_elem e \<and> slash \<notin> set e) (clean_elems False [] (Split slash p))"
    by (rule clean_rel_elems) (auto dest: Split_no_sep)
  with False show ?thesis
    by (cases "clean_elems False [] (Split slash p)") (auto simp: Clean_def Let_def Join_no_slash stack_elem_def)
qed (auto simp: Clean_def Let_def)

lemma path_Join_ne [simp]: "a \<noteq> [] \<Longrightarrow> path_Join (a # bs) \<noteq> []"
  by (simp add: path_Join_def Clean_ne)

section \<open>Where a save writes\<close>

text \<open>Archives whose names do not climb.\<close>

definition clean_archives :: "docker_api \<Rightarrow> bool" where
  "clean_archives d \<longleftrightarrow> (\<forall>t i p es fin. da_Copy d t i p = Inr (es, fin) \<longrightarrow> list_all (\<lambda>(name, ty, data). no_dotdot (Split slash name)) es)"

text \<open>The files stay within \<open>D\<close> when the archives are clean.\<close>

definition confined_rel :: "string \<Rightarrow> path set \<Rightarrow> 'm world_scheme \<Rightarrow> 'm world_scheme \<Rightarrow> bool" where
  "confined_rel cwd D w w' \<longleftrightarrow> w_docker w' = w_docker w \<and> (clean_archives (w_docker w) \<longrightarrow> files_rel cwd D w w')"

interpretation confined: effect_logic "confined_rel cwd D" for cwd D
proof unfold_locales
  fix s t u :: "'b world_scheme"
  show "confined_rel cwd D s s" by (simp add: confined_rel_def)
  show "quiet_rel s t \<Longrightarrow> confined_rel cwd D s t"
    using files.R_quiet [of s t cwd D] by (auto simp: confined_rel_def quiet_rel_def still_rel_def)
  show "confined_rel cwd D s t \<Longrightarrow> confined_rel cwd D t u \<Longrightarrow> confined_rel cwd D s u"
    unfolding confined_rel_def using files.R_trans [of cwd D s t u] by simp
qed

lemma confined_files: "files.steps cwd D m \<Longrightarrow> still.steps m \<Longrightarrow> confined.steps cwd D m"
  unfolding files.steps_def still.steps_def confined.steps_def confined_rel_def still_rel_def by simp

lemma still_os [intro]: "still.steps (os_MkdirAll p)" "still.steps (os_WriteFile p data)" "still.steps (os_RemoveAll p)"
  "still.steps (os_Rename p q)"
  unfolding os_MkdirAll_def os_WriteFile_def os_RemoveAll_def os_Rename_def by auto

lemma confined_MkdirAll:
  "d \<in> D \<Longrightarrow> under d (resolve cwd p) \<or> under (resolve cwd p) d \<Longrightarrow> confined.steps cwd D (os_MkdirAll p)"
  by (intro confined_files files_MkdirAll) auto

lemma confined_WriteFile: "d \<in> D \<Longrightarrow> under d (resolve cwd p) \<Longrightarrow> confined.steps cwd D (os_WriteFile p data)"
  by (intro confined_files files_WriteFile) auto

lemma confined_RemoveAll: "d \<in> D \<Longrightarrow> under d (resolve cwd p) \<Longrightarrow> confined.steps cwd D (os_RemoveAll p)"
  by (intro confined_files files_RemoveAll) auto

lemma confined_Rename:
  "d \<in> D \<Longrightarrow> under d (resolve cwd p) \<Longrightarrow> under d (resolve cwd q) \<Longrightarrow> snd d \<noteq> [] \<Longrightarrow> confined.steps cwd D (os_Rename p q)"
  by (rule confined_files, rule files_Rename [of d D cwd p d q]) auto

lemma confined_CopyFromContainer:
  assumes "is_rooted cwd" "d \<in> D" "dst \<noteq> []" "under d (resolve cwd dst)"
  shows "confined.steps cwd D (CopyFromContainer i src dst)"
proof (rule confined.stepsI)
  fix w :: "'b world_scheme"
  let ?w1 = "(tick w)\<lparr>w_calls := w_calls w @ [DCopy i src]\<rparr>"
  let ?a = "da_Copy (w_docker w) (w_tick w) i src"
  have w1: "confined_rel cwd D w ?w1" by (simp add: confined_rel_def files_rel_def file_ok_def)
  show "confined_rel cwd D w (snd (run_state (CopyFromContainer i src dst) w))"
  proof (cases ?a)
    case (Inl e)
    with w1 show ?thesis by (simp add: CopyFromContainer_def)
  next
    case (Inr p)
    obtain es fin where p: "p = (es, fin)" by fastforce
    let ?m = "or_fail (''creating destination '' @ dst) (os_str (os_MkdirAll dst)) (\<lambda>_. unpack_entries dst es fin)"
    have run: "snd (run_state (CopyFromContainer i src dst) w) = snd (run_state ?m ?w1)"
      using Inr p by (simp add: CopyFromContainer_def split: sum.split prod.split)
    have unpack: "still.steps (unpack_entries dst es fin)"
      by (induction dst es fin rule: unpack_entries.induct)
         (auto simp: Let_def os_MkdirAll_def os_WriteFile_def intro!: still.steps_intros still.steps_os_str split: option.split tar_type.split)
    then have still: "still.steps ?m"
      by (auto simp: os_MkdirAll_def intro!: still.steps_or_fail still.steps_os_str)
    show ?thesis
    proof (cases "clean_archives (w_docker w)")
      case True
      then have "list_all (\<lambda>(name, ty, data). no_dotdot (Split slash name)) es"
        using Inr p unfolding clean_archives_def by blast
      then have "files.steps cwd D ?m"
        by (intro files.steps_or_fail files.steps_os_str files_MkdirAll [OF assms(2)] files_unpack [OF assms(1,2)])
           (use assms in auto)
      from confined.stepsD [OF confined_files [OF this still]] w1 show ?thesis
        unfolding run by (rule confined.R_trans [rotated])
    next
      case False
      then show ?thesis using still.stepsD [OF still, of ?w1] unfolding run by (simp add: confined_rel_def still_rel_def)
    qed
  qed
qed

text \<open>What the operations of the store write lies below a directory \<open>d\<close>.\<close>

lemma resolve_Join_under:
  "is_rooted cwd \<Longrightarrow> a \<noteq> [] \<Longrightarrow> no_dotdot (part_elems bs) \<Longrightarrow> under d (resolve cwd a) \<Longrightarrow> under d (resolve cwd (path_Join (a # bs)))"
  using resolve_below under_trans under_below by metis

lemma no_dotdot_rel: "no_dotdot es \<Longrightarrow> list_all (\<lambda>e. slash \<notin> set e) es \<Longrightarrow> no_dotdot (part_elems [rel_str es])"
  using Split_Join [of es slash]
  by (cases "rel_str es = []"; cases "es = []") (auto simp: part_elems_def no_dotdot_def rel_str_def list_all_iff)

definition fs_proper :: "fs \<Rightarrow> bool" where
  "fs_proper fs \<longleftrightarrow> (\<forall>(q, n) \<in> set fs. list_all proper_elem (snd q))"

lemma confined_writeJSON:
  assumes "is_rooted cwd" "under d (resolve cwd p)"
  shows "confined.steps cwd {d} (writeJSON p v)"
  unfolding writeJSON_def
  by (intro confined.steps_or_fail confined.steps_os_str confined.steps_sum confined.steps_err
      confined_MkdirAll [of d] confined_WriteFile [of d]) (use assms resolve_Dir_below [OF assms] in auto)

lemma confined_save_logs:
  assumes "is_rooted cwd" "under d (resolve cwd tmp)" "tmp \<noteq> []"
  shows "(\<And>a. a \<in> set as \<Longrightarrow> no_dotdot (part_elems [AgentState.as_AgentID a])) \<Longrightarrow> confined.steps cwd {d} (save_logs hub tmp as)"
proof (induction as)
  case (Cons a as)
  let ?dir = "path_Join [tmp, ''agent-states'', AgentState.as_AgentID a]"
  have nd: "no_dotdot (part_elems [''agent-states'', AgentState.as_AgentID a])"
    using Cons.prems [of a] by (auto simp: no_dotdot_def part_elems_def slash_def)
  have ne: "?dir \<noteq> []" using assms(3) by simp
  have dir: "under d (resolve cwd ?dir)"
    by (rule resolve_Join_under [OF assms(1,3) nd assms(2)])
  have f: "under d (resolve cwd (path_Join [?dir, ''output.log'']))" "under d (resolve cwd (path_Join [?dir, ''metadata.json'']))"
    by (rule resolve_Join_under [OF assms(1) ne _ dir]; simp add: part_elems_def no_dotdot_def slash_def)+
  show ?case
    unfolding save_logs.simps Let_def
    by (intro confined.steps_or_fail confined.steps_os_str confined.steps_if confined.steps_ok confined_MkdirAll [of d]
        confined_WriteFile [of d] confined_writeJSON [OF assms(1) f(2)] Cons.IH)
       (use dir f Cons.prems in auto)
qed auto

lemma no_dotdot_rel_str: "list_all proper_elem es \<Longrightarrow> no_dotdot (part_elems [rel_str es])"
  by (simp add: rel_str_part) (auto simp: no_dotdot_def list_all_iff proper_elem_def)

lemma walk_rels_proper: "list_all (list_all proper_elem) (walk_rels p fs)"
  by (auto simp: walk_rels_def list_all_iff)

lemma confined_gets_bind: "(\<And>w. confined.steps cwd D (f (g w))) \<Longrightarrow> confined.steps cwd D (gets g \<bind> f)"
  for f :: "'a \<Rightarrow> ('m world_scheme, 'b) state"
  unfolding confined.steps_def by simp

lemma confined_visits:
  assumes "\<And>p es n. list_all proper_elem es \<Longrightarrow> confined.steps cwd D (f p (rel_str es) n)"
  shows "list_all (list_all proper_elem) ess \<Longrightarrow> confined.steps cwd D (walk_visits root f ess)"
  by (induction ess) (auto simp: Let_def intro!: confined.steps_try_bind assms)

lemma confined_copyDir:
  assumes "is_rooted cwd" "dst \<noteq> []" "under d (resolve cwd dst)"
  shows "confined.steps cwd {d} (copyDir src dst)"
proof -
  have t: "under d (resolve cwd (path_Join [dst, rel_str es]))" if "list_all proper_elem es" for es
    by (rule resolve_Join_under [OF assms(1,2) no_dotdot_rel_str [OF that] assms(3)])
  have v: "confined.steps cwd {d} (copy_visit dst p (rel_str es) n :: ('a world_scheme, unit) io)" if "list_all proper_elem es" for p es n
    unfolding copy_visit_def copyFile_def Let_def
    by (intro confined.steps_if confined.steps_os_str confined.steps_try_bind confined.steps_err confined_MkdirAll [of d]
        confined_WriteFile [of d] confined.steps_os_ReadFile) (use t [OF that] in auto)
  show ?thesis
    unfolding copyDir_def Walk_def walk_names_def
    by (intro confined.steps_or_fail confined.steps_if confined.steps_os_str confined.steps_os_Stat confined.steps_err
        confined_MkdirAll [of d] confined_gets_bind confined_visits v walk_rels_proper) (use assms in auto)
qed

lemma confined_sizes: "confined.steps cwd D (size_visits root ess n)"
  by (induction ess arbitrary: n)
     (auto simp: Let_def split: fnode.split
      intro!: confined.steps_try_bind confined.steps_os_str confined.steps_return confined.steps_os_Stat confined.steps_os_ReadDir)

lemma confined_calculateDirSize: "confined.steps cwd D (calculateDirSize dir)"
  unfolding calculateDirSize_def walk_names_def by (intro confined_gets_bind confined_sizes)

definition safe_save :: "string \<Rightarrow> SaveOpts \<Rightarrow> bool" where
  "safe_save taskID opts \<longleftrightarrow> proper_elem taskID \<and>
     (\<forall>a \<in> set (sv_AgentStates opts). no_dotdot (part_elems [AgentState.as_AgentID a]))"

lemma confined_write_files:
  assumes "is_rooted cwd" "tmp \<noteq> []" "under d (resolve cwd tmp)" "safe_save taskID opts"
  shows "confined.steps cwd {d} (write_files i taskID tmp opts)"
proof -
  have sub: "under d (resolve cwd (path_Join [tmp, x]))" if "no_dotdot (part_elems [x])" for x
    by (rule resolve_Join_under [OF assms(1,2) that assms(3)])
  have n: "no_dotdot (part_elems [''workspace''])" "no_dotdot (part_elems [''claude-memory''])"
    "no_dotdot (part_elems [''plan-progress.json''])" "no_dotdot (part_elems [''checkpoint.json''])"
    by (simp_all add: part_elems_def no_dotdot_def slash_def)
  show ?thesis
    unfolding write_files_def copyWorkspace_def copyClaudeMemory_def saveAgentLogs_def Let_def
    by (intro confined.steps_or_fail confined.steps_os_str confined.steps_bind confined.steps_ignore confined.steps_if confined.steps_ok
        confined.steps_try_bind confined.steps_os_Stat confined.steps_option confined_MkdirAll [of d] confined_writeJSON
        confined_CopyFromContainer [of cwd d] confined_copyDir confined_save_logs confined.steps_sql sql_time_now)
       (use assms sub n in \<open>auto simp: safe_save_def\<close>)
qed

lemma confined_write_checkpoint:
  assumes "is_rooted cwd" "tmp \<noteq> []" "under d (resolve cwd tmp)" "under d (resolve cwd state)" "snd d \<noteq> []" "safe_save taskID opts"
  shows "confined.steps cwd {d} (write_checkpoint i taskID state tmp opts)"
  unfolding write_checkpoint_def
  by (intro confined.steps_try_bind confined.steps_err confined.steps_or_fail confined.steps_os_str confined.steps_ok
      confined_write_files confined_Rename [of d]) (use assms in auto)

section \<open>The database is not touched before the end\<close>

definition store_rel :: "'m world_scheme \<Rightarrow> 'm world_scheme \<Rightarrow> bool" where
  "store_rel w w' \<longleftrightarrow> w_store w' = w_store w \<and> w_fault w' = w_fault w"

text \<open>A relation that does not depend on files, calls and messages is kept by the code that only works on
  those.\<close>

locale files_logic = step_logic R for R :: "'m world_scheme \<Rightarrow> 'm world_scheme \<Rightarrow> bool" +
  assumes R_tick: "R w (tick w)"
    and R_fs: "R w (w\<lparr>w_fs := fs\<rparr>)"
    and R_calls: "R w (w\<lparr>w_calls := l\<rparr>)"
    and R_hub: "R w (w\<lparr>w_hub := h\<rparr>)"
begin

lemma steps_os_call: "steps (os_call f)"
  by (rule stepsI) (auto simp: os_call_def R_tick intro: R_trans [OF R_tick R_fs] split: option.split sum.split)

lemma steps_os: "steps (os_Stat p)" "steps (os_ReadDir p)" "steps (os_ReadFile p)" "steps (os_MkdirAll p)"
  "steps (os_WriteFile p d)" "steps (os_RemoveAll p)" "steps (os_Rename p q)"
  unfolding os_Stat_def os_ReadDir_def os_ReadFile_def os_MkdirAll_def os_WriteFile_def os_RemoveAll_def os_Rename_def os_read_def
  by (rule steps_os_call)+

lemma steps_os_str: "steps m \<Longrightarrow> steps (os_str m)"
  unfolding os_str_def by auto

lemma steps_docker_sdk: "steps (docker_sdk f call)"
  by (rule stepsI) (simp add: R_trans [OF R_tick R_calls])

lemma steps_world: "steps New_UUID" "steps time_now" "steps (walk_names root)" "steps (hub_send m)"
  by (rule stepsI, simp add: R_tick R_hub walk_names_def)+

lemmas file_intros = steps_intros steps_os steps_os_str steps_docker_sdk steps_world

lemma steps_unpack: "steps (unpack_entries dst es fin)"
  by (induction dst es fin rule: unpack_entries.induct)
     (simp_all add: Let_def split: option.split tar_type.split, (intro conjI impI allI file_intros; simp)+)

lemma steps_CopyFromContainer: "steps (CopyFromContainer i src dst)"
  unfolding CopyFromContainer_def by (intro file_intros steps_unpack)

lemma steps_visits: "(\<And>p r n. steps (f p r n)) \<Longrightarrow> steps (walk_visits root f ess)"
  by (induction ess) (simp_all add: Let_def, (intro file_intros; simp)+)

lemma steps_Walk_copy: "steps (Walk src (copy_visit dst))"
  unfolding Walk_def copy_visit_def copyFile_def by (intro file_intros steps_visits)

lemma steps_copyDir: "steps (copyDir src dst)"
  unfolding copyDir_def by (intro file_intros steps_Walk_copy)

lemma steps_fnode: "steps m \<Longrightarrow> (\<And>c. steps (f c)) \<Longrightarrow> steps (case n of Dir \<Rightarrow> m | File c \<Rightarrow> f c)"
  by (cases n) simp_all

lemma steps_sizes: "steps (size_visits root ess n)"
  by (induction ess arbitrary: n) (unfold size_visits.simps, (intro file_intros steps_fnode | assumption)+)

lemma steps_writeJSON: "steps (writeJSON p v)"
  unfolding writeJSON_def by (intro file_intros)

lemma steps_save_logs: "steps (save_logs hub tmp as)"
  by (induction as) (unfold save_logs.simps, (intro file_intros steps_writeJSON | assumption)+)

lemma steps_write_checkpoint: "steps (write_checkpoint i taskID state tmp opts)"
  unfolding write_checkpoint_def write_files_def copyWorkspace_def copyClaudeMemory_def saveAgentLogs_def
  by (intro file_intros steps_CopyFromContainer steps_copyDir steps_save_logs steps_writeJSON)

lemma steps_calculateDirSize: "steps (calculateDirSize dir)"
  unfolding calculateDirSize_def by (intro file_intros steps_sizes)

end

interpretation kept: files_logic store_rel
  by unfold_locales (simp_all add: store_rel_def tick_def)

section \<open>A save is confined and all or nothing\<close>

definition task_dir :: "string \<Rightarrow> StateStore \<Rightarrow> string \<Rightarrow> path" where
  "task_dir cwd s taskID = resolve cwd (path_Join [ss_baseDir s, taskID])"

lemma checkpoint_paths:
  assumes "is_rooted cwd" "ss_baseDir s \<noteq> []" "proper_elem taskID" "proper_elem i"
  shows "resolve cwd (path_Join [ss_baseDir s, taskID, i]) = sub_path (task_dir cwd s taskID) [i]"
    "path_Join [ss_baseDir s, taskID, i] @ ''.tmp'' = path_Join [ss_baseDir s, taskID, i @ ''.tmp'']"
    "snd (task_dir cwd s taskID) \<noteq> []" "task_dir cwd s taskID = sub_path (resolve cwd (ss_baseDir s)) [taskID]"
proof -
  show p: "task_dir cwd s taskID = sub_path (resolve cwd (ss_baseDir s)) [taskID]"
    unfolding task_dir_def by (rule resolve_elems) (use assms in auto)
  then show "snd (task_dir cwd s taskID) \<noteq> []" by (simp add: sub_path_def)
  show "resolve cwd (path_Join [ss_baseDir s, taskID, i]) = sub_path (task_dir cwd s taskID) [i]"
    unfolding p using resolve_elems [OF assms(1,2), of "[taskID, i]"] assms by simp
  show "path_Join [ss_baseDir s, taskID, i] @ ''.tmp'' = path_Join [ss_baseDir s, taskID, i @ ''.tmp'']"
    using path_Join_suffix [OF assms(4) proper_tmp [OF assms(4)] assms(2), of "[taskID]"] by simp
qed

lemma exec_failed: "run_state (in_ctx c (CreateCheckpoint cp)) w = (Inl e, w') \<Longrightarrow> w_store w' = w_store w"
  by (auto simp: CreateCheckpoint_def exec_def split: option.splits sum.splits)

lemma exec_inserted:
  "run_state (in_ctx c (CreateCheckpoint cp)) w = (Inr u, w') \<Longrightarrow>
   w_store w' = (w_store w)\<lparr>tb_checkpoints := tb_checkpoints (w_store w) @ [cp]\<rparr>"
  by (auto simp: CreateCheckpoint_def exec_def insert_row_Inr split: option.splits sum.splits)

text \<open>Nothing at or below \<open>d\<close> is changed.\<close>

definition same_below :: "path \<Rightarrow> 'm world_scheme \<Rightarrow> 'm world_scheme \<Rightarrow> bool" where
  "same_below d w w' \<longleftrightarrow> (\<forall>es. fs_node (w_fs w') (sub_path d es) = fs_node (w_fs w) (sub_path d es))"

lemma confined_same_below:
  assumes "confined_rel cwd {t} w w'" "clean_archives (w_docker w)" "w_cwd w = cwd" "fs_ok (w_fs w)" "\<not> under t d" "\<not> under d t"
  shows "same_below d w w'"
  unfolding same_below_def
proof
  fix es
  have "file_ok {t} (w_fs w) (w_fs w') (sub_path d es)"
    using assms(1-4) unfolding confined_rel_def files_rel_def by blast
  moreover have "\<not> under t (sub_path d es)"
    using under_linear [of t "sub_path d es" d] assms(5,6) by auto
  moreover have "\<not> under (sub_path d es) t" using under_trans [of d "sub_path d es" t] assms(6) by auto
  ultimately show "fs_node (w_fs w') (sub_path d es) = fs_node (w_fs w) (sub_path d es)" by (simp add: file_ok_def)
qed

lemma Rename_fails: "run_state (os_str (os_Rename p q)) w = (Inl e, w') \<Longrightarrow> w_fs w' = w_fs w"
  by (auto simp: os_str_def os_Rename_def os_call_def split: option.splits sum.splits prod.splits)

lemma write_checkpoint_fails:
  assumes "run_state (write_checkpoint i taskID state tmp opts) w = (Inl e, w')"
    and "is_rooted (w_cwd w)" "tmp \<noteq> []" "safe_save taskID opts" "clean_archives (w_docker w)" "fs_ok (w_fs w)"
    and "\<not> under (resolve (w_cwd w) tmp) d" "\<not> under d (resolve (w_cwd w) tmp)"
  shows "same_below d w w'"
proof -
  obtain r w1 where f: "run_state (write_files i taskID tmp opts) w = (r, w1)" by fastforce
  have "confined_rel (w_cwd w) {resolve (w_cwd w) tmp} w w1"
    by (rule confined.stepsE [OF confined_write_files f]) (use assms in auto)
  then have 1: "same_below d w w1" by (rule confined_same_below) (use assms in auto)
  show ?thesis
  proof (cases r)
    case (Inl a)
    with assms(1) f have "w' = w1" by (simp add: write_checkpoint_def)
    with 1 show ?thesis by simp
  next
    case (Inr now)
    obtain r2 w2 where n: "run_state (os_str (os_Rename tmp state)) w1 = (r2, w2)" by fastforce
    with assms(1) f Inr obtain a where "r2 = Inl a" "w' = w2"
      by (cases r2) (auto simp: write_checkpoint_def)
    with Rename_fails n have "w_fs w' = w_fs w1" by blast
    with 1 show ?thesis by (simp add: same_below_def)
  qed
qed

lemma Rename_makes:
  assumes "run_state (os_str (os_Rename p q)) w = (Inr u, w')" "fs_ok (w_fs w)" "snd (resolve (w_cwd w) p) \<noteq> []" "snd (resolve (w_cwd w) q) \<noteq> []"
  shows "fs_node (w_fs w') (resolve (w_cwd w) q) \<noteq> None" "w_cwd w' = w_cwd w"
proof -
  obtain fs' where fs': "fs_Rename (resolve (w_cwd w) p) (resolve (w_cwd w) q) (w_fs w) = Inr fs'" "w' = (tick w)\<lparr>w_fs := fs'\<rparr>"
    using assms(1) by (cases "fs_Rename (resolve (w_cwd w) p) (resolve (w_cwd w) q) (w_fs w)")
      (auto simp: os_str_def os_Rename_def os_call_def split: option.splits)
  have "fs_node (w_fs w) (resolve (w_cwd w) p) \<noteq> None" using fs'(1) by (auto simp: fs_Rename_def split: if_splits)
  then show "fs_node (w_fs w') (resolve (w_cwd w) q) \<noteq> None"
    using fs_Rename_node [OF fs'(1) assms(2-4) assms(4)] fs'(2) by (simp add: rel_to_def sub_path_def)
  show "w_cwd w' = w_cwd w" using fs'(2) by simp
qed

lemma quiet_sizes: "quiet.steps (size_visits root ess n)"
proof (induction ess arbitrary: n)
  case (Cons es ess)
  have f: "(\<And>c. quiet.steps (f c)) \<Longrightarrow> quiet.steps m \<Longrightarrow> quiet.steps (case x of Dir \<Rightarrow> m | File c \<Rightarrow> f c)" for f m x
    by (cases x) simp_all
  show ?case unfolding size_visits.simps
    by (intro quiet.steps_intros quiet.steps_os_str quiet.steps_os_Stat quiet.steps_os_ReadDir f Cons)
qed (auto intro: quiet.steps_return)

lemma quiet_calculateDirSize: "quiet.steps (calculateDirSize dir)"
  unfolding calculateDirSize_def walk_names_def by (intro quiet.steps_intros quiet_sizes)

lemma write_checkpoint_makes:
  assumes "run_state (write_checkpoint i taskID state tmp opts) w = (Inr now, w')"
    and "is_rooted (w_cwd w)" "tmp \<noteq> []" "safe_save taskID opts" "clean_archives (w_docker w)" "fs_ok (w_fs w)"
    and "snd (resolve (w_cwd w) tmp) \<noteq> []" "snd (resolve (w_cwd w) state) \<noteq> []"
  shows "fs_node (w_fs w') (resolve (w_cwd w) state) \<noteq> None"
proof -
  obtain r w1 where f: "run_state (write_files i taskID tmp opts) w = (r, w1)" by fastforce
  have c: "confined_rel (w_cwd w) {resolve (w_cwd w) tmp} w w1"
    by (rule confined.stepsE [OF confined_write_files f]) (use assms in auto)
  then have w1: "w_cwd w1 = w_cwd w" "fs_ok (w_fs w1)" using assms(5,6) by (auto simp: confined_rel_def files_rel_def)
  obtain r2 w2 where n: "run_state (os_str (os_Rename tmp state)) w1 = (r2, w2)" by fastforce
  from assms(1) f n have "w' = w2" "r2 = Inr ()" by (cases r; cases r2; simp add: write_checkpoint_def)+
  with Rename_makes(1) [of tmp state w1 "()" w2] n w1 assms show ?thesis by simp
qed

text \<open>C26: Whatever the system, Docker and the database answer, a save changes files only below the task's
  directory of checkpoints, when the archives of the containers have clean names. If it succeeds, the
  checkpoint's directory exists and one row is added to the database; if it fails, the database is
  as before, and nothing is at the checkpoint's directory, except when only the last step, writing
  to the database, failed.\<close>

theorem SaveCheckpoint_atomic:
  assumes "is_rooted (w_cwd w)" "fs_ok (w_fs w)" "ss_baseDir s \<noteq> []" "safe_save taskID opts" "clean_archives (w_docker w)"
    and "proper_elem (w_uuid w (w_tick w))"
    and "run_state (SaveCheckpoint s c taskID opts) w = (r, w')"
  defines "d \<equiv> task_dir (w_cwd w) s taskID"
  defines "state \<equiv> sub_path d [w_uuid w (w_tick w)]"
  shows "fs_ok (w_fs w') \<and> (\<forall>q. file_ok {d} (w_fs w) (w_fs w') q) \<and>
    (case r of
       Inr cp \<Rightarrow> w_store w' = (w_store w)\<lparr>tb_checkpoints := tb_checkpoints (w_store w) @ [cp]\<rparr> \<and>
         cp_TaskID cp = taskID \<and> resolve (w_cwd w) (cp_StateDir cp) = state \<and> fs_node (w_fs w') state \<noteq> None
     | Inl e \<Rightarrow> w_store w' = w_store w \<and> (same_below state w w' \<or> HasPrefix e ''saving checkpoint to DB: ''))"
proof -
  let ?C = "w_cwd w" and ?i = "w_uuid w (w_tick w)" and ?w0 = "tick w"
  let ?st = "path_Join [ss_baseDir s, taskID, ?i]"
  let ?tmp = "?st @ ''.tmp''"
  have task: "proper_elem taskID" using assms(4) by (simp add: safe_save_def)
  note paths = checkpoint_paths [OF assms(1,3) task assms(6)]
  have st: "resolve ?C ?st = state" unfolding state_def d_def by (rule paths(1))
  have tmp: "resolve ?C ?tmp = sub_path d [?i @ ''.tmp'']"
    unfolding paths(2) d_def by (rule checkpoint_paths(1) [OF assms(1,3) task proper_tmp [OF assms(6)]])
  have d: "snd d \<noteq> []" unfolding d_def by (rule paths(3))
  have ne: "?tmp \<noteq> []" by simp
  have apart: "\<not> under (resolve ?C ?tmp) state" "\<not> under state (resolve ?C ?tmp)"
    by (simp_all add: tmp state_def under_def sub_path_def)
  have ud: "under d (resolve ?C ?tmp)" "under d (resolve ?C ?st)" unfolding tmp st state_def by simp_all
  obtain r1 w1 where wr: "run_state (write_checkpoint ?i taskID ?st ?tmp opts) ?w0 = (r1, w1)" by fastforce
  have conf1: "confined_rel ?C {d} ?w0 w1"
    by (rule confined.stepsE [OF confined_write_checkpoint wr]) (use assms(1,4) ne ud d in auto)
  have store1: "w_store w1 = w_store w"
    using kept.stepsE [OF kept.steps_write_checkpoint wr] by (simp add: store_rel_def)
  have w0: "w_cwd ?w0 = ?C" "clean_archives (w_docker ?w0)" "fs_ok (w_fs ?w0)" "w_fs ?w0 = w_fs w" using assms(2,5) by simp_all
  have w1: "w_cwd w1 = ?C" "fs_ok (w_fs w1)" "\<forall>q. file_ok {d} (w_fs w) (w_fs w1) q" "clean_archives (w_docker w1)"
    using conf1 w0 by (auto simp: confined_rel_def files_rel_def)
  show ?thesis
  proof (cases r1)
    case (Inl e)
    obtain u w2 where rm: "run_state (os_RemoveAll ?tmp) w1 = (u, w2)" by fastforce
    have run: "r = Inl e" "w' = w2"
      using assms(7) wr Inl rm by (simp_all add: SaveCheckpoint_def doSaveCheckpoint_def Let_def)
    have "confined_rel ?C {d} w1 w2" by (rule confined.stepsE [OF confined_RemoveAll rm]) (use ud in auto)
    then have w2: "fs_ok (w_fs w2)" "\<forall>q. file_ok {d} (w_fs w1) (w_fs w2) q"
      using w1 by (auto simp: confined_rel_def files_rel_def)
    have rel: "\<forall>q. file_ok {d} (w_fs w) (w_fs w2) q" using w1(3) w2(2) file_ok_trans by blast
    have s1: "same_below state ?w0 w1"
      by (rule write_checkpoint_fails [OF wr [unfolded Inl]]) (use assms(1,4) ne w0 apart in auto)
    have "confined_rel ?C {resolve ?C ?tmp} w1 w2"
      by (rule confined.stepsE [OF confined_RemoveAll rm]) auto
    then have "same_below state w1 w2" by (rule confined_same_below) (use w1 apart in auto)
    with s1 have "same_below state w w2" by (simp add: same_below_def)
    moreover have "w_store w2 = w_store w1" using kept.stepsE [OF kept.steps_os(6) rm] by (simp add: store_rel_def)
    ultimately show ?thesis using w2(1) rel store1 run by simp
  next
    case (Inr now)
    obtain bs w2 where sz: "run_state (calculateDirSize ?st) w1 = (bs, w2)" by fastforce
    have q2: "w_fs w2 = w_fs w1" using quiet.stepsE [OF quiet_calculateDirSize sz] by (simp add: quiet_rel_def)
    have s2: "w_store w2 = w_store w1" using kept.stepsE [OF kept.steps_calculateDirSize sz] by (simp add: store_rel_def)
    define cp where "cp = \<lparr>cp_ID = ?i, cp_TaskID = taskID, cp_StateDir = ?st,
            cp_PlanProgress = marshalRequired (enc_progress (sv_PlanProgress opts)),
            cp_AgentStates = marshalOptional (Some (enc_slice enc_agent_state (sv_AgentStates opts))),
            cp_RepoState = marshalOptional (Some (enc_pointer enc_repo_state (sv_RepoState opts))),
            cp_ResumePrompt = Some (buildResumePrompt opts), cp_SizeBytes = Some (fst bs), cp_CreatedAt = now\<rparr>"
    obtain r3 w3 where db: "run_state (in_ctx c (CreateCheckpoint cp)) w2 = (r3, w3)" by fastforce
    have run: "(r, w') = (case r3 of Inl e \<Rightarrow> (Inl (''saving checkpoint to DB: '' @ e), w3) | Inr _ \<Rightarrow> (Inr cp, w3))"
      using assms(7) wr Inr sz db
      by (cases bs; cases r3) (simp_all del: run_in_ctx add: SaveCheckpoint_def doSaveCheckpoint_def Let_def cp_def)
    have q3: "w_fs w3 = w_fs w2"
      using quiet.stepsE [OF quiet.steps_ctx_sql [OF sql_methods(25)] db] by (simp add: quiet_rel_def)
    have fs: "w_fs w' = w_fs w1" using run q2 q3 by (cases r3) auto
    have exists: "fs_node (w_fs w1) state \<noteq> None"
      using write_checkpoint_makes [OF wr [unfolded Inr]] assms(1,4) ne w0 d tmp st by (simp add: state_def sub_path_def)
    show ?thesis
    proof (cases r3)
      case (Inl e)
      with run exec_failed [OF db [unfolded Inl]] fs w1 store1 s2 show ?thesis by (simp add: HasPrefix_iff)
    next
      case (Inr u)
      with run exec_inserted [OF db [unfolded Inr]] fs w1 store1 s2 exists st show ?thesis by (simp add: cp_def)
    qed
  qed
qed

section \<open>Copying a directory when the system answers\<close>

definition calm :: "string \<Rightarrow> 'm world_scheme \<Rightarrow> bool" where
  "calm cwd w \<longleftrightarrow> is_rooted cwd \<and> w_cwd w = cwd \<and> (\<forall>t. w_osfault w t = None)"

lemma calm_tick [simp]: "calm cwd (w\<lparr>w_tick := k, w_fs := fs\<rparr>) = calm cwd w" "calm cwd (w\<lparr>w_tick := k\<rparr>) = calm cwd w"
  "calm cwd (tick w) = calm cwd w" "calm cwd (w\<lparr>w_fs := fs\<rparr>) = calm cwd w"
  by (simp_all add: calm_def tick_def)

lemma tick_eq: "tick w = w\<lparr>w_tick := Suc (w_tick w)\<rparr>"
  by (simp add: tick_def)

lemma tick_upd_tick: "tick (w\<lparr>w_tick := k\<rparr>) = w\<lparr>w_tick := Suc k\<rparr>" "(tick w)\<lparr>w_tick := k\<rparr> = w\<lparr>w_tick := k\<rparr>"
  by (simp_all add: tick_def)

lemma run_os_calm:
  assumes "calm cwd w"
  shows "run_state (os_str (os_Stat p)) w = (map_sum os_msg id (fs_Stat (resolve cwd p) (w_fs w)), tick w)"
    "run_state (os_str (os_ReadDir p)) w = (map_sum os_msg id (fs_ReadDir (resolve cwd p) (w_fs w)), tick w)"
    "run_state (os_str (os_ReadFile p)) w = (map_sum os_msg id (fs_ReadFile (resolve cwd p) (w_fs w)), tick w)"
    "fs_MkdirAll (resolve cwd p) (w_fs w) = Inr fs' \<Longrightarrow> run_state (os_str (os_MkdirAll p)) w = (Inr (), (tick w)\<lparr>w_fs := fs'\<rparr>)"
    "fs_WriteFile (resolve cwd p) d (w_fs w) = Inr fs' \<Longrightarrow> run_state (os_str (os_WriteFile p d)) w = (Inr (), (tick w)\<lparr>w_fs := fs'\<rparr>)"
    "fs_Rename (resolve cwd p) (resolve cwd q) (w_fs w) = Inr fs' \<Longrightarrow> run_state (os_str (os_Rename p q)) w = (Inr (), (tick w)\<lparr>w_fs := fs'\<rparr>)"
  using assms
  by (simp_all add: calm_def os_str_def os_Stat_def os_ReadDir_def os_ReadFile_def os_read_def os_call_def os_MkdirAll_def
      os_WriteFile_def os_Rename_def tick_eq sum.case_eq_if map_sum_def split: sum.split)

lemma run_copy_visits:
  assumes "src \<noteq> []" "dst \<noteq> []" "is_rooted cwd"
  shows "copy_paths (resolve cwd src) (resolve cwd dst) (map (sub_path (resolve cwd src)) ess) (w_fs w) = (None, fs') \<Longrightarrow>
    calm cwd w \<Longrightarrow> list_all (list_all proper_elem) ess \<Longrightarrow>
    \<exists>k. run_state (walk_visits src (copy_visit dst) ess) w = (Inr (), w\<lparr>w_tick := k, w_fs := fs'\<rparr>)"
proof (induction ess arbitrary: w)
  case Nil
  then show ?case by (intro exI [of _ "w_tick w"]) simp
next
  case (Cons es ess)
  let ?S = "resolve cwd src" and ?D = "resolve cwd dst"
  let ?p = "path_Join [src, rel_str es]" and ?t = "path_Join [dst, rel_str es]"
  have es: "list_all proper_elem es" using Cons.prems by simp
  have p: "resolve cwd ?p = sub_path ?S es" "resolve cwd ?t = sub_path ?D es"
    by (rule resolve_rel [OF assms(3) assms(1) es] resolve_rel [OF assms(3) assms(2) es])+
  obtain n where n: "fs_node (w_fs w) (sub_path ?S es) = Some n"
    using Cons.prems(1) by (cases "fs_node (w_fs w) (sub_path ?S es)") simp_all
  show ?case
  proof (cases n)
    case Dir
    with Cons.prems(1) n obtain fs1 where m: "fs_MkdirAll (sub_path ?D es) (w_fs w) = Inr fs1"
      "copy_paths ?S ?D (map (sub_path ?S) ess) fs1 = (None, fs')"
      by (cases "fs_MkdirAll (sub_path ?D es) (w_fs w)") simp_all
    have n1: "fs_node fs1 (sub_path ?S es) = Some Dir" by (rule fs_MkdirAll_keeps [OF m(1)]) (use n Dir in simp)
    let ?w1 = "(tick (tick (tick w)))\<lparr>w_fs := fs1\<rparr>"
    have "run_state (walk_visits src (copy_visit dst) (es # ess)) w = run_state (walk_visits src (copy_visit dst) ess) ?w1"
      using n Dir m(1) n1 Cons.prems(2)
      by (simp add: Let_def run_os_calm fs_Stat_def p copy_visit_def fs_ReadDir_def)
    moreover obtain k where "run_state (walk_visits src (copy_visit dst) ess) ?w1 = (Inr (), ?w1\<lparr>w_tick := k, w_fs := fs'\<rparr>)"
      using Cons.IH [of ?w1] m(2) Cons.prems by auto
    ultimately show ?thesis by (auto simp: tick_eq)
  next
    case (File c)
    with Cons.prems(1) n obtain fs1 where m: "fs_WriteFile (sub_path ?D es) c (w_fs w) = Inr fs1"
      "copy_paths ?S ?D (map (sub_path ?S) ess) fs1 = (None, fs')"
      by (cases "fs_WriteFile (sub_path ?D es) c (w_fs w)") simp_all
    let ?w1 = "(tick (tick (tick w)))\<lparr>w_fs := fs1\<rparr>"
    have "run_state (walk_visits src (copy_visit dst) (es # ess)) w = run_state (walk_visits src (copy_visit dst) ess) ?w1"
      using n File m(1) Cons.prems(2)
      by (simp add: Let_def run_os_calm fs_Stat_def p copy_visit_def copyFile_def fs_ReadFile_def)
    moreover obtain k where "run_state (walk_visits src (copy_visit dst) ess) ?w1 = (Inr (), ?w1\<lparr>w_tick := k, w_fs := fs'\<rparr>)"
      using Cons.IH [of ?w1] m(2) Cons.prems by auto
    ultimately show ?thesis by (auto simp: tick_eq)
  qed
qed

lemma sorted_Nil_first:
  assumes "sorted L" "distinct L" "[] \<in> set L" "list_all P L"
  shows "[] # filter (\<lambda>es. es \<noteq> [] \<and> P es) L = L"
proof -
  obtain x xs where L: "L = x # xs" using assms(3) by (cases L) auto
  have "x \<le> []" using assms(1,3) L by auto
  then have x: "x = []" by (cases x) auto
  have "filter (\<lambda>es. es \<noteq> [] \<and> P es) xs = xs"
    using assms(2,4) L x by (intro filter_True) (auto simp: list_all_iff)
  with L x show ?thesis by simp
qed

lemma walk_rels_eq:
  assumes "fs_ok fs" "snd p \<noteq> []" "fs_node fs p \<noteq> None" "\<And>es. fs_node fs (sub_path p es) \<noteq> None \<Longrightarrow> list_all proper_elem es"
  shows "map (sub_path p) (walk_rels p fs) = walk_paths p fs"
proof -
  let ?L = "sort (map (\<lambda>(q, n). rel_to p q) (filter (\<lambda>(q, n). under p q) fs))"
  have "[] # filter (\<lambda>es. es \<noteq> [] \<and> list_all proper_elem es) ?L = ?L"
  proof (rule sorted_Nil_first)
    show "sorted ?L" by simp
    show "distinct ?L" by (rule distinct_walk [OF assms(1)])
    show "[] \<in> set ?L" unfolding set_walk [OF assms(2)] using assms(3) by simp
    show "list_all (list_all proper_elem) ?L"
      unfolding list_all_iff [of "list_all proper_elem"]
    proof
      fix es assume "es \<in> set ?L"
      then have "fs_node fs (sub_path p es) \<noteq> None" unfolding set_walk [OF assms(2)] .
      then show "list_all proper_elem es" by (rule assms(4))
    qed
  qed
  then show ?thesis unfolding walk_rels_def walk_paths_def by metis
qed

text \<open>The copy of a tree that can be laid over what is at the destination.\<close>

definition copy_result :: "path \<Rightarrow> path \<Rightarrow> fs \<Rightarrow> fs \<Rightarrow> fs \<Rightarrow> bool" where
  "copy_result src dst fs fs1 fs2 \<longleftrightarrow> fs_ok fs2 \<and>
     (\<forall>es. fs_node fs2 (sub_path dst es) =
       (if fs_node fs (sub_path src es) = None then fs_node fs1 (sub_path dst es) else fs_node fs (sub_path src es))) \<and>
     (\<forall>q. \<not> under dst q \<longrightarrow> \<not> under q dst \<longrightarrow> fs_node fs2 q = fs_node fs q)"

definition proper_tree :: "path \<Rightarrow> fs \<Rightarrow> bool" where
  "proper_tree p fs \<longleftrightarrow> fs_node fs p = Some Dir \<and> snd p \<noteq> [] \<and>
     (\<forall>es. fs_node fs (sub_path p es) \<noteq> None \<longrightarrow> list_all proper_elem es)"

lemma run_Walk_copy:
  assumes "calm cwd w" "src \<noteq> []" "dst \<noteq> []" "fs_ok fs" "proper_tree (resolve cwd src) fs"
    and apart: "\<not> under (resolve cwd src) (resolve cwd dst)" "\<not> under (resolve cwd dst) (resolve cwd src)"
    and "can_overlay (resolve cwd src) (resolve cwd dst) fs" "fs_MkdirAll (resolve cwd dst) fs = Inr (w_fs w)"
  obtains k fs2 where "run_state (Walk src (copy_visit dst)) w = (Inr (), w\<lparr>w_tick := k, w_fs := fs2\<rparr>)"
    "copy_result (resolve cwd src) (resolve cwd dst) fs (w_fs w) fs2"
proof -
  let ?S = "resolve cwd src" and ?D = "resolve cwd dst"
  have cwd: "is_rooted cwd" "w_cwd w = cwd" using assms(1) by (simp_all add: calm_def)
  note mk = fs_MkdirAll_ok [OF assms(9,4)]
  have S: "snd ?S \<noteq> []" "fs_node fs ?S = Some Dir" using assms(5) by (simp_all add: proper_tree_def)
  have below: "fs_node (w_fs w) (sub_path ?S es) = fs_node fs (sub_path ?S es)" for es
    using mk(3) apart_sub [OF apart] by simp
  obtain fs2 where c: "copy_paths ?S ?D (walk_paths ?S (w_fs w)) (w_fs w) = (None, fs2)" "fs_ok fs2"
    "\<And>es. fs_node fs2 (sub_path ?D es) =
       (if fs_node fs (sub_path ?S es) = None then fs_node (w_fs w) (sub_path ?D es) else fs_node fs (sub_path ?S es))"
    "\<And>q. \<not> under ?D q \<Longrightarrow> \<not> under q ?D \<Longrightarrow> fs_node fs2 q = fs_node fs q"
    using copy_tree [OF assms(4) S(2) apart assms(8) S(1) assms(9)] by blast
  have "map (sub_path ?S) (walk_rels ?S (w_fs w)) = walk_paths ?S (w_fs w)"
    by (rule walk_rels_eq [OF mk(1) S(1)])
       (use below below [of "[]"] S(2) assms(5) in \<open>auto simp: proper_tree_def\<close>)
  with c(1) have "copy_paths ?S ?D (map (sub_path ?S) (walk_rels ?S (w_fs w))) (w_fs w) = (None, fs2)" by simp
  from run_copy_visits [OF assms(2,3) cwd(1) this assms(1) walk_rels_proper] obtain k where
    "run_state (walk_visits src (copy_visit dst) (walk_rels ?S (w_fs w))) w = (Inr (), w\<lparr>w_tick := k, w_fs := fs2\<rparr>)" by blast
  then have "run_state (Walk src (copy_visit dst)) w = (Inr (), w\<lparr>w_tick := k, w_fs := fs2\<rparr>)"
    by (simp add: Walk_def walk_names_def cwd(2))
  moreover have "copy_result ?S ?D fs (w_fs w) fs2" unfolding copy_result_def using c by blast
  ultimately show thesis by (rule that)
qed

section \<open>Writing the metadata when the system answers\<close>

lemma mkdir_elems_there:
  "(\<And>k. k \<le> length es \<Longrightarrow> fs_node fs (b, d @ take k es) = Some Dir) \<Longrightarrow> mkdir_elems b d es fs = Inr fs"
proof (induction es arbitrary: d)
  case (Cons e es)
  have "fs_node fs (b, d @ [e]) = Some Dir" using Cons.prems [of 1] by simp
  moreover have "mkdir_elems b (d @ [e]) es fs = Inr fs"
    by (rule Cons.IH) (use Cons.prems [of "Suc k" for k] in auto)
  ultimately show ?case by simp
qed simp

lemma fs_MkdirAll_there: "fs_ok fs \<Longrightarrow> fs_node fs p = Some Dir \<Longrightarrow> fs_MkdirAll p fs = Inr fs"
  unfolding fs_MkdirAll_def by (rule mkdir_elems_there) (use fs_ok_prefix [of fs "fst p" "snd p"] in auto)

lemma resolve_trailing: "is_rooted cwd \<Longrightarrow> b \<noteq> [] \<Longrightarrow> resolve cwd (b @ [slash]) = resolve cwd b"
proof -
  assume c: "is_rooted cwd" and b: "b \<noteq> []"
  have r: "is_rooted (b @ [slash]) = is_rooted b" using b by (cases b) (simp_all add: is_rooted_def)
  have s: "Split slash (b @ [slash]) = Split slash b @ [[]]" using Split_append [of slash b "[]"] by simp
  have e: "clean_elems True [] (es @ [[]]) = clean_elems True [] es" for es by (simp add: clean_elems_append)
  show ?thesis using e [of "Split slash b"] e [of "Split slash cwd @ Split slash b"]
    by (simp add: resolve_raw [OF c] raw_elems_def r s)
qed

lemma resolve_Dir_Join:
  assumes "is_rooted cwd" "a \<noteq> []" "proper_elem e"
  shows "resolve cwd (path_Dir (path_Join [a, e])) = resolve cwd a"
proof -
  let ?xs = "clean_elems (is_rooted a) [] (Split slash a)" and ?r = "is_rooted a"
  have e: "e \<noteq> []" "slash \<notin> set e" "e \<notin> {[], ''.'', ''..''}" using assms(3) by (auto simp: proper_elem_def)
  have r: "is_rooted (a @ slash # e) = ?r" using assms(2) by (cases a) (simp_all add: is_rooted_def)
  have c: "clean_elems ?r [] (Split slash (a @ slash # e)) = ?xs @ [e]"
    using e by (simp add: Split_append Split_none clean_elems_snoc)
  have j: "path_Join [a, e] = Clean (a @ slash # e)" using assms(2) e(1) by (simp add: path_Join_def)
  have J: "path_Join [a, e] = (if ?r then [slash] else []) @ Join (?xs @ [e]) [slash]"
    unfolding j Clean_def Let_def r c by simp
  define B where "B = (if ?r then [slash] else []) @ Join ?xs [slash]"
  have dw: "rev (dropWhile (\<lambda>c. c \<noteq> slash) (rev (u @ slash # e))) = u @ [slash]" for u
    using e(2) by (subst rev_append, simp, subst dropWhile_append2) auto
  have dw0: "rev (dropWhile (\<lambda>c. c \<noteq> slash) (rev e)) = []"
  proof -
    have "\<forall>x \<in> set (rev e). x \<noteq> slash" using e(2) by auto
    then have "dropWhile (\<lambda>c. c \<noteq> slash) (rev e) = []" unfolding dropWhile_eq_Nil_conv .
    then show ?thesis by simp
  qed
  have CB: "Clean a = (if ?xs = [] \<and> \<not> ?r then ''.'' else B)" by (simp add: Clean_def Let_def B_def)
  show ?thesis
  proof (cases "?xs = []")
    case True
    show ?thesis
    proof (cases ?r)
      case True
      with \<open>?xs = []\<close> have "path_Dir (path_Join [a, e]) = Clean [slash]"
        unfolding J path_Dir_def using dw [of "[]"] by simp
      moreover have "Clean a = [slash]" using True \<open>?xs = []\<close> by (simp add: CB B_def)
      ultimately show ?thesis using resolve_Clean [OF assms(1)] by metis
    next
      case False
      with \<open>?xs = []\<close> have "path_Join [a, e] = e" unfolding J by simp
      then have "path_Dir (path_Join [a, e]) = Clean []" unfolding path_Dir_def by (simp only: dw0)
      then have "path_Dir (path_Join [a, e]) = ''.''" by (simp add: Clean_def is_rooted_def)
      moreover have "Clean a = ''.''" using False \<open>?xs = []\<close> by (simp add: CB)
      ultimately show ?thesis using resolve_Clean [OF assms(1)] by metis
    qed
  next
    case False
    have "path_Join [a, e] = B @ slash # e"
      unfolding J B_def using Join_append_last [OF False, of e "[slash]"] by simp
    then have "path_Dir (path_Join [a, e]) = Clean (B @ [slash])" unfolding path_Dir_def using dw [of B] by simp
    moreover have "B = Clean a" using False by (simp add: CB)
    ultimately show ?thesis using resolve_Clean [OF assms(1)] resolve_trailing [OF assms(1) Clean_ne] by metis
  qed
qed

text \<open>A new or overwritten file in a directory that is there.\<close>

lemma run_writeJSON:
  assumes "calm cwd w" "a \<noteq> []" "proper_elem e" "fs_ok (w_fs w)" "fs_node (w_fs w) (resolve cwd a) = Some Dir"
    and "fs_node (w_fs w) (sub_path (resolve cwd a) [e]) \<noteq> Some Dir"
  shows "run_state (writeJSON (path_Join [a, e]) (Inr j)) w =
      (Inr (), w\<lparr>w_tick := Suc (Suc (w_tick w)), w_fs := mput (sub_path (resolve cwd a) [e]) (File (print_indent 0 j)) (w_fs w)\<rparr>)"
    "fs_ok (mput (sub_path (resolve cwd a) [e]) (File (print_indent 0 j)) (w_fs w))"
proof -
  have c: "is_rooted cwd" using assms(1) by (simp add: calm_def)
  have p: "resolve cwd (path_Join [a, e]) = sub_path (resolve cwd a) [e]"
    using resolve_elems [OF c assms(2), of "[e]"] assms(3) by simp
  have m: "fs_MkdirAll (resolve cwd (path_Dir (path_Join [a, e]))) (w_fs w) = Inr (w_fs w)"
    unfolding resolve_Dir_Join [OF c assms(2,3)] by (rule fs_MkdirAll_there [OF assms(4,5)])
  have par: "parent (sub_path (resolve cwd a) [e]) = resolve cwd a" by (simp add: parent_sub)
  have wr: "fs_WriteFile (resolve cwd (path_Join [a, e])) x (w_fs w) = Inr (mput (sub_path (resolve cwd a) [e]) (File x) (w_fs w))" for x
    unfolding p fs_WriteFile_def par using assms(5,6)
    by (cases "fs_node (w_fs w) (sub_path (resolve cwd a) [e])") (auto split: fnode.split)
  have c1: "calm cwd ((tick w)\<lparr>w_fs := w_fs w\<rparr>)" using assms(1) by simp
  show "fs_ok (mput (sub_path (resolve cwd a) [e]) (File (print_indent 0 j)) (w_fs w))"
    by (rule fs_WriteFile_ok(1) [OF wr assms(4)])
  show "run_state (writeJSON (path_Join [a, e]) (Inr j)) w =
      (Inr (), w\<lparr>w_tick := Suc (Suc (w_tick w)), w_fs := mput (sub_path (resolve cwd a) [e]) (File (print_indent 0 j)) (w_fs w)\<rparr>)"
    unfolding writeJSON_def using run_os_calm(4) [OF assms(1) m] run_os_calm(5) [OF c1, of "path_Join [a, e]"] wr
    by (simp add: tick_eq)
qed

section \<open>A save copies the workspace\<close>

text \<open>The workspace is a directory that does not contain the task's directory of checkpoints; nothing
  is at the checkpoint's directory yet, and no file is where its parents are or will be.\<close>

definition room_for :: "path \<Rightarrow> path \<Rightarrow> string \<Rightarrow> fs \<Rightarrow> bool" where
  "room_for src d i fs \<longleftrightarrow> fs_ok fs \<and> proper_tree src fs \<and> \<not> under src d \<and>
     (\<forall>q. under q d \<longrightarrow> fs_node fs q \<in> {None, Some Dir}) \<and>
     (\<forall>es. fs_node fs (sub_path d (i # es)) = None \<and> fs_node fs (sub_path d ((i @ ''.tmp'') # es)) = None)"

lemma under_snoc: "under q (sub_path d [e]) \<longleftrightarrow> under q d \<or> q = sub_path d [e]"
proof
  assume u: "under q (sub_path d [e])"
  then obtain es where es: "sub_path d [e] = sub_path q es" unfolding under_iff by blast
  show "under q d \<or> q = sub_path d [e]"
  proof (cases "es = []")
    case False
    then have "d = sub_path q (butlast es)"
      using arg_cong [OF es, of parent] by (simp add: parent_sub)
    then show ?thesis using under_sub [of q "butlast es"] by simp
  qed (use es in simp)
qed (auto intro: under_trans)

lemma room_apart:
  assumes "room_for src d i fs"
  shows "\<not> under src (sub_path d ((i @ ''.tmp'') # es))" "\<not> under (sub_path d ((i @ ''.tmp'') # es)) src"
    "\<not> under (sub_path src es') (sub_path d [i @ ''.tmp''])"
proof -
  have r: "fs_ok fs" "fs_node fs src = Some Dir" "\<not> under src d" "\<And>es. fs_node fs (sub_path d ((i @ ''.tmp'') # es)) = None"
    using assms by (auto simp: room_for_def proper_tree_def)
  have none: "\<not> under (sub_path d [i @ ''.tmp'']) src"
  proof
    assume "under (sub_path d [i @ ''.tmp'']) src"
    then obtain es where "src = sub_path (sub_path d [i @ ''.tmp'']) es" unfolding under_iff by blast
    with r(2) r(4) [of es] show False by simp
  qed
  show u: "\<not> under (sub_path d ((i @ ''.tmp'') # es)) src" for es
    using none under_trans [of "sub_path d [i @ ''.tmp'']" "sub_path d ((i @ ''.tmp'') # es)" src] under_sub [of "sub_path d [i @ ''.tmp'']" es]
    by auto
  have "\<not> under src (sub_path d [i @ ''.tmp''])" using r(3) u [of "[]"] by (auto simp: under_snoc)
  with none show n: "\<not> under src (sub_path d ((i @ ''.tmp'') # es))" for es
    using under_linear [of src "sub_path d ((i @ ''.tmp'') # es)" "sub_path d [i @ ''.tmp'']"] under_sub [of "sub_path d [i @ ''.tmp'']" es]
    by auto
  show "\<not> under (sub_path src es') (sub_path d [i @ ''.tmp''])"
    using n [of "[]"] under_trans [of src "sub_path src es'" "sub_path d [i @ ''.tmp'']"] by auto
qed

lemma run_copyDir:
  assumes "calm cwd w" "src \<noteq> []" "dst \<noteq> []" "fs_ok (w_fs w)" "proper_tree (resolve cwd src) (w_fs w)"
    and "\<not> under (resolve cwd src) (resolve cwd dst)" "\<not> under (resolve cwd dst) (resolve cwd src)"
    and "can_overlay (resolve cwd src) (resolve cwd dst) (w_fs w)" "fs_MkdirAll (resolve cwd dst) (w_fs w) = Inr fs1"
  obtains k fs2 where "run_state (copyDir src dst) w = (Inr (), w\<lparr>w_tick := k, w_fs := fs2\<rparr>)"
    "copy_result (resolve cwd src) (resolve cwd dst) (w_fs w) fs1 fs2"
proof -
  let ?w1 = "(tick (tick w))\<lparr>w_fs := fs1\<rparr>"
  have n: "fs_node (w_fs w) (resolve cwd src) = Some Dir" using assms(5) by (simp add: proper_tree_def)
  have c1: "calm cwd ?w1" "fs_MkdirAll (resolve cwd dst) (w_fs w) = Inr (w_fs ?w1)" using assms(1,9) by simp_all
  from run_Walk_copy [OF c1(1) assms(2,3,4,5,6,7,8) c1(2)] obtain k fs2 where
    r: "run_state (Walk src (copy_visit dst)) ?w1 = (Inr (), ?w1\<lparr>w_tick := k, w_fs := fs2\<rparr>)"
    "copy_result (resolve cwd src) (resolve cwd dst) (w_fs w) (w_fs ?w1) fs2" by blast
  have c2: "calm cwd (tick w)" using assms(1) by simp
  have "run_state (copyDir src dst) w = (Inr (), w\<lparr>w_tick := k, w_fs := fs2\<rparr>)"
    using r(1) n assms(9) run_os_calm(1) [OF assms(1), of src] run_os_calm(4) [OF c2, of dst fs1]
    by (simp add: copyDir_def fs_Stat_def tick_eq)
  with r(2) show thesis by (intro that) simp_all
qed

definition host_copy :: "SaveOpts \<Rightarrow> bool" where
  "host_copy opts \<longleftrightarrow> sv_ContainerIDs opts = [] \<and> sv_StreamHub opts = None \<and> sv_WorkspaceDir opts \<noteq> []"

lemma run_copyWorkspace:
  assumes "calm cwd w" "host_copy opts" "tmp \<noteq> []" "resolve cwd tmp = sub_path d [i @ ''.tmp'']"
    and room: "room_for (resolve cwd (sv_WorkspaceDir opts)) d i fs" and fs1: "fs_MkdirAll (sub_path d [i @ ''.tmp'']) fs = Inr (w_fs w)"
  defines "W \<equiv> sub_path d [i @ ''.tmp'', ''workspace'']"
  obtains k fs2 where "run_state (copyWorkspace tmp opts) w = (Inr (), w\<lparr>w_tick := k, w_fs := fs2\<rparr>)" "fs_ok fs2"
    "\<And>es. fs_node fs2 (sub_path W es) = fs_node fs (sub_path (resolve cwd (sv_WorkspaceDir opts)) es)"
    "\<And>q. \<not> under W q \<Longrightarrow> \<not> under q W \<Longrightarrow> fs_node fs2 q = fs_node (w_fs w) q"
proof -
  let ?S = "resolve cwd (sv_WorkspaceDir opts)" and ?T = "sub_path d [i @ ''.tmp'']"
  have cwd: "is_rooted cwd" using assms(1) by (simp add: calm_def)
  have r: "fs_ok fs" "proper_tree ?S fs" "\<And>es. fs_node fs (sub_path d ((i @ ''.tmp'') # es)) = None"
    using room by (auto simp: room_for_def)
  note mk = fs_MkdirAll_ok [OF fs1 r(1)]
  have below: "fs_node (w_fs w) (sub_path ?S es) = fs_node fs (sub_path ?S es)" for es
    using mk(3) room_apart(3) [OF room] by simp
  have tree: "proper_tree ?S (w_fs w)" using r(2) below below [of "[]"] by (simp add: proper_tree_def)
  have W: "resolve cwd (path_Join [tmp, ''workspace'']) = W"
    using resolve_elems [OF cwd assms(3), of "[''workspace'']"] assms(4) by (simp add: proper_elem_def slash_def W_def)
  have apart: "\<not> under ?S W" "\<not> under W ?S" unfolding W_def by (rule room_apart [OF room])+
  have TW: "\<not> under (sub_path W es) ?T" for es by (simp add: W_def under_def sub_path_def)
  have Wn: "fs_node (w_fs w) (sub_path W es) = None" for es
    using mk(3) [of "sub_path W es"] TW r(3) [of "''workspace'' # es"] by (simp add: W_def)
  have over: "can_overlay ?S W (w_fs w)" by (simp add: can_overlay_def Wn)
  have "fs_node (w_fs w) (parent W) = Some Dir" using mk(2) by (simp add: W_def parent_sub)
  then obtain fs1' where m: "fs_MkdirAll W (w_fs w) = Inr fs1'"
    using fs_MkdirAll_Inr [OF mk(1), of W] Wn [of "[]"] by auto
  note mW = fs_MkdirAll_ok [OF m mk(1)]
  have c1: "calm cwd (tick w)" using assms(1) by simp
  have ne: "sv_WorkspaceDir opts \<noteq> []" "path_Join [tmp, ''workspace''] \<noteq> []" using assms(2,3) by (simp_all add: host_copy_def)
  obtain k fs2 where cp: "run_state (copyDir (sv_WorkspaceDir opts) (path_Join [tmp, ''workspace''])) (tick w) = (Inr (), (tick w)\<lparr>w_tick := k, w_fs := fs2\<rparr>)"
    "copy_result ?S W (w_fs w) fs1' fs2"
    by (rule run_copyDir [OF c1 ne, of fs1', unfolded W tick_world]) (use mk(1) tree apart over m in auto)
  have st: "run_state (os_Stat (sv_WorkspaceDir opts)) w = (Inr Dir, tick w)"
    using assms(1) tree by (simp add: os_Stat_def os_read_def os_call_def calm_def fs_Stat_def proper_tree_def)
  have run: "run_state (copyWorkspace tmp opts) w = (Inr (), w\<lparr>w_tick := k, w_fs := fs2\<rparr>)"
    using assms(2) st cp(1) by (simp add: copyWorkspace_def host_copy_def Let_def tick_eq)
  have nodes: "fs_node fs2 (sub_path W es) = fs_node fs (sub_path ?S es)" for es
  proof (cases "fs_node fs (sub_path ?S es) = None")
    case True
    then have "es \<noteq> []" using r(2) by (auto simp: proper_tree_def)
    then have "\<not> under (sub_path W es) W" by (simp add: under_def sub_path_def)
    then show ?thesis using cp(2) True below mW(3) Wn by (simp add: copy_result_def)
  next
    case False
    with cp(2) show ?thesis unfolding copy_result_def below by metis
  qed
  show thesis
    by (rule that [OF run _ nodes]) (use cp(2) in \<open>auto simp: copy_result_def\<close>)
qed

lemma under_sibling: "x \<noteq> y \<Longrightarrow> \<not> under (sub_path d (x # es)) (sub_path d (y # es'))"
  by (simp add: under_def sub_path_def)

lemma mput_sub [simp]: "fs_node (mput (sub_path d (e # es)) n fs) q = (if q = sub_path d (e # es) then Some n else fs_node fs q)"
  by (rule fs_node_mput) (simp add: sub_path_def)

lemma run_write_checkpoint:
  assumes "calm cwd w" "host_copy opts" "tmp \<noteq> []" "resolve cwd tmp = sub_path d [i @ ''.tmp'']" "resolve cwd state = sub_path d [i]"
    and room: "room_for (resolve cwd (sv_WorkspaceDir opts)) d i (w_fs w)"
    and time: "\<And>t. \<exists>x. marshal_time (w_clock w t) = Inr x"
  obtains k k' fs' where "run_state (write_checkpoint i taskID state tmp opts) w = (Inr (w_clock w k'), w\<lparr>w_tick := k, w_fs := fs'\<rparr>)" "fs_ok fs'"
    "\<And>es. fs_node fs' (sub_path d (i # ''workspace'' # es)) = fs_node (w_fs w) (sub_path (resolve cwd (sv_WorkspaceDir opts)) es)"
proof -
  let ?S = "resolve cwd (sv_WorkspaceDir opts)" and ?T = "sub_path d [i @ ''.tmp'']" and ?W = "sub_path d [i @ ''.tmp'', ''workspace'']"
  let ?fs = "w_fs w"
  have r: "fs_ok ?fs" "\<And>q. under q d \<Longrightarrow> fs_node ?fs q \<in> {None, Some Dir}"
    "\<And>es. fs_node ?fs (sub_path d (i # es)) = None" "\<And>es. fs_node ?fs (sub_path d ((i @ ''.tmp'') # es)) = None"
    using room unfolding room_for_def by blast+
  have T: "fs_node ?fs q \<in> {None, Some Dir}" if "under q ?T" for q
  proof -
    have "under q d \<or> q = ?T" using that by (simp add: under_snoc)
    then show ?thesis using r(2) [of q] r(4) [of "[]"] by blast
  qed
  have "fs_node ?fs (fst ?T, [] @ take k (snd ?T)) \<in> {None, Some Dir}" for k
    by (rule T) (simp add: under_def min_def)
  then obtain fs1 where m: "fs_MkdirAll ?T ?fs = Inr fs1"
    using mkdir_elems_Inr [of "snd ?T" ?fs "fst ?T" "[]"] by (auto simp: fs_MkdirAll_def)
  note mk = fs_MkdirAll_ok [OF m r(1)]
  let ?w1 = "(tick w)\<lparr>w_fs := fs1\<rparr>"
  have c1: "calm cwd ?w1" using assms(1) by simp
  have m1: "fs_MkdirAll ?T ?fs = Inr (w_fs ?w1)" using m by simp
  obtain k2 fs2 where cp: "run_state (copyWorkspace tmp opts) ?w1 = (Inr (), ?w1\<lparr>w_tick := k2, w_fs := fs2\<rparr>)" "fs_ok fs2"
    "\<And>es. fs_node fs2 (sub_path ?W es) = fs_node ?fs (sub_path ?S es)"
    "\<And>q. \<not> under ?W q \<Longrightarrow> \<not> under q ?W \<Longrightarrow> fs_node fs2 q = fs_node (w_fs ?w1) q"
    by (rule run_copyWorkspace [OF c1 assms(2,3,4) room m1]) (rule that, assumption+)
  let ?w2 = "w\<lparr>w_tick := k2, w_fs := fs2\<rparr>"
  have fs1W: "fs_node fs1 (sub_path d (e # es)) = None" if "e \<in> {i, i @ ''.tmp''}" "e = i @ ''.tmp'' \<Longrightarrow> es \<noteq> []" for e es
  proof -
    have "\<not> under (sub_path d (e # es)) ?T" using that by (auto simp: under_def sub_path_def)
    then show ?thesis using mk(3) r(3,4) that(1) by auto
  qed
  have fs2T: "fs_node fs2 ?T = Some Dir"
  proof -
    have "fs_node ?fs ?S = Some Dir" using room by (simp add: room_for_def proper_tree_def)
    then have "fs_node fs2 ?W = Some Dir" using cp(3) [of "[]"] by simp
    from fs_ok_parent [OF cp(2) this] show ?thesis by (simp add: parent_sub)
  qed
  have fs2f: "fs_node fs2 (sub_path d [i @ ''.tmp'', e]) = None" if "e \<noteq> ''workspace''" for e
  proof -
    have "\<not> under ?W (sub_path d [i @ ''.tmp'', e])" "\<not> under (sub_path d [i @ ''.tmp'', e]) ?W"
      using that by (simp_all add: under_def sub_path_def)
    from cp(4) [OF this] show ?thesis using fs1W by simp
  qed
  have fs2i: "fs_node fs2 (sub_path d [i]) = None"
  proof -
    have "\<not> under ?W (sub_path d [i])" "\<not> under (sub_path d [i]) ?W"
      by (simp_all add: under_def sub_path_def)
    from cp(4) [OF this] show ?thesis using fs1W [of i "[]"] by simp
  qed
  let ?P = "print_indent 0 (enc_progress (sv_PlanProgress opts))"
  let ?fs3 = "mput (sub_path ?T [''plan-progress.json'']) (File ?P) fs2"
  have pe: "proper_elem ''plan-progress.json''" "proper_elem ''checkpoint.json''" by (simp_all add: proper_elem_def slash_def)
  have c2: "calm cwd ?w2" using assms(1) by simp
  have j1: "run_state (writeJSON (path_Join [tmp, ''plan-progress.json'']) (Inr (enc_progress (sv_PlanProgress opts)))) ?w2 =
      (Inr (), ?w2\<lparr>w_tick := Suc (Suc k2), w_fs := ?fs3\<rparr>)" "fs_ok ?fs3"
    using run_writeJSON [OF c2 assms(3) pe(1), of "enc_progress (sv_PlanProgress opts)"] cp(2) fs2T fs2f [of "''plan-progress.json''"] assms(4)
    by simp_all
  let ?w3 = "w\<lparr>w_tick := Suc (Suc (Suc k2)), w_fs := ?fs3\<rparr>" and ?now = "w_clock w (Suc (Suc k2))"
  obtain t where t: "marshal_time ?now = Inr t" using time by blast
  let ?meta = "checkpoint_meta i taskID opts (buildResumePrompt opts) ?now"
  obtain j where j: "?meta = Inr j" by (simp add: checkpoint_meta_def t)
  have c3: "calm cwd ?w3" using assms(1) by simp
  let ?fs4 = "mput (sub_path ?T [''checkpoint.json'']) (File (print_indent 0 j)) ?fs3"
  have j2: "run_state (writeJSON (path_Join [tmp, ''checkpoint.json'']) (Inr j)) ?w3 =
      (Inr (), ?w3\<lparr>w_tick := Suc (Suc (Suc (Suc (Suc k2)))), w_fs := ?fs4\<rparr>)" "fs_ok ?fs4"
    using run_writeJSON [OF c3 assms(3) pe(2), of j] j1(2) fs2T fs2f [of "''checkpoint.json''"] assms(4) by simp_all
  let ?w4 = "w\<lparr>w_tick := Suc (Suc (Suc (Suc (Suc k2)))), w_fs := ?fs4\<rparr>"
  have files: "run_state (write_files i taskID tmp opts) w = (Inr ?now, ?w4)"
    using run_os_calm(4) [OF assms(1), of tmp fs1] m cp(1) j1(1) j2(1) j assms(2)
    by (simp add: write_files_def copyClaudeMemory_def saveAgentLogs_def host_copy_def assms(4) tick_upd_tick del: sub_path_simps)
  have d4: "fs_node ?fs4 ?T = Some Dir" "fs_node ?fs4 (sub_path d [i]) = None" using fs2T fs2i by simp_all
  have "fs_node ?fs4 d = Some Dir" using fs_ok_parent [OF j2(2) d4(1)] by (simp add: parent_sub)
  moreover have nu: "\<not> under ?T (sub_path d [i])" by (simp add: under_sibling)
  ultimately obtain fs5 where rn: "fs_Rename ?T (sub_path d [i]) ?fs4 = Inr fs5"
    unfolding fs_Rename_def using d4 by (simp add: parent_sub)
  have ne: "snd ?T \<noteq> []" "snd (sub_path d [i]) \<noteq> []" "snd (sub_path d (i # ''workspace'' # es)) \<noteq> []" for es
    by (simp_all add: sub_path_def)
  have nodes: "fs_node fs5 (sub_path d (i # ''workspace'' # es)) = fs_node ?fs (sub_path ?S es)" for es
  proof -
    have u: "under (sub_path d [i]) (sub_path d (i # ''workspace'' # es))" and rel: "rel_to (sub_path d [i]) (sub_path d (i # ''workspace'' # es)) = ''workspace'' # es"
      by (simp_all add: under_def sub_path_def rel_to_def)
    have "fs_node fs5 (sub_path d (i # ''workspace'' # es)) = fs_node ?fs4 (sub_path ?T (''workspace'' # es))"
      using fs_Rename_node [OF rn j2(2) ne(1,2) ne(3)] u rel by simp
    also have "\<dots> = fs_node fs2 (sub_path ?W es)" by simp
    finally show ?thesis using cp(3) by simp
  qed
  have c4: "calm cwd ?w4" using assms(1) by simp
  have ren: "run_state (os_str (os_Rename tmp state)) ?w4 = (Inr (), (tick ?w4)\<lparr>w_fs := fs5\<rparr>)"
    using run_os_calm(6) [OF c4, of tmp state fs5] rn assms(4,5) by simp
  have "run_state (write_checkpoint i taskID state tmp opts) w = (Inr ?now, w\<lparr>w_tick := Suc (Suc (Suc (Suc (Suc (Suc k2))))), w_fs := fs5\<rparr>)"
    using files ren by (simp add: write_checkpoint_def tick_eq)
  then show thesis by (rule that) (use fs_Rename_ok [OF rn j2(2) ne(1,2)] nodes in auto)
qed

section \<open>Restoring what was saved\<close>

lemma sort_key_last_min: "(\<And>y. y \<in> set xs \<Longrightarrow> f x < f y) \<Longrightarrow> sort_key f (xs @ [x]) = x # sort_key f xs"
proof (induction xs)
  case (Cons a xs)
  then have "sort_key f (xs @ [x]) = x # sort_key f xs" by simp
  moreover have "f x < f a" using Cons.prems by simp
  ultimately show ?case using leD by auto
qed simp

lemma latest_row:
  assumes "cp_TaskID cp = taskID" "\<And>q. q \<in> set rows \<Longrightarrow> cp_TaskID q = taskID \<Longrightarrow> cp_CreatedAt q < cp_CreatedAt cp"
  shows "first_row (order_desc cp_CreatedAt (filter (\<lambda>c. cp_TaskID c = taskID) (rows @ [cp]))) = Some cp"
proof -
  let ?l = "filter (\<lambda>c. cp_TaskID c = taskID) rows"
  have "order_desc cp_CreatedAt (?l @ [cp]) = cp # order_desc cp_CreatedAt ?l"
    unfolding order_desc_def by (rule sort_key_last_min) (use assms(2) in auto)
  then show ?thesis using assms(1) by (simp add: first_row_def)
qed

lemma run_RestoreCheckpoint:
  assumes "calm cwd w" "\<And>t. ctx_fault c w t = None" "cp_TaskID cp = taskID" "fs_node (w_fs w) (resolve cwd (cp_StateDir cp)) \<noteq> None"
    and "tb_checkpoints (w_store w) = rows @ [cp]" "\<And>q. q \<in> set rows \<Longrightarrow> cp_TaskID q = taskID \<Longrightarrow> cp_CreatedAt q < cp_CreatedAt cp"
  obtains w' where "run_state (RestoreCheckpoint c taskID) w =
      (Inr \<lparr>rr_Checkpoint = cp, rr_WorkspaceDir = path_Join [cp_StateDir cp, ''workspace''],
        rr_ClaudeMemoryDir = path_Join [cp_StateDir cp, ''claude-memory''],
        rr_ResumePrompt = (case cp_ResumePrompt cp of None \<Rightarrow> [] | Some p \<Rightarrow> p)\<rparr>, w')"
    "w_fs w' = w_fs w" "w_store w' = w_store w"
proof -
  have get: "run_state (in_ctx c (GetLatestCheckpoint taskID)) w = (Inr (Some cp), tick w)"
    using latest_row [OF assms(3), of rows] assms(2,5,6) by (simp add: GetLatestCheckpoint_def tick_def)
  have c1: "calm cwd (tick w)" using assms(1) by simp
  have st: "run_state (os_str (os_Stat (cp_StateDir cp))) (tick w) = (Inr (the (fs_node (w_fs w) (resolve cwd (cp_StateDir cp)))), tick (tick w))"
    using run_os_calm(1) [OF c1, of "cp_StateDir cp"] assms(4) by (auto simp: fs_Stat_def)
  obtain r w3 where j: "run_state (readJSON (path_Join [cp_StateDir cp, ''checkpoint.json''])) (tick (tick w)) = (r, w3)" by fastforce
  have "quiet.steps (readJSON p :: ('b world_scheme, json) io)" for p
    unfolding readJSON_def by (intro quiet.steps_or_fail quiet.steps_os_str quiet.steps_os_ReadFile quiet.steps_option quiet.steps_err quiet.steps_ok)
  from quiet.stepsE [OF this j] have q: "w_fs w3 = w_fs w" by (simp add: quiet_rel_def)
  have "kept.steps (readJSON p :: ('b world_scheme, json) io)" for p
    unfolding readJSON_def by (intro kept.file_intros)
  from kept.stepsE [OF this j] have k: "w_store w3 = w_store w" by (simp add: store_rel_def)
  show thesis
    by (rule that [OF _ q k]) (simp del: run_in_ctx add: RestoreCheckpoint_def get st j)
qed

text \<open>C27: A save from the host's workspace succeeds when the system and the database answer, and the
  files are where they can be; restoring the task later, with whatever became of the workspace in
  the meantime, then returns that checkpoint and a directory that holds exactly the workspace of the
  moment of the save, together with the prompt for resuming.\<close>

theorem SaveCheckpoint_Restore:
  fixes w w2 :: "'m world_scheme"
  assumes "calm cwd w" "host_copy opts" "proper_elem taskID" "ss_baseDir s \<noteq> []" "proper_elem (w_uuid w (w_tick w))"
    and room: "room_for (resolve cwd (sv_WorkspaceDir opts)) (task_dir cwd s taskID) (w_uuid w (w_tick w)) (w_fs w)"
    and time: "\<And>t. \<exists>x. marshal_time (w_clock w t) = Inr x"
    and db: "\<And>t. ctx_fault c w t = None" "fk_task (w_store w) taskID" "w_uuid w (w_tick w) \<notin> cp_ID ` set (tb_checkpoints (w_store w))"
    and older: "\<And>q t. q \<in> set (tb_checkpoints (w_store w)) \<Longrightarrow> cp_TaskID q = taskID \<Longrightarrow> cp_CreatedAt q < w_clock w t"
    and run: "run_state (SaveCheckpoint s c taskID opts) w = (r, w')"
  shows "\<exists>cp. r = Inr cp \<and>
    (calm cwd w2 \<and> (\<forall>t. ctx_fault c w2 t = None) \<and> tb_checkpoints (w_store w2) = tb_checkpoints (w_store w') \<and>
       same_below (resolve cwd (cp_StateDir cp)) w' w2 \<longrightarrow>
     (\<exists>rr w3. run_state (RestoreCheckpoint c taskID) w2 = (Inr rr, w3) \<and> w_fs w3 = w_fs w2 \<and> rr_Checkpoint rr = cp \<and>
       rr_ResumePrompt rr = buildResumePrompt opts \<and>
       (\<forall>es. fs_node (w_fs w2) (sub_path (resolve cwd (rr_WorkspaceDir rr)) es) =
             fs_node (w_fs w) (sub_path (resolve cwd (sv_WorkspaceDir opts)) es))))"
proof -
  let ?i = "w_uuid w (w_tick w)" and ?d = "task_dir cwd s taskID" and ?S = "resolve cwd (sv_WorkspaceDir opts)"
  let ?st = "path_Join [ss_baseDir s, taskID, ?i]"
  let ?tmp = "?st @ ''.tmp''"
  have cwd: "is_rooted cwd" using assms(1) by (simp add: calm_def)
  note paths = checkpoint_paths [OF cwd assms(4,3,5)]
  have tmp: "resolve cwd ?tmp = sub_path ?d [?i @ ''.tmp'']"
    unfolding paths(2) by (rule checkpoint_paths(1) [OF cwd assms(4,3) proper_tmp [OF assms(5)]])
  have c0: "calm cwd (tick w)" using assms(1) by simp
  have room0: "room_for ?S ?d ?i (w_fs (tick w))" and time0: "\<And>t. \<exists>x. marshal_time (w_clock (tick w) t) = Inr x"
    using room time by simp_all
  have ne: "?tmp \<noteq> []" by simp
  obtain k k' fs' where wr: "run_state (write_checkpoint ?i taskID ?st ?tmp opts) (tick w) = (Inr (w_clock (tick w) k'), (tick w)\<lparr>w_tick := k, w_fs := fs'\<rparr>)"
    and fs': "fs_ok fs'" "\<And>es. fs_node fs' (sub_path ?d (?i # ''workspace'' # es)) = fs_node (w_fs (tick w)) (sub_path ?S es)"
    by (rule run_write_checkpoint [OF c0 assms(2) ne tmp paths(1) room0 time0]) (rule that, assumption+)
  let ?w1 = "w\<lparr>w_tick := k, w_fs := fs'\<rparr>" and ?now = "w_clock w k'"
  obtain bs w2' where sz: "run_state (calculateDirSize ?st) ?w1 = (bs, w2')" by fastforce
  have q2: "w_fs w2' = fs'" "still_rel ?w1 w2'" using quiet.stepsE [OF quiet_calculateDirSize sz] by (simp_all add: quiet_rel_def)
  have s2: "w_store w2' = w_store w" using kept.stepsE [OF kept.steps_calculateDirSize sz] by (simp add: store_rel_def)
  have f2: "w_fault w2' = w_fault w" using kept.stepsE [OF kept.steps_calculateDirSize sz] by (simp add: store_rel_def)
  define cp where "cp = \<lparr>cp_ID = ?i, cp_TaskID = taskID, cp_StateDir = ?st,
            cp_PlanProgress = marshalRequired (enc_progress (sv_PlanProgress opts)),
            cp_AgentStates = marshalOptional (Some (enc_slice enc_agent_state (sv_AgentStates opts))),
            cp_RepoState = marshalOptional (Some (enc_pointer enc_repo_state (sv_RepoState opts))),
            cp_ResumePrompt = Some (buildResumePrompt opts), cp_SizeBytes = Some (fst bs), cp_CreatedAt = ?now\<rparr>"
  have cf: "ctx_fault c w2' t = None" for t
    using db(1) [of t] still_ctx_done [OF q2(2)] f2 by (simp add: ctx_fault_def split: option.splits)
  have ins: "run_state (in_ctx c (CreateCheckpoint cp)) w2' = (Inr (), (tick w2')\<lparr>w_store := (w_store w)\<lparr>tb_checkpoints := tb_checkpoints (w_store w) @ [cp]\<rparr>\<rparr>)"
  proof -
    have "\<not> list_ex (\<lambda>q. cp_ID q = ?i) (tb_checkpoints (w_store w))" using db(3) by (force simp: list_ex_iff)
    then show ?thesis using cf db(2) s2 by (simp add: CreateCheckpoint_def exec_def insert_row_def cp_def tick_def)
  qed
  have res: "r = Inr cp" "w' = (tick w2')\<lparr>w_store := (w_store w)\<lparr>tb_checkpoints := tb_checkpoints (w_store w) @ [cp]\<rparr>\<rparr>"
    using run wr sz ins
    by (cases bs; simp del: run_in_ctx add: SaveCheckpoint_def doSaveCheckpoint_def Let_def tick_upd_tick cp_def)+
  show ?thesis
  proof (intro exI [of _ cp] conjI impI)
    show "r = Inr cp" by (rule res(1))
    assume w2: "calm cwd w2 \<and> (\<forall>t. ctx_fault c w2 t = None) \<and> tb_checkpoints (w_store w2) = tb_checkpoints (w_store w') \<and>
       same_below (resolve cwd (cp_StateDir cp)) w' w2"
    have dir: "resolve cwd (cp_StateDir cp) = sub_path ?d [?i]" using paths(1) by (simp add: cp_def)
    have same: "fs_node (w_fs w2) (sub_path ?d (?i # es)) = fs_node fs' (sub_path ?d (?i # es))" for es
      using w2 q2(1) by (simp add: same_below_def dir res(2))
    have ws: "fs_node (w_fs w2) (sub_path ?d (?i # ''workspace'' # es)) = fs_node (w_fs w) (sub_path ?S es)" for es
      using same fs'(2) by simp
    have "fs_node fs' (sub_path ?d [?i, ''workspace'']) = Some Dir"
      using fs'(2) [of "[]"] room by (simp add: room_for_def proper_tree_def)
    from fs_ok_parent [OF fs'(1) this] have there: "fs_node (w_fs w2) (resolve cwd (cp_StateDir cp)) \<noteq> None"
      using same [of "[]"] by (simp add: dir parent_sub)
    have calm2: "calm cwd w2" "\<And>t. ctx_fault c w2 t = None" using w2 by blast+
    have rows: "tb_checkpoints (w_store w2) = tb_checkpoints (w_store w) @ [cp]" using w2 res(2) by simp
    have cpt: "cp_TaskID cp = taskID" by (simp add: cp_def)
    obtain w3 where r3: "run_state (RestoreCheckpoint c taskID) w2 =
      (Inr \<lparr>rr_Checkpoint = cp, rr_WorkspaceDir = path_Join [cp_StateDir cp, ''workspace''],
        rr_ClaudeMemoryDir = path_Join [cp_StateDir cp, ''claude-memory''],
        rr_ResumePrompt = (case cp_ResumePrompt cp of None \<Rightarrow> [] | Some p \<Rightarrow> p)\<rparr>, w3)" "w_fs w3 = w_fs w2"
      by (rule run_RestoreCheckpoint [OF calm2 cpt there rows]) (use older in \<open>auto simp: cp_def\<close>)
    have stne: "cp_StateDir cp \<noteq> []" using assms(4) by (simp add: cp_def)
    have "resolve cwd (path_Join [cp_StateDir cp, ''workspace'']) = sub_path ?d [?i, ''workspace'']"
      using resolve_elems [OF cwd stne, of "[''workspace'']"] dir by (simp add: proper_elem_def slash_def)
    with r3 ws show "\<exists>rr w3. run_state (RestoreCheckpoint c taskID) w2 = (Inr rr, w3) \<and> w_fs w3 = w_fs w2 \<and> rr_Checkpoint rr = cp \<and>
       rr_ResumePrompt rr = buildResumePrompt opts \<and>
       (\<forall>es. fs_node (w_fs w2) (sub_path (resolve cwd (rr_WorkspaceDir rr)) es) = fs_node (w_fs w) (sub_path ?S es))"
      by (simp add: cp_def)
  qed
qed

section \<open>Witnesses\<close>

definition sample_fs :: fs where
  "sample_fs = [((True, [''srv'']), Dir), ((True, [''srv'', ''ws'']), Dir), ((True, [''srv'', ''ws'', ''f'']), File ''hello'')]"

definition sample_opts :: SaveOpts where
  "sample_opts = \<lparr>sv_WorkspaceDir = ''ws'', sv_ContainerIDs = [],
     sv_PlanProgress = \<lparr>pp_PlanID = ''p'', pp_CompletedSubtasks = [''s''], pp_CurrentSubtask = [], pp_FailedSubtasks = []\<rparr>,
     sv_AgentStates = [], sv_RepoState = None, sv_DockerManager = None, sv_StreamHub = None, sv_TaskPrompt = ''do'', sv_PlanJSON = []\<rparr>"

definition sample_world :: world where
  "sample_world = (calm_world (empty_store False) sample_fs calm_docker)\<lparr>w_clock := (\<lambda>t. 1000)\<rparr>"

definition sample_store :: StateStore where
  "sample_store = NewStateStore ''states''"

lemma sample_ready:
  "calm ''/srv'' sample_world" "w_cwd sample_world = ''/srv''" "w_fs sample_world = sample_fs" "w_docker sample_world = calm_docker"
  "w_uuid sample_world (w_tick sample_world) = ''id-0''" "ctx_fault Background sample_world t = None"
  "w_store sample_world = empty_store False" "w_clock sample_world t = 1000"
proof -
  have "''id-'' @ itoa (int 0) = ''id-0''" by code_simp
  then show "w_uuid sample_world (w_tick sample_world) = ''id-0''" by (simp add: sample_world_def calm_world_def)
qed (simp_all add: sample_world_def calm_world_def calm_def is_rooted_def slash_def ctx_fault_def)

lemma sample_names: "proper_elem ''t1''" "proper_elem ''id-0''" "ss_baseDir sample_store \<noteq> []" "host_copy sample_opts" "safe_save ''t1'' sample_opts"
  by (simp_all add: proper_elem_def slash_def sample_store_def NewStateStore_def host_copy_def sample_opts_def safe_save_def)

lemma sample_paths: "resolve ''/srv'' (sv_WorkspaceDir sample_opts) = (True, [''srv'', ''ws''])"
  "task_dir ''/srv'' sample_store ''t1'' = (True, [''srv'', ''states'', ''t1''])"
  by code_simp+

lemma sample_fs_ok: "fs_ok sample_fs"
  by (auto simp: fs_ok_def sample_fs_def map_ok_def fs_node_def parent_def)

lemma sample_room: "room_for (True, [''srv'', ''ws'']) (True, [''srv'', ''states'', ''t1'']) ''id-0'' sample_fs"
proof -
  have "proper_tree (True, [''srv'', ''ws'']) sample_fs"
    by (auto simp: proper_tree_def sample_fs_def fs_node_def sub_path_def proper_elem_def slash_def split: if_splits)
  moreover have "fs_node sample_fs q \<in> {None, Some Dir}" if "under q (True, [''srv'', ''states'', ''t1''])" for q
    using that by (auto simp: sample_fs_def fs_node_def under_def split: if_splits)
  ultimately show ?thesis
    by (simp add: room_for_def sample_fs_ok under_def) (simp add: sample_fs_def fs_node_def sub_path_def)
qed

lemma sample_time: "\<exists>x. marshal_time 1000 = Inr x"
proof -
  have "0 \<le> fst (civil (1000 div (86400 * go_second))) \<and> fst (civil (1000 div (86400 * go_second))) \<le> 9999" by code_simp
  then show ?thesis by (simp add: marshal_time_def Let_def)
qed

lemma calm_archives: "clean_archives calm_docker"
  by (simp add: clean_archives_def calm_docker_def)

theorem SaveCheckpoint_atomic_witness:
  "(case run_state (SaveCheckpoint sample_store Background ''t1'' sample_opts) sample_world of (r, w') \<Rightarrow>
     fs_ok (w_fs w') \<and> (\<forall>q. file_ok {(True, [''srv'', ''states'', ''t1''])} sample_fs (w_fs w') q))"
proof -
  obtain r w' where r: "run_state (SaveCheckpoint sample_store Background ''t1'' sample_opts) sample_world = (r, w')" by fastforce
  have "fs_ok (w_fs w') \<and> (\<forall>q. file_ok {task_dir (w_cwd sample_world) sample_store ''t1''} (w_fs sample_world) (w_fs w') q)"
    using SaveCheckpoint_atomic [OF _ _ _ _ _ _ r] sample_names sample_ready sample_fs_ok calm_archives
    by (simp add: calm_def)
  then show ?thesis by (simp add: r sample_ready sample_paths)
qed

theorem SaveCheckpoint_Restore_witness:
  "(let w' = snd (run_state (SaveCheckpoint sample_store Background ''t1'' sample_opts) sample_world)
    in \<exists>rr w3. run_state (RestoreCheckpoint Background ''t1'') (calm_world (w_store w') (w_fs w') calm_docker) = (Inr rr, w3) \<and>
         fs_node (w_fs w3) (sub_path (resolve ''/srv'' (rr_WorkspaceDir rr)) [''f'']) = Some (File ''hello''))"
proof -
  obtain r w' where r: "run_state (SaveCheckpoint sample_store Background ''t1'' sample_opts) sample_world = (r, w')" by fastforce
  let ?w2 = "calm_world (w_store w') (w_fs w') calm_docker"
  have w2: "calm ''/srv'' ?w2" "ctx_fault Background ?w2 t = None" "w_store ?w2 = w_store w'" "w_fs ?w2 = w_fs w'" for t
    by (simp_all add: calm_def calm_world_def is_rooted_def slash_def ctx_fault_def)
  have n: "fs_node sample_fs (sub_path (True, [''srv'', ''ws'']) [''f'']) = Some (File ''hello'')"
    by (simp add: sample_fs_def fs_node_def sub_path_def)
  obtain cp where "calm ''/srv'' ?w2 \<and> (\<forall>t. ctx_fault Background ?w2 t = None) \<and>
      tb_checkpoints (w_store ?w2) = tb_checkpoints (w_store w') \<and> same_below (resolve ''/srv'' (cp_StateDir cp)) w' ?w2 \<longrightarrow>
     (\<exists>rr w3. run_state (RestoreCheckpoint Background ''t1'') ?w2 = (Inr rr, w3) \<and> w_fs w3 = w_fs ?w2 \<and> rr_Checkpoint rr = cp \<and>
       rr_ResumePrompt rr = buildResumePrompt sample_opts \<and>
       (\<forall>es. fs_node (w_fs ?w2) (sub_path (resolve ''/srv'' (rr_WorkspaceDir rr)) es) =
             fs_node (w_fs sample_world) (sub_path (resolve ''/srv'' (sv_WorkspaceDir sample_opts)) es)))"
    using SaveCheckpoint_Restore [OF sample_ready(1) sample_names(4,1,3) _ _ _ _ _ _ _ r, of ?w2] sample_names(2) sample_room sample_time
    by (auto simp: sample_ready sample_paths empty_store_def fk_task_def)
  moreover have "same_below (resolve ''/srv'' (cp_StateDir cp)) w' ?w2" using w2(4) by (simp add: same_below_def)
  ultimately obtain rr w3 where "run_state (RestoreCheckpoint Background ''t1'') ?w2 = (Inr rr, w3)" "w_fs w3 = w_fs ?w2"
    "fs_node (w_fs ?w2) (sub_path (resolve ''/srv'' (rr_WorkspaceDir rr)) [''f'']) = fs_node sample_fs (sub_path (True, [''srv'', ''ws'']) [''f''])"
    using w2 sample_ready(3) sample_paths(1) by metis
  with n show ?thesis by (auto simp: r Let_def)
qed

end
