(* ===== verification/Task_Events.thy ===== *)
theory Task_Events
  imports World Json_Codec
begin

text \<open>
  The events of a task. \<open>Executor\<close>, \<open>Orchestrator\<close> and \<open>TaskManager\<close> each have a \<open>recordEvent\<close> with
  the same body; they differ in the type of the data. A map is marshalled with its keys in order.
\<close>

definition json_map :: "(string \<times> json) list \<Rightarrow> json" where
  "json_map ms = JObj (sort_key fst ms)"

definition insert_event :: "ctx \<Rightarrow> string \<Rightarrow> string \<Rightarrow> (string \<times> json) list option \<Rightarrow> ('m world_scheme, unit) state" where
  "insert_event c taskID eventType data =
     ignore (in_ctx c (CreateEvent \<lparr>event_ID = 0, event_TaskID = taskID, event_AgentID = None, event_Type = eventType,
       event_Data = map_option (\<lambda>ms. print_json (json_map ms)) data, event_CreatedAt = 0\<rparr>))"

text \<open>The maps of the executor and of the orchestrator have strings as values.\<close>

definition str_map :: "(string \<times> string) list \<Rightarrow> (string \<times> json) list" where
  "str_map ms = map (\<lambda>(k, v). (k, JStr v)) ms"

definition ex_recordEvent :: "ctx \<Rightarrow> string \<Rightarrow> string \<Rightarrow> (string \<times> string) list \<Rightarrow> ('m world_scheme, unit) state" where
  "ex_recordEvent c taskID eventType data = insert_event c taskID eventType (Some (str_map data))"

definition or_recordEvent :: "ctx \<Rightarrow> string \<Rightarrow> string \<Rightarrow> (string \<times> string) list \<Rightarrow> ('m world_scheme, unit) state" where
  "or_recordEvent c taskID eventType data = insert_event c taskID eventType (Some (str_map data))"

definition tm_recordEvent :: "ctx \<Rightarrow> string \<Rightarrow> string \<Rightarrow> (string \<times> json) list option \<Rightarrow> ('m world_scheme, unit) state" where
  "tm_recordEvent c taskID eventType data = insert_event c taskID eventType data"

text \<open>The plan with new subtasks and the time of the process, not that of the database.\<close>

definition put_subtasks :: "ctx \<Rightarrow> string \<Rightarrow> Subtask list \<Rightarrow> ('m world_scheme, unit) state" where
  "put_subtasks c planID subtasks = do {
     now \<leftarrow> time_now;
     ignore (in_ctx c (update_plan planID (\<lambda>_ p. p\<lparr>plan_Subtasks := marshal_subtasks subtasks, plan_UpdatedAt := now\<rparr>))) }"

definition ex_updatePlanSubtasks :: "ctx \<Rightarrow> string \<Rightarrow> Subtask list \<Rightarrow> ('m world_scheme, unit) state" where
  "ex_updatePlanSubtasks c planID subtasks = put_subtasks c planID subtasks"

definition or_updatePlanSubtasks :: "ctx \<Rightarrow> ExecutionPlan \<Rightarrow> ('m world_scheme, unit) state" where
  "or_updatePlanSubtasks c plan = put_subtasks c (ep_PlanID plan) (ep_Subtasks plan)"

lemma quiet_events [intro]:
  "quiet.steps (insert_event c t e d)" "quiet.steps (ex_recordEvent c t e s)" "quiet.steps (or_recordEvent c t e s)"
  "quiet.steps (tm_recordEvent c t e d)" "quiet.steps (put_subtasks c p sts)" "quiet.steps (ex_updatePlanSubtasks c p sts)"
  "quiet.steps (or_updatePlanSubtasks c ep)"
proof -
  show i: "quiet.steps (insert_event c t e d)" for c t e d
    unfolding insert_event_def by (intro quiet.steps_ignore quiet.steps_ctx_sql sql_methods)
  show p: "quiet.steps (put_subtasks c p sts)" for c p sts
    unfolding put_subtasks_def by (intro quiet.steps_bind quiet.steps_sql sql_time_now quiet.steps_ignore quiet.steps_ctx_sql sql_update_plan)
  show "quiet.steps (ex_recordEvent c t e s)" "quiet.steps (or_recordEvent c t e s)" "quiet.steps (tm_recordEvent c t e d)"
    "quiet.steps (ex_updatePlanSubtasks c p sts)" "quiet.steps (or_updatePlanSubtasks c ep)"
    unfolding ex_recordEvent_def or_recordEvent_def tm_recordEvent_def ex_updatePlanSubtasks_def or_updatePlanSubtasks_def by (rule i p)+
qed

end
