(* ===== verification/Executor.thy ===== *)
theory Executor
  imports Checkpoint_Facts Task_Events Prompts
begin

text \<open>
  \<open>internal/task/executor.go\<close>: the subtasks of a plan one after the other, each in a container of its
  own. The automatic saves run beside the executor and are runs of \<open>State_Store\<close>; the goroutine that
  reads a container's output is the producer of the stream in \<open>Stream_Hub\<close>. A task's ID has at least
  eight bytes.
\<close>

record Executor =
  ex_docker :: docker_manager
  ex_cfg :: Config
  ex_stateStore :: "StateStore option"
  ex_streamHub :: bool \<comment> \<open>not \<open>nil\<close>\<close>
  ex_repoMemory :: string

record ExecutionResult =
  er_CompletedSubtasks :: "string list"
  er_FailedSubtasks :: "string list"
  er_Error :: "string option"

definition NewExecutor :: "docker_manager \<Rightarrow> Config \<Rightarrow> StateStore option \<Rightarrow> bool \<Rightarrow> Executor" where
  "NewExecutor dockerMgr cfg ss hub =
     \<lparr>ex_docker = dockerMgr, ex_cfg = cfg, ex_stateStore = ss, ex_streamHub = hub, ex_repoMemory = []\<rparr>"

definition workspace_of :: "Config \<Rightarrow> string \<Rightarrow> string" where
  "workspace_of cfg taskID = path_Join [sc_DataDir (cf_Storage cfg), ''workspaces'', taskID]"

definition ex_dependenciesMet :: "Subtask list \<Rightarrow> Subtask \<Rightarrow> bool" where
  "ex_dependenciesMet subtasks subtask =
     list_all (\<lambda>depID. case find (\<lambda>s. st_ID s = depID) subtasks of
        None \<Rightarrow> False | Some s \<Rightarrow> st_Status s = ''completed'') (st_DependsOn subtask)"

section \<open>One subtask\<close>

text \<open>The agent's record and its container.\<close>

definition create_agent :: "Executor \<Rightarrow> ctx \<Rightarrow> Task \<Rightarrow> Subtask \<Rightarrow> string \<Rightarrow> ('m world_scheme, string \<times> string) io" where
  "create_agent e c task subtask prompt =
     (let workspaceDir = workspace_of (ex_cfg e) (task_ID task) in
      or_fail ''creating workspace directory'' (os_str (os_MkdirAll workspaceDir)) (\<lambda>_. do {
        absWorkspace \<leftarrow> gets (\<lambda>w. Abs (w_cwd w) workspaceDir);
        agentID \<leftarrow> New_UUID;
        now \<leftarrow> time_now;
        or_fail ''creating agent record'' (in_ctx c (CreateAgent
            \<lparr>agent_ID = agentID, agent_TaskID = task_ID task, agent_SubtaskID = Some (st_ID subtask), agent_ContainerID = None,
             agent_Role = (if st_AgentRole subtask = [] then ''developer'' else st_AgentRole subtask), agent_Status = ''created'',
             agent_ExitCode = None, agent_Error = None, agent_CreatedAt = now, agent_StartedAt = None, agent_CompletedAt = None\<rparr>)) (\<lambda>_. do {
          _ \<leftarrow> ex_recordEvent c (task_ID task) ''agent.spawned'' [(''agent_id'', agentID), (''subtask_id'', st_ID subtask)];
          or_fail ''creating container''
            (CreateContainer (ex_docker e) \<lparr>co_Name = ''klaudio-'' @ take 8 (task_ID task) @ ''-'' @ st_ID subtask,
               co_Prompt = prompt, co_EnvVars = [],
               co_Volumes = [\<lparr>vm_HostPath = absWorkspace, vm_ContainerPath = ''/home/agent/workspace'', vm_ReadOnly = False\<rparr>],
               co_WorkDir = []\<rparr>) (\<lambda>containerID. do {
            _ \<leftarrow> ignore (in_ctx c (UpdateAgentContainer agentID containerID));
            ok (agentID, containerID) }) }) }))"

text \<open>The container has ended, or the context is done and its branch of the \<open>select\<close> is taken.\<close>

definition finish_agent :: "Executor \<Rightarrow> ctx \<Rightarrow> string \<Rightarrow> string \<Rightarrow> string \<Rightarrow> string \<Rightarrow> ('m world_scheme, unit) io" where
  "finish_agent e c taskID subtaskID agentID containerID = do {
     (exitCode, waitErr) \<leftarrow> WaitContainer c containerID;
     stop \<leftarrow> gets (\<lambda>w. if w_pick w (w_tick w) then ctx_Err c w else None);
     _ \<leftarrow> when_do (ex_streamHub e) (UnregisterAgent agentID);
     (case stop of
        Some reason \<Rightarrow> do {
          _ \<leftarrow> ignore (StopContainer containerID 10);
          _ \<leftarrow> ignore (RemoveContainer containerID);
          _ \<leftarrow> ignore (in_ctx Background (UpdateAgentStatus agentID ''stopped''));
          _ \<leftarrow> ex_recordEvent Background taskID ''agent.stopped'' [(''agent_id'', agentID), (''subtask_id'', subtaskID)];
          err reason }
      | None \<Rightarrow> do {
          _ \<leftarrow> ignore (ContainerLogs containerID);
          _ \<leftarrow> ignore (RemoveContainer containerID);
          _ \<leftarrow> ignore (in_ctx c (UpdateAgentCompleted agentID exitCode waitErr));
          _ \<leftarrow> ex_recordEvent c taskID ''agent.stopped''
            [(''agent_id'', agentID), (''subtask_id'', subtaskID), (''exit_code'', itoa exitCode)];
          (case waitErr of
             Some w \<Rightarrow> err (''container error: '' @ w)
           | None \<Rightarrow> if exitCode \<noteq> 0 then err (''container exited with code '' @ itoa exitCode) else ok ()) }) }"

definition run_agent :: "Executor \<Rightarrow> ctx \<Rightarrow> string \<Rightarrow> string \<Rightarrow> string \<Rightarrow> string \<Rightarrow> ('m world_scheme, unit) io" where
  "run_agent e c taskID subtaskID agentID containerID = do {
     _ \<leftarrow> when_do (ex_streamHub e) (RegisterAgent agentID taskID);
     _ \<leftarrow> when_do (ex_streamHub e) (ignore (AttachContainer containerID));
     try_bind (StartContainer containerID)
       (\<lambda>e1. do {
          _ \<leftarrow> ignore (RemoveContainer containerID);
          _ \<leftarrow> when_do (ex_streamHub e) (UnregisterAgent agentID);
          err (''starting container: '' @ e1) })
       (\<lambda>_. do {
          _ \<leftarrow> ex_recordEvent c taskID ''subtask.started''
            [(''subtask_id'', subtaskID), (''agent_id'', agentID), (''container_id'', containerID)];
          finish_agent e c taskID subtaskID agentID containerID }) }"

text \<open>The subtask afterwards, and the error.\<close>

definition executeSubtask :: "Executor \<Rightarrow> ctx \<Rightarrow> Task \<Rightarrow> Subtask \<Rightarrow> Subtask list \<Rightarrow>
    ('m world_scheme, Subtask \<times> (string + unit)) state" where
  "executeSubtask e c task subtask allSubtasks =
     (let prompt = BuildSubtaskPrompt subtask allSubtasks (task_Prompt task)
        \<lparr>spo_DependencyContext = [], spo_BroadcastMessages = [], spo_RolePromptHint = [], spo_IsTeamExecution = False,
         spo_APIURL = [], spo_TaskID = [], spo_RepoMemory = ex_repoMemory e\<rparr>
      in try_bind (create_agent e c task subtask prompt)
        (\<lambda>e. State_Monad.return (subtask, Inl e))
        (\<lambda>(agentID, containerID). do {
           r \<leftarrow> run_agent e c (task_ID task) (st_ID subtask) agentID containerID;
           State_Monad.return (subtask\<lparr>st_AgentID := agentID\<rparr>, r) }))"

section \<open>The plan\<close>

definition saveFinalCheckpoint :: "Executor \<Rightarrow> StateStore \<Rightarrow> Task \<Rightarrow> Plan \<Rightarrow> Subtask list \<Rightarrow> ExecutionResult \<Rightarrow>
    ('m world_scheme, unit) state" where
  "saveFinalCheckpoint e ss task plan subtasks result =
     ignore (SaveCheckpoint ss Background (task_ID task)
       \<lparr>sv_WorkspaceDir = workspace_of (ex_cfg e) (task_ID task), sv_ContainerIDs = [],
        sv_PlanProgress = \<lparr>pp_PlanID = plan_ID plan, pp_CompletedSubtasks = er_CompletedSubtasks result,
          pp_CurrentSubtask = (case find (\<lambda>st. st_Status st = ''running'') subtasks of None \<Rightarrow> [] | Some st \<Rightarrow> st_ID st),
          pp_FailedSubtasks = er_FailedSubtasks result\<rparr>,
        sv_AgentStates = [], sv_RepoState = None, sv_DockerManager = Some (ex_docker e), sv_StreamHub = None,
        sv_TaskPrompt = task_Prompt task, sv_PlanJSON = plan_Subtasks plan\<rparr>)"

text \<open>The loop from the index \<open>i\<close> on; \<open>subtasks\<close> is changed in place.\<close>

function exec_loop :: "Executor \<Rightarrow> ctx \<Rightarrow> Task \<Rightarrow> Plan \<Rightarrow> nat \<Rightarrow> Subtask list \<Rightarrow> ExecutionResult \<Rightarrow>
    ('m world_scheme, ExecutionResult) state" where
  "exec_loop e c task plan i subtasks result =
     (if i \<ge> length subtasks then State_Monad.return result
      else do {
        stop \<leftarrow> gets (ctx_Err c);
        if stop \<noteq> None then do {
          _ \<leftarrow> (case ex_stateStore e of None \<Rightarrow> State_Monad.return ()
             | Some ss \<Rightarrow> saveFinalCheckpoint e ss task plan subtasks result);
          State_Monad.return result }
        else
          let subtask = subtasks ! i in
          if st_Status subtask = ''completed''
          then exec_loop e c task plan (Suc i) subtasks
                 (result\<lparr>er_CompletedSubtasks := er_CompletedSubtasks result @ [st_ID subtask]\<rparr>)
          else if \<not> ex_dependenciesMet subtasks subtask
          then State_Monad.return (result\<lparr>er_FailedSubtasks := er_FailedSubtasks result @ [st_ID subtask],
                 er_Error := Some (''dependencies not met for subtask '' @ st_ID subtask)\<rparr>)
          else do {
            let running = subtask\<lparr>st_Status := ''running''\<rparr>;
            _ \<leftarrow> ex_updatePlanSubtasks c (plan_ID plan) (subtasks[i := running]);
            (st, r) \<leftarrow> executeSubtask e c task running (subtasks[i := running]);
            (case r of
               Inl e1 \<Rightarrow> do {
                 _ \<leftarrow> ex_updatePlanSubtasks c (plan_ID plan) (subtasks[i := st\<lparr>st_Status := ''failed''\<rparr>]);
                 _ \<leftarrow> ex_recordEvent c (task_ID task) ''subtask.failed'' [(''subtask_id'', st_ID subtask), (''error'', e1)];
                 State_Monad.return (result\<lparr>er_FailedSubtasks := er_FailedSubtasks result @ [st_ID subtask],
                   er_Error := Some (''subtask '' @ st_ID subtask @ '' failed: '' @ e1)\<rparr>) }
             | Inr _ \<Rightarrow> do {
                 let subtasks' = subtasks[i := st\<lparr>st_Status := ''completed''\<rparr>];
                 _ \<leftarrow> ex_updatePlanSubtasks c (plan_ID plan) subtasks';
                 _ \<leftarrow> ex_recordEvent c (task_ID task) ''subtask.completed'' [(''subtask_id'', st_ID subtask)];
                 exec_loop e c task plan (Suc i) subtasks'
                   (result\<lparr>er_CompletedSubtasks := er_CompletedSubtasks result @ [st_ID subtask]\<rparr>) }) } })"
  by pat_completeness auto
termination
  by (relation "measure (\<lambda>(e, c, task, plan, i, subtasks, result). length subtasks - i)") auto

declare exec_loop.simps [simp del]

definition Execute :: "Executor \<Rightarrow> ctx \<Rightarrow> Task \<Rightarrow> Plan \<Rightarrow> ('m world_scheme, ExecutionResult) state" where
  "Execute e c task plan =
     (case unmarshal_subtasks (plan_Subtasks plan) of
        None \<Rightarrow> State_Monad.return \<lparr>er_CompletedSubtasks = [], er_FailedSubtasks = [],
          er_Error = Some ''unmarshaling subtasks: invalid JSON''\<rparr>
      | Some subtasks \<Rightarrow> exec_loop e c task plan 0 subtasks \<lparr>er_CompletedSubtasks = [], er_FailedSubtasks = [], er_Error = None\<rparr>)"

end
