(* ===== verification/Executor_Facts.thy ===== *)
theory Executor_Facts
  imports Executor
begin

text \<open>
  What a run of the executor does: the order of the subtasks and their dependencies, the first failure
  that ends it, and the containers, of which there is never more than one and none is left.
\<close>

section \<open>Order\<close>

lemma still_events [intro]:
  "still.steps (ex_recordEvent c t ev s)" "still.steps (ex_updatePlanSubtasks c p sts)"
  by (rule still.steps_quiet, rule quiet_events)+

lemmas still_intros = still.effect_intros still_docker still_events still_hub_send still_os

lemma still_create_agent: "still.steps (create_agent e c task st p)"
  unfolding create_agent_def Let_def by (intro still_intros still.steps_sql sql_time_now)

lemma still_run_agent: "still.steps (run_agent e c t s a i)"
  unfolding run_agent_def finish_agent_def RegisterAgent_def UnregisterAgent_def by (intro still_intros still.steps_sql)

lemma still_executeSubtask: "still.steps (executeSubtask e c task st sts)"
  unfolding executeSubtask_def by (intro still_intros still_create_agent still_run_agent)

text \<open>Only the agent of the subtask changes.\<close>

lemma executeSubtask_subtask:
  assumes "run_state (executeSubtask e c task st sts) w = ((st', r), w')"
  obtains a where "st' = st\<lparr>st_AgentID := a\<rparr>"
proof -
  have "st' = st \<or> (\<exists>a. st' = st\<lparr>st_AgentID := a\<rparr>)"
    using assms by (auto simp: executeSubtask_def Let_def split: prod.splits sum.splits)
  moreover have "st = st\<lparr>st_AgentID := st_AgentID st\<rparr>" by simp
  ultimately show thesis using that by metis
qed

text \<open>The dependencies of the first \<open>k\<close> subtasks lie before them or were completed at the start.\<close>

definition in_order :: "Subtask list \<Rightarrow> nat \<Rightarrow> bool" where
  "in_order sts k \<longleftrightarrow> (\<forall>j < k. st_Status (sts ! j) \<noteq> ''completed'' \<longrightarrow>
     (\<forall>dep \<in> set (st_DependsOn (sts ! j)). \<exists>i < length sts. st_ID (sts ! i) = dep \<and> (i < j \<or> st_Status (sts ! i) = ''completed'')))"

definition exec_outcome :: "bool \<Rightarrow> Subtask list \<Rightarrow> nat \<Rightarrow> ExecutionResult \<Rightarrow> bool" where
  "exec_outcome cancelled sts k r \<longleftrightarrow> er_CompletedSubtasks r = map st_ID (take k sts) \<and>
     (k = length sts \<and> er_FailedSubtasks r = [] \<and> er_Error r = None \<or>
      k < length sts \<and> st_Status (sts ! k) \<noteq> ''completed'' \<and> er_FailedSubtasks r = [st_ID (sts ! k)] \<and> er_Error r \<noteq> None \<or>
      k < length sts \<and> er_FailedSubtasks r = [] \<and> er_Error r = None \<and> cancelled)"

text \<open>The list after the first \<open>i\<close> subtasks.\<close>

definition progressed :: "Subtask list \<Rightarrow> nat \<Rightarrow> Subtask list \<Rightarrow> bool" where
  "progressed sts i cur \<longleftrightarrow> length cur = length sts \<and>
     (\<forall>j < length sts. st_ID (cur ! j) = st_ID (sts ! j) \<and> st_DependsOn (cur ! j) = st_DependsOn (sts ! j) \<and>
        (if j < i then st_Status (cur ! j) = ''completed'' else st_Status (cur ! j) = st_Status (sts ! j)))"

lemma progressed_deps:
  assumes "progressed sts i cur" "i < length sts" "ex_dependenciesMet cur (cur ! i)" "dep \<in> set (st_DependsOn (sts ! i))"
  shows "\<exists>j < length sts. st_ID (sts ! j) = dep \<and> (j < i \<or> st_Status (sts ! j) = ''completed'')"
proof -
  have "dep \<in> set (st_DependsOn (cur ! i))" using assms(1,2,4) by (simp add: progressed_def)
  then obtain s where s: "find (\<lambda>s. st_ID s = dep) cur = Some s" "st_Status s = ''completed''"
    using assms(3) by (auto simp: ex_dependenciesMet_def list_all_iff split: option.splits)
  then obtain j where j: "j < length cur" "st_ID (cur ! j) = dep" "s = cur ! j"
    by (auto simp: find_Some_iff)
  then show ?thesis using assms(1) s(2) unfolding progressed_def
    by (intro exI [of _ j]) (auto split: if_splits)
qed

lemma progressed_step:
  assumes "progressed sts i cur" "i < length sts" "st_ID st = st_ID (cur ! i)" "st_DependsOn st = st_DependsOn (cur ! i)"
  shows "progressed sts (Suc i) (cur[i := st\<lparr>st_Status := ''completed''\<rparr>])"
  using assms by (auto simp: progressed_def nth_list_update less_Suc_eq split: if_splits)

lemma progressed_skip:
  assumes "progressed sts i cur" "st_Status (cur ! i) = ''completed''" "i < length sts"
  shows "progressed sts (Suc i) cur"
  using assms by (auto simp: progressed_def less_Suc_eq split: if_splits)

lemma in_order_Suc:
  "in_order sts i \<Longrightarrow> (st_Status (sts ! i) \<noteq> ''completed'' \<Longrightarrow> \<forall>dep \<in> set (st_DependsOn (sts ! i)). \<exists>j < length sts. st_ID (sts ! j) = dep \<and> (j < i \<or> st_Status (sts ! j) = ''completed'')) \<Longrightarrow>
   in_order sts (Suc i)"
  by (auto simp: in_order_def less_Suc_eq)

lemma exec_loop_outcome:
  "progressed sts i cur \<Longrightarrow> in_order sts i \<Longrightarrow> i \<le> length sts \<Longrightarrow> er_CompletedSubtasks res = map st_ID (take i sts) \<Longrightarrow>
   er_FailedSubtasks res = [] \<Longrightarrow> er_Error res = None \<Longrightarrow> ctx_done c w = d \<Longrightarrow>
   run_state (exec_loop e c task plan i cur res) w = (r, w') \<Longrightarrow>
   \<exists>k \<le> length sts. in_order sts k \<and> exec_outcome (\<exists>t. d t \<noteq> None) sts k r"
proof (induction "length sts - i" arbitrary: i cur res w)
  case 0
  then have "i = length sts" "length cur = length sts" by (simp_all add: progressed_def)
  with 0(9) have "r = res" by (subst (asm) exec_loop.simps) simp
  with 0 \<open>i = length sts\<close> show ?case by (auto simp: exec_outcome_def)
next
  case (Suc n)
  note prog = Suc(3) and order = Suc(4) and comp = Suc(6) and fail = Suc(7,8) and d = Suc(9) and run = Suc(10)
  have i: "i < length sts" "length cur = length sts" "n = length sts - Suc i" using Suc(2) prog by (auto simp: progressed_def)
  have at: "st_ID (cur ! i) = st_ID (sts ! i)" "st_DependsOn (cur ! i) = st_DependsOn (sts ! i)" "st_Status (cur ! i) = st_Status (sts ! i)"
    using prog i by (auto simp: progressed_def)
  have nx: "map st_ID (take i sts) @ [st_ID (sts ! i)] = map st_ID (take (Suc i) sts)"
    using i by (simp add: take_Suc_conv_app_nth)
  show ?case
  proof (cases "ctx_Err c w")
    case (Some reason)
    then have "\<exists>t. d t \<noteq> None" using d by (auto simp: ctx_Err_def)
    moreover have "r = res"
      using run Some i by (subst (asm) exec_loop.simps) (auto split: option.splits prod.splits)
    ultimately show ?thesis using order i comp fail by (intro exI [of _ i]) (simp add: exec_outcome_def)
  next
    case None
    show ?thesis
    proof (cases "st_Status (cur ! i) = ''completed''")
      case True
      let ?res = "res\<lparr>er_CompletedSubtasks := er_CompletedSubtasks res @ [st_ID (cur ! i)]\<rparr>"
      have "run_state (exec_loop e c task plan (Suc i) cur ?res) w = (r, w')"
        using run None True i by (subst (asm) exec_loop.simps) (simp add: Let_def)
      moreover have "in_order sts (Suc i)" by (rule in_order_Suc [OF order]) (use True at in simp)
      ultimately show ?thesis
        by (intro Suc(1) [of "Suc i" cur ?res w]) (use progressed_skip [OF prog True i(1)] i comp fail d nx at in simp_all)
    next
      case False
      show ?thesis
      proof (cases "ex_dependenciesMet cur (cur ! i)")
        case F: False
        have "r = res\<lparr>er_FailedSubtasks := er_FailedSubtasks res @ [st_ID (cur ! i)],
                 er_Error := Some (''dependencies not met for subtask '' @ st_ID (cur ! i))\<rparr>"
          using run None False F i by (subst (asm) exec_loop.simps) (simp add: Let_def)
        then show ?thesis using order i comp fail at False by (intro exI [of _ i]) (simp add: exec_outcome_def)
      next
        case met: True
        let ?run = "(cur ! i)\<lparr>st_Status := ''running''\<rparr>"
        obtain u w1 where u: "run_state (ex_updatePlanSubtasks c (plan_ID plan) (cur[i := ?run])) w = (u, w1)"  by (rule prod.exhaust)
        obtain st r1 w2 where x: "run_state (executeSubtask e c task ?run (cur[i := ?run])) w1 = ((st, r1), w2)" by (metis prod.collapse)
        have d2: "ctx_done c w2 = d"
          using still_ctx_done [OF still.stepsE [OF still_events(2) u]] still_ctx_done [OF still.stepsE [OF still_executeSubtask x]] d by simp
        obtain a where a: "st = ?run\<lparr>st_AgentID := a\<rparr>" using executeSubtask_subtask [OF x] by blast
        show ?thesis
        proof (cases r1)
          case (Inl e1)
          have "r = res\<lparr>er_FailedSubtasks := er_FailedSubtasks res @ [st_ID (cur ! i)],
                   er_Error := Some (''subtask '' @ st_ID (cur ! i) @ '' failed: '' @ e1)\<rparr>"
            using run None False met i u x Inl by (subst (asm) exec_loop.simps) (auto simp: Let_def split: prod.splits)
          then show ?thesis using order i comp fail at False by (intro exI [of _ i]) (simp add: exec_outcome_def)
        next
          case (Inr u1)
          let ?cur = "cur[i := st\<lparr>st_Status := ''completed''\<rparr>]"
          let ?res = "res\<lparr>er_CompletedSubtasks := er_CompletedSubtasks res @ [st_ID (cur ! i)]\<rparr>"
          obtain u2 w3 where u2: "run_state (ex_updatePlanSubtasks c (plan_ID plan) ?cur) w2 = (u2, w3)"  by (rule prod.exhaust)
          obtain u3 w4 where u3: "run_state (ex_recordEvent c (task_ID task) ''subtask.completed'' [(''subtask_id'', st_ID (cur ! i))]) w3 = (u3, w4)"
            by (rule prod.exhaust)
          have d4: "ctx_done c w4 = d"
            using still_ctx_done [OF still.stepsE [OF still_events(2) u2]] still_ctx_done [OF still.stepsE [OF still_events(1) u3]] d2 by simp
          have "run_state (exec_loop e c task plan (Suc i) ?cur ?res) w4 = (r, w')"
            using run None False met i u x Inr u2 u3 by (subst (asm) exec_loop.simps) (simp add: Let_def)
          moreover have "progressed sts (Suc i) ?cur" by (rule progressed_step [OF prog i(1)]) (simp_all add: a)
          moreover have "in_order sts (Suc i)"
            by (rule in_order_Suc [OF order]) (use progressed_deps [OF prog i(1) met] in blast)
          ultimately show ?thesis
            by (intro Suc(1) [of "Suc i" ?cur ?res w4]) (use i comp fail d4 nx at in simp_all)
        qed
      qed
    qed
  qed
qed


section \<open>Containers\<close>

text \<open>The containers that have been created and not been asked to be removed, and the streams that are
  registered.\<close>

fun container_step :: "docker_call \<Rightarrow> string list \<Rightarrow> string list" where
  "container_step (DCreate ct (Inr i)) xs = i # xs"
| "container_step (DRemove i) xs = remove1 i xs"
| "container_step c xs = xs"

fun stream_step :: "hub_msg \<Rightarrow> string list \<Rightarrow> string list" where
  "stream_step (MsgRegisterAgent a t) xs = a # xs"
| "stream_step (MsgUnregisterAgent a) xs = remove1 a xs"
| "stream_step m xs = xs"

fun at_most_one :: "('e \<Rightarrow> string list \<Rightarrow> string list) \<Rightarrow> string list \<Rightarrow> 'e list \<Rightarrow> bool" where
  "at_most_one f xs [] \<longleftrightarrow> length xs \<le> 1"
| "at_most_one f xs (c # cs) \<longleftrightarrow> length xs \<le> 1 \<and> at_most_one f (f c xs) cs"

text \<open>Never two at a time, and none in the end.\<close>

definition tidy :: "('e \<Rightarrow> string list \<Rightarrow> string list) \<Rightarrow> 'e list \<Rightarrow> bool" where
  "tidy f l \<longleftrightarrow> at_most_one f [] l \<and> fold f l [] = []"

lemma at_most_one_append: "at_most_one f xs (l @ l') \<longleftrightarrow> at_most_one f xs l \<and> at_most_one f (fold f l xs) l'"
  by (induction l arbitrary: xs) (auto, cases l', auto)

lemma tidy_append: "tidy f l \<Longrightarrow> tidy f l' \<Longrightarrow> tidy f (l @ l')"
  by (simp add: tidy_def at_most_one_append)

lemma tidy_Nil [simp]: "tidy f []"
  by (simp add: tidy_def)

definition tidy_run :: "'a \<Rightarrow> docker_call list \<Rightarrow> hub_msg list \<Rightarrow> bool" where
  "tidy_run x l h \<longleftrightarrow> tidy container_step l \<and> tidy stream_step h"

lemma tidy_silent: "silent m \<Longrightarrow> traces m tidy_run"
  by (rule traces_silent) (simp_all add: tidy_run_def)

lemma tidy_bind:
  fixes m :: "('m world_scheme, 'a) state" and f :: "'a \<Rightarrow> ('m world_scheme, 'b) state"
  assumes "traces m tidy_run" "\<And>x. traces (f x) tidy_run"
  shows "traces (m \<bind> f) tidy_run"
proof (rule traces_bind [OF assms(1)])
  fix x :: 'a and l h assume "tidy_run x l h"
  then show "traces (f x) (\<lambda>y l' h'. tidy_run y (l @ l') (h @ h'))"
    by (intro traces_conseq [OF assms(2)]) (auto simp: tidy_run_def intro: tidy_append)
qed

text \<open>A save from the host makes no calls.\<close>

lemma silent_visits: "(\<And>p r n. silent (f p r n)) \<Longrightarrow> silent (walk_visits root f ess)"
  by (induction ess) (unfold walk_visits.simps Let_def, (intro silent_intros | assumption | simp)+)

lemma silent_fnode: "silent m \<Longrightarrow> (\<And>c. silent (f c)) \<Longrightarrow> silent (case n of Dir \<Rightarrow> m | File c \<Rightarrow> f c)"
  by (cases n) simp_all

lemma silent_sizes: "silent (size_visits root ess n)"
  by (induction ess arbitrary: n) (unfold size_visits.simps Let_def, (intro silent_intros silent_fnode | assumption)+)

lemma silent_copyDir: "silent (copyDir src dst)"
  unfolding copyDir_def Walk_def copy_visit_def copyFile_def walk_names_def Let_def by (intro silent_intros silent_visits)

lemma silent_writeJSON: "silent (writeJSON p v)"
  unfolding writeJSON_def by (intro silent_intros)

lemma silent_SaveCheckpoint: "sv_ContainerIDs opts = [] \<Longrightarrow> sv_StreamHub opts = None \<Longrightarrow> silent (SaveCheckpoint s c taskID opts)"
  unfolding SaveCheckpoint_def doSaveCheckpoint_def write_checkpoint_def write_files_def copyWorkspace_def copyClaudeMemory_def
    saveAgentLogs_def calculateDirSize_def walk_names_def Let_def
  by (simp, intro silent_intros silent_copyDir silent_writeJSON silent_sizes)

lemma silent_events: "silent (ex_recordEvent c t ev s)" "silent (ex_updatePlanSubtasks c p sts)"
  by (rule silent_quiet, rule quiet_events)+

lemmas traces_rules = silent_intros silent_events

lemma traces_create_agent:
  "traces (create_agent e c task st p) (\<lambda>r l h. h = [] \<and> (case r of Inl _ \<Rightarrow> l = [] \<or> (\<exists>ct e. l = [DCreate ct (Inl e)])
     | Inr (a, i) \<Rightarrow> \<exists>ct. l = [DCreate ct (Inr i)]))"
  unfolding create_agent_def Let_def
  by (rule traces_steps | rule traces_silents, (intro traces_rules)[1] | force)+

lemma traces_run_agent:
  "traces (run_agent e c t s a i) (\<lambda>r l h. at_most_one container_step [i] l \<and> fold container_step l [i] = [] \<and> tidy stream_step h)"
  unfolding run_agent_def finish_agent_def Let_def traces_hub when_do_def
  by (cases "ex_streamHub e"; simp; (rule traces_steps | rule traces_one_bind traces_one_try, rule one_call_rules
    | rule traces_silents, (intro traces_rules)[1] | force simp: tidy_def)+)

lemma tidy_executeSubtask: "traces (executeSubtask e c task st sts) tidy_run"
  unfolding executeSubtask_def Let_def try_bind_def
proof (rule traces_bind [OF traces_create_agent])
  fix r :: "string + string \<times> string" and l :: "docker_call list" and h :: "hub_msg list"
  assume r: "h = [] \<and> (case r of Inl _ \<Rightarrow> l = [] \<or> (\<exists>ct e. l = [DCreate ct (Inl e)]) | Inr (a, i) \<Rightarrow> \<exists>ct. l = [DCreate ct (Inr i)])"
  show "traces (case r of Inl e \<Rightarrow> State_Monad.return (st, Inl e)
       | Inr x \<Rightarrow> (case x of (agentID, containerID) \<Rightarrow> run_agent e c (task_ID task) (st_ID st) agentID containerID \<bind>
           (\<lambda>r. State_Monad.return (st\<lparr>st_AgentID := agentID\<rparr>, r))))
     (\<lambda>y l' h'. tidy_run y (l @ l') (h @ h'))"
  proof (cases r)
    case (Inl e1)
    then show ?thesis using r by (auto intro!: traces_return simp: tidy_run_def tidy_def)
  next
    case (Inr x)
    obtain a i ct where x: "x = (a, i)" "l = [DCreate ct (Inr i)]" "h = []" using r Inr by auto
    show ?thesis unfolding Inr x sum.case prod.case
      by (rule traces_bind [OF traces_run_agent]) (auto intro!: traces_return simp: tidy_run_def tidy_def)
  qed
qed

lemma tidy_saveFinalCheckpoint: "traces (saveFinalCheckpoint e ss task plan sts res) tidy_run"
  unfolding saveFinalCheckpoint_def by (rule tidy_silent) (intro silent_ignore silent_SaveCheckpoint; simp)

lemma tidy_exec_loop: "traces (exec_loop e c task plan i sts res) tidy_run"
proof (induction "length sts - i" arbitrary: i sts res rule: less_induct)
  case less
  show ?case
  proof (cases "i < length sts")
    case False
    then show ?thesis by (subst exec_loop.simps) (simp add: tidy_silent silent_return)
  next
    case True
    then have m: "length (sts[i := x]) - Suc i < length sts - i" "length sts - Suc i < length sts - i" for x by auto
    show ?thesis
      by (subst exec_loop.simps, unfold Let_def)
         (rule tidy_bind traces_if traces_option traces_sum traces_prod tidy_saveFinalCheckpoint tidy_executeSubtask less [OF m(1)] less [OF m(2)]
            | (rule tidy_silent, intro traces_rules)[1])+
  qed
qed

text \<open>C29: Whatever Docker, the system and the database answer, the executor never has two containers
  at a time, has asked for the removal of every container it created when it returns, and has
  unregistered every stream it registered.\<close>

theorem Execute_tidy:
  "tidy container_step (new_calls w (snd (run_state (Execute e c task plan) w))) \<and>
   tidy stream_step (new_msgs w (snd (run_state (Execute e c task plan) w)))"
proof -
  have t: "traces (Execute e c task plan) tidy_run"
    unfolding Execute_def by (auto intro: tidy_exec_loop tidy_silent split: option.split)
  obtain r w' where "run_state (Execute e c task plan) w = (r, w')" by (rule prod.exhaust)
  with tracesE [OF t this] show ?thesis by (simp add: tidy_run_def)
qed

end
