(* ===== verification/Go_Quote.thy ===== *)
theory Go_Quote
  imports Json
begin

text \<open>
  The verb \<open>%q\<close> of \<open>fmt\<close> on a string: \<open>strconv.Quote\<close>. Which runes above ASCII are printable is a
  table of the standard library, the parameter \<open>IsPrint\<close>.
\<close>

text \<open>The rune at the head of a string whose first rune has \<open>n\<close> bytes.\<close>

definition decode_rune :: "nat \<Rightarrow> string \<Rightarrow> nat" where
  "decode_rune n s =
     (if n = 1 then byte (s ! 0)
      else if n = 2 then (byte (s ! 0) - 192) * 64 + (byte (s ! 1) - 128)
      else if n = 3 then (byte (s ! 0) - 224) * 4096 + (byte (s ! 1) - 128) * 64 + (byte (s ! 2) - 128)
      else (byte (s ! 0) - 240) * 262144 + (byte (s ! 1) - 128) * 4096 + (byte (s ! 2) - 128) * 64 + (byte (s ! 3) - 128))"

fun hex_digits :: "nat \<Rightarrow> nat \<Rightarrow> string" where
  "hex_digits 0 n = []"
| "hex_digits (Suc k) n = hex_digits k (n div 16) @ [hex_digit (n mod 16)]"

definition quote_escape :: "char \<Rightarrow> char option" where
  "quote_escape c = map_of
     [(CHR 0x07, CHR ''a''), (CHR 0x08, CHR ''b''), (CHR 0x0C, CHR ''f''), (CHR 0x0A, CHR ''n''), (CHR 0x0D, CHR ''r''),
      (CHR 0x09, CHR ''t''), (CHR 0x0B, CHR ''v''), (CHR 0x22, CHR 0x22), (CHR 0x5C, CHR 0x5C)] c"

definition quote_rune :: "(nat \<Rightarrow> bool) \<Rightarrow> string \<Rightarrow> string" where
  "quote_rune IsPrint s =
     (let n = rune_len s; r = decode_rune n s in
      if n = 0 then [CHR 0x5C, CHR ''x''] @ hex_digits 2 (byte (hd s))
      else if n = 1 then
        (case quote_escape (hd s) of
           Some c \<Rightarrow> [CHR 0x5C, c]
         | None \<Rightarrow> if 32 \<le> r \<and> r < 127 then [hd s] else [CHR 0x5C, CHR ''x''] @ hex_digits 2 r)
      else if IsPrint r then take n s
      else if r < 65536 then [CHR 0x5C, CHR ''u''] @ hex_digits 4 r
      else [CHR 0x5C, CHR ''U''] @ hex_digits 8 r)"

function quote_body :: "(nat \<Rightarrow> bool) \<Rightarrow> string \<Rightarrow> string" where
  "quote_body IsPrint [] = []"
| "quote_body IsPrint (c # s) = quote_rune IsPrint (c # s) @ quote_body IsPrint (drop (max 1 (rune_len (c # s)) - 1) s)"
  by pat_completeness auto
termination
  by (relation "measure (length \<circ> snd)") auto

definition Quote :: "(nat \<Rightarrow> bool) \<Rightarrow> string \<Rightarrow> string" where
  "Quote IsPrint s = [CHR 0x22] @ quote_body IsPrint s @ [CHR 0x22]"

end
