(* ===== verification/Planner.thy ===== *)
theory Planner
  imports Executor_Facts Plan_Output Go_Quote
begin

text \<open>
  \<open>internal/task/planner.go\<close>: the planner's container, which sees the workspace read-only, and what
  becomes of its output: a plan, questions that are stored, or an error. The goroutine that reads
  the container's output is the producer of the stream in \<open>Stream_Hub\<close>. IDs of tasks and hashes of
  commits have at least eight bytes.
\<close>

record Planner =
  pn_docker :: docker_manager
  pn_cfg :: Config
  pn_streamHub :: bool \<comment> \<open>not \<open>nil\<close>\<close>

definition NewPlanner :: "docker_manager \<Rightarrow> Config \<Rightarrow> bool \<Rightarrow> Planner" where
  "NewPlanner dockerMgr cfg hub = \<lparr>pn_docker = dockerMgr, pn_cfg = cfg, pn_streamHub = hub\<rparr>"

record PlanResult =
  pr_Plan :: "PlanOutput option"
  pr_Questions :: "QuestionsOutput option"
  pr_Error :: "string option"

definition plan_failed :: "string \<Rightarrow> PlanResult" where
  "plan_failed e = \<lparr>pr_Plan = None, pr_Questions = None, pr_Error = Some e\<rparr>"

section \<open>The prompt\<close>

definition listInputFiles :: "Planner \<Rightarrow> string \<Rightarrow> ('m world_scheme, string) state" where
  "listInputFiles p taskID = do {
     r \<leftarrow> os_ReadDir (path_Join [sc_FilesDir (cf_Storage (pn_cfg p)), taskID, ''input'']);
     State_Monad.return (case r of
        Inl _ \<Rightarrow> ''(no input files)''
      | Inr entries \<Rightarrow> (let files = map fst (filter (\<lambda>(_, isDir). \<not> isDir) entries) in
          if files = [] then ''(no input files)'' else Join files ''\<newline>'')) }"

definition memory_section :: "RepoMemory \<Rightarrow> string" where
  "memory_section m =
     ''\<newline>## Cached Repository Analysis (commit '' @ take 8 (rm_CommitHash m) @ '')\<newline>'' @
     ''The following analysis was generated automatically. Use it to speed up your understanding of the codebase.\<newline>\<newline>'' @
     rm_Content m"

definition repo_section :: "Planner \<Rightarrow> ctx \<Rightarrow> Task \<Rightarrow> ('m world_scheme, string) state" where
  "repo_section p c task =
     (case task_RepoConfig task of
        None \<Rightarrow> State_Monad.return []
      | Some s \<Rightarrow> if s = [] then State_Monad.return [] else
         (case unmarshal_repo_config s of
            None \<Rightarrow> State_Monad.return []
          | Some rc \<Rightarrow> do {
              memory \<leftarrow> (if rc_EnableMemory rc \<and> rc_RepoTemplateID rc \<noteq> []
                 then in_ctx c (GetRepoMemory (rc_RepoTemplateID rc) (rc_Branch rc)) else ok None);
              State_Monad.return (
                ''\<newline>\<newline>## Repository\<newline>'' @
                ''The workspace contains a cloned Git repository from: '' @ rc_URL rc @ ''\<newline>'' @
                ''Working branch: klaudio/'' @ take 8 (task_ID task) @ ''\<newline>'' @
                ''The repository code is available in /home/agent/workspace. Analyze the existing code structure when planning.\<newline>'' @
                (case memory of Inr (Some m) \<Rightarrow> memory_section m | _ \<Rightarrow> [])) }))"

definition buildTeamSection :: "Planner \<Rightarrow> ctx \<Rightarrow> string \<Rightarrow> ('m world_scheme, string) state" where
  "buildTeamSection p c templateID = do {
     r \<leftarrow> in_ctx c (GetTeamTemplate templateID);
     State_Monad.return (case r of
        Inr (Some tt) \<Rightarrow> (case unmarshal_team_roles (tt_Roles tt) of None \<Rightarrow> [] | Some roles \<Rightarrow> team_section tt roles)
      | _ \<Rightarrow> []) }"

definition team_part :: "Planner \<Rightarrow> ctx \<Rightarrow> Task \<Rightarrow> ('m world_scheme, string) state" where
  "team_part p c task =
     (case task_TeamTemplate task of
        None \<Rightarrow> State_Monad.return []
      | Some i \<Rightarrow> if i = [] then State_Monad.return [] else do {
          s \<leftarrow> buildTeamSection p c i;
          State_Monad.return (if s = [] then [] else ''\<newline>\<newline>'' @ s) })"

definition answers_section :: "PlannerQuestion list \<Rightarrow> string" where
  "answers_section questions =
     (let answered = concat (map (\<lambda>q. case pq_Answer q of
            Some a \<Rightarrow> if pq_Status q = ''answered'' then [''Q: '' @ pq_Text q @ ''\<newline>A: '' @ a] else []
          | None \<Rightarrow> []) questions)
      in if answered = [] then []
         else ''\<newline>\<newline>## Answers to previous questions\<newline>'' @ Join answered ''\<newline>\<newline>'' @
              ''\<newline>\<newline>All questions have been answered. Now produce the execution plan.'')"

definition build_prompt :: "Planner \<Rightarrow> ctx \<Rightarrow> Task \<Rightarrow> string \<Rightarrow> ('m world_scheme, string) io" where
  "build_prompt p c task additionalContext = do {
     inputFiles \<leftarrow> listInputFiles p (task_ID task);
     repo \<leftarrow> repo_section p c task;
     team \<leftarrow> team_part p c task;
     or_fail ''listing planner questions'' (in_ctx c (ListPlannerQuestions (task_ID task))) (\<lambda>questions.
       ok (planner_prompt (task_Prompt task) inputFiles @ repo @ team @
           (if additionalContext = [] then [] else ''\<newline>\<newline>## Additional Context\<newline>'' @ additionalContext) @
           answers_section questions)) }"

section \<open>The container\<close>

text \<open>A container that has been created runs to its end: the exit code, the error of the wait and the
  output.\<close>

definition planner_container :: "Planner \<Rightarrow> ctx \<Rightarrow> string \<Rightarrow> string \<Rightarrow> ('m world_scheme, int \<times> string option \<times> string) io" where
  "planner_container p c agentID containerID = do {
     _ \<leftarrow> ignore (in_ctx c (UpdateAgentStatus agentID ''running''));
     _ \<leftarrow> when_do (pn_streamHub p) (ignore (AttachContainer containerID));
     try_bind (StartContainer containerID)
       (\<lambda>e. do {
          _ \<leftarrow> ignore (RemoveContainer containerID);
          _ \<leftarrow> when_do (pn_streamHub p) (UnregisterAgent agentID);
          err (''starting planner container: '' @ e) })
       (\<lambda>_. do {
          (exitCode, waitErr) \<leftarrow> WaitContainer c containerID;
          _ \<leftarrow> when_do (pn_streamHub p) (UnregisterAgent agentID);
          _ \<leftarrow> ignore (in_ctx c (UpdateAgentCompleted agentID exitCode None));
          logs \<leftarrow> ContainerLogs containerID;
          _ \<leftarrow> ignore (RemoveContainer containerID);
          ok (exitCode, waitErr, case logs of Inl _ \<Rightarrow> [] | Inr data \<Rightarrow> stripDockerLogHeaders data) }) }"

definition run_planner_agent :: "Planner \<Rightarrow> ctx \<Rightarrow> Task \<Rightarrow> string \<Rightarrow> ('m world_scheme, int \<times> string option \<times> string) io" where
  "run_planner_agent p c task prompt =
     (let workspaceDir = workspace_of (pn_cfg p) (task_ID task) in
      or_fail ''creating workspace directory'' (os_str (os_MkdirAll workspaceDir)) (\<lambda>_. do {
        absWorkspace \<leftarrow> gets (\<lambda>w. Abs (w_cwd w) workspaceDir);
        agentID \<leftarrow> New_UUID;
        now \<leftarrow> time_now;
        startedAt \<leftarrow> time_now;
        _ \<leftarrow> ignore (in_ctx c (CreateAgent
            \<lparr>agent_ID = agentID, agent_TaskID = task_ID task, agent_SubtaskID = None, agent_ContainerID = None,
             agent_Role = ''planner'', agent_Status = ''running'', agent_ExitCode = None, agent_Error = None,
             agent_CreatedAt = now, agent_StartedAt = Some startedAt, agent_CompletedAt = None\<rparr>));
        _ \<leftarrow> when_do (pn_streamHub p) (RegisterAgent agentID (task_ID task));
        try_bind (CreateContainer (pn_docker p) \<lparr>co_Name = ''klaudio-planner-'' @ take 8 (task_ID task),
               co_Prompt = prompt, co_EnvVars = [],
               co_Volumes = [\<lparr>vm_HostPath = absWorkspace, vm_ContainerPath = ''/home/agent/workspace'', vm_ReadOnly = True\<rparr>],
               co_WorkDir = []\<rparr>)
          (\<lambda>e. do {
             _ \<leftarrow> when_do (pn_streamHub p) (UnregisterAgent agentID);
             err (''creating planner container: '' @ e) })
          (\<lambda>containerID. planner_container p c agentID containerID) }))"

section \<open>The output\<close>

text \<open>The question as it is stored, its ID made unique among tasks.\<close>

definition scoped_id :: "string \<Rightarrow> string \<Rightarrow> string" where
  "scoped_id taskID i = take 8 taskID @ ''-'' @ i"

definition json_list :: "string list \<Rightarrow> string option" where
  "json_list xs = (if xs = [] then None else Some (print_json (enc_strings xs)))"

definition persist_question :: "ctx \<Rightarrow> string \<Rightarrow> QuestionItem \<Rightarrow> ('m world_scheme, unit) state" where
  "persist_question c taskID q = do {
     now \<leftarrow> time_now;
     ignore (in_ctx c (CreatePlannerQuestion
       \<lparr>pq_ID = scoped_id taskID (qi_ID q), pq_TaskID = taskID, pq_Text = qi_Text q, pq_Answer = None, pq_Status = ''pending'',
        pq_Suggestions = json_list (qi_Suggestions q), pq_Options = json_list (qi_Options q), pq_AskedAt = now, pq_AnsweredAt = None\<rparr>)) }"

fun plan_error_msg :: "(nat \<Rightarrow> bool) \<Rightarrow> plan_error \<Rightarrow> string" where
  "plan_error_msg ip (InvalidStrategy s) = ''invalid strategy '' @ Quote ip s @ '': must be '' @ [CHR 0x27] @ ''parallel'' @ [CHR 0x27] @ '' or '' @ [CHR 0x27] @ ''sequential'' @ [CHR 0x27]"
| "plan_error_msg ip NoSubtasks = ''plan must contain at least one subtask''"
| "plan_error_msg ip MissingID = ''subtask missing id''"
| "plan_error_msg ip (DuplicateID i) = ''duplicate subtask id '' @ Quote ip i"
| "plan_error_msg ip (MissingName i) = ''subtask '' @ Quote ip i @ '' missing name''"
| "plan_error_msg ip (MissingPrompt i) = ''subtask '' @ Quote ip i @ '' missing prompt''"
| "plan_error_msg ip (UnknownDependency i dep) = ''subtask '' @ Quote ip i @ '' depends on unknown subtask '' @ Quote ip dep"

definition planner_outcome :: "(nat \<Rightarrow> bool) \<Rightarrow> ctx \<Rightarrow> string \<Rightarrow> int \<Rightarrow> string option \<Rightarrow> string \<Rightarrow> ('m world_scheme, PlanResult) state" where
  "planner_outcome ip c taskID exitCode waitErr output =
     (case waitErr of
        Some e \<Rightarrow> State_Monad.return (plan_failed (''planner container error: '' @ e))
      | None \<Rightarrow>
          if exitCode \<noteq> 0 then State_Monad.return (plan_failed (''planner exited with code '' @ itoa exitCode @ '': '' @ output))
          else if output = [] then State_Monad.return (plan_failed ''planner produced empty output'')
          else (case ParsePlanOrQuestions output of
             Inl e \<Rightarrow> State_Monad.return (plan_failed (''parsing planner output: '' @ e @ '' (raw: '' @ truncate_str output 500 @ '')''))
           | Inr (GotQuestions qs) \<Rightarrow> do {
               _ \<leftarrow> for_each (qo_Questions qs) (persist_question c taskID);
               State_Monad.return \<lparr>pr_Plan = None,
                 pr_Questions = Some (qs\<lparr>qo_Questions := map (\<lambda>q. q\<lparr>qi_ID := scoped_id taskID (qi_ID q)\<rparr>) (qo_Questions qs)\<rparr>),
                 pr_Error = None\<rparr> }
           | Inr (GotPlan plan) \<Rightarrow> (case ValidatePlan plan of
               Inl e \<Rightarrow> State_Monad.return (plan_failed (''invalid plan: '' @ plan_error_msg ip e))
             | Inr _ \<Rightarrow> State_Monad.return \<lparr>pr_Plan = Some plan, pr_Questions = None, pr_Error = None\<rparr>)))"

definition planner_Run :: "(nat \<Rightarrow> bool) \<Rightarrow> Planner \<Rightarrow> ctx \<Rightarrow> Task \<Rightarrow> string \<Rightarrow> ('m world_scheme, PlanResult) io" where
  "planner_Run ip p c task additionalContext =
     try_bind (build_prompt p c task additionalContext) err (\<lambda>prompt.
     try_bind (run_planner_agent p c task prompt) err (\<lambda>(exitCode, waitErr, output). do {
       r \<leftarrow> planner_outcome ip c (task_ID task) exitCode waitErr output;
       ok r }))"

definition SendAnswerToPlanner :: "(nat \<Rightarrow> bool) \<Rightarrow> Planner \<Rightarrow> ctx \<Rightarrow> Task \<Rightarrow> ('m world_scheme, PlanResult) io" where
  "SendAnswerToPlanner ip p c task = planner_Run ip p c task []"

definition PersistPlan :: "Planner \<Rightarrow> ctx \<Rightarrow> string \<Rightarrow> PlanOutput \<Rightarrow> ('m world_scheme, Plan) io" where
  "PersistPlan p c taskID planOutput =
     (let subtasks = map (\<lambda>st. st\<lparr>st_Status := ''pending''\<rparr>) (po_Subtasks planOutput) in do {
        now \<leftarrow> time_now;
        i \<leftarrow> New_UUID;
        let plan = \<lparr>plan_ID = i, plan_TaskID = taskID, plan_Analysis = strPtr (po_Analysis planOutput),
          plan_Strategy = po_Strategy planOutput, plan_Subtasks = marshal_subtasks subtasks,
          plan_EstimatedAgents = po_EstimatedAgents planOutput, plan_Notes = strPtr (po_Notes planOutput),
          plan_Status = ''draft'', plan_CreatedAt = now, plan_UpdatedAt = now\<rparr>;
        or_fail ''persisting plan'' (in_ctx c (CreatePlan plan)) (\<lambda>_. ok plan) })"

section \<open>What a run does\<close>

lemma silent_prompt: "silent (build_prompt p c task add)"
  unfolding build_prompt_def listInputFiles_def repo_section_def team_part_def buildTeamSection_def Let_def
  by (intro silent_intros)

lemma silent_outcome: "silent (planner_outcome ip c t code we out)"
proof -
  have q: "silent (persist_question c t q)" for q
    unfolding persist_question_def by (intro silent_intros)
  show ?thesis
    unfolding planner_outcome_def
    by (intro silent_intros) (auto split: planner_output.split sum.split intro!: silent_intros q)
qed

lemma traces_planner_container:
  "traces (planner_container p c a i) (\<lambda>r l h. at_most_one container_step [i] l \<and> fold container_step l [i] = [] \<and>
     h = (if pn_streamHub p then [MsgUnregisterAgent a] else []))"
  unfolding planner_container_def Let_def traces_hub when_do_def
  by (cases "pn_streamHub p"; simp; (rule traces_steps | rule traces_one_bind traces_one_try, rule one_call_rules
    | rule traces_silents, (intro silent_intros)[1] | force simp: tidy_def)+)

lemma tidy_run_planner_agent: "traces (run_planner_agent p c task prompt) tidy_run"
proof -
  have c: "traces (planner_container p c a i) (\<lambda>r l h. tidy_run r (DCreate ct (Inr i) # l) (if pn_streamHub p then MsgRegisterAgent a t # h else h))"
    for a i ct t
    by (rule traces_conseq [OF traces_planner_container]) (auto simp: tidy_run_def tidy_def)
  show ?thesis
  proof (cases "pn_streamHub p")
    case True
    show ?thesis
      unfolding run_planner_agent_def Let_def traces_hub when_do_def
      using True c
      by simp (rule traces_steps | rule traces_silents, (intro silent_intros)[1] | force simp: tidy_run_def tidy_def)+
  next
    case False
    show ?thesis
      unfolding run_planner_agent_def Let_def traces_hub when_do_def
      using False c
      by simp (rule traces_steps | rule traces_silents, (intro silent_intros)[1] | force simp: tidy_run_def tidy_def)+
  qed
qed

lemma tidy_planner_Run: "traces (planner_Run ip p c task add) tidy_run"
  unfolding planner_Run_def try_bind_def
  by (rule tidy_bind traces_sum traces_prod tidy_run_planner_agent | (rule tidy_silent, intro silent_intros silent_prompt silent_outcome)[1])+

text \<open>Silent code makes no calls.\<close>

lemma calls_silent: "silent m \<Longrightarrow> calls.steps P m"
proof (rule calls.stepsI)
  fix w assume "silent m"
  moreover obtain r w' where "run_state m w = (r, w')" by (rule prod.exhaust)
  ultimately show "calls_rel P w (snd (run_state m w))"
    unfolding silent_def by (auto simp: calls_rel_def elim: tracesD)
qed

lemma binds_planner_Run: "calls.steps (binds_ok []) (planner_Run ip p c task add)"
proof -
  have vs: "binds_ok [] = binds_ok [\<lparr>vm_HostPath = a, vm_ContainerPath = b, vm_ReadOnly = True\<rparr>]" for a b
    by (rule ext) (simp add: binds_ok_def split: docker_call.split)
  have create: "calls.steps (binds_ok []) (CreateContainer m \<lparr>co_Name = n, co_Prompt = pr, co_EnvVars = [],
      co_Volumes = [\<lparr>vm_HostPath = a, vm_ContainerPath = b, vm_ReadOnly = True\<rparr>], co_WorkDir = []\<rparr>)" for m n pr a b
    by (subst vs [of a b]) (rule CreateContainer_binds, simp)
  have s: "calls.steps (binds_ok []) (build_prompt p c task add)" "calls.steps (binds_ok []) (planner_outcome ip c t co we out)" for t co we out
    by (rule calls_silent, rule silent_prompt silent_outcome)+
  have mk: "calls.steps (binds_ok []) (os_MkdirAll d)" "calls.steps (binds_ok []) New_UUID" "calls.steps (binds_ok []) time_now" for d
    by (rule calls_silent, rule silent_os silent_basic)+
  have "calls.steps (binds_ok []) (run_planner_agent p c task prompt)" for prompt
    unfolding run_planner_agent_def planner_container_def Let_def traces_hub
    by (intro calls.effect_intros mk create calls_docker calls_hub_send; simp add: binds_ok_def)
  then show ?thesis
    unfolding planner_Run_def by (intro calls.effect_intros s)
qed

text \<open>C30: The planner's container can read the workspace but not write it: whatever the database, the
  system and Docker answer, every directory bound into a container that a run of the planner
  creates is bound read-only. The run removes every container it creates and unregisters its
  stream, on every path.\<close>

theorem planner_read_only:
  "list_all (binds_ok []) (new_calls w (snd (run_state (planner_Run ip p c task add) w))) \<and>
   tidy container_step (new_calls w (snd (run_state (planner_Run ip p c task add) w))) \<and>
   tidy stream_step (new_msgs w (snd (run_state (planner_Run ip p c task add) w)))"
proof -
  obtain r w' where r: "run_state (planner_Run ip p c task add) w = (r, w')" by (rule prod.exhaust)
  from calls.stepsE [OF binds_planner_Run r] tracesE [OF tidy_planner_Run r] show ?thesis
    by (auto simp: r calls_rel_def new_calls_def tidy_run_def)
qed

text \<open>A result is a plan that has been validated, questions, or an error.\<close>

definition result_ok :: "PlanResult \<Rightarrow> bool" where
  "result_ok r \<longleftrightarrow> (case (pr_Plan r, pr_Questions r, pr_Error r) of
     (Some plan, None, None) \<Rightarrow> ValidatePlan plan = Inr ()
   | (None, Some _, None) \<Rightarrow> True
   | (None, None, Some _) \<Rightarrow> True
   | _ \<Rightarrow> False)"

lemma planner_outcome_ok: "run_state (planner_outcome ip c t code we out) w = (r, w') \<Longrightarrow> result_ok r"
  by (auto simp: planner_outcome_def plan_failed_def result_ok_def split: option.splits sum.splits planner_output.splits prod.splits if_splits)

lemma planner_Run_ok:
  "run_state (planner_Run ip p c task add) w = (Inr r, w') \<Longrightarrow> result_ok r"
  by (auto simp: planner_Run_def intro: planner_outcome_ok split: prod.splits sum.splits)

end
