(* ===== verification/Task_World.thy ===== *)
theory Task_World
  imports Agent_Pool Msg_Bus
begin

text \<open>
  The world of the task components: the pool's world with the message bus, the Git library, the HTTP
  client, and what else goes on while a run of a task waits. Git and HTTP are not part of the
  repository: what they answer, and what cloning and checking out do to the files, are functions of
  the tick; the calls are logged.
\<close>

section \<open>Git and HTTP\<close>

record clone_options =
  go_URL :: string
  go_Auth :: "(string \<times> string) option"
  go_ReferenceName :: string

datatype git_status = Unmodified | Untracked | Modified | Added | Deleted | Renamed | Copied | UpdatedButUnmerged

text \<open>A repository is what \<open>PlainOpen\<close> finds at a directory. \<open>ga_Head\<close> gives the short name of the
  branch and the hash; \<open>ga_Status\<close> gives path, worktree and staging status in the order of the range
  over the map.\<close>

record git_api =
  ga_PlainClone :: "nat \<Rightarrow> string \<Rightarrow> clone_options \<Rightarrow> fs \<Rightarrow> string option \<times> fs"
  ga_PlainOpen :: "nat \<Rightarrow> string \<Rightarrow> string option"
  ga_Worktree :: "nat \<Rightarrow> string \<Rightarrow> string option"
  ga_Head :: "nat \<Rightarrow> string \<Rightarrow> string + string \<times> string"
  ga_Checkout :: "nat \<Rightarrow> string \<Rightarrow> string \<Rightarrow> string \<Rightarrow> fs \<Rightarrow> string option \<times> fs"
  ga_Status :: "nat \<Rightarrow> string \<Rightarrow> string + (string \<times> git_status \<times> git_status) list"
  ga_Add :: "nat \<Rightarrow> string \<Rightarrow> string option"
  ga_Commit :: "nat \<Rightarrow> string \<Rightarrow> string \<Rightarrow> string + string"
  ga_Push :: "nat \<Rightarrow> string \<Rightarrow> (string \<times> string) option \<Rightarrow> string option"

record http_request =
  hq_Method :: string
  hq_URL :: string
  hq_Header :: "(string \<times> string) list"
  hq_Body :: bytes

text \<open>The body as far as it can be read, and the error that ends it, if any.\<close>

datatype http_answer = HttpFailed string | HttpAnswer int bytes "string option"

record http_api =
  ha_NewRequest :: "string \<Rightarrow> string option" \<comment> \<open>the error for a URL that cannot be parsed\<close>
  ha_Do :: "nat \<Rightarrow> http_request \<Rightarrow> http_answer"

datatype remote_call =
    GitClone string clone_options | GitCheckout string string | GitAdd string | GitCommit string string
  | GitPush string "(string \<times> string) option" | HttpDo http_request

section \<open>Agents in the background\<close>

text \<open>What the goroutines of a run do while it waits: the monitor of an agent runs, the goroutine that
  waits for an agent calls \<open>Wait\<close>, or it passes the result it has received on to the channel of
  completions. Numbers are positions in the lists below.\<close>

datatype background = RunMonitor nat | CallWait nat | PassOn nat

record completionEvent =
  ce_AgentID :: string
  ce_SubtaskID :: string
  ce_Result :: AgentResult

text \<open>A goroutine that waits for an agent, with the channel once it has called \<open>Wait\<close>.\<close>

record waiting =
  wt_AgentID :: string
  wt_SubtaskID :: string
  wt_chan :: "nat option"

text \<open>The branch a \<open>select\<close> takes, if it is ready.\<close>

datatype branch = BrDone | BrCompletion | BrMessage | BrTick | BrDeadline

text \<open>The planner or the executor of a task as it is started in the background.\<close>

datatype job = RunPlanner string string | RunExecutor string | RunTask Task

record tm_world = pool_world +
  w_git :: git_api
  w_http :: http_api
  w_remote :: "remote_call list"
  w_bus :: "AgentMessageEvent message_bus"
  w_posts :: "nat \<Rightarrow> AgentMessageEvent list" \<comment> \<open>published by others meanwhile\<close>
  w_sched :: "nat \<Rightarrow> background list"
  w_branch :: "nat \<Rightarrow> branch"
  w_rank :: "nat \<Rightarrow> string \<Rightarrow> string \<Rightarrow> nat" \<comment> \<open>the order of a range over a map\<close>
  w_waits :: "waiting list"
  w_completions :: "completionEvent list"
  w_cancels :: "string list" \<comment> \<open>the tasks \<open>cancels\<close> has a function for\<close>
  w_canceled :: "string list" \<comment> \<open>the tasks whose function was called\<close>
  w_jobs :: "job list"
  w_stdinfault :: "nat \<Rightarrow> string option"
  w_stdin :: "(string \<times> bytes) list" \<comment> \<open>container and what was written to it\<close>

definition git_call :: "(git_api \<Rightarrow> nat \<Rightarrow> 'a) \<Rightarrow> ('m tm_world_scheme, 'a) state" where
  "git_call f = State (\<lambda>w. (f (w_git w) (w_tick w), tick w))"

definition logged :: "remote_call \<Rightarrow> ('m tm_world_scheme, unit) state" where
  "logged c = modify (\<lambda>w. w\<lparr>w_remote := w_remote w @ [c]\<rparr>)"

text \<open>A call that also works on the files.\<close>

definition git_files :: "(git_api \<Rightarrow> nat \<Rightarrow> fs \<Rightarrow> string option \<times> fs) \<Rightarrow> ('m tm_world_scheme, unit) io" where
  "git_files f = State (\<lambda>w. case f (w_git w) (w_tick w) (w_fs w) of (e, fs) \<Rightarrow>
     ((case e of None \<Rightarrow> Inr () | Some e \<Rightarrow> Inl e), (tick w)\<lparr>w_fs := fs\<rparr>))"

definition failing :: "('w, string option) state \<Rightarrow> ('w, unit) io" where
  "failing m = do { e \<leftarrow> m; State_Monad.return (case e of None \<Rightarrow> Inr () | Some e \<Rightarrow> Inl e) }"

definition http_Do :: "http_request \<Rightarrow> ('m tm_world_scheme, http_answer) state" where
  "http_Do req = do {
     _ \<leftarrow> logged (HttpDo req);
     State (\<lambda>w. (ha_Do (w_http w) (w_tick w) req, tick w)) }"

text \<open>The order of a range over a map.\<close>

definition range_order :: "string \<Rightarrow> string list \<Rightarrow> ('m tm_world_scheme, string list) state" where
  "range_order what keys = State (\<lambda>w. (sort_key (w_rank w (w_tick w) what) keys, tick w))"

end
