(* ===== verification/Repo.thy ===== *)
theory Repo
  imports Task_World Json_Codec Task_Events
begin

text \<open>
  \<open>internal/repo\<close>: platforms, the Git manager, the clients of the GitHub and Bitbucket APIs and what is
  done with a workspace after a run. The Git library and HTTP are those of \<open>Task_World\<close>. The text of
  a JSON error is left open. A client's \<open>http.Client\<close> is the one of the world.
\<close>

section \<open>Platforms\<close>

datatype Platform = PlatformBitbucket | PlatformGitHub | PlatformUnknown

definition DetectPlatform :: "string \<Rightarrow> Platform" where
  "DetectPlatform repoURL =
     (let lower = lower_ascii repoURL in
      if Contains lower ''github.com'' then PlatformGitHub
      else if Contains lower ''bitbucket.org'' then PlatformBitbucket
      else PlatformUnknown)"

fun authUsername :: "Platform \<Rightarrow> string" where
  "authUsername PlatformGitHub = ''x-access-token''"
| "authUsername PlatformBitbucket = ''x-token-auth''"
| "authUsername PlatformUnknown = ''git''"

section \<open>Git\<close>

definition openRepo :: "string \<Rightarrow> ('m tm_world_scheme, unit) io" where
  "openRepo dir = or_fail (''opening repository at '' @ dir) (failing (git_call (\<lambda>g t. ga_PlainOpen g t dir))) ok"

definition getCurrentBranch :: "string \<Rightarrow> ('m tm_world_scheme, string) io" where
  "getCurrentBranch dir = or_fail ''getting HEAD'' (git_call (\<lambda>g t. ga_Head g t dir)) (\<lambda>(branch, hash). ok branch)"

definition getLastCommitHash :: "string \<Rightarrow> ('m tm_world_scheme, string) io" where
  "getLastCommitHash dir = or_fail ''getting HEAD'' (git_call (\<lambda>g t. ga_Head g t dir)) (\<lambda>(branch, hash). ok hash)"

definition GetLastCommitHash :: "string \<Rightarrow> ('m tm_world_scheme, string) io" where
  "GetLastCommitHash dir = try_bind (openRepo dir) err (\<lambda>_. getLastCommitHash dir)"

definition buildAuth :: "RepoConfig \<Rightarrow> (string \<times> string) option" where
  "buildAuth config =
     (if rc_AccessToken config = [] then None
      else Some (authUsername (DetectPlatform (rc_URL config)), rc_AccessToken config))"

definition branchRefName :: "string \<Rightarrow> string" where
  "branchRefName branch = ''refs/heads/'' @ branch"

definition Clone :: "RepoConfig \<Rightarrow> string \<Rightarrow> ('m tm_world_scheme, unit) io" where
  "Clone config targetDir =
     (let cloneOpts = \<lparr>go_URL = rc_URL config, go_Auth = buildAuth config,
        go_ReferenceName = (if rc_Branch config \<noteq> [] then branchRefName (rc_Branch config) else [])\<rparr>
      in do {
        _ \<leftarrow> logged (GitClone targetDir cloneOpts);
        or_fail (''cloning '' @ rc_URL config) (git_files (\<lambda>g t. ga_PlainClone g t targetDir cloneOpts)) ok })"

definition worktree :: "string \<Rightarrow> (unit \<Rightarrow> ('m tm_world_scheme, 'a) io) \<Rightarrow> ('m tm_world_scheme, 'a) io" where
  "worktree dir k = try_bind (openRepo dir) err (\<lambda>_.
     or_fail ''getting worktree'' (failing (git_call (\<lambda>g t. ga_Worktree g t dir))) k)"

definition CreateWorkBranch :: "string \<Rightarrow> string \<Rightarrow> ('m tm_world_scheme, unit) io" where
  "CreateWorkBranch repoDir branchName =
     worktree repoDir (\<lambda>_.
     or_fail ''getting HEAD'' (git_call (\<lambda>g t. ga_Head g t repoDir)) (\<lambda>(branch, hash). do {
       _ \<leftarrow> logged (GitCheckout repoDir (branchRefName branchName));
       or_fail (''creating branch '' @ branchName)
         (git_files (\<lambda>g t. ga_Checkout g t repoDir hash (branchRefName branchName))) ok }))"

definition CommitAll :: "string \<Rightarrow> string \<Rightarrow> ('m tm_world_scheme, string) io" where
  "CommitAll repoDir message =
     worktree repoDir (\<lambda>_. do {
       _ \<leftarrow> logged (GitAdd repoDir);
       or_fail ''staging changes'' (failing (git_call (\<lambda>g t. ga_Add g t repoDir))) (\<lambda>_. do {
         _ \<leftarrow> logged (GitCommit repoDir message);
         or_fail ''committing changes'' (git_call (\<lambda>g t. ga_Commit g t repoDir message)) ok }) })"

definition Push :: "string \<Rightarrow> RepoConfig \<Rightarrow> ('m tm_world_scheme, unit) io" where
  "Push repoDir config =
     try_bind (openRepo repoDir) err (\<lambda>_. do {
       _ \<leftarrow> logged (GitPush repoDir (buildAuth config));
       or_fail ''pushing to remote'' (failing (git_call (\<lambda>g t. ga_Push g t repoDir (buildAuth config)))) ok })"

definition git_status_of :: "string \<Rightarrow> ('m tm_world_scheme, (string \<times> git_status \<times> git_status) list) io" where
  "git_status_of repoDir = worktree repoDir (\<lambda>_. or_fail ''getting status'' (git_call (\<lambda>g t. ga_Status g t repoDir)) ok)"

definition GetChangedFiles :: "string \<Rightarrow> ('m tm_world_scheme, string list) io" where
  "GetChangedFiles repoDir = try_bind (git_status_of repoDir) err (\<lambda>status.
     ok (map fst (filter (\<lambda>(path, wt, stg). wt \<noteq> Unmodified \<or> stg \<noteq> Unmodified) status)))"

definition HasChanges :: "string \<Rightarrow> ('m tm_world_scheme, bool) io" where
  "HasChanges repoDir = try_bind (GetChangedFiles repoDir) err (\<lambda>files. ok (length files > 0))"

definition statusCode :: "git_status \<Rightarrow> git_status \<Rightarrow> string" where
  "statusCode wt staging =
     (if staging = Added \<or> wt = Untracked then ''A''
      else if staging = Modified \<or> wt = Modified then ''M''
      else if staging = Deleted \<or> wt = Deleted then ''D''
      else if staging = Renamed then ''R''
      else if staging = Copied then ''C''
      else if staging \<noteq> Unmodified \<or> wt \<noteq> Unmodified then ''?''
      else [])"

text \<open>What is read from HEAD afterwards does not change the result.\<close>

definition GetDiff :: "string \<Rightarrow> ('m tm_world_scheme, string) io" where
  "GetDiff repoDir = try_bind (git_status_of repoDir) err (\<lambda>status. do {
     let b = concat (map (\<lambda>(path, wt, stg). let code = statusCode wt stg in if code = [] then [] else code @ '' '' @ path @ ''\<newline>'') status);
     _ \<leftarrow> git_call (\<lambda>g t. ga_Head g t repoDir);
     ok b })"

section \<open>URLs\<close>

text \<open>What \<open>^https?://(?:www\.)?HOST/([^/]+)/([^/.]+?)(?:\.git)?/?$\<close> and
  \<open>^git@HOST:([^/]+)/([^/.]+?)(?:\.git)?$\<close> match: an owner without a slash, a repository without
  slash and dot, and one of the endings.\<close>

definition strip_prefix :: "string \<Rightarrow> string \<Rightarrow> string option" where
  "strip_prefix p s = (if HasPrefix s p then Some (drop (length p) s) else None)"

definition match_path :: "string list \<Rightarrow> string \<Rightarrow> (string \<times> string) option" where
  "match_path endings s =
     (let owner = takeWhile (\<lambda>c. c \<noteq> CHR ''/'') s; rest = drop (Suc (length owner)) s;
          repo = takeWhile (\<lambda>c. c \<noteq> CHR ''/'' \<and> c \<noteq> CHR ''.'') rest
      in if owner \<noteq> [] \<and> length owner < length s \<and> repo \<noteq> [] \<and> drop (length repo) rest \<in> set endings
         then Some (owner, repo) else None)"

definition match_https :: "string \<Rightarrow> string \<Rightarrow> (string \<times> string) option" where
  "match_https host s =
     (case (case strip_prefix ''https://'' s of Some r \<Rightarrow> Some r | None \<Rightarrow> strip_prefix ''http://'' s) of
        None \<Rightarrow> None
      | Some r \<Rightarrow> (let r' = (case strip_prefix ''www.'' r of Some x \<Rightarrow> x | None \<Rightarrow> r) in
          case strip_prefix (host @ ''/'') r' of None \<Rightarrow> None
          | Some p \<Rightarrow> match_path [[], ''.git'', ''/'', ''.git/''] p))"

definition match_ssh :: "string \<Rightarrow> string \<Rightarrow> (string \<times> string) option" where
  "match_ssh host s = (case strip_prefix (''git@'' @ host @ '':'') s of None \<Rightarrow> None
     | Some p \<Rightarrow> match_path [[], ''.git''] p)"

definition parse_repo_url :: "string \<Rightarrow> string \<Rightarrow> (string \<times> string) option" where
  "parse_repo_url host url = (let s = TrimSpace url in
     case match_https host s of Some m \<Rightarrow> Some m | None \<Rightarrow> match_ssh host s)"

definition ParseGitHubURL :: "string \<Rightarrow> string + string \<times> string" where
  "ParseGitHubURL repoURL = (case parse_repo_url ''github.com'' repoURL of
     Some m \<Rightarrow> Inr m | None \<Rightarrow> Inl (''unable to parse GitHub URL: '' @ TrimSpace repoURL))"

definition ParseBitbucketURL :: "string \<Rightarrow> string + string \<times> string" where
  "ParseBitbucketURL repoURL = (case parse_repo_url ''bitbucket.org'' repoURL of
     Some m \<Rightarrow> Inr m | None \<Rightarrow> Inl (''unable to parse Bitbucket URL: '' @ TrimSpace repoURL))"

section \<open>The REST clients\<close>

record CreatePROptions =
  cpo_Workspace :: string
  cpo_RepoSlug :: string
  cpo_Title :: string
  cpo_Description :: string
  cpo_Source :: string
  cpo_Destination :: string
  cpo_Reviewers :: "string list"
  cpo_AccessToken :: string

record PullRequest =
  pul_ID :: int
  pul_Title :: string
  pul_URL :: string
  pul_State :: string

record Repository =
  rp_Slug :: string
  rp_Name :: string
  rp_FullName :: string

record Branch =
  br_Name :: string
  br_Hash :: string

fun trim_slashes :: "string \<Rightarrow> string" where
  "trim_slashes s = rev (dropWhile (\<lambda>c. c = CHR ''/'') (rev s))"

text \<open>A client is its base URL.\<close>

definition NewGitHubClient :: "string \<Rightarrow> string" where
  "NewGitHubClient baseURL = trim_slashes (if baseURL = [] then ''https://api.github.com'' else baseURL)"

definition NewBitbucketClient :: "string \<Rightarrow> string" where
  "NewBitbucketClient baseURL = trim_slashes (if baseURL = [] then ''https://api.bitbucket.org/2.0'' else baseURL)"

text \<open>The first value of a stream.\<close>

definition decode_stream :: "'a decoder \<Rightarrow> 'a \<Rightarrow> bytes \<Rightarrow> 'a option" where
  "decode_stream d zero s = (case parse_value (2 * length s + 2) json_max_depth s of
     None \<Rightarrow> None | Some (v, _) \<Rightarrow> d v zero)"

text \<open>A request and its answer: \<open>k\<close> gets the body if the status is the one expected.\<close>

definition rest_call :: "http_request \<Rightarrow> int \<Rightarrow> (int \<Rightarrow> bytes \<Rightarrow> string option \<Rightarrow> string) \<Rightarrow>
    (bytes \<Rightarrow> ('m tm_world_scheme, 'a) io) \<Rightarrow> ('m tm_world_scheme, 'a) io" where
  "rest_call req status readError k =
     or_fail ''creating request'' (failing (gets (\<lambda>w. ha_NewRequest (w_http w) (hq_URL req)))) (\<lambda>_. do {
       a \<leftarrow> http_Do req;
       (case a of
          HttpFailed e \<Rightarrow> err (''executing request: '' @ e)
        | HttpAnswer code body e \<Rightarrow> if code \<noteq> status then err (readError code body e) else k body) })"

definition decoded :: "string \<Rightarrow> 'a option \<Rightarrow> ('a \<Rightarrow> ('w, 'b) io) \<Rightarrow> ('w, 'b) io" where
  "decoded msg x k = (case x of None \<Rightarrow> err (msg @ '': invalid JSON'') | Some v \<Rightarrow> k v)"

text \<open>The fields \<open>message\<close>, and \<open>message\<close> of \<open>error\<close>.\<close>

definition message_field :: "string fields" where
  "message_field = [field ''message'' dec_string (\<lambda>s. s) (\<lambda>f s. f s)]"

definition api_error :: "string \<Rightarrow> string fields \<Rightarrow> int \<Rightarrow> bytes \<Rightarrow> string option \<Rightarrow> string" where
  "api_error platform fs code body e =
     (let prefix = platform @ '' API error (status '' @ itoa code @ '')'' in
      case e of Some _ \<Rightarrow> prefix
      | None \<Rightarrow> (case unmarshal (dec_struct fs) [] body of
          Some msg \<Rightarrow> prefix @ '': '' @ (if msg \<noteq> [] then msg else body)
        | None \<Rightarrow> prefix @ '': '' @ body))"

definition readGitHubError :: "int \<Rightarrow> bytes \<Rightarrow> string option \<Rightarrow> string" where
  "readGitHubError = api_error ''github'' message_field"

definition readBitbucketError :: "int \<Rightarrow> bytes \<Rightarrow> string option \<Rightarrow> string" where
  "readBitbucketError = api_error ''bitbucket'' [field ''error'' (dec_struct message_field) (\<lambda>s. s) (\<lambda>f s. f s)]"

definition github_headers :: "string \<Rightarrow> (string \<times> string) list" where
  "github_headers token = [(''Accept'', ''application/vnd.github+json''), (''Authorization'', ''Bearer '' @ token)]"

definition json_content :: "string \<times> string" where
  "json_content = (''Content-Type'', ''application/json'')"

definition pull_fields :: "string \<Rightarrow> PullRequest fields" where
  "pull_fields number = [field number dec_int pul_ID pul_ID_update, field ''title'' dec_string pul_Title pul_Title_update,
     field ''html_url'' dec_string pul_URL pul_URL_update, field ''state'' dec_string pul_State pul_State_update]"

definition zero_pull :: PullRequest where
  "zero_pull = \<lparr>pul_ID = 0, pul_Title = [], pul_URL = [], pul_State = []\<rparr>"

definition gh_CreatePullRequest :: "string \<Rightarrow> CreatePROptions \<Rightarrow> ('m tm_world_scheme, PullRequest) io" where
  "gh_CreatePullRequest base opts =
     rest_call \<lparr>hq_Method = ''POST'', hq_URL = base @ ''/repos/'' @ cpo_Workspace opts @ ''/'' @ cpo_RepoSlug opts @ ''/pulls'',
         hq_Header = json_content # github_headers (cpo_AccessToken opts),
         hq_Body = print_json (json_map [(''title'', JStr (cpo_Title opts)), (''body'', JStr (cpo_Description opts)),
           (''head'', JStr (cpo_Source opts)), (''base'', JStr (cpo_Destination opts))])\<rparr>
       201 readGitHubError
       (\<lambda>body. decoded ''decoding PR response'' (decode_stream (dec_struct (pull_fields ''number'')) zero_pull body) ok)"

definition gh_RequestReviewers :: "string \<Rightarrow> string \<Rightarrow> string \<Rightarrow> int \<Rightarrow> string list \<Rightarrow> string \<Rightarrow> ('m tm_world_scheme, unit) io" where
  "gh_RequestReviewers base owner repo prNumber reviewers token =
     rest_call \<lparr>hq_Method = ''POST'',
         hq_URL = base @ ''/repos/'' @ owner @ ''/'' @ repo @ ''/pulls/'' @ itoa prNumber @ ''/requested_reviewers'',
         hq_Header = json_content # github_headers token,
         hq_Body = print_json (json_map [(''reviewers'', enc_strings reviewers)])\<rparr>
       201 readGitHubError (\<lambda>_. ok ())"

text \<open>\<open>name\<close> is both the slug and the name.\<close>

definition gh_GetRepository :: "string \<Rightarrow> string \<Rightarrow> string \<Rightarrow> string \<Rightarrow> ('m tm_world_scheme, Repository) io" where
  "gh_GetRepository base owner repo token =
     rest_call \<lparr>hq_Method = ''GET'', hq_URL = base @ ''/repos/'' @ owner @ ''/'' @ repo, hq_Header = github_headers token, hq_Body = []\<rparr>
       200 readGitHubError
       (\<lambda>body. decoded ''decoding repository response''
          (decode_stream (dec_struct [field ''name'' dec_string rp_Name rp_Name_update, field ''full_name'' dec_string rp_FullName rp_FullName_update])
             \<lparr>rp_Slug = [], rp_Name = [], rp_FullName = []\<rparr> body)
          (\<lambda>r. ok (r\<lparr>rp_Slug := rp_Name r\<rparr>)))"

definition branch_fields :: "string \<Rightarrow> string \<Rightarrow> Branch fields" where
  "branch_fields commit hash = [field ''name'' dec_string br_Name br_Name_update,
     field commit (dec_struct [field hash dec_string (\<lambda>s. s) (\<lambda>f s. f s)]) br_Hash br_Hash_update]"

definition zero_branch :: Branch where
  "zero_branch = \<lparr>br_Name = [], br_Hash = []\<rparr>"

definition gh_ListBranches :: "string \<Rightarrow> string \<Rightarrow> string \<Rightarrow> string \<Rightarrow> ('m tm_world_scheme, Branch list) io" where
  "gh_ListBranches base owner repo token =
     rest_call \<lparr>hq_Method = ''GET'', hq_URL = base @ ''/repos/'' @ owner @ ''/'' @ repo @ ''/branches?per_page=100'',
         hq_Header = github_headers token, hq_Body = []\<rparr>
       200 readGitHubError
       (\<lambda>body. decoded ''decoding branches response''
          (decode_stream (dec_slice (dec_struct (branch_fields ''commit'' ''sha'')) zero_branch) [] body) ok)"

definition bearer :: "string \<Rightarrow> (string \<times> string) list" where
  "bearer token = [(''Authorization'', ''Bearer '' @ token)]"

definition bb_CreatePullRequest :: "string \<Rightarrow> CreatePROptions \<Rightarrow> ('m tm_world_scheme, PullRequest) io" where
  "bb_CreatePullRequest base opts =
     (let branch = (\<lambda>n. JObj [(''branch'', JObj [(''name'', JStr n)])]) in
      rest_call \<lparr>hq_Method = ''POST'',
         hq_URL = base @ ''/repositories/'' @ cpo_Workspace opts @ ''/'' @ cpo_RepoSlug opts @ ''/pullrequests'',
         hq_Header = json_content # bearer (cpo_AccessToken opts),
         hq_Body = print_json (json_map (
           [(''title'', JStr (cpo_Title opts)), (''description'', JStr (cpo_Description opts)),
            (''source'', branch (cpo_Source opts)), (''destination'', branch (cpo_Destination opts)),
            (''close_source_branch'', JBool False)] @
           (if cpo_Reviewers opts = [] then []
            else [(''reviewers'', JArr (map (\<lambda>r. JObj [(''username'', JStr r)]) (cpo_Reviewers opts)))])))\<rparr>
       201 readBitbucketError
       (\<lambda>body. decoded ''decoding PR response''
          (decode_stream (dec_struct
             [field ''id'' dec_int pul_ID pul_ID_update, field ''title'' dec_string pul_Title pul_Title_update,
              field ''state'' dec_string pul_State pul_State_update,
              field ''links'' (dec_struct [field ''html'' (dec_struct [field ''href'' dec_string (\<lambda>s. s) (\<lambda>f s. f s)]) (\<lambda>s. s) (\<lambda>f s. f s)])
                pul_URL pul_URL_update]) zero_pull body) ok))"

definition bb_GetRepository :: "string \<Rightarrow> string \<Rightarrow> string \<Rightarrow> string \<Rightarrow> ('m tm_world_scheme, Repository) io" where
  "bb_GetRepository base workspace repoSlug token =
     rest_call \<lparr>hq_Method = ''GET'', hq_URL = base @ ''/repositories/'' @ workspace @ ''/'' @ repoSlug, hq_Header = bearer token, hq_Body = []\<rparr>
       200 readBitbucketError
       (\<lambda>body. decoded ''decoding repository response''
          (decode_stream (dec_struct [field ''slug'' dec_string rp_Slug rp_Slug_update, field ''name'' dec_string rp_Name rp_Name_update,
              field ''full_name'' dec_string rp_FullName rp_FullName_update])
             \<lparr>rp_Slug = [], rp_Name = [], rp_FullName = []\<rparr> body) ok)"

definition bb_ListBranches :: "string \<Rightarrow> string \<Rightarrow> string \<Rightarrow> string \<Rightarrow> ('m tm_world_scheme, Branch list) io" where
  "bb_ListBranches base workspace repoSlug token =
     rest_call \<lparr>hq_Method = ''GET'', hq_URL = base @ ''/repositories/'' @ workspace @ ''/'' @ repoSlug @ ''/refs/branches'',
         hq_Header = bearer token, hq_Body = []\<rparr>
       200 readBitbucketError
       (\<lambda>body. decoded ''decoding branches response''
          (decode_stream (dec_struct [field ''values'' (dec_slice (dec_struct (branch_fields ''target'' ''hash'')) zero_branch) (\<lambda>s. s) (\<lambda>f s. f s)])
             [] body) ok)"

section \<open>After a run\<close>

record PostExecResult =
  per_HasChanges :: bool
  per_CommitHash :: string
  per_Pushed :: bool
  per_PRUrl :: string

definition pr_options :: "string \<Rightarrow> RepoConfig \<Rightarrow> string \<Rightarrow> string \<times> string \<Rightarrow> CreatePROptions" where
  "pr_options taskName config sourceBranch m =
     \<lparr>cpo_Workspace = fst m, cpo_RepoSlug = snd m, cpo_Title = ''[Klaudio] '' @ taskName,
      cpo_Description = ''Automated pull request created by Klaudio for task: '' @ taskName, cpo_Source = sourceBranch,
      cpo_Destination = (if rc_PRTarget config = [] then ''main'' else rc_PRTarget config),
      cpo_Reviewers = rc_PRReviewers config, cpo_AccessToken = rc_AccessToken config\<rparr>"

definition createPlatformPR :: "string \<Rightarrow> string \<Rightarrow> RepoConfig \<Rightarrow> ('m tm_world_scheme, PullRequest) io" where
  "createPlatformPR taskName workspaceDir config =
     or_fail ''opening repo for PR branch'' (openRepo workspaceDir) (\<lambda>_.
     or_fail ''getting current branch for PR'' (getCurrentBranch workspaceDir) (\<lambda>sourceBranch.
     case DetectPlatform (rc_URL config) of
       PlatformGitHub \<Rightarrow>
         or_fail ''parsing repo URL for PR'' (State_Monad.return (ParseGitHubURL (rc_URL config))) (\<lambda>m.
         or_fail ''creating GitHub PR'' (gh_CreatePullRequest (NewGitHubClient []) (pr_options taskName config sourceBranch m)) (\<lambda>pr. do {
           _ \<leftarrow> when_do (rc_PRReviewers config \<noteq> [])
             (ignore (gh_RequestReviewers (NewGitHubClient []) (fst m) (snd m) (pul_ID pr) (rc_PRReviewers config) (rc_AccessToken config)));
           ok pr }))
     | PlatformBitbucket \<Rightarrow>
         or_fail ''parsing repo URL for PR'' (State_Monad.return (ParseBitbucketURL (rc_URL config))) (\<lambda>m.
         or_fail ''creating Bitbucket PR'' (bb_CreatePullRequest (NewBitbucketClient []) (pr_options taskName config sourceBranch m)) ok)
     | PlatformUnknown \<Rightarrow>
         err (''unsupported platform for auto-PR, cannot detect platform from URL: '' @ rc_URL config)))"

definition PostExecution :: "string \<Rightarrow> string \<Rightarrow> RepoConfig \<Rightarrow> ('m tm_world_scheme, PostExecResult) io" where
  "PostExecution taskName workspaceDir config =
     or_fail ''checking for changes'' (HasChanges workspaceDir) (\<lambda>hasChanges.
     if \<not> hasChanges then ok \<lparr>per_HasChanges = False, per_CommitHash = [], per_Pushed = False, per_PRUrl = []\<rparr>
     else
       or_fail ''auto-commit failed'' (if rc_AutoCommit config then CommitAll workspaceDir (''klaudio: '' @ taskName) else ok []) (\<lambda>hash.
       or_fail ''auto-push failed'' (if rc_AutoPush config then Push workspaceDir config else ok ()) (\<lambda>_.
       try_bind (if rc_AutoPR config then try_bind (createPlatformPR taskName workspaceDir config) err (\<lambda>pr. ok (pul_URL pr)) else ok []) err (\<lambda>url.
         ok \<lparr>per_HasChanges = True, per_CommitHash = hash, per_Pushed = rc_AutoPush config, per_PRUrl = url\<rparr>))))"

section \<open>The language of the URLs\<close>

text \<open>The regular expressions as sets of strings.\<close>

definition url_forms :: "string \<Rightarrow> string \<Rightarrow> string \<Rightarrow> string set" where
  "url_forms host owner repo =
     {scheme @ www @ host @ ''/'' @ owner @ ''/'' @ repo @ ending | scheme www ending.
        scheme \<in> {''https://'', ''http://''} \<and> www \<in> {[], ''www.''} \<and> ending \<in> {[], ''.git'', ''/'', ''.git/''}} \<union>
     {''git@'' @ host @ '':'' @ owner @ ''/'' @ repo @ ending | ending. ending \<in> {[], ''.git''}}"

definition repo_name :: "string \<Rightarrow> string \<Rightarrow> bool" where
  "repo_name owner repo \<longleftrightarrow> owner \<noteq> [] \<and> CHR ''/'' \<notin> set owner \<and> repo \<noteq> [] \<and> CHR ''/'' \<notin> set repo \<and> CHR ''.'' \<notin> set repo"

lemma strip_prefix_Some: "strip_prefix p s = Some r \<longleftrightarrow> s = p @ r"
  by (auto simp: strip_prefix_def HasPrefix_iff)

lemma strip_prefix_None: "strip_prefix p s = None \<longleftrightarrow> (\<forall>r. s \<noteq> p @ r)"
  by (auto simp: strip_prefix_def HasPrefix_iff)

lemma takeWhile_split:
  "takeWhile P s @ drop (length (takeWhile P s)) s = s"
  by (simp flip: dropWhile_eq_drop)

lemma takeWhile_upto: "list_all P x \<Longrightarrow> y = [] \<or> \<not> P (hd y) \<Longrightarrow> takeWhile P (x @ y) = x"
  by (cases y) (auto simp: list_all_iff takeWhile_append)

lemma match_path_Some:
  assumes "\<forall>e \<in> set es. e = [] \<or> hd e = CHR ''/'' \<or> hd e = CHR ''.''"
  shows "match_path es s = Some (owner, repo) \<longleftrightarrow>
    repo_name owner repo \<and> (\<exists>e \<in> set es. s = owner @ ''/'' @ repo @ e)"
proof
  assume m: "match_path es s = Some (owner, repo)"
  define rest where "rest = drop (Suc (length owner)) s"
  have o: "owner = takeWhile (\<lambda>c. c \<noteq> CHR ''/'') s" "owner \<noteq> []" "length owner < length s"
    and r: "repo = takeWhile (\<lambda>c. c \<noteq> CHR ''/'' \<and> c \<noteq> CHR ''.'') rest" "repo \<noteq> []" "drop (length repo) rest \<in> set es"
    using m by (auto simp: match_path_def Let_def rest_def split: if_splits)
  have "s ! length owner = CHR ''/''"
    using o(3) nth_length_takeWhile [of "\<lambda>c. c \<noteq> CHR ''/''" s] by (simp add: o(1))
  then have "s = owner @ CHR ''/'' # rest"
    using o(1,3) takeWhile_eq_take [of "\<lambda>c. c \<noteq> CHR ''/''" s]
    by (metis rest_def append_take_drop_id Cons_nth_drop_Suc)
  moreover have "rest = repo @ drop (length repo) rest"
    using r(1) takeWhile_split [of "\<lambda>c. c \<noteq> CHR ''/'' \<and> c \<noteq> CHR ''.''" rest] by simp
  moreover have "CHR ''/'' \<notin> set owner" "CHR ''/'' \<notin> set repo" "CHR ''.'' \<notin> set repo"
    using o(1) r(1) by (auto dest: set_takeWhileD)
  ultimately show "repo_name owner repo \<and> (\<exists>e \<in> set es. s = owner @ ''/'' @ repo @ e)"
    using o(2) r(2,3) by (auto simp: repo_name_def)
next
  assume "repo_name owner repo \<and> (\<exists>e \<in> set es. s = owner @ ''/'' @ repo @ e)"
  then obtain e where n: "repo_name owner repo" and e: "e \<in> set es" "s = owner @ ''/'' @ repo @ e" by blast
  have "takeWhile (\<lambda>c. c \<noteq> CHR ''/'') s = owner"
    unfolding e(2) by (rule takeWhile_upto) (use n in \<open>auto simp: repo_name_def list_all_iff\<close>)
  moreover have "takeWhile (\<lambda>c. c \<noteq> CHR ''/'' \<and> c \<noteq> CHR ''.'') (repo @ e) = repo"
    by (rule takeWhile_upto) (use n e(1) assms in \<open>auto simp: repo_name_def list_all_iff\<close>)
  ultimately show "match_path es s = Some (owner, repo)"
    using n e by (simp add: match_path_def Let_def repo_name_def)
qed

text \<open>The two hosts begin neither like \<open>www.\<close> nor contain a slash or colon.\<close>

lemma match_https_Some:
  assumes "host \<in> {''github.com'', ''bitbucket.org''}"
  shows "match_https host s = Some (owner, repo) \<longleftrightarrow> repo_name owner repo \<and>
    (\<exists>scheme \<in> {''https://'', ''http://''}. \<exists>www \<in> {[], ''www.''}. \<exists>e \<in> {[], ''.git'', ''/'', ''.git/''}.
       s = scheme @ www @ host @ ''/'' @ owner @ ''/'' @ repo @ e)"
  using assms
  by (auto simp: match_https_def match_path_Some strip_prefix_Some strip_prefix_None Let_def split: option.splits)

lemma match_ssh_Some:
  "match_ssh host s = Some (owner, repo) \<longleftrightarrow> repo_name owner repo \<and>
    (\<exists>e \<in> {[], ''.git''}. s = ''git@'' @ host @ '':'' @ owner @ ''/'' @ repo @ e)"
  by (auto simp: match_ssh_def match_path_Some strip_prefix_Some strip_prefix_None split: option.splits)

lemma https_not_ssh: "match_https host s = Some m \<Longrightarrow> match_ssh host' s = None"
  by (auto simp: match_https_def match_ssh_def strip_prefix_def HasPrefix_iff split: option.splits if_splits)

lemma parse_repo_url_exact:
  assumes "host \<in> {''github.com'', ''bitbucket.org''}"
  shows "parse_repo_url host url = Some (owner, repo) \<longleftrightarrow> repo_name owner repo \<and> TrimSpace url \<in> url_forms host owner repo"
proof -
  have "parse_repo_url host url = Some (owner, repo) \<longleftrightarrow>
      match_https host (TrimSpace url) = Some (owner, repo) \<or> match_ssh host (TrimSpace url) = Some (owner, repo)"
    using https_not_ssh [of host "TrimSpace url"] by (auto simp: parse_repo_url_def Let_def split: option.splits)
  then show ?thesis
    unfolding match_https_Some [OF assms] match_ssh_Some url_forms_def by blast
qed

text \<open>C31: The hand-written matcher accepts exactly the language of the regular expressions: a GitHub or
  Bitbucket URL gives an owner and a repository if and only if, after trimming, it is one of the
  HTTP or SSH spellings of them. A repository name with a dot has no accepted spelling.\<close>

theorem ParseURL_exact:
  "(ParseGitHubURL url = Inr (owner, repo) \<longleftrightarrow> repo_name owner repo \<and> TrimSpace url \<in> url_forms ''github.com'' owner repo) \<and>
   (ParseBitbucketURL url = Inr (owner, repo) \<longleftrightarrow> repo_name owner repo \<and> TrimSpace url \<in> url_forms ''bitbucket.org'' owner repo)"
proof -
  have "ParseGitHubURL url = Inr (owner, repo) \<longleftrightarrow> parse_repo_url ''github.com'' url = Some (owner, repo)"
    "ParseBitbucketURL url = Inr (owner, repo) \<longleftrightarrow> parse_repo_url ''bitbucket.org'' url = Some (owner, repo)"
    by (auto simp: ParseGitHubURL_def ParseBitbucketURL_def split: option.split)
  then show ?thesis by (simp add: parse_repo_url_exact)
qed

section \<open>What leaves the machine\<close>

text \<open>\<open>remotes m Q\<close>: \<open>m\<close> only appends to the log of remote calls, and its result and the calls are related
  by \<open>Q\<close>.\<close>

definition remotes :: "('m tm_world_scheme, 'a) state \<Rightarrow> ('a \<Rightarrow> remote_call list \<Rightarrow> bool) \<Rightarrow> bool" where
  "remotes m Q \<longleftrightarrow> (\<forall>w. \<exists>l. w_remote (snd (run_state m w)) = w_remote w @ l \<and> Q (fst (run_state m w)) l)"

lemma remotes_return: "Q x [] \<Longrightarrow> remotes (State_Monad.return x) Q"
  by (simp add: remotes_def)

lemma remotes_ok: "Q (Inr x) [] \<Longrightarrow> remotes (ok x) Q"
  unfolding ok_def by (rule remotes_return)

lemma remotes_err: "Q (Inl x) [] \<Longrightarrow> remotes (err x) Q"
  unfolding err_def by (rule remotes_return)

lemma remotes_conseq: "remotes m Q \<Longrightarrow> (\<And>x l. Q x l \<Longrightarrow> Q' x l) \<Longrightarrow> remotes m Q'"
  unfolding remotes_def by blast

lemma remotes_bind:
  assumes "remotes m Q" "\<And>x l. Q x l \<Longrightarrow> remotes (f x) (\<lambda>y l'. R y (l @ l'))"
  shows "remotes (m \<bind> f) R"
  unfolding remotes_def
proof
  fix w
  obtain x w1 where r: "run_state m w = (x, w1)" by (rule prod.exhaust)
  obtain l where l: "w_remote w1 = w_remote w @ l" "Q x l" using assms(1) [unfolded remotes_def, rule_format, of w] r by auto
  obtain l' where "w_remote (snd (run_state (f x) w1)) = w_remote w1 @ l'" "R (fst (run_state (f x) w1)) (l @ l')"
    using assms(2) [OF l(2), unfolded remotes_def, rule_format, of w1] by auto
  then show "\<exists>l. w_remote (snd (run_state (m \<bind> f) w)) = w_remote w @ l \<and> R (fst (run_state (m \<bind> f) w)) l"
    using r l(1) by (intro exI [of _ "l @ l'"]) simp
qed

lemma remotes_try:
  assumes "remotes m Q" "\<And>e l. Q (Inl e) l \<Longrightarrow> remotes (h e) (\<lambda>y l'. R y (l @ l'))"
    "\<And>x l. Q (Inr x) l \<Longrightarrow> remotes (k x) (\<lambda>y l'. R y (l @ l'))"
  shows "remotes (try_bind m h k) R"
  unfolding try_bind_def by (rule remotes_bind [OF assms(1)]) (auto split: sum.split intro: assms(2,3))

lemma remotes_or_fail:
  assumes "remotes m Q" "\<And>e e' l. Q (Inl e) l \<Longrightarrow> R (Inl e') l"
    "\<And>x l. Q (Inr x) l \<Longrightarrow> remotes (k x) (\<lambda>y l'. R y (l @ l'))"
  shows "remotes (or_fail msg m k) R"
  unfolding or_fail_def
  by (rule remotes_try [OF assms(1)], rule remotes_err, simp only: append_Nil2, erule assms(2), erule assms(3))

lemma remotes_logged: "Q () [c] \<Longrightarrow> remotes (logged c) Q"
  by (simp add: remotes_def logged_def)

text \<open>Nothing leaves.\<close>

definition local_only :: "('m tm_world_scheme, 'a) state \<Rightarrow> bool" where
  "local_only m \<longleftrightarrow> remotes m (\<lambda>x l. l = [])"

lemma local_bind [intro]: "local_only m \<Longrightarrow> (\<And>x. local_only (f x)) \<Longrightarrow> local_only (m \<bind> f)"
  unfolding local_only_def by (erule remotes_bind) (auto elim: remotes_conseq)

lemma local_return [intro]: "local_only (State_Monad.return x)" "local_only (ok y)" "local_only (err z)"
  unfolding local_only_def by (auto intro: remotes_return remotes_ok remotes_err)

lemma local_try [intro]: "local_only m \<Longrightarrow> (\<And>e. local_only (h e)) \<Longrightarrow> (\<And>x. local_only (k x)) \<Longrightarrow> local_only (try_bind m h k)"
  unfolding try_bind_def by (auto split: sum.split)

lemma local_or_fail [intro]: "local_only m \<Longrightarrow> (\<And>x. local_only (k x)) \<Longrightarrow> local_only (or_fail msg m k)"
  unfolding or_fail_def by auto

lemma local_gets [intro]: "local_only (gets f)"
  by (simp add: local_only_def remotes_def)

lemma tick_remote [simp]: "w_remote (tick w) = w_remote w"
  by (simp add: tick_def)

lemma local_git [intro]: "local_only (git_call f)" "local_only (git_files g)"
  by (simp_all add: local_only_def remotes_def git_call_def git_files_def split: prod.split)

lemma local_failing [intro]: "local_only m \<Longrightarrow> local_only (failing m)"
  unfolding failing_def by auto

lemma remotes_local: "local_only m \<Longrightarrow> (\<And>x. Q x []) \<Longrightarrow> remotes m Q"
  unfolding local_only_def by (erule remotes_conseq) simp

lemmas local_intros = local_return local_gets local_git local_failing local_try local_or_fail local_bind

lemma local_HasChanges: "local_only (HasChanges d)"
  unfolding HasChanges_def GetChangedFiles_def git_status_of_def worktree_def openRepo_def by (intro local_intros)

definition is_http :: "string \<Rightarrow> remote_call \<Rightarrow> bool" where
  "is_http prefix c \<longleftrightarrow> (case c of HttpDo q \<Rightarrow> HasPrefix (hq_URL q) prefix | _ \<Rightarrow> False)"

lemma remotes_rest:
  assumes "HasPrefix (hq_URL req) p" "\<And>b. local_only (k b)"
  shows "remotes (rest_call req st re k) (\<lambda>r l. list_all (is_http p) l)"
proof -
  have h: "remotes (http_Do req) (\<lambda>r l. list_all (is_http p) l)"
    unfolding http_Do_def
    by (rule remotes_bind [OF remotes_logged [of "\<lambda>u l. list_all (is_http p) l"]])
       (auto simp: remotes_def is_http_def assms(1))
  show ?thesis
    unfolding rest_call_def
    by (rule remotes_or_fail [OF remotes_local [of _ "\<lambda>x l. l = []"]], intro local_intros, simp, simp)
       (rule remotes_bind [OF h], auto split: http_answer.split intro!: remotes_err remotes_local [OF assms(2)])
qed

lemma local_decoded: "(\<And>v. local_only (k v)) \<Longrightarrow> local_only (decoded msg x k)"
  unfolding decoded_def by (auto split: option.split)

lemma remotes_CommitAll:
  "remotes (CommitAll d m) (\<lambda>r l. l \<in> {[], [GitAdd d], [GitAdd d, GitCommit d m]} \<and> (\<forall>h. r = Inr h \<longrightarrow> l = [GitAdd d, GitCommit d m]))"
proof -
  have l: "remotes (logged c) (\<lambda>x l. l = [c])" for c by (rule remotes_logged) simp
  have w: "local_only (openRepo d)" "local_only (failing (git_call g))" "local_only (git_call g')" for g g'
    unfolding openRepo_def by (intro local_intros)+
  show ?thesis
    unfolding CommitAll_def worktree_def
    by (rule remotes_try [OF remotes_local [OF w(1), of "\<lambda>x l. l = []"]], simp, rule remotes_err, simp,
        rule remotes_or_fail [OF remotes_local [OF w(2), of "\<lambda>x l. l = []"]], simp, simp,
        rule remotes_bind [OF l],
        rule remotes_or_fail [OF remotes_local [OF w(2), of "\<lambda>x l. l = []"]], simp, simp,
        rule remotes_bind [OF l],
        rule remotes_or_fail [OF remotes_local [OF w(3), of "\<lambda>x l. l = []"]], simp, simp, rule remotes_ok, simp)
qed

lemma remotes_Push:
  "remotes (Push d cfg) (\<lambda>r l. l \<in> {[], [GitPush d (buildAuth cfg)]} \<and> (r = Inr () \<longrightarrow> l = [GitPush d (buildAuth cfg)]))"
proof -
  have l: "remotes (logged c) (\<lambda>x l. l = [c])" for c by (rule remotes_logged) simp
  have w: "local_only (openRepo d)" "local_only (failing (git_call g))" for g
    unfolding openRepo_def by (intro local_intros)+
  show ?thesis
    unfolding Push_def
    by (rule remotes_try [OF remotes_local [OF w(1), of "\<lambda>x l. l = []"]], simp, rule remotes_err, simp,
        rule remotes_bind [OF l],
        rule remotes_or_fail [OF remotes_local [OF w(2), of "\<lambda>x l. l = []"]], simp, simp, rule remotes_ok, simp)
qed

text \<open>The API a pull request is made at.\<close>

definition api_call :: "remote_call \<Rightarrow> bool" where
  "api_call c \<longleftrightarrow> is_http ''https://api.github.com/repos/'' c \<or> is_http ''https://api.bitbucket.org/2.0/repositories/'' c"

lemma HasPrefix_base:
  "HasPrefix (NewGitHubClient [] @ ''/repos/'' @ x) ''https://api.github.com/repos/''"
  "HasPrefix (NewBitbucketClient [] @ ''/repositories/'' @ x) ''https://api.bitbucket.org/2.0/repositories/''"
  by (simp_all add: NewGitHubClient_def NewBitbucketClient_def)

lemma remotes_PR: "remotes (createPlatformPR n d cfg) (\<lambda>r l. list_all api_call l)"
proof -
  have api: "remotes m (\<lambda>r l. list_all (is_http p) l) \<Longrightarrow> p \<in> {''https://api.github.com/repos/'', ''https://api.bitbucket.org/2.0/repositories/''} \<Longrightarrow>
      remotes m (\<lambda>r l. list_all api_call l)" for m :: "('m tm_world_scheme, 'y) state" and p
    by (erule remotes_conseq) (auto simp: api_call_def elim: list.pred_mono_strong)
  have gh1: "remotes (gh_CreatePullRequest (NewGitHubClient []) o1) (\<lambda>r l. list_all api_call l)" for o1
    unfolding gh_CreatePullRequest_def
    by (rule api, rule remotes_rest [where p = "''https://api.github.com/repos/''"])
       (simp only: http_request.simps HasPrefix_base append.assoc, intro local_decoded local_intros, simp)
  have gh2: "remotes (gh_RequestReviewers (NewGitHubClient []) a b i rs t) (\<lambda>r l. list_all api_call l)" for a b i rs t
    unfolding gh_RequestReviewers_def
    by (rule api, rule remotes_rest [where p = "''https://api.github.com/repos/''"])
       (simp only: http_request.simps HasPrefix_base append.assoc, intro local_intros, simp)
  note gh = gh1 gh2
  have bb: "remotes (bb_CreatePullRequest (NewBitbucketClient []) o1) (\<lambda>r l. list_all api_call l)" for o1
    unfolding bb_CreatePullRequest_def Let_def
    by (rule api, rule remotes_rest [where p = "''https://api.bitbucket.org/2.0/repositories/''"])
       (simp only: http_request.simps HasPrefix_base append.assoc, intro local_decoded local_intros, simp)
  have w: "local_only (openRepo d)" "local_only (getCurrentBranch d)" "local_only (State_Monad.return x)" for x :: "'x"
    unfolding openRepo_def getCurrentBranch_def by (intro local_intros, auto)+
  have rv: "remotes (when_do b (ignore (gh_RequestReviewers (NewGitHubClient []) a c i rs t))) (\<lambda>r l. list_all api_call l)" for b a c i rs t
    unfolding when_do_def ignore_def by (auto intro!: remotes_return remotes_bind [OF gh(2)])
  note triv = remotes_local [of _ "\<lambda>x l. l = []"]
  show ?thesis
    unfolding createPlatformPR_def
    apply (rule remotes_or_fail [OF triv [OF w(1)]], simp, simp)
    apply (rule remotes_or_fail [OF triv [OF w(2)]], simp, simp)
    apply (cases "DetectPlatform (rc_URL cfg)"; simp only: Platform.case)
      apply (rule remotes_or_fail [OF triv], rule local_return, simp, simp)
      apply (rule remotes_or_fail [OF bb], simp, rule remotes_ok, simp)
     apply (rule remotes_or_fail [OF triv], rule local_return, simp, simp)
     apply (rule remotes_or_fail [OF gh(1)], simp)
     apply (rule remotes_bind [OF rv], rule remotes_ok, simp)
    apply (rule remotes_err, simp)
    done
qed

text \<open>What the configuration allows, the stage of a call, and what a result says of the calls.\<close>

fun allowed :: "string \<Rightarrow> string \<Rightarrow> RepoConfig \<Rightarrow> remote_call \<Rightarrow> bool" where
  "allowed n d cfg (GitAdd d') = (d' = d \<and> rc_AutoCommit cfg)"
| "allowed n d cfg (GitCommit d' m) = (d' = d \<and> rc_AutoCommit cfg \<and> m = ''klaudio: '' @ n)"
| "allowed n d cfg (GitPush d' a) = (d' = d \<and> rc_AutoPush cfg \<and> a = buildAuth cfg)"
| "allowed n d cfg (HttpDo q) = (rc_AutoPR cfg \<and> api_call (HttpDo q))"
| "allowed n d cfg c = False"

fun stage :: "remote_call \<Rightarrow> nat" where
  "stage (GitAdd _) = 1" | "stage (GitCommit _ _) = 2" | "stage (GitPush _ _) = 3" | "stage c = 4"

definition post_result :: "string \<Rightarrow> string \<Rightarrow> RepoConfig \<Rightarrow> string + PostExecResult \<Rightarrow> remote_call list \<Rightarrow> bool" where
  "post_result n d cfg r l \<longleftrightarrow> (case r of Inl _ \<Rightarrow> True | Inr res \<Rightarrow>
     if per_HasChanges res
     then (rc_AutoCommit cfg \<longrightarrow> GitCommit d (''klaudio: '' @ n) \<in> set l) \<and> per_Pushed res = rc_AutoPush cfg \<and>
          (rc_AutoPush cfg \<longrightarrow> GitPush d (buildAuth cfg) \<in> set l)
     else l = [] \<and> \<not> per_Pushed res)"

definition new_remote :: "'m tm_world_scheme \<Rightarrow> 'm tm_world_scheme \<Rightarrow> remote_call list" where
  "new_remote w w' = drop (length (w_remote w)) (w_remote w')"

definition post_ok :: "string \<Rightarrow> string \<Rightarrow> RepoConfig \<Rightarrow> string + PostExecResult \<Rightarrow> remote_call list \<Rightarrow> bool" where
  "post_ok n d cfg r l \<longleftrightarrow> list_all (allowed n d cfg) l \<and> sorted (map stage l) \<and> post_result n d cfg r l"

lemma api_allowed: "api_call c \<Longrightarrow> rc_AutoPR cfg \<Longrightarrow> allowed n d cfg c \<and> stage c = 4"
  by (cases c) (auto simp: api_call_def is_http_def)

lemma apis_ok:
  assumes "rc_AutoPR cfg" "list_all api_call l"
  shows "list_all (allowed n d cfg) l \<and> sorted (map stage l) \<and> (\<forall>k \<in> set l. stage k = 4)"
  using assms(2) by (induction l) (auto simp: api_allowed [OF _ assms(1)])

lemma remotes_PostExecution: "remotes (PostExecution n d cfg) (post_ok n d cfg)"
proof -
  define commits where "commits = (if rc_AutoCommit cfg then [GitAdd d, GitCommit d (''klaudio: '' @ n)] else [])"
  define pushes where "pushes = (if rc_AutoPush cfg then [GitPush d (buildAuth cfg)] else [])"
  have c: "remotes (if rc_AutoCommit cfg then CommitAll d (''klaudio: '' @ n) else ok [])
      (\<lambda>r l. (case r of Inl _ \<Rightarrow> post_ok n d cfg (Inl []) l | Inr _ \<Rightarrow> l = commits))"
    by (auto intro!: remotes_conseq [OF remotes_CommitAll] remotes_ok simp: commits_def post_ok_def post_result_def split: sum.split)
  have p: "remotes (if rc_AutoPush cfg then Push d cfg else ok ())
      (\<lambda>r l. (case r of Inl _ \<Rightarrow> post_ok n d cfg (Inl []) (commits @ l) | Inr _ \<Rightarrow> l = pushes))"
    by (auto intro!: remotes_conseq [OF remotes_Push] remotes_ok simp: commits_def pushes_def post_ok_def post_result_def split: sum.split)
  have u: "remotes (if rc_AutoPR cfg then try_bind (createPlatformPR n d cfg) err (\<lambda>pr. ok (pul_URL pr)) else ok [])
      (\<lambda>r l. list_all (allowed n d cfg) l \<and> sorted (map stage l) \<and> (\<forall>k \<in> set l. stage k = 4))"
    by (auto intro!: remotes_try [OF remotes_PR] remotes_ok remotes_err simp: apis_ok)
  have ap: "post_ok n d cfg r (commits @ pushes @ l)" if "list_all (allowed n d cfg) l \<and> sorted (map stage l) \<and> (\<forall>k \<in> set l. stage k = 4)"
    "case r of Inl _ \<Rightarrow> True | Inr res \<Rightarrow> per_HasChanges res \<and> per_Pushed res = rc_AutoPush cfg" for r l
    using that by (auto simp: post_ok_def post_result_def commits_def pushes_def sorted_append split: sum.splits)
  have inl: "post_ok n d cfg (Inl e) l = post_ok n d cfg (Inl e') l" for e e' l by (simp add: post_ok_def post_result_def)
  show ?thesis
    unfolding PostExecution_def
    apply (rule remotes_or_fail [OF remotes_local [OF local_HasChanges, of "\<lambda>x l. l = []"]], simp)
      apply (simp add: post_ok_def post_result_def)
    apply (simp split del: if_split)
    apply (rule if_split [THEN iffD2], intro conjI impI)
     apply (rule remotes_ok, simp add: post_ok_def post_result_def)
    apply (rule remotes_or_fail [OF c], simp, subst inl, assumption, simp split del: if_split)
    apply (rule remotes_or_fail [OF p], simp, subst inl, assumption, simp split del: if_split)
    apply (rule remotes_try [OF u])
     apply (rule remotes_err, simp add: ap)
    apply (rule remotes_ok, simp add: ap)
    done
qed


end
