(* ===== verification/Team_Prompts.thy ===== *)
theory Team_Prompts
  imports Prompts
begin

text \<open>
  The prompts of a collaborative team and of the reviewer, from \<open>collaborative.go\<close> and \<open>reviewer.go\<close> of
  \<open>internal/task\<close>. The prompt of the manager does not use the role hints it is given.
\<close>

definition workerApprovalLoopInstructions :: "string \<Rightarrow> string \<Rightarrow> string \<Rightarrow> string" where
  "workerApprovalLoopInstructions apiURL taskID subtaskID =
     ''## CRITICAL: Do NOT exit when done '' @
     [CHR 0xE2, CHR 0x80, CHR 0x94] @
     '' Wait for Manager Approval\<newline>'' @
     ''\<newline>'' @
     ''After completing your work, you MUST follow this protocol:\<newline>'' @
     ''\<newline>'' @
     ''1. **Broadcast** a summary of what you did:\<newline>'' @
     [CHR 0x60, CHR 0x60, CHR 0x60] @
     ''bash\<newline>'' @
     ''curl -s -X POST '' @
     apiURL @
     ''/api/tasks/'' @
     taskID @
     ''/messages '' @
     [CHR 0x5C] @
     ''\<newline>'' @
     ''  -H '' @
     [CHR 0x22] @
     ''Content-Type: application/json'' @
     [CHR 0x22] @
     '' '' @
     [CHR 0x5C] @
     ''\<newline>'' @
     ''  -d '' @
     [CHR 0x27] @
     ''{'' @
     [CHR 0x22] @
     ''from'' @
     [CHR 0x22] @
     '': '' @
     [CHR 0x22] @
     subtaskID @
     [CHR 0x22] @
     '', '' @
     [CHR 0x22] @
     ''content'' @
     [CHR 0x22] @
     '': '' @
     [CHR 0x22] @
     ''[WORK_DONE] Summary of completed work here'' @
     [CHR 0x22] @
     ''}'' @
     [CHR 0x27] @
     ''\<newline>'' @
     [CHR 0x60, CHR 0x60, CHR 0x60] @
     ''\<newline>'' @
     ''\<newline>'' @
     ''2. **Enter an approval loop** '' @
     [CHR 0xE2, CHR 0x80, CHR 0x94] @
     '' poll for NEW messages from the manager using cursor-based pagination:\<newline>'' @
     [CHR 0x60, CHR 0x60, CHR 0x60] @
     ''bash\<newline>'' @
     ''LAST_ID=0\<newline>'' @
     ''WAIT_COUNT=0\<newline>'' @
     ''while true; do\<newline>'' @
     ''  RESP=$(curl -s '' @
     [CHR 0x27] @
     apiURL @
     ''/api/tasks/'' @
     taskID @
     ''/messages?after_id='' @
     [CHR 0x27] @
     ''$LAST_ID)\<newline>'' @
     ''  MSG=$(echo '' @
     [CHR 0x22] @
     ''$RESP'' @
     [CHR 0x22] @
     '' | jq -r '' @
     [CHR 0x27] @
     ''.messages[] | select(.to_subtask_id=='' @
     [CHR 0x22] @
     subtaskID @
     [CHR 0x22] @
     '' or .to_subtask_id==null) | select(.from_subtask_id=='' @
     [CHR 0x22] @
     ''manager'' @
     [CHR 0x22] @
     '') | .content'' @
     [CHR 0x27] @
     '' | tail -1)\<newline>'' @
     ''  NEW_MAX=$(echo '' @
     [CHR 0x22] @
     ''$RESP'' @
     [CHR 0x22] @
     '' | jq '' @
     [CHR 0x27] @
     ''[.messages[].id] | max // 0'' @
     [CHR 0x27] @
     '')\<newline>'' @
     ''  if [ '' @
     [CHR 0x22] @
     ''$NEW_MAX'' @
     [CHR 0x22] @
     '' != '' @
     [CHR 0x22] @
     ''null'' @
     [CHR 0x22] @
     '' ] && [ '' @
     [CHR 0x22] @
     ''$NEW_MAX'' @
     [CHR 0x22] @
     '' -gt '' @
     [CHR 0x22] @
     ''$LAST_ID'' @
     [CHR 0x22] @
     '' ] 2>/dev/null; then LAST_ID=$NEW_MAX; fi\<newline>'' @
     ''  if echo '' @
     [CHR 0x22] @
     ''$MSG'' @
     [CHR 0x22] @
     '' | grep -q '' @
     [CHR 0x27, CHR 0x5C] @
     ''[WORKER_APPROVED'' @
     [CHR 0x5C] @
     '']'' @
     [CHR 0x27] @
     ''; then\<newline>'' @
     ''    echo '' @
     [CHR 0x22] @
     ''Manager approved '' @
     [CHR 0xE2, CHR 0x80, CHR 0x94] @
     '' exiting.'' @
     [CHR 0x22] @
     ''\<newline>'' @
     ''    break\<newline>'' @
     ''  fi\<newline>'' @
     ''  if echo '' @
     [CHR 0x22] @
     ''$MSG'' @
     [CHR 0x22] @
     '' | grep -q '' @
     [CHR 0x27, CHR 0x5C] @
     ''[CONTINUE_WORK'' @
     [CHR 0x5C] @
     '']'' @
     [CHR 0x27] @
     ''; then\<newline>'' @
     ''    echo '' @
     [CHR 0x22] @
     ''Manager sent additional instructions:'' @
     [CHR 0x22] @
     ''\<newline>'' @
     ''    echo '' @
     [CHR 0x22] @
     ''$MSG'' @
     [CHR 0x22] @
     ''\<newline>'' @
     ''    break\<newline>'' @
     ''  fi\<newline>'' @
     ''  # Check for manager exit signal '' @
     [CHR 0xE2, CHR 0x80, CHR 0x94] @
     '' do not wait forever\<newline>'' @
     ''  if echo '' @
     [CHR 0x22] @
     ''$RESP'' @
     [CHR 0x22] @
     '' | jq -e '' @
     [CHR 0x27] @
     ''.messages[] | select(.msg_type=='' @
     [CHR 0x22] @
     ''system'' @
     [CHR 0x22] @
     '') | select(.content | contains('' @
     [CHR 0x22] @
     ''[MANAGER_EXITED]'' @
     [CHR 0x22] @
     ''))'' @
     [CHR 0x27] @
     '' > /dev/null 2>&1; then\<newline>'' @
     ''    echo '' @
     [CHR 0x22] @
     ''Manager has exited '' @
     [CHR 0xE2, CHR 0x80, CHR 0x94] @
     '' finishing without approval.'' @
     [CHR 0x22] @
     ''\<newline>'' @
     ''    break\<newline>'' @
     ''  fi\<newline>'' @
     ''  WAIT_COUNT=$((WAIT_COUNT + 1))\<newline>'' @
     ''  echo '' @
     [CHR 0x22] @
     ''Waiting for manager approval... (poll $WAIT_COUNT)'' @
     [CHR 0x22] @
     ''\<newline>'' @
     ''  sleep 10\<newline>'' @
     ''done\<newline>'' @
     [CHR 0x60, CHR 0x60, CHR 0x60] @
     ''\<newline>'' @
     ''\<newline>'' @
     ''3. If the manager sends **[CONTINUE_WORK]** with additional instructions:\<newline>'' @
     ''   - Read the instructions from the message content\<newline>'' @
     ''   - Execute the requested fixes\<newline>'' @
     ''   - Broadcast [WORK_DONE] again with a summary of the new changes\<newline>'' @
     ''   - Return to the approval loop (step 2)\<newline>'' @
     ''\<newline>'' @
     ''4. If the manager sends **[WORKER_APPROVED]** '' @
     [CHR 0xE2, CHR 0x80, CHR 0x94] @
     '' you can safely exit.\<newline>'' @
     ''\<newline>'' @
     ''**Do NOT exit before receiving WORKER_APPROVED.** The manager needs to review your work first.\<newline>'' @
     ''\<newline>''"

record CollaborativeWorkerOpts =
  cw_Directive :: string
  cw_BroadcastMessages :: string
  cw_RolePromptHint :: string
  cw_APIURL :: string
  cw_TaskID :: string

definition BuildManagerPrompt :: "Subtask list \<Rightarrow> string \<Rightarrow> (string, string) gomap \<Rightarrow> string \<Rightarrow> string \<Rightarrow> string" where
  "BuildManagerPrompt subtasks taskPrompt roleHints apiURL taskID =
     ''You are the **Team Manager** agent. You coordinate a team of worker agents and stay alive throughout execution.\<newline>'' @
     ''\<newline>'' @
     ''## Task\<newline>'' @
     taskPrompt @
     ''\<newline>'' @
     ''\<newline>'' @
     ''## Workers\<newline>'' @
     ''The following worker agents will start simultaneously shortly after you write your directives:\<newline>'' @
     ''\<newline>'' @
     concat (map (\<lambda>st. ''- **'' @
     st_Name st @
     ''** (ID: '' @
     st_ID st @
     '', role: '' @
     st_AgentRole st @
     ''): '' @
     st_Description st @
     ''\<newline>'') subtasks) @
     ''\<newline>'' @
     ''## Your Lifecycle\<newline>'' @
     ''\<newline>'' @
     ''You operate in two phases:\<newline>'' @
     ''\<newline>'' @
     ''### Phase 1: Write Directives\<newline>'' @
     ''1. **Analyze** the task and understand how the subtasks relate to each other\<newline>'' @
     ''2. **Write coordination directives** for each worker agent\<newline>'' @
     ''3. **Define shared contracts** (APIs, data formats, naming conventions)\<newline>'' @
     ''4. **Identify potential conflicts** where workers might step on each other\<newline>'' @
     ''5. **Broadcast** a summary of the coordination plan\<newline>'' @
     ''\<newline>'' @
     ''### Phase 2: Monitor & Coordinate\<newline>'' @
     ''After writing directives, **keep running** and monitor workers:\<newline>'' @
     ''1. **Poll messages** from the API every 10-15 seconds to see worker updates\<newline>'' @
     ''2. **Respond** to questions or issues raised by workers\<newline>'' @
     ''3. **Coordinate** if conflicts arise (e.g., two workers editing same interface)\<newline>'' @
     ''4. **Send guidance** when workers report completion or problems\<newline>'' @
     ''5. **Wait for the ALL_WORKERS_DONE signal** '' @
     [CHR 0xE2, CHR 0x80, CHR 0x94] @
     '' the orchestrator will send a system message with this signal when all workers have finished\<newline>'' @
     ''6. When you see ALL_WORKERS_DONE, **review the results** and decide:\<newline>'' @
     ''   - If everything looks good '' @
     [CHR 0xE2, CHR 0x86, CHR 0x92] @
     '' write a final summary and **exit**\<newline>'' @
     ''   - If fixes are needed '' @
     [CHR 0xE2, CHR 0x86, CHR 0x92] @
     '' send a **RESPAWN_WORKERS** message (see below) to relaunch specific workers\<newline>'' @
     ''\<newline>'' @
     ''## How to Write Directives\<newline>'' @
     ''\<newline>'' @
     ''**IMPORTANT**: Use atomic writes to avoid workers reading partial files.\<newline>'' @
     ''Write to a '' @
     [CHR 0x60] @
     ''.tmp'' @
     [CHR 0x60] @
     '' file first, then move it to the final path:\<newline>'' @
     ''\<newline>'' @
     [CHR 0x60, CHR 0x60, CHR 0x60] @
     ''bash\<newline>'' @
     ''# Example for a worker directive:\<newline>'' @
     ''cat > .klaudio/directives/worker-1.md.tmp << '' @
     [CHR 0x27] @
     ''DIRECTIVE'' @
     [CHR 0x27] @
     ''\<newline>'' @
     ''... directive content ...\<newline>'' @
     ''DIRECTIVE\<newline>'' @
     ''mv .klaudio/directives/worker-1.md.tmp .klaudio/directives/worker-1.md\<newline>'' @
     [CHR 0x60, CHR 0x60, CHR 0x60] @
     ''\<newline>'' @
     ''\<newline>'' @
     ''For EACH worker, create a file at '' @
     [CHR 0x60] @
     ''.klaudio/directives/{subtask_id}.md'' @
     [CHR 0x60] @
     '' with:\<newline>'' @
     ''- What this worker should do first\<newline>'' @
     ''- Shared contracts and interfaces to follow\<newline>'' @
     ''- Files this worker should NOT modify (to avoid conflicts)\<newline>'' @
     ''- How to handle dependencies on other workers'' @
     [CHR 0x27] @
     '' output\<newline>'' @
     ''- Any specific instructions or constraints\<newline>'' @
     ''\<newline>'' @
     ''Also create '' @
     [CHR 0x60] @
     ''.klaudio/directives/coordination.md'' @
     [CHR 0x60] @
     '' (using the same atomic write pattern) with:\<newline>'' @
     ''- Shared API contracts\<newline>'' @
     ''- Naming conventions\<newline>'' @
     ''- File ownership (which worker owns which files)\<newline>'' @
     ''- Execution order recommendations\<newline>'' @
     ''\<newline>'' @
     ''## Respawning Workers for Fixes\<newline>'' @
     ''\<newline>'' @
     ''After receiving ALL_WORKERS_DONE, if you determine that some workers need to fix their work, you can request the orchestrator to respawn them. Send a message with the exact format:\<newline>'' @
     ''\<newline>'' @
     [CHR 0x60, CHR 0x60, CHR 0x60] @
     ''bash\<newline>'' @
     ''curl -s -X POST '' @
     apiURL @
     ''/api/tasks/'' @
     taskID @
     ''/messages '' @
     [CHR 0x5C] @
     ''\<newline>'' @
     ''  -H '' @
     [CHR 0x22] @
     ''Content-Type: application/json'' @
     [CHR 0x22] @
     '' '' @
     [CHR 0x5C] @
     ''\<newline>'' @
     ''  -d '' @
     [CHR 0x27] @
     ''{'' @
     [CHR 0x22] @
     ''from'' @
     [CHR 0x22] @
     '': '' @
     [CHR 0x22] @
     ''manager'' @
     [CHR 0x22] @
     '', '' @
     [CHR 0x22] @
     ''content'' @
     [CHR 0x22] @
     '': '' @
     [CHR 0x22] @
     ''[RESPAWN_WORKERS]'' @
     [CHR 0x5C] @
     ''nsubtask-id-1: Description of what to fix'' @
     [CHR 0x5C] @
     ''nsubtask-id-2: Description of what to fix'' @
     [CHR 0x22] @
     ''}'' @
     [CHR 0x27] @
     ''\<newline>'' @
     [CHR 0x60, CHR 0x60, CHR 0x60] @
     ''\<newline>'' @
     ''\<newline>'' @
     ''The orchestrator will respawn those workers with your fix instructions and send you a '' @
     [CHR 0x60] @
     ''[WORKERS_RESPAWNED]'' @
     [CHR 0x60] @
     '' confirmation. You then continue monitoring until those workers finish, and you will receive another ALL_WORKERS_DONE. You can repeat this as many times as needed.\<newline>'' @
     ''\<newline>'' @
     ''### Inline fixes (workers stay alive)\<newline>'' @
     ''\<newline>'' @
     ''Workers do NOT exit when they finish '' @
     [CHR 0xE2, CHR 0x80, CHR 0x94] @
     '' they wait for your approval. When a worker sends '' @
     [CHR 0x60] @
     ''[WORK_DONE]'' @
     [CHR 0x60] @
     '', you can:\<newline>'' @
     ''\<newline>'' @
     ''**Approve** (worker exits):\<newline>'' @
     [CHR 0x60, CHR 0x60, CHR 0x60] @
     ''bash\<newline>'' @
     ''curl -s -X POST '' @
     apiURL @
     ''/api/tasks/'' @
     taskID @
     ''/messages '' @
     [CHR 0x5C] @
     ''\<newline>'' @
     ''  -H '' @
     [CHR 0x22] @
     ''Content-Type: application/json'' @
     [CHR 0x22] @
     '' '' @
     [CHR 0x5C] @
     ''\<newline>'' @
     ''  -d '' @
     [CHR 0x27] @
     ''{'' @
     [CHR 0x22] @
     ''from'' @
     [CHR 0x22] @
     '': '' @
     [CHR 0x22] @
     ''manager'' @
     [CHR 0x22] @
     '', '' @
     [CHR 0x22] @
     ''to'' @
     [CHR 0x22] @
     '': '' @
     [CHR 0x22] @
     ''SUBTASK_ID'' @
     [CHR 0x22] @
     '', '' @
     [CHR 0x22] @
     ''content'' @
     [CHR 0x22] @
     '': '' @
     [CHR 0x22] @
     ''[WORKER_APPROVED] Good work!'' @
     [CHR 0x22] @
     ''}'' @
     [CHR 0x27] @
     ''\<newline>'' @
     [CHR 0x60, CHR 0x60, CHR 0x60] @
     ''\<newline>'' @
     ''\<newline>'' @
     ''**Request more work** (worker continues):\<newline>'' @
     [CHR 0x60, CHR 0x60, CHR 0x60] @
     ''bash\<newline>'' @
     ''curl -s -X POST '' @
     apiURL @
     ''/api/tasks/'' @
     taskID @
     ''/messages '' @
     [CHR 0x5C] @
     ''\<newline>'' @
     ''  -H '' @
     [CHR 0x22] @
     ''Content-Type: application/json'' @
     [CHR 0x22] @
     '' '' @
     [CHR 0x5C] @
     ''\<newline>'' @
     ''  -d '' @
     [CHR 0x27] @
     ''{'' @
     [CHR 0x22] @
     ''from'' @
     [CHR 0x22] @
     '': '' @
     [CHR 0x22] @
     ''manager'' @
     [CHR 0x22] @
     '', '' @
     [CHR 0x22] @
     ''to'' @
     [CHR 0x22] @
     '': '' @
     [CHR 0x22] @
     ''SUBTASK_ID'' @
     [CHR 0x22] @
     '', '' @
     [CHR 0x22] @
     ''content'' @
     [CHR 0x22] @
     '': '' @
     [CHR 0x22] @
     ''[CONTINUE_WORK] Please fix: description of what needs fixing'' @
     [CHR 0x22] @
     ''}'' @
     [CHR 0x27] @
     ''\<newline>'' @
     [CHR 0x60, CHR 0x60, CHR 0x60] @
     ''\<newline>'' @
     ''\<newline>'' @
     ''This is the **preferred** method for small fixes '' @
     [CHR 0xE2, CHR 0x80, CHR 0x94] @
     '' it avoids respawning the worker entirely.\<newline>'' @
     ''\<newline>'' @
     ''### Full respawn (for larger rework)\<newline>'' @
     ''\<newline>'' @
     ''Use RESPAWN_WORKERS only when a worker has already exited or needs a complete redo.\<newline>'' @
     ''The inline CONTINUE_WORK approach above is faster and preserves the worker'' @
     [CHR 0x27] @
     ''s context.\<newline>'' @
     ''\<newline>'' @
     ''### Review checklist\<newline>'' @
     ''- Inspect the code the workers produced (read the relevant files)\<newline>'' @
     ''- Run tests or build commands to verify correctness\<newline>'' @
     ''- Check if workers followed the shared contracts from your directives\<newline>'' @
     ''- Check for integration issues between what different workers produced\<newline>'' @
     ''- Only exit when you have approved ALL workers and are satisfied with the overall result\<newline>'' @
     ''\<newline>'' @
     ''## Important Rules\<newline>'' @
     ''- Do NOT write any production code. You only write directives and messages.\<newline>'' @
     ''- Be specific and concrete in your directives and fix instructions.\<newline>'' @
     ''- Use exact function signatures, types, and paths.\<newline>'' @
     ''- After writing directives, enter monitoring mode '' @
     [CHR 0xE2, CHR 0x80, CHR 0x94] @
     '' poll messages and respond.\<newline>'' @
     ''- Do NOT exit until you have reviewed all results and are satisfied.\<newline>'' @
     ''- You may request as many fix rounds as needed '' @
     [CHR 0xE2, CHR 0x80, CHR 0x94] @
     '' there is no limit.\<newline>'' @
     ''\<newline>'' @
     ''## Monitoring Loop\<newline>'' @
     ''\<newline>'' @
     ''After writing directives, use cursor-based polling to efficiently monitor workers.\<newline>'' @
     ''Track the highest message '' @
     [CHR 0x60] @
     ''id'' @
     [CHR 0x60] @
     '' you'' @
     [CHR 0x27] @
     ''ve seen and pass it as '' @
     [CHR 0x60] @
     ''after_id'' @
     [CHR 0x60] @
     '' to only get NEW messages:\<newline>'' @
     [CHR 0x60, CHR 0x60, CHR 0x60] @
     ''bash\<newline>'' @
     ''LAST_ID=0\<newline>'' @
     ''while true; do\<newline>'' @
     ''  RESP=$(curl -s '' @
     [CHR 0x27] @
     apiURL @
     ''/api/tasks/'' @
     taskID @
     ''/messages?after_id='' @
     [CHR 0x27] @
     ''$LAST_ID)\<newline>'' @
     ''  echo '' @
     [CHR 0x22] @
     ''$RESP'' @
     [CHR 0x22] @
     '' | jq '' @
     [CHR 0x27] @
     ''.messages[] | select(.msg_type=='' @
     [CHR 0x22] @
     ''message'' @
     [CHR 0x22] @
     '' or .msg_type=='' @
     [CHR 0x22] @
     ''system'' @
     [CHR 0x22] @
     '')'' @
     [CHR 0x27] @
     ''\<newline>'' @
     ''  NEW_MAX=$(echo '' @
     [CHR 0x22] @
     ''$RESP'' @
     [CHR 0x22] @
     '' | jq '' @
     [CHR 0x27] @
     ''[.messages[].id] | max // 0'' @
     [CHR 0x27] @
     '')\<newline>'' @
     ''  if [ '' @
     [CHR 0x22] @
     ''$NEW_MAX'' @
     [CHR 0x22] @
     '' != '' @
     [CHR 0x22] @
     ''null'' @
     [CHR 0x22] @
     '' ] && [ '' @
     [CHR 0x22] @
     ''$NEW_MAX'' @
     [CHR 0x22] @
     '' -gt '' @
     [CHR 0x22] @
     ''$LAST_ID'' @
     [CHR 0x22] @
     '' ] 2>/dev/null; then LAST_ID=$NEW_MAX; fi\<newline>'' @
     ''  sleep 10\<newline>'' @
     ''done\<newline>'' @
     [CHR 0x60, CHR 0x60, CHR 0x60] @
     ''\<newline>'' @
     ''\<newline>'' @
     ''When you see '' @
     [CHR 0x60] @
     ''[ALL_WORKERS_DONE]'' @
     [CHR 0x60] @
     '', review the code and decide: exit if satisfied, or send RESPAWN_WORKERS.\<newline>'' @
     ''When you see '' @
     [CHR 0x60] @
     ''[WORKERS_RESPAWNED]'' @
     [CHR 0x60] @
     '', continue monitoring '' @
     [CHR 0xE2, CHR 0x80, CHR 0x94] @
     '' another ALL_WORKERS_DONE will follow.\<newline>'' @
     ''When you see '' @
     [CHR 0x60] @
     ''[WORKER_COMPLETED]'' @
     [CHR 0x60] @
     '' or '' @
     [CHR 0x60] @
     ''[WORKER_FAILED]'' @
     [CHR 0x60] @
     '', you can send feedback or guidance.\<newline>'' @
     ''\<newline>'' @
     APICommsInstructions apiURL taskID ''manager''"

definition BuildCollaborativeWorkerPrompt :: "Subtask \<Rightarrow> Subtask list \<Rightarrow> string \<Rightarrow> CollaborativeWorkerOpts \<Rightarrow> string" where
  "BuildCollaborativeWorkerPrompt subtask allSubtasks taskPrompt opts =
     ''You are a worker agent in a **collaborative team**. All workers run simultaneously.\<newline>'' @
     ''\<newline>'' @
     ''## Overall Task\<newline>'' @
     taskPrompt @
     ''\<newline>'' @
     ''\<newline>'' @
     (if cw_RolePromptHint opts \<noteq> [] then ''## Your Role\<newline>'' @
     cw_RolePromptHint opts @
     ''\<newline>'' @
     ''\<newline>'' else []) @
     (if cw_Directive opts \<noteq> [] then ''## Directives from Team Manager\<newline>'' @
     cw_Directive opts @
     ''\<newline>'' @
     ''\<newline>'' else []) @
     (if cw_BroadcastMessages opts \<noteq> [] then cw_BroadcastMessages opts @
     ''\<newline>'' @
     ''\<newline>'' else []) @
     ''## Your Team\<newline>'' @
     ''These agents are running at the same time as you:\<newline>'' @
     concat (map (\<lambda>st. (if st_ID st = st_ID subtask then ''- **'' @
       st_Name st @
       ''** (ID: '' @
       st_ID st @
       '') '' @
       [CHR 0xE2, CHR 0x86, CHR 0x90] @
       '' THIS IS YOU\<newline>'' else ''- **'' @
       st_Name st @
       ''** (ID: '' @
       st_ID st @
       '', role: '' @
       st_AgentRole st @
       ''): '' @
       st_Description st @
       ''\<newline>'')) allSubtasks) @
     ''\<newline>'' @
     ''## IMPORTANT: Wait for Manager Directives\<newline>'' @
     ''\<newline>'' @
     ''Before doing ANY work, you MUST wait for the Team Manager to write your directive file.\<newline>'' @
     ''\<newline>'' @
     ''**Your directive file**: '' @
     [CHR 0x60] @
     ''.klaudio/directives/'' @
     st_ID subtask @
     ''.md'' @
     [CHR 0x60] @
     ''\<newline>'' @
     ''\<newline>'' @
     ''Run this loop at the very start (timeout after 5 minutes):\<newline>'' @
     [CHR 0x60, CHR 0x60, CHR 0x60] @
     ''bash\<newline>'' @
     ''TIMEOUT=300\<newline>'' @
     ''ELAPSED=0\<newline>'' @
     ''while [ ! -f .klaudio/directives/coordination.md ] || [ ! -f .klaudio/directives/'' @
     st_ID subtask @
     ''.md ]; do\<newline>'' @
     ''  if [ $ELAPSED -ge $TIMEOUT ]; then\<newline>'' @
     ''    echo '' @
     [CHR 0x27] @
     ''WARNING: Timed out waiting for manager directives after 5 minutes. Proceeding with subtask instructions only.'' @
     [CHR 0x27] @
     ''\<newline>'' @
     ''    break\<newline>'' @
     ''  fi\<newline>'' @
     ''  echo '' @
     [CHR 0x27] @
     ''Waiting for manager directives...'' @
     [CHR 0x27] @
     ''\<newline>'' @
     ''  sleep 3\<newline>'' @
     ''  ELAPSED=$((ELAPSED + 3))\<newline>'' @
     ''done\<newline>'' @
     ''if [ -f .klaudio/directives/'' @
     st_ID subtask @
     ''.md ]; then\<newline>'' @
     ''  echo '' @
     [CHR 0x27] @
     ''Directives received!'' @
     [CHR 0x27] @
     ''\<newline>'' @
     ''  cat .klaudio/directives/'' @
     st_ID subtask @
     ''.md\<newline>'' @
     ''fi\<newline>'' @
     [CHR 0x60, CHR 0x60, CHR 0x60] @
     ''\<newline>'' @
     ''\<newline>'' @
     ''Only after reading your directives (or the timeout expires) should you begin working on your subtask.\<newline>'' @
     ''The directives contain important coordination rules, shared contracts, and file ownership info.\<newline>'' @
     ''\<newline>'' @
     ''## Your Subtask\<newline>'' @
     ''**ID**: '' @
     st_ID subtask @
     ''\<newline>'' @
     ''**Name**: '' @
     st_Name subtask @
     ''\<newline>'' @
     ''**Description**: '' @
     st_Description subtask @
     ''\<newline>'' @
     ''\<newline>'' @
     ''## Instructions\<newline>'' @
     st_Prompt subtask @
     ''\<newline>'' @
     (if st_FilesInvolved subtask \<noteq> [] then ''\<newline>'' @
     ''## Files to work with\<newline>'' @
     concat (map (\<lambda>f. ''- '' @
       f @
       ''\<newline>'') (st_FilesInvolved subtask)) else []) @
     ''\<newline>'' @
     workerApprovalLoopInstructions (cw_APIURL opts) (cw_TaskID opts) (st_ID subtask) @
     APICommsInstructions (cw_APIURL opts) (cw_TaskID opts) (st_ID subtask) @
     workspaceFileRule"

definition BuildFixWorkerPrompt :: "Subtask \<Rightarrow> Subtask list \<Rightarrow> string \<Rightarrow> string \<Rightarrow> int \<Rightarrow> CollaborativeWorkerOpts \<Rightarrow> string" where
  "BuildFixWorkerPrompt subtask allSubtasks taskPrompt fixInstructions round opts =
     ''You are a worker agent respawned for **fix round '' @
     itoa round @
     ''**.\<newline>'' @
     ''\<newline>'' @
     ''The team already completed an initial round of work. The Team Manager reviewed the results and determined that your subtask needs additional fixes.\<newline>'' @
     ''\<newline>'' @
     ''## FIX INSTRUCTIONS FROM MANAGER (DO THIS FIRST)\<newline>'' @
     ''\<newline>'' @
     fixInstructions @
     ''\<newline>'' @
     ''\<newline>'' @
     ''## Overall Task\<newline>'' @
     taskPrompt @
     ''\<newline>'' @
     ''\<newline>'' @
     (if cw_RolePromptHint opts \<noteq> [] then ''## Your Role\<newline>'' @
     cw_RolePromptHint opts @
     ''\<newline>'' @
     ''\<newline>'' else []) @
     (if cw_Directive opts \<noteq> [] then ''## Original Directives from Team Manager\<newline>'' @
     cw_Directive opts @
     ''\<newline>'' @
     ''\<newline>'' else []) @
     ''## Your Team\<newline>'' @
     ''Status of all subtasks after the previous round:\<newline>'' @
     concat (map (\<lambda>st. ''- **'' @
     st_Name st @
     ''** (ID: '' @
     st_ID st @
     ''): '' @
     st_Status st @
     (if st_ID st = st_ID subtask then '' '' @ [CHR 0xE2, CHR 0x86, CHR 0x90] @ '' THIS IS YOU (respawned)'' else []) @
     ''\<newline>'') allSubtasks) @
     ''\<newline>'' @
     ''## Your Subtask\<newline>'' @
     ''**ID**: '' @
     st_ID subtask @
     ''\<newline>'' @
     ''**Name**: '' @
     st_Name subtask @
     ''\<newline>'' @
     ''**Description**: '' @
     st_Description subtask @
     ''\<newline>'' @
     ''\<newline>'' @
     ''## Original Instructions\<newline>'' @
     st_Prompt subtask @
     ''\<newline>'' @
     (if st_FilesInvolved subtask \<noteq> [] then ''\<newline>'' @
     ''## Files to work with\<newline>'' @
     concat (map (\<lambda>f. ''- '' @
       f @
       ''\<newline>'') (st_FilesInvolved subtask)) else []) @
     ''\<newline>'' @
     ''## Important\<newline>'' @
     ''- Focus on the FIX INSTRUCTIONS above '' @
     [CHR 0xE2, CHR 0x80, CHR 0x94] @
     '' that is your primary objective this round\<newline>'' @
     ''- The codebase already has work from the previous round, so do NOT start from scratch\<newline>'' @
     ''- When done, follow the approval loop below '' @
     [CHR 0xE2, CHR 0x80, CHR 0x94] @
     '' do NOT exit until the manager approves\<newline>'' @
     ''\<newline>'' @
     workerApprovalLoopInstructions (cw_APIURL opts) (cw_TaskID opts) (st_ID subtask) @
     APICommsInstructions (cw_APIURL opts) (cw_TaskID opts) (st_ID subtask) @
     workspaceFileRule"

definition buildWorkersSummary :: "ExecutionPlan \<Rightarrow> string" where
  "buildWorkersSummary plan =
     ''All workers have finished. Summary:\<newline>'' @
     ''\<newline>'' @
     concat (map (\<lambda>st. ''- '' @
     st_Name st @
     '' ('' @
     st_ID st @
     ''): '' @
     st_Status st @
     ''\<newline>'') (ep_Subtasks plan))"

definition buildReviewPrompt :: "Task \<Rightarrow> ExecutionPlan \<Rightarrow> string" where
  "buildReviewPrompt task plan =
     ''You are a code reviewer. Verify the consistency of the work done by the team.\<newline>'' @
     ''\<newline>'' @
     ''## Original Task\<newline>'' @
     task_Prompt task @
     ''\<newline>'' @
     ''\<newline>'' @
     ''## Executed Plan\<newline>'' @
     concat (map (\<lambda>st. ''- **'' @
     st_Name st @
     ''** ('' @
     st_ID st @
     '') ['' @
     (if st_Status st = [] then ''unknown'' else st_Status st) @
     '']: '' @
     st_Description st @
     ''\<newline>'') (ep_Subtasks plan)) @
     ''\<newline>'' @
     ''## Instructions\<newline>'' @
     ''1. Verify that all requirements of the original task are satisfied\<newline>'' @
     ''2. Check that modified files are consistent with each other\<newline>'' @
     ''3. Look for bugs, inconsistencies, or missing work\<newline>'' @
     ''4. If you find problems, describe them clearly\<newline>'' @
     ''5. If everything is OK, confirm completion\<newline>'' @
     ''\<newline>'' @
     ''Respond with a JSON object:\<newline>'' @
     [CHR 0x60, CHR 0x60, CHR 0x60] @
     ''json\<newline>'' @
     ''{\<newline>'' @
     ''  '' @
     [CHR 0x22] @
     ''status'' @
     [CHR 0x22] @
     '': '' @
     [CHR 0x22] @
     ''approved'' @
     [CHR 0x22] @
     '' | '' @
     [CHR 0x22] @
     ''needs_fix'' @
     [CHR 0x22] @
     '',\<newline>'' @
     ''  '' @
     [CHR 0x22] @
     ''issues'' @
     [CHR 0x22] @
     '': ['' @
     [CHR 0x22] @
     ''list of issues if any'' @
     [CHR 0x22] @
     ''],\<newline>'' @
     ''  '' @
     [CHR 0x22] @
     ''summary'' @
     [CHR 0x22] @
     '': '' @
     [CHR 0x22] @
     ''brief summary of the review'' @
     [CHR 0x22] @
     ''\<newline>'' @
     ''}\<newline>'' @
     [CHR 0x60, CHR 0x60, CHR 0x60] @
     ''\<newline>''"

end
