(* ===== verification/Comms.thy ===== *)
theory Comms
  imports Team_Prompts Task_World Go_Time Task_Events
begin

text \<open>
  \<open>CommsService\<close> of \<open>internal/task\<close> (\<open>comms.go\<close> and the directives of \<open>collaborative.go\<close>): the context files
  that completed subtasks leave for the ones that depend on them, the messages between the agents of a
  task and the manager's requests to run workers again.
\<close>

section \<open>Context files\<close>

definition context_dir :: "string \<Rightarrow> string" where
  "context_dir workspaceDir = path_Join [workspaceDir, ''.klaudio'', ''context'']"

definition context_file :: "string \<Rightarrow> string \<Rightarrow> string" where
  "context_file workspaceDir subtaskID = path_Join [context_dir workspaceDir, subtaskID @ ''.md'']"

definition context_content :: "string \<Rightarrow> string \<Rightarrow> string \<Rightarrow> time \<Rightarrow> string \<Rightarrow> string" where
  "context_content subtaskName subtaskID agentID now summary =
     ''# '' @ subtaskName @ ''\<newline>\<newline>Subtask: '' @ subtaskID @ ''\<newline>Agent: '' @ agentID @ ''\<newline>Completed at: '' @ RFC3339 now @
     ''\<newline>\<newline>'' @ summary @ ''\<newline>''"

definition SaveSubtaskContext :: "ctx \<Rightarrow> string \<Rightarrow> string \<Rightarrow> string \<Rightarrow> string \<Rightarrow> string \<Rightarrow> string \<Rightarrow> ('m world_scheme, unit) io" where
  "SaveSubtaskContext c taskID subtaskID agentID subtaskName summary workspaceDir =
     or_fail ''creating context directory'' (os_str (os_MkdirAll (context_dir workspaceDir))) (\<lambda>_. do {
       now \<leftarrow> time_now;
       or_fail ''writing context file''
         (os_str (os_WriteFile (context_file workspaceDir subtaskID) (context_content subtaskName subtaskID agentID now summary))) (\<lambda>_. do {
         now \<leftarrow> time_now;
         _ \<leftarrow> ignore (in_ctx c (CreateAgentMessage
            \<lparr>am_ID = 0, am_TaskID = taskID, am_FromAgentID = Some agentID, am_FromSubtaskID = Some subtaskID, am_ToAgentID = None,
             am_ToSubtaskID = None, am_MsgType = ''context'', am_Content = summary, am_CreatedAt = now\<rparr>));
         ok () }) })"

text \<open>The parts of the dependencies whose file can be read.\<close>

fun dependency_parts :: "Subtask list \<Rightarrow> string \<Rightarrow> string list \<Rightarrow> ('m world_scheme, string list) state" where
  "dependency_parts allSubtasks workspaceDir [] = State_Monad.return []"
| "dependency_parts allSubtasks workspaceDir (depID # deps) = do {
     r \<leftarrow> os_ReadFile (context_file workspaceDir depID);
     parts \<leftarrow> dependency_parts allSubtasks workspaceDir deps;
     State_Monad.return (case r of Inl _ \<Rightarrow> parts
       | Inr data \<Rightarrow> (''### Context from: '' @ (case find (\<lambda>st. st_ID st = depID) allSubtasks of None \<Rightarrow> depID | Some st \<Rightarrow> st_Name st) @
           '' ('' @ depID @ '')\<newline>'' @ data) # parts) }"

definition CollectDependencyContext :: "Subtask \<Rightarrow> Subtask list \<Rightarrow> string \<Rightarrow> ('m world_scheme, string) state" where
  "CollectDependencyContext subtask allSubtasks workspaceDir =
     (if st_DependsOn subtask = [] then State_Monad.return [] else do {
        parts \<leftarrow> dependency_parts allSubtasks workspaceDir (st_DependsOn subtask);
        State_Monad.return (if parts = [] then []
          else ''## Context from completed dependencies\<newline>\<newline>'' @ Join parts ''\<newline>---\<newline>'') })"

section \<open>Directives\<close>

definition directive_file :: "string \<Rightarrow> string \<Rightarrow> string" where
  "directive_file workspaceDir name = path_Join [workspaceDir, ''.klaudio'', ''directives'', name @ ''.md'']"

definition ReadDirective :: "string \<Rightarrow> string \<Rightarrow> ('m world_scheme, string) state" where
  "ReadDirective workspaceDir subtaskID = do {
     own \<leftarrow> os_ReadFile (directive_file workspaceDir subtaskID);
     coord \<leftarrow> os_ReadFile (directive_file workspaceDir ''coordination'');
     let parts = (case coord of Inl _ \<Rightarrow> [] | Inr d \<Rightarrow> [''### Shared Coordination\<newline>'' @ d]) @
                 (case own of Inl _ \<Rightarrow> [] | Inr d \<Rightarrow> [''### Your Specific Directives\<newline>'' @ d]);
     State_Monad.return (Join parts ''\<newline>---\<newline>'') }"

definition RecordDirective :: "ctx \<Rightarrow> string \<Rightarrow> string \<Rightarrow> string \<Rightarrow> string \<Rightarrow> ('m world_scheme, int) io" where
  "RecordDirective c taskID managerAgentID targetSubtaskID content = do {
     now \<leftarrow> time_now;
     in_ctx c (CreateAgentMessage
       \<lparr>am_ID = 0, am_TaskID = taskID, am_FromAgentID = Some managerAgentID, am_FromSubtaskID = Some ''manager'', am_ToAgentID = None,
        am_ToSubtaskID = Some targetSubtaskID, am_MsgType = ''directive'', am_Content = content, am_CreatedAt = now\<rparr>) }"

section \<open>Messages\<close>

definition broadcast_line :: "string \<Rightarrow> AgentMessage \<Rightarrow> string list" where
  "broadcast_line excludeSubtaskID m =
     (if am_MsgType m \<noteq> ''message'' \<or> am_FromSubtaskID m = Some excludeSubtaskID then []
      else [''['' @ RFC3339 (am_CreatedAt m) @ ''] '' @ (case am_FromSubtaskID m of None \<Rightarrow> ''unknown'' | Some s \<Rightarrow> s) @ '': '' @ am_Content m])"

definition CollectBroadcastMessages :: "ctx \<Rightarrow> string \<Rightarrow> string \<Rightarrow> ('m world_scheme, string) state" where
  "CollectBroadcastMessages c taskID excludeSubtaskID = do {
     r \<leftarrow> in_ctx c (ListAgentMessages taskID 200);
     State_Monad.return (case r of Inl _ \<Rightarrow> []
       | Inr messages \<Rightarrow> (let parts = concat (map (broadcast_line excludeSubtaskID) messages) in
           if parts = [] then [] else ''## Messages from other agents\<newline>\<newline>'' @ Join parts ''\<newline>'')) }"

definition RecordBroadcast :: "ctx \<Rightarrow> string \<Rightarrow> string \<Rightarrow> string \<Rightarrow> string \<Rightarrow> ('m world_scheme, unit) io" where
  "RecordBroadcast c taskID fromAgentID fromSubtaskID content = do {
     now \<leftarrow> time_now;
     or_fail ''persisting broadcast message'' (in_ctx c (CreateAgentMessage
       \<lparr>am_ID = 0, am_TaskID = taskID, am_FromAgentID = Some fromAgentID, am_FromSubtaskID = Some fromSubtaskID, am_ToAgentID = None,
        am_ToSubtaskID = None, am_MsgType = ''message'', am_Content = content, am_CreatedAt = now\<rparr>)) (\<lambda>_. ok ()) }"

section \<open>Requests to run workers again\<close>

record RespawnRequest =
  rr_Request_SubtaskID :: string
  rr_Instructions :: string

definition respawn_mark :: string where
  "respawn_mark = ''[RESPAWN_WORKERS]''"

text \<open>The line split at its first colon.\<close>

definition respawn_line :: "string \<Rightarrow> RespawnRequest list" where
  "respawn_line raw =
     (let line = TrimSpace raw in
      case Index line '':'' of
        None \<Rightarrow> []
      | Some k \<Rightarrow> (let subtaskID = TrimSpace (take k line) in
          if subtaskID = [] then []
          else [\<lparr>rr_Request_SubtaskID = subtaskID, rr_Instructions = TrimSpace (drop (Suc k) line)\<rparr>]))"

definition parseRespawnContent :: "string \<Rightarrow> RespawnRequest list" where
  "parseRespawnContent content =
     (case Index content respawn_mark of
        None \<Rightarrow> []
      | Some idx \<Rightarrow> concat (map respawn_line (Split (CHR 0x0A) (TrimSpace (drop (idx + length respawn_mark) content)))))"

text \<open>Whether a message is the manager's and asks for workers.\<close>

definition respawn_requests :: "string option \<Rightarrow> string \<Rightarrow> string \<Rightarrow> RespawnRequest list" where
  "respawn_requests from msgType content =
     (if from \<noteq> Some ''manager'' \<or> msgType \<noteq> ''message'' \<or> \<not> Contains content respawn_mark then []
      else parseRespawnContent content)"

fun scan_respawn :: "int \<Rightarrow> AgentMessage list \<Rightarrow> RespawnRequest list \<times> int" where
  "scan_respawn highestID [] = ([], highestID)"
| "scan_respawn highestID (m # ms) =
     (let highestID = max (am_ID m) highestID; reqs = respawn_requests (am_FromSubtaskID m) (am_MsgType m) (am_Content m) in
      if reqs \<noteq> [] then (reqs, highestID) else scan_respawn highestID ms)"

definition CheckRespawnRequests :: "ctx \<Rightarrow> string \<Rightarrow> int \<Rightarrow> ('m world_scheme, RespawnRequest list \<times> int) state" where
  "CheckRespawnRequests c taskID afterID = do {
     r \<leftarrow> in_ctx c (ListAgentMessagesAfterID taskID afterID);
     State_Monad.return (case r of Inl _ \<Rightarrow> ([], afterID) | Inr messages \<Rightarrow> scan_respawn afterID messages) }"

section \<open>Summaries\<close>

definition LastIndex :: "string \<Rightarrow> string \<Rightarrow> nat option" where
  "LastIndex s sub = find (\<lambda>k. HasPrefix (drop k s) sub) (rev [0..<Suc (length s)])"

definition summary_markers :: "string list" where
  "summary_markers = [''## Summary'', ''## Work Summary'', ''### Summary'', ''SUMMARY:'']"

definition ExtractAgentSummary :: "string \<Rightarrow> int \<Rightarrow> string" where
  "ExtractAgentSummary output maxLen =
     (let n = (if maxLen \<le> 0 then 2000 else nat maxLen) in
      case find (\<lambda>m. LastIndex output m \<noteq> None) summary_markers of
        Some m \<Rightarrow> take n (drop (the (LastIndex output m)) output)
      | None \<Rightarrow> drop (length output - n) output)"

end
