(* ===== verification/Agent_Runs.thy ===== *)
theory Agent_Runs
  imports Comms Dep_Graph File_Lock Config_Load
begin

text \<open>
  What the orchestrators of \<open>internal/task\<close> share: agents that run in the background, the goroutines that
  wait for them, and the channel their completions arrive on. While a run waits, or between its
  steps, the schedule lets monitors and waiting goroutines make their steps; a \<open>select\<close> takes the
  branch the world names, if it is ready, and else is never left. The channel's capacity is not
  modelled: a goroutine that cannot send yet is one that has not passed its result on.
\<close>

section \<open>The orchestrator\<close>

record Orchestrator =
  or_docker :: docker_manager \<comment> \<open>the pool's\<close>
  or_cfg :: Config
  or_msgBus :: bool \<comment> \<open>not \<open>nil\<close>\<close>

definition NewOrchestrator :: "docker_manager \<Rightarrow> Config \<Rightarrow> bool \<Rightarrow> Orchestrator" where
  "NewOrchestrator dm cfg bus = \<lparr>or_docker = dm, or_cfg = cfg, or_msgBus = bus\<rparr>"

definition agentAPIURL :: "Orchestrator \<Rightarrow> string" where
  "agentAPIURL o1 =
     (let port = sv_Port (cf_Server (or_cfg o1)) in
      ''http://host.docker.internal:'' @ itoa (if port = 0 then 8080 else port))"

definition resolveRoleHints :: "ctx \<Rightarrow> Task \<Rightarrow> ('m world_scheme, (string, string) gomap) state" where
  "resolveRoleHints c task =
     (case task_TeamTemplate task of
        None \<Rightarrow> State_Monad.return []
      | Some i \<Rightarrow> if i = [] then State_Monad.return [] else do {
          r \<leftarrow> in_ctx c (GetTeamTemplate i);
          State_Monad.return (case r of
             Inr (Some tt) \<Rightarrow> (case unmarshal_team_roles (tt_Roles tt) of
                None \<Rightarrow> []
              | Some roles \<Rightarrow> fold (\<lambda>r hints. if tr_PromptHint r \<noteq> [] then mput (tr_Name r) (tr_PromptHint r) hints else hints) roles [])
           | _ \<Rightarrow> []) })"

definition resolveTeamMode :: "ctx \<Rightarrow> Task \<Rightarrow> ('m world_scheme, string) state" where
  "resolveTeamMode c task =
     (case task_TeamTemplate task of
        None \<Rightarrow> State_Monad.return ''sequential''
      | Some i \<Rightarrow> if i = [] then State_Monad.return ''sequential'' else do {
          r \<leftarrow> in_ctx c (GetTeamTemplate i);
          State_Monad.return (case r of
             Inr (Some tt) \<Rightarrow> if tt_Mode tt = ''collaborative'' then ''collaborative'' else ''sequential''
           | _ \<Rightarrow> ''sequential'') })"

definition shouldRunReviewer :: "ExecutionPlan \<Rightarrow> bool" where
  "shouldRunReviewer plan \<longleftrightarrow>
     list_ex (\<lambda>st. st_AgentRole st = ''reviewer'') (ep_Subtasks plan) \<or>
     length (filter (\<lambda>st. st_Status st = ''completed'') (ep_Subtasks plan)) > 1"

text \<open>The first subtask with this ID is changed.\<close>

fun update_first :: "string \<Rightarrow> (Subtask \<Rightarrow> Subtask) \<Rightarrow> Subtask list \<Rightarrow> Subtask list" where
  "update_first i f [] = []"
| "update_first i f (st # sts) = (if st_ID st = i then f st # sts else st # update_first i f sts)"

definition set_status :: "string \<Rightarrow> string \<Rightarrow> ExecutionPlan \<Rightarrow> ExecutionPlan" where
  "set_status i s plan = plan\<lparr>ep_Subtasks := update_first i (\<lambda>st. st\<lparr>st_Status := s\<rparr>) (ep_Subtasks plan)\<rparr>"

definition set_running :: "string \<Rightarrow> string \<Rightarrow> ExecutionPlan \<Rightarrow> ExecutionPlan" where
  "set_running i agentID plan =
     plan\<lparr>ep_Subtasks := update_first i (\<lambda>st. st\<lparr>st_Status := ''running'', st_AgentID := agentID\<rparr>) (ep_Subtasks plan)\<rparr>"

definition find_subtask :: "string \<Rightarrow> ExecutionPlan \<Rightarrow> Subtask option" where
  "find_subtask i plan = find (\<lambda>st. st_ID st = i) (ep_Subtasks plan)"

text \<open>Name and description of a completed subtask, and its summary.\<close>

definition subtask_name :: "string \<Rightarrow> ExecutionPlan \<Rightarrow> string" where
  "subtask_name i plan = (case find_subtask i plan of None \<Rightarrow> [] | Some st \<Rightarrow> st_Name st)"

definition subtask_desc :: "string \<Rightarrow> ExecutionPlan \<Rightarrow> string" where
  "subtask_desc i plan = (case find_subtask i plan of None \<Rightarrow> []
     | Some st \<Rightarrow> if st_Description st = [] then st_Prompt st else st_Description st)"

definition subtask_summary :: "string \<Rightarrow> ExecutionPlan \<Rightarrow> string" where
  "subtask_summary i plan =
     ''Completed successfully.\<newline>\<newline>Task: '' @ subtask_name i plan @ ''\<newline>Description: '' @ subtask_desc i plan"

definition role_of :: "Subtask \<Rightarrow> string" where
  "role_of st = (if st_AgentRole st = [] then ''developer'' else st_AgentRole st)"

definition succeeded :: "AgentResult \<Rightarrow> bool" where
  "succeeded r \<longleftrightarrow> ar_ExitCode r = 0 \<and> ar_Error r = None"

definition error_text :: "AgentResult \<Rightarrow> string" where
  "error_text r = (case ar_Error r of None \<Rightarrow> [] | Some e \<Rightarrow> e)"

section \<open>Background\<close>

definition take_out :: "nat \<Rightarrow> 'a list \<Rightarrow> 'a list" where
  "take_out k xs = take k xs @ drop (Suc k) xs"

definition run_monitor :: "nat \<Rightarrow> ('m tm_world_scheme, unit) state" where
  "run_monitor k = do {
     ms \<leftarrow> gets w_monitors;
     if k < length ms then do {
       _ \<leftarrow> modify (\<lambda>w. w\<lparr>w_monitors := take_out k (w_monitors w)\<rparr>);
       (case ms ! k of (c, agent, ch) \<Rightarrow> monitorContainer c agent ch) }
     else State_Monad.return () }"

definition call_wait :: "nat \<Rightarrow> 'm tm_world_scheme \<Rightarrow> 'm tm_world_scheme" where
  "call_wait k w =
     (if k < length (w_waits w) \<and> wt_chan (w_waits w ! k) = None
      then case pool_Wait (wt_AgentID (w_waits w ! k)) (w_pool w) of
        (ch, p) \<Rightarrow> w\<lparr>w_pool := p, w_waits := (w_waits w)[k := (w_waits w ! k)\<lparr>wt_chan := Some ch\<rparr>]\<rparr>
      else w)"

definition pass_on :: "nat \<Rightarrow> 'm tm_world_scheme \<Rightarrow> 'm tm_world_scheme" where
  "pass_on k w =
     (if k < length (w_waits w)
      then case wt_chan (w_waits w ! k) of
        None \<Rightarrow> w
      | Some ch \<Rightarrow> if ch < length (pl_chans (w_pool w))
          then case pl_chans (w_pool w) ! ch of
            None \<Rightarrow> w
          | Some r \<Rightarrow> w\<lparr>w_waits := take_out k (w_waits w), w_completions := w_completions w @
              [\<lparr>ce_AgentID = wt_AgentID (w_waits w ! k), ce_SubtaskID = wt_SubtaskID (w_waits w ! k), ce_Result = r\<rparr>]\<rparr>
          else w
      else w)"

fun background_step :: "background \<Rightarrow> ('m tm_world_scheme, unit) state" where
  "background_step (RunMonitor k) = run_monitor k"
| "background_step (CallWait k) = modify (call_wait k)"
| "background_step (PassOn k) = modify (pass_on k)"

definition background_run :: "('m tm_world_scheme, unit) state" where
  "background_run = do {
     steps \<leftarrow> gets (\<lambda>w. w_sched w (w_tick w));
     _ \<leftarrow> modify tick;
     for_each steps background_step }"

text \<open>The agent is started while the background goes on; then a goroutine waits for it.\<close>

definition spawn_agent :: "Orchestrator \<Rightarrow> ctx \<Rightarrow> SpawnOpts \<Rightarrow> ('m tm_world_scheme, spawn_error + AgentInstance) state" where
  "spawn_agent o1 c opts = do { _ \<leftarrow> background_run; Spawn (or_docker o1) c opts }"

definition wait_for :: "string \<Rightarrow> string \<Rightarrow> ('m tm_world_scheme, unit) state" where
  "wait_for agentID subtaskID =
     modify (\<lambda>w. w\<lparr>w_waits := w_waits w @ [\<lparr>wt_AgentID = agentID, wt_SubtaskID = subtaskID, wt_chan = None\<rparr>]\<rparr>)"

text \<open>A \<open>select\<close> on the context and the completions; \<open>None\<close>: it is never left.\<close>

definition pop_completion :: "('m tm_world_scheme, completionEvent option) state" where
  "pop_completion = State (\<lambda>w. case w_completions w of [] \<Rightarrow> (None, w) | ev # q \<Rightarrow> (Some ev, w\<lparr>w_completions := q\<rparr>))"

definition next_branch :: "('m tm_world_scheme, branch) state" where
  "next_branch = do { _ \<leftarrow> background_run; gets (\<lambda>w. w_branch w (w_tick w)) }"

definition select_completion :: "ctx \<Rightarrow> ('m tm_world_scheme, (string + completionEvent) option) state" where
  "select_completion c = do {
     b \<leftarrow> next_branch;
     (case b of
        BrDone \<Rightarrow> do { e \<leftarrow> gets (ctx_Err c); State_Monad.return (map_option Inl e) }
      | BrCompletion \<Rightarrow> do { ev \<leftarrow> pop_completion; State_Monad.return (map_option Inr ev) }
      | _ \<Rightarrow> State_Monad.return None) }"

text \<open>A run starts with a channel and goroutines of its own.\<close>

definition new_channel :: "('m tm_world_scheme, unit) state" where
  "new_channel = modify (\<lambda>w. w\<lparr>w_waits := [], w_completions := []\<rparr>)"

text \<open>How a loop is left: at its end, with an error, never, or not within the fuel.\<close>

datatype loop_end = LoopDone | LoopError string | LoopBlocked | LoopNoFuel

end
