(* ===== verification/Reviewer.thy ===== *)
theory Reviewer
  imports Agent_Runs Plan_Output
begin

text \<open>
  \<open>internal/task/reviewer.go\<close>: an agent that reviews the work of the others. A place in the pool is
  tried for every two seconds for two minutes, so 62 rounds are enough; the context with that timeout
  is also the one the reviewer runs with. Nothing ever assigns \<open>LastOutput\<close> of an instance, so the branch that
  parses it is not taken; the parser is modelled by itself.
\<close>

record ReviewResult =
  rv_Status :: string
  rv_Issues :: "string list"
  rv_Summary :: string

definition zero_review :: ReviewResult where
  "zero_review = \<lparr>rv_Status = [], rv_Issues = [], rv_Summary = []\<rparr>"

definition review_fields :: "ReviewResult fields" where
  "review_fields =
     [field ''status'' dec_string rv_Status rv_Status_update,
      field ''issues'' (dec_slice dec_string []) rv_Issues rv_Issues_update,
      field ''summary'' dec_string rv_Summary rv_Summary_update]"

text \<open>The object from its first brace to the one that closes it, braces in strings counted too.\<close>

fun closing_brace :: "nat \<Rightarrow> nat \<Rightarrow> string \<Rightarrow> nat option" where
  "closing_brace depth i [] = None"
| "closing_brace depth i (c # s) =
     (if c = CHR 0x7B then closing_brace (Suc depth) (Suc i) s
      else if c = CHR 0x7D then (if depth = 1 then Some i else closing_brace (depth - 1) (Suc i) s)
      else closing_brace depth (Suc i) s)"

definition good_review :: "string \<Rightarrow> ReviewResult option" where
  "good_review s = (case unmarshal (dec_struct review_fields) zero_review s of
     None \<Rightarrow> None | Some r \<Rightarrow> if rv_Status r \<noteq> [] then Some r else None)"

text \<open>The second attempt decodes into what a first one that gave an empty status has left.\<close>

definition parseReviewOutput :: "string \<Rightarrow> string + ReviewResult" where
  "parseReviewOutput output =
     (case good_review output of
        Some r \<Rightarrow> Inr r
      | None \<Rightarrow> (case Index output [CHR 0x7B] of
          None \<Rightarrow> Inl ''no JSON found in reviewer output''
        | Some start \<Rightarrow> (case closing_brace 0 0 (drop start output) of
            None \<Rightarrow> Inl ''no complete JSON object found in reviewer output''
          | Some n \<Rightarrow> (let first = (case unmarshal (dec_struct review_fields) zero_review output of None \<Rightarrow> zero_review | Some r \<Rightarrow> r) in
              case unmarshal (dec_struct review_fields) first (take (Suc n) (drop start output)) of
                Some r \<Rightarrow> if rv_Status r \<noteq> [] then Inr r else Inl ''failed to parse JSON block in reviewer output''
              | None \<Rightarrow> Inl ''failed to parse JSON block in reviewer output''))))"

fun spawn_reviewer :: "nat \<Rightarrow> Orchestrator \<Rightarrow> SpawnOpts \<Rightarrow> ('m tm_world_scheme, AgentInstance) io" where
  "spawn_reviewer 0 o1 opts = err (''timed out waiting for pool slot for reviewer: '' @ ctx_deadline)"
| "spawn_reviewer (Suc n) o1 opts = do {
     r \<leftarrow> spawn_agent o1 RetryCtx opts;
     (case r of
        Inr ag \<Rightarrow> ok ag
      | Inl (SpawnFailed e) \<Rightarrow> err (''spawning reviewer agent: '' @ e)
      | Inl _ \<Rightarrow> do {
          b \<leftarrow> next_branch;
          e \<leftarrow> gets (ctx_Err RetryCtx);
          (case (b, e) of
             (BrDone, Some e) \<Rightarrow> err (''timed out waiting for pool slot for reviewer: '' @ e)
           | _ \<Rightarrow> spawn_reviewer n o1 opts) }) }"

definition review_rounds :: nat where
  "review_rounds = 62"

text \<open>The result of the agent, \<open>None\<close> if it never comes.\<close>

definition await_result :: "string \<Rightarrow> ('m tm_world_scheme, AgentResult option) state" where
  "await_result agentID = do {
     ch \<leftarrow> State (\<lambda>w. case pool_Wait agentID (w_pool w) of (ch, p) \<Rightarrow> (ch, w\<lparr>w_pool := p\<rparr>));
     _ \<leftarrow> background_run;
     gets (\<lambda>w. if ch < length (pl_chans (w_pool w)) then pl_chans (w_pool w) ! ch else None) }"

definition Review :: "Orchestrator \<Rightarrow> Task \<Rightarrow> ExecutionPlan \<Rightarrow> string \<Rightarrow> ('m tm_world_scheme, (string + ReviewResult) option) state" where
  "Review o1 task plan workspaceDir = do {
     r \<leftarrow> spawn_reviewer review_rounds o1 \<lparr>so_TaskID = task_ID task, so_SubtaskID = ''reviewer'', so_Role = ''reviewer'',
       so_Prompt = buildReviewPrompt task plan, so_WorkspaceDir = workspaceDir, so_EnvVars = []\<rparr>;
     (case r of
        Inl e \<Rightarrow> State_Monad.return (Some (Inl e))
      | Inr ag \<Rightarrow> do {
          res \<leftarrow> await_result (ai_ID ag);
          State_Monad.return (case res of
             None \<Rightarrow> None
           | Some result \<Rightarrow> Some (case ar_Error result of
               Some e \<Rightarrow> Inl (''reviewer agent failed: '' @ e)
             | None \<Rightarrow> if ar_ExitCode result \<noteq> 0 then Inl (''reviewer agent exited with code '' @ itoa (ar_ExitCode result))
                 else Inr \<lparr>rv_Status = ''approved'', rv_Issues = [], rv_Summary = ''Review completed''\<rparr>)) }) }"

text \<open>The step both orchestrators end with; \<open>False\<close> if it is never left.\<close>

definition review_step :: "Orchestrator \<Rightarrow> ctx \<Rightarrow> Task \<Rightarrow> ExecutionPlan \<Rightarrow> string \<Rightarrow> ('m tm_world_scheme, bool) state" where
  "review_step o1 c task plan absWorkspace =
     (if \<not> shouldRunReviewer plan then State_Monad.return True else do {
        r \<leftarrow> Review o1 task plan absWorkspace;
        (case r of
           None \<Rightarrow> State_Monad.return False
         | Some (Inl _) \<Rightarrow> State_Monad.return True
         | Some (Inr res) \<Rightarrow> do {
             _ \<leftarrow> or_recordEvent c (task_ID task) ''review.completed'' [(''status'', rv_Status res), (''summary'', rv_Summary res)];
             State_Monad.return True }) })"

end
