(* ===== verification/Parallel_Run.thy ===== *)
theory Parallel_Run
  imports Reviewer Executor
begin

text \<open>
  The orchestration of a plan with dependencies, \<open>Run\<close> of \<open>internal/task/orchestrator.go\<close>: spawn what is
  ready and gets its file locks, wait for a completion, release the locks, mark the subtask completed
  or failed, spawn again. The loop is a recursion on fuel; \<open>Orchestrator_Facts\<close> shows that the fuel
  given is never used up.
\<close>

text \<open>The variables of a run.\<close>

record orch_run =
  og_graph :: dep_graph
  og_plan :: ExecutionPlan
  og_locks :: file_locks
  og_running :: "(string, string) gomap" \<comment> \<open>agent to subtask\<close>

text \<open>What does not change during a run.\<close>

record orch_env =
  oe_task :: Task
  oe_workspace :: string
  oe_hints :: "(string, string) gomap"
  oe_isTeam :: bool

definition get_ready :: "dep_graph \<Rightarrow> ('m tm_world_scheme, nat list) state" where
  "get_ready g = do { ks \<leftarrow> range_order ''ready'' (mkeys (dg_nodes g)); State_Monad.return (GetReady ks g) }"

section \<open>Spawning\<close>

definition subtask_prompt :: "Orchestrator \<Rightarrow> ctx \<Rightarrow> orch_env \<Rightarrow> ExecutionPlan \<Rightarrow> Subtask \<Rightarrow> ('m world_scheme, string) state" where
  "subtask_prompt o1 c env plan subtask = do {
     depContext \<leftarrow> CollectDependencyContext subtask (ep_Subtasks plan) (oe_workspace env);
     broadcastMsgs \<leftarrow> CollectBroadcastMessages c (task_ID (oe_task env)) (st_ID subtask);
     State_Monad.return (BuildSubtaskPrompt subtask (ep_Subtasks plan) (ep_TaskPrompt plan)
       \<lparr>spo_DependencyContext = depContext, spo_BroadcastMessages = broadcastMsgs,
        spo_RolePromptHint = mget [] (oe_hints env) (st_AgentRole subtask), spo_IsTeamExecution = oe_isTeam env,
        spo_APIURL = agentAPIURL o1, spo_TaskID = task_ID (oe_task env), spo_RepoMemory = ep_RepoMemory plan\<rparr>) }"

text \<open>The files are locked, or there are none; otherwise the subtask is put off.\<close>

definition lock_files :: "Subtask \<Rightarrow> file_locks \<Rightarrow> bool \<times> file_locks" where
  "lock_files subtask locks =
     (if st_FilesInvolved subtask = [] then (True, locks) else TryLock locks (st_ID subtask) (st_FilesInvolved subtask))"

text \<open>An agent has been started for the subtask.\<close>

definition started :: "ctx \<Rightarrow> orch_env \<Rightarrow> string \<Rightarrow> string \<Rightarrow> orch_run \<Rightarrow> ('m tm_world_scheme, orch_run) state" where
  "started c env subtaskID agentID run =
     (let run' = run\<lparr>og_graph := MarkRunning (og_graph run) subtaskID, og_plan := set_running subtaskID agentID (og_plan run),
        og_running := mput agentID subtaskID (og_running run)\<rparr>
      in do {
        _ \<leftarrow> or_updatePlanSubtasks c (og_plan run');
        _ \<leftarrow> wait_for agentID subtaskID;
        _ \<leftarrow> or_recordEvent c (task_ID (oe_task env)) ''subtask.started'' [(''subtask_id'', subtaskID), (''agent_id'', agentID)];
        State_Monad.return run' })"

fun spawn_each :: "Orchestrator \<Rightarrow> ctx \<Rightarrow> orch_env \<Rightarrow> nat list \<Rightarrow> orch_run \<Rightarrow>
    ('m tm_world_scheme, orch_run \<times> (string + unit)) state" where
  "spawn_each o1 c env [] run = State_Monad.return (run, Inr ())"
| "spawn_each o1 c env (k # ks) run =
     (let subtask = ep_Subtasks (og_plan run) ! k; (locked, locks) = lock_files subtask (og_locks run);
          run = run\<lparr>og_locks := locks\<rparr>
      in if \<not> locked then spawn_each o1 c env ks run
      else do {
        prompt \<leftarrow> subtask_prompt o1 c env (og_plan run) subtask;
        r \<leftarrow> spawn_agent o1 c \<lparr>so_TaskID = task_ID (oe_task env), so_SubtaskID = st_ID subtask, so_Role = role_of subtask,
          so_Prompt = prompt, so_WorkspaceDir = oe_workspace env, so_EnvVars = []\<rparr>;
        (case r of
           Inl (SpawnFailed e) \<Rightarrow> State_Monad.return (run, Inl (''spawning agent for subtask '' @ st_ID subtask @ '': '' @ e))
         | Inl _ \<Rightarrow> State_Monad.return (run, Inr ())
         | Inr ag \<Rightarrow> do {
             run \<leftarrow> started c env (st_ID subtask) (ai_ID ag) run;
             spawn_each o1 c env ks run }) })"

definition spawn_ready :: "Orchestrator \<Rightarrow> ctx \<Rightarrow> orch_env \<Rightarrow> orch_run \<Rightarrow> ('m tm_world_scheme, orch_run \<times> (string + unit)) state" where
  "spawn_ready o1 c env run = do { ks \<leftarrow> get_ready (og_graph run); spawn_each o1 c env ks run }"

section \<open>A completion\<close>

definition completed_ok :: "ctx \<Rightarrow> orch_env \<Rightarrow> completionEvent \<Rightarrow> orch_run \<Rightarrow> ('m tm_world_scheme, orch_run) state" where
  "completed_ok c env ev run =
     (let i = ce_SubtaskID ev in do {
        ks \<leftarrow> range_order ''complete'' (mkeys (dg_edges (og_graph run)));
        _ \<leftarrow> ignore (SaveSubtaskContext c (task_ID (oe_task env)) i (ce_AgentID ev) (subtask_name i (og_plan run))
          (subtask_summary i (og_plan run)) (oe_workspace env));
        let run' = run\<lparr>og_graph := snd (Complete ks (og_graph run) i), og_plan := set_status i ''completed'' (og_plan run)\<rparr>;
        _ \<leftarrow> or_updatePlanSubtasks c (og_plan run');
        _ \<leftarrow> or_recordEvent c (task_ID (oe_task env)) ''subtask.completed'' [(''subtask_id'', i), (''agent_id'', ce_AgentID ev)];
        State_Monad.return run' })"

definition completed_failed :: "ctx \<Rightarrow> orch_env \<Rightarrow> completionEvent \<Rightarrow> orch_run \<Rightarrow> ('m tm_world_scheme, orch_run) state" where
  "completed_failed c env ev run =
     (let i = ce_SubtaskID ev in do {
        ord \<leftarrow> gets (\<lambda>w j. sort_key (w_rank w (w_tick w) (''skip'' @ j)) (mkeys (dg_edges (og_graph run))));
        let run' = run\<lparr>og_graph := dg_Fail ord (og_graph run) i, og_plan := set_status i ''failed'' (og_plan run)\<rparr>;
        _ \<leftarrow> or_updatePlanSubtasks c (og_plan run');
        _ \<leftarrow> or_recordEvent c (task_ID (oe_task env)) ''subtask.failed'' [(''subtask_id'', i), (''agent_id'', ce_AgentID ev),
          (''error'', error_text (ce_Result ev)), (''exit_code'', itoa (ar_ExitCode (ce_Result ev)))];
        State_Monad.return run' })"

definition handle_completion :: "ctx \<Rightarrow> orch_env \<Rightarrow> completionEvent \<Rightarrow> orch_run \<Rightarrow> ('m tm_world_scheme, orch_run) state" where
  "handle_completion c env ev run =
     (let run = run\<lparr>og_running := mdel (ce_AgentID ev) (og_running run), og_locks := fl_Release (og_locks run) (ce_SubtaskID ev)\<rparr> in
      if succeeded (ce_Result ev) then completed_ok c env ev run else completed_failed c env ev run)"

section \<open>The loop\<close>

text \<open>Nothing runs and nothing is ready.\<close>

definition nothing_left :: "orch_run \<Rightarrow> ('m tm_world_scheme, bool) state" where
  "nothing_left run =
     (if og_running run = [] then do { ks \<leftarrow> get_ready (og_graph run); State_Monad.return (ks = []) }
      else State_Monad.return False)"

fun orch_loop :: "nat \<Rightarrow> Orchestrator \<Rightarrow> ctx \<Rightarrow> orch_env \<Rightarrow> orch_run \<Rightarrow> ('m tm_world_scheme, orch_run \<times> loop_end) state" where
  "orch_loop 0 o1 c env run = State_Monad.return (run, LoopNoFuel)"
| "orch_loop (Suc n) o1 c env run =
     (if AllCompleted (og_graph run) then State_Monad.return (run, LoopDone)
      else do {
        stop \<leftarrow> nothing_left run;
        if stop then State_Monad.return (run, LoopDone)
        else do {
          ev \<leftarrow> select_completion c;
          (case ev of
             None \<Rightarrow> State_Monad.return (run, LoopBlocked)
           | Some (Inl e) \<Rightarrow> State_Monad.return (run, LoopError e)
           | Some (Inr ev) \<Rightarrow> do {
               run1 \<leftarrow> handle_completion c env ev run;
               (run2, r) \<leftarrow> spawn_ready o1 c env run1;
               (case r of
                  Inl e \<Rightarrow> State_Monad.return (run2, LoopError e)
                | Inr _ \<Rightarrow> orch_loop n o1 c env run2) }) } })"

definition orch_fuel :: "ExecutionPlan \<Rightarrow> nat" where
  "orch_fuel plan = 2 * length (ep_Subtasks plan) + 1"

text \<open>From the first spawn to the end of the loop, with \<open>n\<close> rounds of fuel.\<close>

definition orch_rounds :: "nat \<Rightarrow> Orchestrator \<Rightarrow> ctx \<Rightarrow> orch_env \<Rightarrow> ExecutionPlan \<Rightarrow> ('m tm_world_scheme, orch_run \<times> loop_end) state" where
  "orch_rounds n o1 c env plan = do {
     _ \<leftarrow> new_channel;
     (run, r) \<leftarrow> spawn_ready o1 c env \<lparr>og_graph = BuildGraph plan, og_plan = plan, og_locks = NewFileLockService, og_running = []\<rparr>;
     (case r of
        Inl e \<Rightarrow> State_Monad.return (run, LoopError e)
      | Inr _ \<Rightarrow> orch_loop n o1 c env run) }"

text \<open>The error of the run, \<open>None\<close> if it is never left.\<close>

definition RunDependent :: "Orchestrator \<Rightarrow> ctx \<Rightarrow> Task \<Rightarrow> ExecutionPlan \<Rightarrow> ('m tm_world_scheme, (string + unit) option) state" where
  "RunDependent o1 c task plan = do {
     ks \<leftarrow> range_order ''cycles'' (mkeys (dg_edges (BuildGraph plan)));
     if HasCycles ks (BuildGraph plan) then State_Monad.return (Some (Inl ''plan contains circular dependencies''))
     else do {
       let workspaceDir = workspace_of (or_cfg o1) (task_ID task);
       r \<leftarrow> os_str (os_MkdirAll workspaceDir);
       (case r of
          Inl e \<Rightarrow> State_Monad.return (Some (Inl (''creating workspace directory: '' @ e)))
        | Inr _ \<Rightarrow> do {
            absWorkspace \<leftarrow> gets (\<lambda>w. Abs (w_cwd w) workspaceDir);
            _ \<leftarrow> ignore (os_MkdirAll (context_dir absWorkspace));
            hints \<leftarrow> resolveRoleHints c task;
            (run, e) \<leftarrow> orch_rounds (orch_fuel plan) o1 c \<lparr>oe_task = task, oe_workspace = absWorkspace, oe_hints = hints,
              oe_isTeam = (length (ep_Subtasks plan) > 1)\<rparr> plan;
            (case e of
               LoopError e \<Rightarrow> State_Monad.return (Some (Inl e))
             | LoopDone \<Rightarrow> do {
                 left \<leftarrow> review_step o1 c task (og_plan run) absWorkspace;
                 State_Monad.return (if left then Some (Inr ()) else None) }
             | _ \<Rightarrow> State_Monad.return None) }) } }"

end
