(* ===== verification/Collaborative.thy ===== *)
theory Collaborative
  imports Parallel_Run Team_Prompts
begin

text \<open>
  The collaborative mode, \<open>RunCollaborative\<close> of \<open>internal/task/collaborative.go\<close>: a manager agent lives
  as long as the run, all workers are started at once, completions and signals go to the manager as
  messages, and the manager may ask for workers to run again for as many rounds as it likes. The loops
  are recursions on fuel; \<open>Collaborative_Facts\<close> shows that the wait for the workers needs no more than
  it is given, and that a run that ends does not depend on it.
\<close>

section \<open>Messages\<close>

definition publish :: "string \<Rightarrow> AgentMessageEvent \<Rightarrow> ('m tm_world_scheme, unit) state" where
  "publish taskID e = modify (\<lambda>w. w\<lparr>w_bus := Publish taskID e (w_bus w)\<rparr>)"

definition sendSystemMessage :: "Orchestrator \<Rightarrow> ctx \<Rightarrow> string \<Rightarrow> string \<Rightarrow> string \<Rightarrow> ('m tm_world_scheme, unit) state" where
  "sendSystemMessage o1 c taskID signal content = do {
     now \<leftarrow> time_now;
     let content = ''['' @ signal @ ''] '' @ content;
     r \<leftarrow> in_ctx c (CreateAgentMessage
       \<lparr>am_ID = 0, am_TaskID = taskID, am_FromAgentID = None, am_FromSubtaskID = Some ''orchestrator'', am_ToAgentID = None,
        am_ToSubtaskID = None, am_MsgType = ''system'', am_Content = content, am_CreatedAt = now\<rparr>);
     when_do (or_msgBus o1) (publish taskID
       \<lparr>ame_ID = (case r of Inl _ \<Rightarrow> 0 | Inr i \<Rightarrow> i), ame_TaskID = taskID, ame_FromAgentID = None, ame_FromSubtaskID = Some ''orchestrator'',
        ame_ToAgentID = None, ame_ToSubtaskID = None, ame_MsgType = ''system'', ame_Content = content, ame_CreatedAt = RFC3339 now\<rparr>) }"

text \<open>Agents send messages meanwhile; the API stores them and puts them on the bus.\<close>

definition message_row :: "AgentMessageEvent \<Rightarrow> time \<Rightarrow> AgentMessage" where
  "message_row e now = \<lparr>am_ID = 0, am_TaskID = ame_TaskID e, am_FromAgentID = ame_FromAgentID e, am_FromSubtaskID = ame_FromSubtaskID e,
     am_ToAgentID = ame_ToAgentID e, am_ToSubtaskID = ame_ToSubtaskID e, am_MsgType = ame_MsgType e, am_Content = ame_Content e,
     am_CreatedAt = now\<rparr>"

definition others_post :: "Orchestrator \<Rightarrow> ('m tm_world_scheme, unit) state" where
  "others_post o1 = do {
     es \<leftarrow> gets (\<lambda>w. w_posts w (w_tick w));
     for_each es (\<lambda>e. do {
       now \<leftarrow> time_now;
       r \<leftarrow> in_ctx Background (CreateAgentMessage (message_row e now));
       when_do (or_msgBus o1) (publish (ame_TaskID e) (e\<lparr>ame_ID := (case r of Inl _ \<Rightarrow> 0 | Inr i \<Rightarrow> i)\<rparr>)) }) }"

section \<open>State\<close>

record collab_run =
  cb_plan :: ExecutionPlan
  cb_running :: "(string, string) gomap" \<comment> \<open>agent to subtask, and the manager\<close>
  cb_cursor :: int
  cb_round :: int

record collab_env =
  cx_task :: Task
  cx_workspace :: string
  cx_hints :: "(string, string) gomap"

section \<open>Completions\<close>

definition worker_completed :: "Orchestrator \<Rightarrow> ctx \<Rightarrow> collab_env \<Rightarrow> completionEvent \<Rightarrow> ExecutionPlan \<Rightarrow> ('m tm_world_scheme, ExecutionPlan) state" where
  "worker_completed o1 c env ev plan =
     (let i = ce_SubtaskID ev; taskID = task_ID (cx_task env); plan' = set_status i ''completed'' plan in do {
        _ \<leftarrow> ignore (SaveSubtaskContext c taskID i (ce_AgentID ev) (subtask_name i plan) (subtask_summary i plan) (cx_workspace env));
        _ \<leftarrow> or_updatePlanSubtasks c plan';
        _ \<leftarrow> or_recordEvent c taskID ''subtask.completed'' [(''subtask_id'', i), (''agent_id'', ce_AgentID ev), (''mode'', ''collaborative'')];
        _ \<leftarrow> sendSystemMessage o1 c taskID ''WORKER_COMPLETED''
          (''Worker '' @ subtask_name i plan @ '' ('' @ i @ '') completed successfully.'');
        State_Monad.return plan' })"

definition worker_failed :: "Orchestrator \<Rightarrow> ctx \<Rightarrow> collab_env \<Rightarrow> completionEvent \<Rightarrow> ExecutionPlan \<Rightarrow> ('m tm_world_scheme, ExecutionPlan) state" where
  "worker_failed o1 c env ev plan =
     (let i = ce_SubtaskID ev; taskID = task_ID (cx_task env); plan' = set_status i ''failed'' plan; errMsg = error_text (ce_Result ev) in do {
        _ \<leftarrow> or_updatePlanSubtasks c plan';
        _ \<leftarrow> or_recordEvent c taskID ''subtask.failed'' [(''subtask_id'', i), (''agent_id'', ce_AgentID ev), (''error'', errMsg),
          (''mode'', ''collaborative'')];
        _ \<leftarrow> sendSystemMessage o1 c taskID ''WORKER_FAILED''
          (''Worker '' @ subtask_name i plan' @ '' ('' @ i @ '') FAILED: '' @ errMsg @ '' (exit code '' @ itoa (ar_ExitCode (ce_Result ev)) @ '')'');
        State_Monad.return plan' })"

definition handleCollaborativeCompletion :: "Orchestrator \<Rightarrow> ctx \<Rightarrow> collab_env \<Rightarrow> completionEvent \<Rightarrow> collab_run \<Rightarrow>
    ('m tm_world_scheme, collab_run) state" where
  "handleCollaborativeCompletion o1 c env ev run =
     (let run = run\<lparr>cb_running := mdel (ce_AgentID ev) (cb_running run)\<rparr> in
      if ce_SubtaskID ev = ''manager'' then do {
        _ \<leftarrow> sendSystemMessage o1 c (task_ID (cx_task env)) ''MANAGER_EXITED''
          (''Manager has exited (exit_code='' @ itoa (ar_ExitCode (ce_Result ev)) @
           ''). Workers should finish without waiting for approval.'');
        State_Monad.return run }
      else do {
        plan \<leftarrow> (if succeeded (ce_Result ev) then worker_completed o1 c env ev (cb_plan run) else worker_failed o1 c env ev (cb_plan run));
        State_Monad.return (run\<lparr>cb_plan := plan\<rparr>) })"

section \<open>Workers\<close>

fun spawn_text :: "spawn_error \<Rightarrow> string" where
  "spawn_text ErrPoolFull = ''agent pool is full''"
| "spawn_text ErrTaskLimitReached = ''per-task agent limit reached''"
| "spawn_text (SpawnFailed e) = e"

definition spawn_full :: "spawn_error \<Rightarrow> bool" where
  "spawn_full e \<longleftrightarrow> e = ErrPoolFull \<or> e = ErrTaskLimitReached"

definition worker_opts :: "collab_env \<Rightarrow> Subtask \<Rightarrow> string \<Rightarrow> SpawnOpts" where
  "worker_opts env st prompt = \<lparr>so_TaskID = task_ID (cx_task env), so_SubtaskID = st_ID st, so_Role = role_of st, so_Prompt = prompt,
     so_WorkspaceDir = cx_workspace env, so_EnvVars = []\<rparr>"

definition worker_prompt :: "Orchestrator \<Rightarrow> ctx \<Rightarrow> collab_env \<Rightarrow> ExecutionPlan \<Rightarrow> Subtask \<Rightarrow> ('m world_scheme, string) state" where
  "worker_prompt o1 c env plan st = do {
     directive \<leftarrow> ReadDirective (cx_workspace env) (st_ID st);
     broadcastMsgs \<leftarrow> CollectBroadcastMessages c (task_ID (cx_task env)) (st_ID st);
     State_Monad.return (BuildCollaborativeWorkerPrompt st (ep_Subtasks plan) (ep_TaskPrompt plan)
       \<lparr>cw_Directive = directive, cw_BroadcastMessages = broadcastMsgs, cw_RolePromptHint = mget [] (cx_hints env) (st_AgentRole st),
        cw_APIURL = agentAPIURL o1, cw_TaskID = task_ID (cx_task env)\<rparr>) }"

definition fix_prompt :: "Orchestrator \<Rightarrow> collab_env \<Rightarrow> int \<Rightarrow> ExecutionPlan \<Rightarrow> Subtask \<Rightarrow> string \<Rightarrow> ('m world_scheme, string) state" where
  "fix_prompt o1 env round plan st instructions = do {
     directive \<leftarrow> ReadDirective (cx_workspace env) (st_ID st);
     State_Monad.return (BuildFixWorkerPrompt st (ep_Subtasks plan) (ep_TaskPrompt plan) instructions round
       \<lparr>cw_Directive = directive, cw_BroadcastMessages = [], cw_RolePromptHint = mget [] (cx_hints env) (st_AgentRole st),
        cw_APIURL = agentAPIURL o1, cw_TaskID = task_ID (cx_task env)\<rparr>) }"

text \<open>The worker runs: plan, map of running agents, the goroutine that waits for it.\<close>

definition worker_runs :: "ctx \<Rightarrow> ExecutionPlan \<Rightarrow> string \<Rightarrow> string \<Rightarrow> collab_run \<Rightarrow> ('m tm_world_scheme, collab_run) state" where
  "worker_runs c plan subtaskID agentID run = do {
     _ \<leftarrow> or_updatePlanSubtasks c plan;
     _ \<leftarrow> wait_for agentID subtaskID;
     State_Monad.return (run\<lparr>cb_plan := plan, cb_running := mput agentID subtaskID (cb_running run)\<rparr>) }"

definition run_index :: "nat \<Rightarrow> string \<Rightarrow> ExecutionPlan \<Rightarrow> ExecutionPlan" where
  "run_index k agentID plan =
     plan\<lparr>ep_Subtasks := (ep_Subtasks plan)[k := (ep_Subtasks plan ! k)\<lparr>st_Status := ''running'', st_AgentID := agentID\<rparr>]\<rparr>"

text \<open>A worker is started; while the pool is full one completion is waited for, which the context does
  not end.\<close>

definition await_completion :: "('m tm_world_scheme, completionEvent option) state" where
  "await_completion = do { _ \<leftarrow> background_run; pop_completion }"

definition spawn_retry :: "Orchestrator \<Rightarrow> ctx \<Rightarrow> collab_env \<Rightarrow> SpawnOpts \<Rightarrow> collab_run \<Rightarrow>
    ('m tm_world_scheme, collab_run \<times> (spawn_error + AgentInstance) option) state" where
  "spawn_retry o1 c env opts run = do {
     r \<leftarrow> spawn_agent o1 c opts;
     (case r of
        Inr ag \<Rightarrow> State_Monad.return (run, Some (Inr ag))
      | Inl e \<Rightarrow> if \<not> spawn_full e then State_Monad.return (run, Some (Inl e)) else do {
          ev \<leftarrow> await_completion;
          (case ev of
             None \<Rightarrow> State_Monad.return (run, None)
           | Some ev \<Rightarrow> do {
               run \<leftarrow> handleCollaborativeCompletion o1 c env ev run;
               r \<leftarrow> spawn_agent o1 c opts;
               State_Monad.return (run, Some r) }) }) }"

fun spawn_workers :: "Orchestrator \<Rightarrow> ctx \<Rightarrow> collab_env \<Rightarrow> nat list \<Rightarrow> collab_run \<Rightarrow> ('m tm_world_scheme, collab_run \<times> loop_end) state" where
  "spawn_workers o1 c env [] run = State_Monad.return (run, LoopDone)"
| "spawn_workers o1 c env (k # ks) run = do {
     stop \<leftarrow> gets (ctx_Err c);
     (case stop of
        Some e \<Rightarrow> State_Monad.return (run, LoopError e)
      | None \<Rightarrow> (let st = ep_Subtasks (cb_plan run) ! k in do {
          prompt \<leftarrow> worker_prompt o1 c env (cb_plan run) st;
          (run, r) \<leftarrow> spawn_retry o1 c env (worker_opts env st prompt) run;
          (case r of
             None \<Rightarrow> State_Monad.return (run, LoopBlocked)
           | Some (Inl e) \<Rightarrow> State_Monad.return (run, LoopError (''spawning worker for subtask '' @ st_ID st @ '': '' @ spawn_text e))
           | Some (Inr ag) \<Rightarrow> do {
               run \<leftarrow> worker_runs c (run_index k (ai_ID ag) (cb_plan run)) (st_ID st) (ai_ID ag) run;
               _ \<leftarrow> or_recordEvent c (task_ID (cx_task env)) ''subtask.started'' [(''subtask_id'', st_ID st), (''agent_id'', ai_ID ag),
                 (''mode'', ''collaborative'')];
               spawn_workers o1 c env ks run }) })) }"

section \<open>Waiting for the workers\<close>

datatype workers_wait = ManagerGone | WorkersDone | WaitLeft loop_end

fun wait_workers :: "nat \<Rightarrow> Orchestrator \<Rightarrow> ctx \<Rightarrow> collab_env \<Rightarrow> collab_run \<Rightarrow> ('m tm_world_scheme, collab_run \<times> workers_wait) state" where
  "wait_workers 0 o1 c env run = State_Monad.return (run, WaitLeft LoopNoFuel)"
| "wait_workers (Suc n) o1 c env run =
     (if cb_running run = [] then State_Monad.return (run, ManagerGone)
      else if list_all (\<lambda>(_, i). i = ''manager'') (cb_running run) then State_Monad.return (run, WorkersDone)
      else do {
        ev \<leftarrow> select_completion c;
        (case ev of
           None \<Rightarrow> State_Monad.return (run, WaitLeft LoopBlocked)
         | Some (Inl e) \<Rightarrow> State_Monad.return (run, WaitLeft (LoopError e))
         | Some (Inr ev) \<Rightarrow> do {
             run \<leftarrow> handleCollaborativeCompletion o1 c env ev run;
             wait_workers n o1 c env run }) })"

text \<open>Every round of the wait takes a completion.\<close>

definition wait_fuel :: "'m tm_world_scheme \<Rightarrow> nat" where
  "wait_fuel w = Suc (length (w_waits w) + length (w_completions w))"

section \<open>The manager's decision\<close>

text \<open>\<open>Exited\<close> is the answer \<open>nil\<close>: the manager has exited or the context is done.\<close>

datatype decision = Exited | Respawn "RespawnRequest list" | Undecided loop_end

definition take_completion :: "collab_run \<Rightarrow> ('m tm_world_scheme, collab_run \<times> completionEvent option) state" where
  "take_completion run = do {
     ev \<leftarrow> pop_completion;
     State_Monad.return (case ev of
       None \<Rightarrow> (run, None)
     | Some ev \<Rightarrow> (run\<lparr>cb_running := mdel (ce_AgentID ev) (cb_running run)\<rparr>, Some ev)) }"

definition wait_branch :: "Orchestrator \<Rightarrow> ('m tm_world_scheme, branch) state" where
  "wait_branch o1 = do { _ \<leftarrow> others_post o1; next_branch }"

definition ctx_exit :: "ctx \<Rightarrow> ('m world_scheme, decision) state" where
  "ctx_exit c = do { e \<leftarrow> gets (ctx_Err c); State_Monad.return (if e = None then Undecided LoopBlocked else Exited) }"

fun decide_poll :: "nat \<Rightarrow> Orchestrator \<Rightarrow> ctx \<Rightarrow> string \<Rightarrow> collab_run \<Rightarrow> ('m tm_world_scheme, collab_run \<times> decision) state" where
  "decide_poll 0 o1 c taskID run = State_Monad.return (run, Undecided LoopNoFuel)"
| "decide_poll (Suc n) o1 c taskID run = do {
     b \<leftarrow> wait_branch o1;
     (case b of
        BrDone \<Rightarrow> do { d \<leftarrow> ctx_exit c; State_Monad.return (run, d) }
      | BrCompletion \<Rightarrow> do {
          (run, ev) \<leftarrow> take_completion run;
          (case ev of
             None \<Rightarrow> State_Monad.return (run, Undecided LoopBlocked)
           | Some ev \<Rightarrow> if ce_SubtaskID ev = ''manager'' then State_Monad.return (run, Exited) else decide_poll n o1 c taskID run) }
      | BrTick \<Rightarrow> do {
          (reqs, cursor) \<leftarrow> CheckRespawnRequests c taskID (cb_cursor run);
          (let run = run\<lparr>cb_cursor := cursor\<rparr> in
           if reqs \<noteq> [] then State_Monad.return (run, Respawn reqs) else decide_poll n o1 c taskID run) }
      | _ \<Rightarrow> State_Monad.return (run, Undecided LoopBlocked)) }"

definition bus_receive :: "nat \<Rightarrow> ('m tm_world_scheme, AgentMessageEvent option) state" where
  "bus_receive ch = State (\<lambda>w. case receive ch (w_bus w) of (e, mb) \<Rightarrow> (e, w\<lparr>w_bus := mb\<rparr>))"

fun decide_bus :: "nat \<Rightarrow> Orchestrator \<Rightarrow> ctx \<Rightarrow> nat \<Rightarrow> collab_run \<Rightarrow> ('m tm_world_scheme, collab_run \<times> decision) state" where
  "decide_bus 0 o1 c ch run = State_Monad.return (run, Undecided LoopNoFuel)"
| "decide_bus (Suc n) o1 c ch run = do {
     b \<leftarrow> wait_branch o1;
     (case b of
        BrDone \<Rightarrow> do { d \<leftarrow> ctx_exit c; State_Monad.return (run, d) }
      | BrCompletion \<Rightarrow> do {
          (run, ev) \<leftarrow> take_completion run;
          (case ev of
             None \<Rightarrow> State_Monad.return (run, Undecided LoopBlocked)
           | Some ev \<Rightarrow> if ce_SubtaskID ev = ''manager'' then State_Monad.return (run, Exited) else decide_bus n o1 c ch run) }
      | BrMessage \<Rightarrow> do {
          m \<leftarrow> bus_receive ch;
          (case m of
             None \<Rightarrow> State_Monad.return (run, Undecided LoopBlocked)
           | Some m \<Rightarrow> (let reqs = respawn_requests (ame_FromSubtaskID m) (ame_MsgType m) (ame_Content m) in
               if reqs \<noteq> [] then State_Monad.return (run, Respawn reqs) else decide_bus n o1 c ch run)) }
      | _ \<Rightarrow> State_Monad.return (run, Undecided LoopBlocked)) }"

text \<open>How far \<open>append\<close> grows the slice of subscribers is the runtime's.\<close>

definition waitForManagerDecisionRT :: "nat \<Rightarrow> Orchestrator \<Rightarrow> ctx \<Rightarrow> string \<Rightarrow> collab_run \<Rightarrow> ('m tm_world_scheme, collab_run \<times> decision) state" where
  "waitForManagerDecisionRT n o1 c taskID run = do {
     ch \<leftarrow> State (\<lambda>w. case Subscribe (w_rank w (w_tick w) ''append'' taskID) taskID (w_bus w) of (ch, mb) \<Rightarrow> (ch, w\<lparr>w_bus := mb\<rparr>));
     (run, d) \<leftarrow> decide_bus n o1 c ch run;
     _ \<leftarrow> modify (\<lambda>w. w\<lparr>w_bus := Unsubscribe taskID ch (w_bus w)\<rparr>);
     State_Monad.return (run, d) }"

definition waitForManagerDecision :: "nat \<Rightarrow> Orchestrator \<Rightarrow> ctx \<Rightarrow> string \<Rightarrow> collab_run \<Rightarrow> ('m tm_world_scheme, collab_run \<times> decision) state" where
  "waitForManagerDecision n o1 c taskID run =
     (if or_msgBus o1 then waitForManagerDecisionRT n o1 c taskID run else decide_poll n o1 c taskID run)"

section \<open>Rounds\<close>

fun respawn_each :: "Orchestrator \<Rightarrow> ctx \<Rightarrow> collab_env \<Rightarrow> RespawnRequest list \<Rightarrow> collab_run \<Rightarrow> ('m tm_world_scheme, collab_run \<times> loop_end) state" where
  "respawn_each o1 c env [] run = State_Monad.return (run, LoopDone)"
| "respawn_each o1 c env (req # reqs) run = do {
     stop \<leftarrow> gets (ctx_Err c);
     (case (stop, find_subtask (rr_Request_SubtaskID req) (cb_plan run)) of
        (Some e, _) \<Rightarrow> State_Monad.return (run, LoopError e)
      | (None, None) \<Rightarrow> respawn_each o1 c env reqs run
      | (None, Some st) \<Rightarrow> do {
          prompt \<leftarrow> fix_prompt o1 env (cb_round run + 1) (cb_plan run) st (rr_Instructions req);
          r \<leftarrow> spawn_agent o1 c (worker_opts env st prompt);
          (case r of
             Inl e \<Rightarrow> do {
               _ \<leftarrow> sendSystemMessage o1 c (task_ID (cx_task env)) ''RESPAWN_FAILED''
                 (''Failed to respawn '' @ rr_Request_SubtaskID req @ '': '' @ spawn_text e);
               respawn_each o1 c env reqs run }
           | Inr ag \<Rightarrow> do {
               run \<leftarrow> worker_runs c (set_running (st_ID st) (ai_ID ag) (cb_plan run)) (st_ID st) (ai_ID ag) run;
               _ \<leftarrow> or_recordEvent c (task_ID (cx_task env)) ''subtask.respawned'' [(''subtask_id'', st_ID st), (''agent_id'', ai_ID ag),
                 (''round'', itoa (cb_round run + 1))];
               respawn_each o1 c env reqs run }) }) }"

text \<open>All workers are done: the manager is told and asked.\<close>

definition ask_manager :: "nat \<Rightarrow> Orchestrator \<Rightarrow> ctx \<Rightarrow> collab_env \<Rightarrow> collab_run \<Rightarrow> ('m tm_world_scheme, collab_run \<times> decision) state" where
  "ask_manager n o1 c env run =
     (let run = run\<lparr>cb_round := cb_round run + 1\<rparr>; taskID = task_ID (cx_task env) in do {
        _ \<leftarrow> sendSystemMessage o1 c taskID ''ALL_WORKERS_DONE'' (buildWorkersSummary (cb_plan run));
        _ \<leftarrow> or_recordEvent c taskID ''fix_round.workers_done'' [(''round'', itoa (cb_round run))];
        waitForManagerDecision n o1 c taskID run })"

definition fix_workers :: "Orchestrator \<Rightarrow> ctx \<Rightarrow> collab_env \<Rightarrow> RespawnRequest list \<Rightarrow> collab_run \<Rightarrow> ('m tm_world_scheme, collab_run \<times> loop_end) state" where
  "fix_workers o1 c env reqs run =
     (let taskID = task_ID (cx_task env); round = itoa (cb_round run + 1); k = itoa (int (length reqs)) in do {
        _ \<leftarrow> or_recordEvent c taskID ''fix_round.respawn'' [(''round'', round), (''workers'', k)];
        (run, e) \<leftarrow> respawn_each o1 c env reqs run;
        _ \<leftarrow> when_do (e = LoopDone) (sendSystemMessage o1 c taskID ''WORKERS_RESPAWNED''
          (''Respawned '' @ k @ '' worker(s) for fix round '' @ round @ ''. Monitoring their progress.''));
        State_Monad.return (run, e) })"

fun collab_loop :: "nat \<Rightarrow> Orchestrator \<Rightarrow> ctx \<Rightarrow> collab_env \<Rightarrow> collab_run \<Rightarrow> ('m tm_world_scheme, collab_run \<times> loop_end) state" where
  "collab_loop 0 o1 c env run = State_Monad.return (run, LoopNoFuel)"
| "collab_loop (Suc n) o1 c env run = do {
     k \<leftarrow> gets wait_fuel;
     (run, w) \<leftarrow> wait_workers k o1 c env run;
     (case w of
        ManagerGone \<Rightarrow> State_Monad.return (run, LoopDone)
      | WaitLeft e \<Rightarrow> State_Monad.return (run, e)
      | WorkersDone \<Rightarrow> do {
          (run, d) \<leftarrow> ask_manager n o1 c env run;
          (case d of
             Exited \<Rightarrow> State_Monad.return (run, LoopDone)
           | Undecided e \<Rightarrow> State_Monad.return (run, e)
           | Respawn reqs \<Rightarrow> do {
               (run, e) \<leftarrow> fix_workers o1 c env reqs run;
               if e = LoopDone then collab_loop n o1 c env run else State_Monad.return (run, e) }) }) }"

section \<open>The run\<close>

definition directives_dir :: "string \<Rightarrow> string" where
  "directives_dir workspaceDir = path_Join [workspaceDir, ''.klaudio'', ''directives'']"

text \<open>From the workers to the end of the rounds.\<close>

definition collab_rounds :: "nat \<Rightarrow> Orchestrator \<Rightarrow> ctx \<Rightarrow> collab_env \<Rightarrow> string \<Rightarrow> ExecutionPlan \<Rightarrow> ('m tm_world_scheme, collab_run \<times> loop_end) state" where
  "collab_rounds n o1 c env managerID plan = do {
     _ \<leftarrow> wait_for managerID ''manager'';
     (run, e) \<leftarrow> spawn_workers o1 c env [0..<length (ep_Subtasks plan)]
       \<lparr>cb_plan = plan, cb_running = [(managerID, ''manager'')], cb_cursor = 0, cb_round = 0\<rparr>;
     if e = LoopDone then collab_loop n o1 c env run else State_Monad.return (run, e) }"

definition RunCollaborative :: "nat \<Rightarrow> Orchestrator \<Rightarrow> ctx \<Rightarrow> Task \<Rightarrow> ExecutionPlan \<Rightarrow> ('m tm_world_scheme, (string + unit) option) state" where
  "RunCollaborative n o1 c task plan = do {
     let workspaceDir = workspace_of (or_cfg o1) (task_ID task);
     r \<leftarrow> os_str (os_MkdirAll workspaceDir);
     (case r of
        Inl e \<Rightarrow> State_Monad.return (Some (Inl (''creating workspace directory: '' @ e)))
      | Inr _ \<Rightarrow> do {
          absWorkspace \<leftarrow> gets (\<lambda>w. Abs (w_cwd w) workspaceDir);
          _ \<leftarrow> ignore (os_MkdirAll (context_dir absWorkspace));
          _ \<leftarrow> ignore (os_MkdirAll (directives_dir absWorkspace));
          hints \<leftarrow> resolveRoleHints c task;
          _ \<leftarrow> new_channel;
          r \<leftarrow> spawn_agent o1 c \<lparr>so_TaskID = task_ID task, so_SubtaskID = ''manager'', so_Role = ''manager'',
            so_Prompt = BuildManagerPrompt (ep_Subtasks plan) (ep_TaskPrompt plan) hints (agentAPIURL o1) (task_ID task),
            so_WorkspaceDir = absWorkspace, so_EnvVars = []\<rparr>;
          (case r of
             Inl e \<Rightarrow> State_Monad.return (Some (Inl (''spawning team manager: '' @ spawn_text e)))
           | Inr ag \<Rightarrow> do {
               _ \<leftarrow> or_recordEvent c (task_ID task) ''manager.started'' [(''agent_id'', ai_ID ag)];
               (run, e) \<leftarrow> collab_rounds n o1 c \<lparr>cx_task = task, cx_workspace = absWorkspace, cx_hints = hints\<rparr> (ai_ID ag) plan;
               (case e of
                  LoopError e \<Rightarrow> State_Monad.return (Some (Inl e))
                | LoopDone \<Rightarrow> do {
                    _ \<leftarrow> ignore (SaveSubtaskContext c (task_ID task) ''manager'' (ai_ID ag) ''Team Manager''
                      (''Coordinated workers across '' @ itoa (cb_round run) @ '' round(s) and monitored execution to completion.'') absWorkspace);
                    _ \<leftarrow> or_recordEvent c (task_ID task) ''manager.completed'' [(''agent_id'', ai_ID ag)];
                    left \<leftarrow> review_step o1 c task (cb_plan run) absWorkspace;
                    State_Monad.return (if left then Some (Inr ()) else None) }
                | _ \<Rightarrow> State_Monad.return None) }) }) }"

text \<open>\<open>Run\<close>; the fuel is that of the rounds of the collaborative mode.\<close>

definition or_Run :: "nat \<Rightarrow> Orchestrator \<Rightarrow> ctx \<Rightarrow> Task \<Rightarrow> ExecutionPlan \<Rightarrow> ('m tm_world_scheme, (string + unit) option) state" where
  "or_Run n o1 c task plan =
     (if ep_Mode plan = ''collaborative'' then RunCollaborative n o1 c task plan else RunDependent o1 c task plan)"

section \<open>Waiting for directives\<close>

fun all_exist :: "string list \<Rightarrow> ('m world_scheme, bool) state" where
  "all_exist [] = State_Monad.return True"
| "all_exist (f # fs) = do {
     r \<leftarrow> os_Stat f;
     (case r of Inl _ \<Rightarrow> State_Monad.return False | Inr _ \<Rightarrow> all_exist fs) }"

definition expected_files :: "string \<Rightarrow> Subtask list \<Rightarrow> string list" where
  "expected_files absWorkspace subtasks =
     directive_file absWorkspace ''coordination'' # map (\<lambda>st. directive_file absWorkspace (st_ID st)) subtasks"

text \<open>Whether it returns within \<open>n\<close> ticks.\<close>

fun waitForDirectives :: "nat \<Rightarrow> ctx \<Rightarrow> string \<Rightarrow> Subtask list \<Rightarrow> ('m tm_world_scheme, bool) state" where
  "waitForDirectives 0 c absWorkspace subtasks = State_Monad.return False"
| "waitForDirectives (Suc n) c absWorkspace subtasks = do {
     b \<leftarrow> next_branch;
     (case b of
        BrDone \<Rightarrow> do { e \<leftarrow> gets (ctx_Err c); State_Monad.return (e \<noteq> None) }
      | BrDeadline \<Rightarrow> do { _ \<leftarrow> for_each (expected_files absWorkspace subtasks) (\<lambda>f. ignore (os_Stat f)); State_Monad.return True }
      | BrTick \<Rightarrow> do {
          allFound \<leftarrow> all_exist (expected_files absWorkspace subtasks);
          if allFound then State_Monad.return True else waitForDirectives n c absWorkspace subtasks }
      | _ \<Rightarrow> State_Monad.return False) }"

end
