(* ===== verification/Orchestrator_Facts.thy ===== *)
theory Orchestrator_Facts
  imports Parallel_Run Executor_Facts Dep_Order "HOL-Library.Multiset"
begin

text \<open>
  What the orchestration loop keeps: it follows the schedules of \<open>Dep_Order\<close>, two agents that run at
  the same time never have a file in common, and the fuel of the loop is never used up. The invariant
  relates the run's variables to the multiset of agents that have been started and not been reported.
\<close>

section \<open>Code that leaves the goroutines alone\<close>

definition outer_rel :: "'m pool_world_scheme \<Rightarrow> 'm pool_world_scheme \<Rightarrow> bool" where
  "outer_rel w w' \<longleftrightarrow> pool_world.more w' = pool_world.more w"

lemma more_outer: "world.more w' = world.more w \<Longrightarrow> outer_rel w w'"
  for w w' :: "'m pool_world_scheme"
  unfolding outer_rel_def by (cases w; cases w') simp

interpretation outer: effect_logic outer_rel
proof unfold_locales
  fix s t u :: "'b pool_world_scheme"
  show "outer_rel s s" by (simp add: outer_rel_def)
  show "outer_rel s t \<Longrightarrow> outer_rel t u \<Longrightarrow> outer_rel s u" by (simp add: outer_rel_def)
  show "quiet_rel s t \<Longrightarrow> outer_rel s t" by (rule more_outer) (simp add: quiet_rel_def still_rel_def)
qed

lemma outer_still: "still.steps m \<Longrightarrow> outer.steps m"
  for m :: "('m pool_world_scheme, 'a) state"
proof (rule outer.stepsI)
  fix w :: "'m pool_world_scheme" assume "still.steps m"
  from still.stepsD [OF this, of w] show "outer_rel w (snd (run_state m w))"
    by (intro more_outer) (simp add: still_rel_def)
qed

lemma outer_pool: "outer.steps (modify (\<lambda>w. w\<lparr>w_pool := f w\<rparr>))" "outer.steps (modify (\<lambda>w. w\<lparr>w_monitors := g w\<rparr>))"
  by (rule outer.steps_modify, simp add: outer_rel_def)+

lemma still_spawn_container: "still.steps (spawn_container dm c opts)"
  unfolding spawn_container_def Let_def RegisterAgent_def UnregisterAgent_def
  by (intro still_intros still.steps_sql sql_time_now)

lemma outer_Spawn: "outer.steps (Spawn dm c opts)"
proof -
  have r: "outer.steps (State (\<lambda>w. case spawn_register a (w_pool w) of (ch, p) \<Rightarrow> (ch, w\<lparr>w_pool := p\<rparr>)))" for a
    by (rule outer.stepsI) (simp add: outer_rel_def split: prod.split)
  show ?thesis
    unfolding Spawn_def
    by (intro outer.steps_bind outer.steps_gets outer.steps_option outer.steps_err outer.steps_try_bind outer_still
        still_spawn_container outer_pool outer.steps_ok r)
qed

lemma outer_monitor: "outer.steps (monitorContainer c agent ch)"
proof -
  have "still.steps (await_exit c i)" for i
    unfolding await_exit_def by (intro still_intros)
  then have "outer.steps (await_exit c i)" for i by (rule outer_still)
  moreover have "outer.steps (UnregisterAgent i)" "outer.steps (ignore (RemoveContainer j))"
    "outer.steps (ignore (in_ctx d (UpdateAgentCompleted i e x)))" for i j d e x
    unfolding UnregisterAgent_def by (rule outer_still, intro still_intros)+
  ultimately show ?thesis
    unfolding monitorContainer_def by (intro outer.steps_bind outer_pool)
qed

section \<open>The agents under way\<close>

definition outs :: "'m tm_world_scheme \<Rightarrow> (string \<times> string) multiset" where
  "outs w = mset (map (\<lambda>x. (wt_AgentID x, wt_SubtaskID x)) (w_waits w)) +
            mset (map (\<lambda>x. (ce_AgentID x, ce_SubtaskID x)) (w_completions w))"

definition outs_rel :: "'m tm_world_scheme \<Rightarrow> 'm tm_world_scheme \<Rightarrow> bool" where
  "outs_rel w w' \<longleftrightarrow> outs w' = outs w"

lemma outer_outs: "outer_rel w w' \<Longrightarrow> outs_rel w w'"
  for w w' :: "'m tm_world_scheme"
  by (cases w; cases w') (simp add: outer_rel_def outs_rel_def outs_def)

interpretation outs: effect_logic outs_rel
proof unfold_locales
  fix s t u :: "'b tm_world_scheme"
  show "outs_rel s s" by (simp add: outs_rel_def)
  show "outs_rel s t \<Longrightarrow> outs_rel t u \<Longrightarrow> outs_rel s u" by (simp add: outs_rel_def)
  show "quiet_rel s t \<Longrightarrow> outs_rel s t"
    by (rule outer_outs, rule more_outer) (simp add: quiet_rel_def still_rel_def)
qed

lemma outs_outer: "outer.steps m \<Longrightarrow> outs.steps m"
  for m :: "('m tm_world_scheme, 'a) state"
proof (rule outs.stepsI)
  fix w :: "'m tm_world_scheme" assume "outer.steps m"
  from outer.stepsD [OF this, of w] show "outs_rel w (snd (run_state m w))" by (rule outer_outs)
qed

lemma outs_still: "still.steps m \<Longrightarrow> outs.steps m"
  for m :: "('m tm_world_scheme, 'a) state"
  by (rule outs_outer, rule outer_still)

lemma mset_take_out: "k < length xs \<Longrightarrow> add_mset (xs ! k) (mset (take_out k xs)) = mset xs"
  using arg_cong [OF id_take_nth_drop, of k xs mset] by (simp add: take_out_def)

lemma mset_map_take_out: "k < length xs \<Longrightarrow> add_mset (f (xs ! k)) (mset (map f (take_out k xs))) = mset (map f xs)"
  using arg_cong [OF mset_take_out, of k xs "image_mset f"] by simp

lemma map_update_same: "k < length xs \<Longrightarrow> f y = f (xs ! k) \<Longrightarrow> map f (xs[k := y]) = map f xs"
  by (simp add: map_update) (metis length_map list_update_id nth_map)

lemma outs_call_wait: "outs (call_wait k w) = outs w"
proof (cases "k < length (w_waits w) \<and> wt_chan (w_waits w ! k) = None")
  case True
  obtain ch p where "pool_Wait (wt_AgentID (w_waits w ! k)) (w_pool w) = (ch, p)" by (rule prod.exhaust)
  then show ?thesis
    using True map_update_same [of k "w_waits w" "\<lambda>x. (wt_AgentID x, wt_SubtaskID x)" "(w_waits w ! k)\<lparr>wt_chan := Some ch\<rparr>"]
    by (simp add: call_wait_def outs_def)
qed (auto simp: call_wait_def)

lemma outs_pass_on: "outs (pass_on k w) = outs w"
  using mset_map_take_out [of k "w_waits w" "\<lambda>x. (wt_AgentID x, wt_SubtaskID x)"]
  by (auto simp: pass_on_def outs_def split: option.split)

lemma outs_background: "outs.steps background_run"
proof -
  have t: "outs.steps (modify tick)"
    by (rule outs.steps_modify) (simp add: outs_rel_def outs_def tick_def)
  have m: "outs.steps (run_monitor k)" for k
    unfolding run_monitor_def
    by (rule outs_outer) (auto intro!: outer.steps_bind outer_pool outer_monitor split: prod.split)
  have "outs.steps (background_step b)" for b
    by (cases b) (simp_all add: m outs.steps_modify outs_rel_def outs_call_wait outs_pass_on)
  then show ?thesis
    unfolding background_run_def by (intro outs.steps_bind outs.steps_gets t outs.steps_for_each)
qed

lemma outs_spawn_agent: "outs.steps (spawn_agent o1 c opts)"
  unfolding spawn_agent_def by (intro outs.steps_bind outs_background outs_outer outer_Spawn)


section \<open>The invariant\<close>

text \<open>The files of the subtask a name stands for.\<close>

definition files_of :: "ExecutionPlan \<Rightarrow> string \<Rightarrow> string list" where
  "files_of plan i =
     (case GetNode (BuildGraph plan) i of None \<Rightarrow> [] | Some k \<Rightarrow> st_FilesInvolved (ep_Subtasks plan ! k))"

definition plan_shape :: "ExecutionPlan \<Rightarrow> (string \<times> string list) list" where
  "plan_shape plan = map (\<lambda>st. (st_ID st, st_FilesInvolved st)) (ep_Subtasks plan)"

lemma update_first_shape:
  "(\<And>st. st_ID (f st) = st_ID st \<and> st_FilesInvolved (f st) = st_FilesInvolved st) \<Longrightarrow>
   map (\<lambda>st. (st_ID st, st_FilesInvolved st)) (update_first i f sts) = map (\<lambda>st. (st_ID st, st_FilesInvolved st)) sts"
  by (induction sts) auto

lemma plan_shape_set [simp]:
  "plan_shape (set_status i s plan) = plan_shape plan" "plan_shape (set_running i a plan) = plan_shape plan"
  by (simp_all add: plan_shape_def set_status_def set_running_def update_first_shape)

lemma plan_shape_nth:
  assumes "plan_shape p = plan_shape plan" "k < length (ep_Subtasks plan)"
  shows "st_ID (ep_Subtasks p ! k) = st_ID (ep_Subtasks plan ! k)"
    and "st_FilesInvolved (ep_Subtasks p ! k) = st_FilesInvolved (ep_Subtasks plan ! k)"
proof -
  have "length (plan_shape p) = length (plan_shape plan)" "plan_shape p ! k = plan_shape plan ! k" using assms(1) by simp_all
  with assms(2) show "st_ID (ep_Subtasks p ! k) = st_ID (ep_Subtasks plan ! k)"
    "st_FilesInvolved (ep_Subtasks p ! k) = st_FilesInvolved (ep_Subtasks plan ! k)"
    by (simp_all add: plan_shape_def)
qed

lemma fold_add_index:
  "map_of (dg_nodes (fold add_subtask (enumerate n sts) g)) i = Some k \<Longrightarrow>
   map_of (dg_nodes g) i = Some k \<or> n \<le> k \<and> k < n + length sts \<and> st_ID (sts ! (k - n)) = i"
proof (induction sts arbitrary: n g)
  case (Cons st sts)
  from Cons.IH [of "Suc n" "add_subtask (n, st) g"] Cons.prems
  show ?case by (auto simp: nth_Cons' split: if_splits)
qed simp

lemma GetNode_index:
  assumes "GetNode (BuildGraph plan) i = Some k"
  shows "k < length (ep_Subtasks plan)" "st_ID (ep_Subtasks plan ! k) = i"
  using assms fold_add_index [of 0 "ep_Subtasks plan" "\<lparr>dg_nodes = [], dg_edges = [], dg_status = []\<rparr>" i k]
  by (auto simp: GetNode_def BuildGraph_def)

lemma dg_sched_static:
  "dg_sched plan g \<Longrightarrow> dg_wf g \<and> dg_nodes g = dg_nodes (BuildGraph plan) \<and> dg_edges g = dg_edges (BuildGraph plan)"
proof (induction rule: dg_sched.induct)
  case (sched_start g i k)
  moreover have "dg_wf (MarkRunning g i)" using sched_start.IH by blast
  ultimately show ?case by (simp add: MarkRunning_def)
next
  case (sched_complete g i ks)
  moreover have "dg_wf (snd (Complete ks g i))" using sched_complete.IH by blast
  ultimately show ?case by (simp add: snd_Complete)
next
  case (sched_fail g i ord)
  moreover have "dg_wf (dg_Fail ord g i)" using sched_fail.IH by blast
  ultimately show ?case by (simp add: dg_Fail_def skipDependents_def)
qed simp

text \<open>\<open>out\<close>: the started agents whose completion has not been taken.\<close>

definition out_ok :: "dep_graph \<Rightarrow> (string \<times> string) multiset \<Rightarrow> bool" where
  "out_ok g out \<longleftrightarrow>
     (\<forall>i. count (image_mset snd out) i \<le> 1) \<and>
     (\<forall>i \<in># image_mset snd out. dg_Status g i \<in> {''running'', ''skipped''})"

definition running_ok :: "ExecutionPlan \<Rightarrow> orch_run \<Rightarrow> (string \<times> string) multiset \<Rightarrow> bool" where
  "running_ok plan run out \<longleftrightarrow> map_ok (og_running run) \<and>
     (\<forall>a i. map_of (og_running run) a = Some i \<longrightarrow> (a, i) \<in># out \<and> fl.holds (og_locks run) i (files_of plan i))"

definition orch_inv :: "ExecutionPlan \<Rightarrow> orch_run \<Rightarrow> (string \<times> string) multiset \<Rightarrow> bool" where
  "orch_inv plan run out \<longleftrightarrow> dg_sched plan (og_graph run) \<and> plan_shape (og_plan run) = plan_shape plan \<and>
     fl_ok (og_locks run) \<and> out_ok (og_graph run) out \<and> running_ok plan run out"

lemma orch_inv_init:
  "orch_inv plan \<lparr>og_graph = BuildGraph plan, og_plan = plan, og_locks = NewFileLockService, og_running = []\<rparr> {#}"
  by (simp add: orch_inv_def out_ok_def running_ok_def sched_init)

lemma orch_inv_locks:
  assumes "orch_inv plan run out" "TryLock (og_locks run) i fs = (b, locks)"
  shows "orch_inv plan (run\<lparr>og_locks := locks\<rparr>) out"
proof -
  have "locks = snd (TryLock (og_locks run) i fs)" using assms(2) by simp
  with assms(1) show ?thesis
    by (auto simp: orch_inv_def running_ok_def TryLock_ok fl.acquire_keeps)
qed

text \<open>A ready subtask is not under way, and none is lost by starting it.\<close>

lemma orch_inv_start:
  assumes inv: "orch_inv plan run out" and r: "dg_ready (og_graph run) i" and n: "GetNode (BuildGraph plan) i = Some k"
    and held: "fl.holds (og_locks run) i (files_of plan i)"
  shows "orch_inv plan (run\<lparr>og_graph := MarkRunning (og_graph run) i, og_plan := set_running i a (og_plan run),
      og_running := mput a i (og_running run)\<rparr>) (add_mset (a, i) out)"
proof -
  note I = inv [unfolded orch_inv_def out_ok_def running_ok_def]
  have "dg_Status (og_graph run) i = ''pending''" using r by (simp add: dg_ready_def dg_Status_def)
  with I have "i \<notin># image_mset snd out" by force
  then have "out_ok (MarkRunning (og_graph run) i) (add_mset (a, i) out)"
    using I by (auto simp: out_ok_def MarkRunning_def count_eq_zero_iff)
  moreover have "dg_sched plan (MarkRunning (og_graph run) i)"
    by (rule sched_start [where k = k]) (use I r n dg_sched_static [of plan "og_graph run"] in \<open>auto simp: GetNode_def\<close>)
  ultimately show ?thesis
    using I held by (auto simp: orch_inv_def running_ok_def)
qed

definition released :: "completionEvent \<Rightarrow> orch_run \<Rightarrow> orch_run" where
  "released ev run = run\<lparr>og_running := mdel (ce_AgentID ev) (og_running run), og_locks := fl_Release (og_locks run) (ce_SubtaskID ev)\<rparr>"

lemma orch_inv_done:
  assumes inv: "orch_inv plan run (add_mset (ce_AgentID ev, ce_SubtaskID ev) out)" and g: "dg_sched plan g"
    and st: "\<And>j. j \<noteq> ce_SubtaskID ev \<Longrightarrow> dg_Status (og_graph run) j \<in> {''running'', ''skipped''} \<Longrightarrow>
      dg_Status g j \<in> {''running'', ''skipped''}"
    and p: "plan_shape p = plan_shape plan"
  shows "orch_inv plan ((released ev run)\<lparr>og_graph := g, og_plan := p\<rparr>) out"
proof -
  note I = inv [unfolded orch_inv_def out_ok_def running_ok_def]
  let ?i = "ce_SubtaskID ev"
  have "count (image_mset snd (add_mset (ce_AgentID ev, ?i) out)) ?i \<le> 1" using I by blast
  then have new: "?i \<notin># image_mset snd out" by (simp add: count_eq_zero_iff)
  have "count (image_mset snd out) j \<le> 1" for j
  proof -
    have "count (image_mset snd out) j \<le> count (image_mset snd (add_mset (ce_AgentID ev, ?i) out)) j" by simp
    also have "\<dots> \<le> 1" using I by blast
    finally show ?thesis .
  qed
  moreover have "dg_Status g j \<in> {''running'', ''skipped''}" if "j \<in># image_mset snd out" for j
  proof (rule st)
    show "j \<noteq> ?i" using that new by metis
    show "dg_Status (og_graph run) j \<in> {''running'', ''skipped''}" using I that by auto
  qed
  ultimately have "out_ok g out" by (simp add: out_ok_def)
  moreover have "(b, j) \<in># out \<and> fl.holds (fl_Release (og_locks run) ?i) j (files_of plan j)"
    if "b \<noteq> ce_AgentID ev" "map_of (og_running run) b = Some j" for b j
  proof -
    from that I have "(b, j) \<in># out" "fl.holds (og_locks run) j (files_of plan j)" by auto
    moreover from this new have "j \<noteq> ?i" by force
    ultimately show ?thesis using I by (auto simp: fl.holds_def fl_Release_holder)
  qed
  ultimately show ?thesis
    using I g p by (auto simp: orch_inv_def running_ok_def released_def fl_Release_ok split: if_splits)
qed

lemma orch_inv_status:
  assumes "orch_inv plan run (add_mset (a, i) out)"
  shows "dg_Status (og_graph run) i \<in> {''running'', ''skipped''}"
  using assms by (simp add: orch_inv_def out_ok_def)

section \<open>What is left to do\<close>

definition pendings :: "dep_graph \<Rightarrow> string set" where
  "pendings g = {i \<in> set (mkeys (dg_nodes g)). dg_Status g i = ''pending''}"

definition left_over :: "orch_run \<Rightarrow> (string \<times> string) multiset \<Rightarrow> nat" where
  "left_over run out = 2 * card (pendings (og_graph run)) + size out"

lemma pendings_finite [simp]: "finite (pendings g)"
  by (simp add: pendings_def)

lemma pendings_mono: "pendings g' \<subseteq> pendings g \<Longrightarrow> card (pendings g') \<le> card (pendings g)"
  by (rule card_mono) simp_all

lemma pendings_start:
  assumes "dg_ready g i" "GetNode g i = Some k"
  shows "card (pendings g) = Suc (card (pendings (MarkRunning g i)))"
proof -
  have i: "i \<in> pendings g" using assms by (auto simp: pendings_def dg_ready_def dg_Status_def GetNode_def set_mkeys)
  have "pendings (MarkRunning g i) = pendings g - {i}" by (auto simp: pendings_def MarkRunning_def)
  with i show ?thesis by (metis card.remove pendings_finite)
qed

lemma pendings_Complete: "pendings (snd (Complete ks g i)) \<subseteq> pendings g"
  by (auto simp: pendings_def snd_Complete)

lemma pendings_Fail: "dg_wf g \<Longrightarrow> (\<And>j. range_of (dg_nodes g) (ord j)) \<Longrightarrow> pendings (dg_Fail ord g i) \<subseteq> pendings g"
  by (auto simp: pendings_def dg_Fail_status split: if_splits) (simp add: dg_Fail_def skipDependents_def)

lemma pendings_init: "card (pendings (BuildGraph plan)) \<le> length (ep_Subtasks plan)"
proof -
  have "pendings (BuildGraph plan) \<subseteq> st_ID ` set (ep_Subtasks plan)" by (auto simp: pendings_def BuildGraph_nodes)
  then have "card (pendings (BuildGraph plan)) \<le> card (st_ID ` set (ep_Subtasks plan))" by (simp add: card_mono)
  also have "\<dots> \<le> card (set (ep_Subtasks plan))" by (rule card_image_le) simp
  also have "\<dots> \<le> length (ep_Subtasks plan)" by (rule card_length)
  finally show ?thesis .
qed

lemma range_sorted: "dg_wf g \<Longrightarrow> range_of (dg_nodes g) (sort_key f (mkeys (dg_edges g)))"
  "dg_wf g \<Longrightarrow> range_of (dg_nodes g) (sort_key f (mkeys (dg_nodes g)))"
  by (auto simp: range_of_def dg_wf_def map_ok_def)

section \<open>The steps of a run\<close>

definition within :: "ExecutionPlan \<Rightarrow> nat \<Rightarrow> orch_run \<Rightarrow> 'm tm_world_scheme \<Rightarrow> bool" where
  "within plan n run w \<longleftrightarrow> orch_inv plan run (outs w) \<and> left_over run (outs w) \<le> n"

lemma within_outs: "outs.steps m \<Longrightarrow> hoare (within plan n run) m (\<lambda>_. within plan n run)"
  for m :: "('m tm_world_scheme, 'a) state"
proof (rule hoareI)
  fix w :: "'m tm_world_scheme" assume "outs.steps m" "within plan n run w"
  with outs.stepsD [of m w] show "within plan n run (snd (run_state m w))" by (simp add: within_def outs_rel_def)
qed

text \<open>The subtasks \<open>GetReady\<close> gives are ready, and stay so while others are started.\<close>

abbreviation sub_ID :: "ExecutionPlan \<Rightarrow> nat \<Rightarrow> string" where
  "sub_ID plan k \<equiv> st_ID (ep_Subtasks plan ! k)"

definition all_ready :: "ExecutionPlan \<Rightarrow> dep_graph \<Rightarrow> nat list \<Rightarrow> bool" where
  "all_ready plan g ks \<longleftrightarrow> distinct (map (sub_ID plan) ks) \<and>
     (\<forall>k \<in> set ks. GetNode (BuildGraph plan) (sub_ID plan k) = Some k \<and> dg_ready g (sub_ID plan k))"

lemma GetReady_ready:
  assumes "dg_sched plan g" "range_of (dg_nodes g) ks"
  shows "all_ready plan g (GetReady ks g)"
proof -
  have n: "dg_nodes g = dg_nodes (BuildGraph plan)" using dg_sched_static [OF assms(1)] by blast
  have *: "\<exists>k. GetNode (BuildGraph plan) i = Some k \<and> sub_ID plan k = i" if "i \<in> set ks" for i
    using that assms(2) GetNode_index(2) by (fastforce simp: range_of_def set_mkeys n GetNode_def)
  have "map (sub_ID plan) (GetReady ks g) = filter (dg_ready g) ks"
    unfolding GetReady_def map_map comp_def n by (rule map_idI) (use * in \<open>fastforce simp: GetNode_def\<close>)
  moreover have "GetNode (BuildGraph plan) (sub_ID plan k) = Some k \<and> dg_ready g (sub_ID plan k)" if "k \<in> set (GetReady ks g)" for k
    using that * by (fastforce simp: GetReady_def n GetNode_def)
  moreover have "distinct (filter (dg_ready g) ks)" using assms(2) by (simp add: range_of_def)
  ultimately show ?thesis by (simp add: all_ready_def)
qed

lemma dg_ready_other: "dg_ready g i \<Longrightarrow> dg_ready g j \<Longrightarrow> j \<noteq> i \<Longrightarrow> dg_ready (MarkRunning g i) j"
  by (auto simp: dg_ready_def allDepsCompleted_def MarkRunning_def list_all_iff)

lemma all_ready_other:
  assumes "all_ready plan g (k # ks)"
  shows "all_ready plan (MarkRunning g (sub_ID plan k)) ks"
  unfolding all_ready_def
proof (intro conjI ballI)
  show "distinct (map (sub_ID plan) ks)" using assms by (simp add: all_ready_def)
  fix j assume j: "j \<in> set ks"
  show "GetNode (BuildGraph plan) (sub_ID plan j) = Some j" using assms j by (simp add: all_ready_def)
  have "sub_ID plan k \<notin> sub_ID plan ` set ks" using assms by (simp add: all_ready_def)
  moreover have "sub_ID plan j \<in> sub_ID plan ` set ks" using j by (rule imageI)
  ultimately have "sub_ID plan j \<noteq> sub_ID plan k" by metis
  then show "dg_ready (MarkRunning g (sub_ID plan k)) (sub_ID plan j)"
    using assms j by (intro dg_ready_other) (simp_all add: all_ready_def)
qed

lemma all_ready_tail: "all_ready plan g (k # ks) \<Longrightarrow> all_ready plan g ks"
  by (simp add: all_ready_def)

lemma lock_files_held:
  "lock_files st locks = (True, locks') \<Longrightarrow> fl.holds locks' (st_ID st) (st_FilesInvolved st)"
  using fl.acquire_holds [of locks "st_ID st" "st_FilesInvolved st"] by (auto simp: lock_files_def fl.holds_def split: if_splits)

lemma lock_files_inv:
  "orch_inv plan run out \<Longrightarrow> lock_files st (og_locks run) = (b, locks) \<Longrightarrow> orch_inv plan (run\<lparr>og_locks := locks\<rparr>) out"
  using orch_inv_locks [of plan run out "st_ID st" "st_FilesInvolved st" b locks]
  by (cases run) (auto simp: lock_files_def split: if_splits)

lemma outs_quiet [intro]: "quiet.steps m \<Longrightarrow> outs.steps m"
  by (rule outs.steps_quiet)

text \<open>An agent has been started.\<close>

lemma started_within:
  assumes "dg_ready (og_graph run) i" "GetNode (BuildGraph plan) i = Some k" "fl.holds (og_locks run) i (files_of plan i)"
  shows "hoare (within plan n run) (started c env i a run)
    (\<lambda>run' w. within plan n run' w \<and> og_graph run' = MarkRunning (og_graph run) i)"
proof -
  let ?run = "run\<lparr>og_graph := MarkRunning (og_graph run) i, og_plan := set_running i a (og_plan run),
      og_running := mput a i (og_running run)\<rparr>"
  have w: "outs (w\<lparr>w_waits := w_waits w @ [\<lparr>wt_AgentID = a, wt_SubtaskID = i, wt_chan = None\<rparr>]\<rparr>) = add_mset (a, i) (outs w)"
    for w :: "'m tm_world_scheme"
    by (simp add: outs_def)
  have n: "GetNode (og_graph run) i = Some k" if "orch_inv plan run out" for out
    using that assms(2) dg_sched_static [of plan "og_graph run"] by (simp add: orch_inv_def GetNode_def)
  have "hoare (within plan n run) (wait_for a i :: ('m tm_world_scheme, unit) state) (\<lambda>_. within plan n ?run)"
    by (rule hoareI) (use orch_inv_start [OF _ assms] pendings_start [OF assms(1) n] in
      \<open>auto simp: wait_for_def within_def w left_over_def\<close>)
  moreover have "hoare (within plan n run) (or_updatePlanSubtasks c p :: ('m tm_world_scheme, unit) state) (\<lambda>_. within plan n run)"
    "hoare (within plan n ?run) (or_recordEvent c t e d :: ('m tm_world_scheme, unit) state) (\<lambda>_. within plan n ?run)" for p t e d
    by (rule within_outs, rule outs_quiet, rule quiet_events)+
  moreover have "hoare (within plan n ?run) (State_Monad.return ?run) (\<lambda>run' w. within plan n run' w \<and> og_graph run' = MarkRunning (og_graph run) i)"
    by (rule hoare_weaken [OF hoare_return]) simp_all
  ultimately show ?thesis
    unfolding started_def Let_def by (intro hoare_bind)
qed

lemma still_context [intro]:
  "still.steps (SaveSubtaskContext c t i a n s d)" "still.steps (CollectDependencyContext st sts d)"
  "still.steps (CollectBroadcastMessages c t i)"
proof -
  show "still.steps (SaveSubtaskContext c t i a n s d)"
    unfolding SaveSubtaskContext_def by (intro still_intros still.steps_sql sql_time_now)
  have "still.steps (dependency_parts sts d ids)" for ids
    by (induction ids) (auto intro!: still_intros simp: Let_def)
  then show "still.steps (CollectDependencyContext st sts d)"
    unfolding CollectDependencyContext_def by (intro still_intros)
  show "still.steps (CollectBroadcastMessages c t i)"
    unfolding CollectBroadcastMessages_def by (intro still_intros)
qed

lemma outs_subtask_prompt: "outs.steps (subtask_prompt o1 c env plan st)"
  unfolding subtask_prompt_def by (intro outs.steps_bind outs.steps_return outs_still still_context)

lemma outs_range_order: "outs.steps (range_order what ks)"
  unfolding range_order_def by (rule outs.stepsI) (simp add: outs_rel_def outs_def tick_def)

lemma spawn_each_within:
  "all_ready plan (og_graph run) ks \<Longrightarrow>
   hoare (within plan n run :: 'm tm_world_scheme \<Rightarrow> bool) (spawn_each o1 c env ks run) (\<lambda>(run', r). within plan n run')"
  for run :: orch_run
proof (induction ks arbitrary: run)
  case Nil
  show ?case by (simp add: hoare_def)
next
  case (Cons k ks)
  obtain b locks where l: "lock_files (ep_Subtasks (og_plan run) ! k) (og_locks run) = (b, locks)" by (rule prod.exhaust)
  let ?run = "run\<lparr>og_locks := locks\<rparr>"
  let ?i = "sub_ID plan k"
  have pre: "within plan n run w \<Longrightarrow> within plan n ?run w" for w :: "'m tm_world_scheme"
    using lock_files_inv [OF _ l] by (simp add: within_def left_over_def)
  show ?case
  proof (cases "b \<and> (\<exists>w :: 'm tm_world_scheme. within plan n run w)")
    case False
    then consider "\<not> b" | "\<And>w :: 'm tm_world_scheme. \<not> within plan n run w" by blast
    then show ?thesis
    proof cases
      case 1
      have "hoare (within plan n ?run :: 'm tm_world_scheme \<Rightarrow> bool) (spawn_each o1 c env ks ?run) (\<lambda>(run', r). within plan n run')"
        by (rule Cons.IH) (use all_ready_tail [OF Cons.prems] in simp)
      with pre have "hoare (within plan n run :: 'm tm_world_scheme \<Rightarrow> bool) (spawn_each o1 c env ks ?run) (\<lambda>(run', r). within plan n run')"
        by (simp add: hoare_def)
      then show ?thesis using 1 by (simp add: l)
    next
      case 2 then show ?thesis by (simp add: hoare_def)
    qed
  next
    case True
    then obtain w0 :: "'m tm_world_scheme" where "within plan n run w0" by blast
    then have shape: "plan_shape (og_plan run) = plan_shape plan" by (simp add: within_def orch_inv_def)
    have n: "GetNode (BuildGraph plan) ?i = Some k" and r: "dg_ready (og_graph run) ?i"
      using Cons.prems by (simp_all add: all_ready_def)
    note sh = plan_shape_nth [OF shape GetNode_index(1) [OF n]]
    have held: "fl.holds locks ?i (files_of plan ?i)"
      using lock_files_held [of "ep_Subtasks (og_plan run) ! k" "og_locks run" locks] l True
      by (simp add: sh files_of_def n)
    have st: "hoare (within plan n ?run :: 'm tm_world_scheme \<Rightarrow> bool) (started c env ?i a ?run)
        (\<lambda>run' w. within plan n run' w \<and> og_graph run' = MarkRunning (og_graph run) ?i)" for a
      using started_within [of ?run ?i plan k n c env a] r n held by simp
    have next_one: "hoare (\<lambda>w :: 'm tm_world_scheme. within plan n run' w \<and> og_graph run' = MarkRunning (og_graph run) ?i)
        (spawn_each o1 c env ks run') (\<lambda>(run', r). within plan n run')" for run'
      using Cons.IH [of run'] all_ready_other [OF Cons.prems] by (auto simp: hoare_def)
    have "hoare (within plan n ?run :: 'm tm_world_scheme \<Rightarrow> bool) (spawn_each o1 c env (k # ks) run) (\<lambda>(run', r). within plan n run')"
      unfolding spawn_each.simps Let_def l prod.case
    proof (subst if_not_P)
      show "\<not> \<not> b" using True by simp
      have "hoare (within plan n ?run :: 'm tm_world_scheme \<Rightarrow> bool) (case r of
          Inl (SpawnFailed e) \<Rightarrow> State_Monad.return (?run, Inl (f e)) | Inl _ \<Rightarrow> State_Monad.return (?run, Inr ())
        | Inr ag \<Rightarrow> started c env ?i (ai_ID ag) ?run \<bind> spawn_each o1 c env ks) (\<lambda>(run', r). within plan n run')"
        for r :: "spawn_error + AgentInstance" and f
      proof (cases r)
        case (Inl e)
        then show ?thesis by (cases e) (simp_all add: hoare_def)
      next
        case (Inr ag)
        then show ?thesis using hoare_bind [OF st next_one] by simp
      qed
      then show "hoare (within plan n ?run :: 'm tm_world_scheme \<Rightarrow> bool) (do {
          prompt \<leftarrow> subtask_prompt o1 c env (og_plan ?run) (ep_Subtasks (og_plan run) ! k);
          r \<leftarrow> spawn_agent o1 c (opts prompt);
          (case r of Inl (SpawnFailed e) \<Rightarrow> State_Monad.return (?run, Inl (f e)) | Inl _ \<Rightarrow> State_Monad.return (?run, Inr ())
           | Inr ag \<Rightarrow> started c env (st_ID (ep_Subtasks (og_plan run) ! k)) (ai_ID ag) ?run \<bind> spawn_each o1 c env ks) })
        (\<lambda>(run', r). within plan n run')" for opts f
        by (intro hoare_bind [OF within_outs [OF outs_subtask_prompt]] hoare_bind [OF within_outs [OF outs_spawn_agent]]) (simp only: sh)
    qed
    then show ?thesis using pre by (simp add: hoare_def)
  qed
qed

lemma get_ready_all:
  "hoare (within plan n run) (get_ready (og_graph run)) (\<lambda>ks w. within plan n run w \<and> all_ready plan (og_graph run) ks)"
proof (rule hoareI)
  fix w :: "'m tm_world_scheme" assume i: "within plan n run w"
  then have g: "dg_sched plan (og_graph run)" by (simp add: within_def orch_inv_def)
  then have "dg_wf (og_graph run)" using dg_sched_static by blast
  from GetReady_ready [OF g range_sorted(2) [OF this]] i
  show "within plan n run (snd (run_state (get_ready (og_graph run)) w)) \<and>
    all_ready plan (og_graph run) (fst (run_state (get_ready (og_graph run)) w))"
    using outs.stepsD [OF outs_range_order [of "''ready''" "mkeys (dg_nodes (og_graph run))"], of w]
    by (simp add: get_ready_def range_order_def within_def outs_rel_def)
qed

lemma spawn_ready_within:
  "hoare (within plan n run :: 'm tm_world_scheme \<Rightarrow> bool) (spawn_ready o1 c env run) (\<lambda>(run', r). within plan n run')"
  unfolding spawn_ready_def
proof (rule hoare_bind [OF get_ready_all])
  show "hoare (\<lambda>w :: 'm tm_world_scheme. within plan n run w \<and> all_ready plan (og_graph run) ks)
    (spawn_each o1 c env ks run) (\<lambda>(run', r). within plan n run')" for ks
    using spawn_each_within [of plan run ks n o1 c env] by (cases "all_ready plan (og_graph run) ks") (simp_all add: hoare_def)
qed

text \<open>A completion is reported.\<close>

lemma keep_outs: "outs.steps m \<Longrightarrow> hoare (\<lambda>w. outs w = out) m (\<lambda>_ w. outs w = out)"
  for m :: "('m tm_world_scheme, 'a) state"
proof (rule hoareI)
  fix w :: "'m tm_world_scheme" assume "outs.steps m" "outs w = out"
  with outs.stepsD [of m w] show "outs (snd (run_state m w)) = out" by (simp add: outs_rel_def)
qed

lemma completed_ok_effect:
  "hoare (\<lambda>w. outs w = out) (completed_ok c env ev run) (\<lambda>run' w. outs w = out \<and>
     run' = run\<lparr>og_graph := snd (Complete [] (og_graph run) (ce_SubtaskID ev)),
       og_plan := set_status (ce_SubtaskID ev) ''completed'' (og_plan run)\<rparr>)"
  unfolding completed_ok_def Let_def snd_Complete
  by (intro hoare_bind [OF keep_outs] outs_range_order outs_quiet quiet_events outs.steps_ignore outs_still still_context)
     (simp add: hoare_def)

lemma completed_failed_effect:
  "hoare (\<lambda>w. outs w = out) (completed_failed c env ev run) (\<lambda>run' w. outs w = out \<and>
     (\<exists>f :: string \<Rightarrow> string \<Rightarrow> nat. run' = run\<lparr>og_graph := dg_Fail (\<lambda>j. sort_key (f j) (mkeys (dg_edges (og_graph run)))) (og_graph run) (ce_SubtaskID ev),
       og_plan := set_status (ce_SubtaskID ev) ''failed'' (og_plan run)\<rparr>))"
proof -
  let ?run = "\<lambda>ord. run\<lparr>og_graph := dg_Fail ord (og_graph run) (ce_SubtaskID ev), og_plan := set_status (ce_SubtaskID ev) ''failed'' (og_plan run)\<rparr>"
  let ?ord = "\<lambda>(f :: string \<Rightarrow> string \<Rightarrow> nat) j. sort_key (f j) (mkeys (dg_edges (og_graph run)))"
  have "hoare (\<lambda>w :: 'a tm_world_scheme. outs w = out \<and> (\<exists>f. ord = ?ord f))
    (do { _ \<leftarrow> or_updatePlanSubtasks c (og_plan (?run ord));
          _ \<leftarrow> or_recordEvent c t e d;
          State_Monad.return (?run ord) })
    (\<lambda>run' w. outs w = out \<and> (\<exists>f. run' = ?run (?ord f)))" for ord t e d
  proof (cases "\<exists>f. ord = ?ord f")
    case True
    then obtain f where f: "ord = ?ord f" by blast
    have "?run ord = ?run (?ord f)" by (simp only: f)
    then have ex: "\<exists>f'. ?run ord = ?run (?ord f')" by (intro exI [of _ f])
    have "hoare (\<lambda>w :: 'a tm_world_scheme. outs w = out)
      (do { _ \<leftarrow> or_updatePlanSubtasks c (og_plan (?run ord));
            _ \<leftarrow> or_recordEvent c t e d;
            State_Monad.return (?run ord) })
      (\<lambda>run' w. outs w = out \<and> (\<exists>f. run' = ?run (?ord f)))"
      by (intro hoare_bind [OF keep_outs] outs_quiet quiet_events) (use ex in \<open>simp add: hoare_def\<close>)
    with True show ?thesis by simp
  qed (simp add: hoare_def)
  moreover have "hoare (\<lambda>w :: 'a tm_world_scheme. outs w = out)
    (gets (\<lambda>w j. sort_key (w_rank w (w_tick w) (''skip'' @ j)) (mkeys (dg_edges (og_graph run)))))
    (\<lambda>ord w. outs w = out \<and> (\<exists>f. ord = ?ord f))"
    by (auto simp: hoare_def)
  ultimately show ?thesis unfolding completed_failed_def Let_def by (rule hoare_bind [rotated])
qed

definition one_back :: "ExecutionPlan \<Rightarrow> nat \<Rightarrow> orch_run \<Rightarrow> completionEvent \<Rightarrow> 'm tm_world_scheme \<Rightarrow> bool" where
  "one_back plan n run ev w \<longleftrightarrow> orch_inv plan run (add_mset (ce_AgentID ev, ce_SubtaskID ev) (outs w)) \<and>
     left_over run (outs w) \<le> n"

lemma handle_completion_within:
  "hoare (one_back plan n run ev) (handle_completion c env ev run) (within plan n)"
proof (rule hoareI)
  fix w :: "'m tm_world_scheme" assume pre: "one_back plan n run ev w"
  let ?i = "ce_SubtaskID ev" and ?w = "run_state (handle_completion c env ev run) w"
  note inv = pre [unfolded one_back_def, THEN conjunct1]
  have g: "dg_sched plan (og_graph run)" "plan_shape (og_plan run) = plan_shape plan" using inv by (simp_all add: orch_inv_def)
  then have wf: "dg_wf (og_graph run)" using dg_sched_static by blast
  note st = orch_inv_status [OF inv]
  have "\<exists>g p. fst ?w = (released ev run)\<lparr>og_graph := g, og_plan := p\<rparr> \<and> outs (snd ?w) = outs w \<and> dg_sched plan g \<and>
    plan_shape p = plan_shape plan \<and> pendings g \<subseteq> pendings (og_graph run) \<and>
    (\<forall>j. j \<noteq> ?i \<longrightarrow> dg_Status (og_graph run) j \<in> {''running'', ''skipped''} \<longrightarrow> dg_Status g j \<in> {''running'', ''skipped''})"
  proof (cases "succeeded (ce_Result ev)")
    case True
    have "outs (snd ?w) = outs w \<and> fst ?w = (released ev run)\<lparr>og_graph := snd (Complete [] (og_graph run) ?i),
        og_plan := set_status ?i ''completed'' (og_plan run)\<rparr>"
      using hoareD [OF completed_ok_effect [of "outs w" c env ev "released ev run"], of w] True
      by (simp add: handle_completion_def released_def Let_def)
    then show ?thesis
      using pendings_Complete [of "[]" "og_graph run" ?i] sched_complete [OF g(1) st, of "[]"] g(2)
      by (intro exI [of _ "snd (Complete [] (og_graph run) ?i)"] exI [of _ "set_status ?i ''completed'' (og_plan run)"])
         (auto simp: snd_Complete)
  next
    case False
    obtain f :: "string \<Rightarrow> string \<Rightarrow> nat" where f: "outs (snd ?w) = outs w"
      "fst ?w = (released ev run)\<lparr>og_graph := dg_Fail (\<lambda>j. sort_key (f j) (mkeys (dg_edges (og_graph run)))) (og_graph run) ?i,
        og_plan := set_status ?i ''failed'' (og_plan run)\<rparr>"
      using hoareD [OF completed_failed_effect [of "outs w" c env ev "released ev run"], of w] False
      by (auto simp: handle_completion_def released_def Let_def)
    let ?ord = "\<lambda>j. sort_key (f j) (mkeys (dg_edges (og_graph run)))"
    note ord = range_sorted(1) [OF wf]
    have "dg_Status (dg_Fail ?ord (og_graph run) ?i) j \<in> {''running'', ''skipped''}"
      if "j \<noteq> ?i" "dg_Status (og_graph run) j \<in> {''running'', ''skipped''}" for j
    proof -
      have "dg_Status (dg_Fail ?ord (og_graph run) ?i) j \<in> {''skipped'', dg_Status (og_graph run) j}"
        by (subst dg_Fail_status [OF wf]) (use that(1) ord in simp_all)
      with that(2) show ?thesis by auto
    qed
    moreover have "pendings (dg_Fail ?ord (og_graph run) ?i) \<subseteq> pendings (og_graph run)" by (rule pendings_Fail [OF wf]) (rule ord)
    moreover have "dg_sched plan (dg_Fail ?ord (og_graph run) ?i)" by (rule sched_fail [OF g(1) st]) (rule ord)
    ultimately show ?thesis
      by (intro exI [of _ "dg_Fail ?ord (og_graph run) ?i"] exI [of _ "set_status ?i ''failed'' (og_plan run)"])
         (use f g(2) in simp)
  qed
  then obtain g p where r: "fst ?w = (released ev run)\<lparr>og_graph := g, og_plan := p\<rparr>" "outs (snd ?w) = outs w" "dg_sched plan g"
    "plan_shape p = plan_shape plan" "pendings g \<subseteq> pendings (og_graph run)"
    "\<And>j. j \<noteq> ?i \<Longrightarrow> dg_Status (og_graph run) j \<in> {''running'', ''skipped''} \<Longrightarrow> dg_Status g j \<in> {''running'', ''skipped''}"
    by blast
  have "left_over (fst ?w) (outs w) \<le> n"
    using pre pendings_mono [OF r(5)] by (simp add: one_back_def left_over_def r(1))
  with orch_inv_done [OF inv r(3,6,4)] show "within plan n (fst ?w) (snd ?w)"
    by (simp add: within_def r(1,2))
qed

lemma select_completion_outs:
  "hoare (within plan n run) (select_completion c)
     (\<lambda>r w. case r of Some (Inr ev) \<Rightarrow> 0 < n \<and> one_back plan (n - 1) run ev w | _ \<Rightarrow> within plan n run w)"
proof -
  have pop: "hoare (within plan n run) pop_completion
    (\<lambda>r w. case r of Some ev \<Rightarrow> 0 < n \<and> one_back plan (n - 1) run ev w | None \<Rightarrow> within plan n run w)"
    by (rule hoareI) (auto simp: pop_completion_def within_def one_back_def outs_def left_over_def split: list.split)
  have b: "outs.steps next_branch" unfolding next_branch_def by (intro outs.steps_bind outs_background outs.steps_gets)
  show ?thesis
    unfolding select_completion_def
  proof (rule hoare_bind [OF within_outs [OF b]])
    show "hoare (within plan n run) (case x of
        BrDone \<Rightarrow> do { e \<leftarrow> gets (ctx_Err c); State_Monad.return (map_option Inl e) }
      | BrCompletion \<Rightarrow> do { ev \<leftarrow> pop_completion; State_Monad.return (map_option Inr ev) }
      | _ \<Rightarrow> State_Monad.return None)
      (\<lambda>r w. case r of Some (Inr ev) \<Rightarrow> 0 < n \<and> one_back plan (n - 1) run ev w | _ \<Rightarrow> within plan n run w)" for x
      using pop by (cases x) (auto simp: hoare_def case_prod_beta split: option.splits)
  qed
qed

section \<open>The loop\<close>

lemma nothing_left_within: "hoare (within plan n run) (nothing_left run) (\<lambda>_. within plan n run)"
proof -
  have "hoare (within plan n run) (get_ready (og_graph run)) (\<lambda>_. within plan n run)"
    by (rule hoare_weaken [OF get_ready_all]) (assumption, drule conjunct1, assumption)
  then show ?thesis unfolding nothing_left_def by (auto simp: hoare_def case_prod_beta)
qed

text \<open>The invariant holds at the end, and the fuel lasts if there was more of it than was left to do.\<close>

definition loop_post :: "ExecutionPlan \<Rightarrow> bool \<Rightarrow> orch_run \<times> loop_end \<Rightarrow> 'm tm_world_scheme \<Rightarrow> bool" where
  "loop_post plan enough x w \<longleftrightarrow> orch_inv plan (fst x) (outs w) \<and> (enough \<longrightarrow> snd x \<noteq> LoopNoFuel)"

lemma within_post: "within plan n run w \<Longrightarrow> e \<noteq> LoopNoFuel \<Longrightarrow> loop_post plan b (run, e) w"
  by (simp add: within_def loop_post_def)

lemma orch_loop_post:
  "hoare (within plan m run :: 'm tm_world_scheme \<Rightarrow> bool) (orch_loop n o1 c env run) (loop_post plan (m < n))"
proof (induction n arbitrary: m run)
  case 0
  show ?case by (simp add: hoare_def loop_post_def within_def)
next
  case (Suc n)
  have spawn: "hoare (within plan (m - 1) run1 :: 'm tm_world_scheme \<Rightarrow> bool) (do {
      (run2, r) \<leftarrow> spawn_ready o1 c env run1;
      (case r of Inl e \<Rightarrow> State_Monad.return (run2, LoopError e) | Inr _ \<Rightarrow> orch_loop n o1 c env run2) })
    (loop_post plan (m < Suc n))" if "0 < m" for run1
  proof (rule hoare_bind [OF spawn_ready_within])
    have "hoare (within plan (m - 1) run2 :: 'm tm_world_scheme \<Rightarrow> bool)
      (case r of Inl e \<Rightarrow> State_Monad.return (run2, LoopError e) | Inr _ \<Rightarrow> orch_loop n o1 c env run2)
      (loop_post plan (m < Suc n))" for run2 and r :: "string + unit"
      using Suc.IH [of "m - 1" run2] that by (cases r) (auto simp: hoare_def within_post less_diff_conv2 Suc_leI)
    then show "hoare ((\<lambda>(run', r) (w :: 'm tm_world_scheme). within plan (m - 1) run' w) x)
      (case x of (run2, r) \<Rightarrow> (case r of Inl e \<Rightarrow> State_Monad.return (run2, LoopError e) | Inr _ \<Rightarrow> orch_loop n o1 c env run2))
      (loop_post plan (m < Suc n))" for x :: "orch_run \<times> (string + unit)"
      by (cases x) simp
  qed
  have round: "hoare (within plan m run :: 'm tm_world_scheme \<Rightarrow> bool) (do {
      ev \<leftarrow> select_completion c;
      (case ev of
         None \<Rightarrow> State_Monad.return (run, LoopBlocked)
       | Some (Inl e) \<Rightarrow> State_Monad.return (run, LoopError e)
       | Some (Inr ev) \<Rightarrow> do {
           run1 \<leftarrow> handle_completion c env ev run;
           (run2, r) \<leftarrow> spawn_ready o1 c env run1;
           (case r of Inl e \<Rightarrow> State_Monad.return (run2, LoopError e) | Inr _ \<Rightarrow> orch_loop n o1 c env run2) }) })
    (loop_post plan (m < Suc n))"
  proof (rule hoare_bind [OF select_completion_outs])
    fix x :: "(string + completionEvent) option"
    show "hoare (\<lambda>w :: 'm tm_world_scheme. case x of Some (Inr ev) \<Rightarrow> 0 < m \<and> one_back plan (m - 1) run ev w | _ \<Rightarrow> within plan m run w)
      (case x of
         None \<Rightarrow> State_Monad.return (run, LoopBlocked)
       | Some (Inl e) \<Rightarrow> State_Monad.return (run, LoopError e)
       | Some (Inr ev) \<Rightarrow> do {
           run1 \<leftarrow> handle_completion c env ev run;
           (run2, r) \<leftarrow> spawn_ready o1 c env run1;
           (case r of Inl e \<Rightarrow> State_Monad.return (run2, LoopError e) | Inr _ \<Rightarrow> orch_loop n o1 c env run2) })
      (loop_post plan (m < Suc n))"
    proof (cases "\<exists>ev. x = Some (Inr ev)")
      case True
      then obtain ev where ev: "x = Some (Inr ev)" by blast
      show ?thesis
      proof (cases "0 < m")
        case True
        show ?thesis using hoare_bind [OF handle_completion_within spawn [OF True]] by (simp add: ev True)
      qed (simp add: ev hoare_def)
    qed (auto simp: hoare_def within_post split: option.split sum.split)
  qed
  have "hoare (within plan m run :: 'm tm_world_scheme \<Rightarrow> bool) (if stop then State_Monad.return (run, LoopDone) else do {
      ev \<leftarrow> select_completion c;
      (case ev of
         None \<Rightarrow> State_Monad.return (run, LoopBlocked)
       | Some (Inl e) \<Rightarrow> State_Monad.return (run, LoopError e)
       | Some (Inr ev) \<Rightarrow> do {
           run1 \<leftarrow> handle_completion c env ev run;
           (run2, r) \<leftarrow> spawn_ready o1 c env run1;
           (case r of Inl e \<Rightarrow> State_Monad.return (run2, LoopError e) | Inr _ \<Rightarrow> orch_loop n o1 c env run2) }) })
    (loop_post plan (m < Suc n))" for stop
    using round by (cases stop) (simp_all add: hoare_def within_post)
  note loop = hoare_bind [OF nothing_left_within this]
  show ?case
    by (cases "AllCompleted (og_graph run)") (use loop in \<open>simp_all add: hoare_def within_post\<close>)
qed

lemma orch_rounds_post:
  "loop_post plan (2 * length (ep_Subtasks plan) < n) (fst (run_state (orch_rounds n o1 c env plan) w))
     (snd (run_state (orch_rounds n o1 c env plan) w))"
  for w :: "'m tm_world_scheme"
proof -
  let ?m = "2 * length (ep_Subtasks plan)"
  let ?run = "\<lparr>og_graph = BuildGraph plan, og_plan = plan, og_locks = NewFileLockService, og_running = []\<rparr>"
  have init: "hoare (\<lambda>_. True) (new_channel :: ('m tm_world_scheme, unit) state) (\<lambda>_. within plan ?m ?run)"
    using orch_inv_init [of plan] pendings_init [of plan]
    by (simp add: hoare_def new_channel_def within_def outs_def left_over_def)
  have "hoare ((\<lambda>(run', r) (w :: 'm tm_world_scheme). within plan ?m run' w) x)
    (case x of (run, r) \<Rightarrow> (case r of Inl e \<Rightarrow> State_Monad.return (run, LoopError e) | Inr _ \<Rightarrow> orch_loop n o1 c env run))
    (loop_post plan (?m < n))" for x :: "orch_run \<times> (string + unit)"
  proof -
    obtain run r where x: "x = (run, r)" by (rule prod.exhaust)
    show ?thesis using orch_loop_post [of plan ?m run n o1 c env] by (cases r) (simp_all add: x hoare_def within_post)
  qed
  note hoare_bind [OF init hoare_bind [OF spawn_ready_within this]]
  then have "hoare (\<lambda>_. True) (orch_rounds n o1 c env plan :: ('m tm_world_scheme, _) state) (loop_post plan (?m < n))"
    unfolding orch_rounds_def .
  then show ?thesis by (simp add: hoare_def)
qed

text \<open>No two agents that run have a file in common, and their files are locked for their subtasks.\<close>

definition files_apart :: "ExecutionPlan \<Rightarrow> orch_run \<Rightarrow> bool" where
  "files_apart plan run \<longleftrightarrow> list_all (\<lambda>(a, i).
     list_all (\<lambda>f. fl_holder (og_locks run) f = Some i) (files_of plan i) \<and>
     list_all (\<lambda>(b, j). b = a \<or> i \<noteq> j \<and> set (files_of plan i) \<inter> set (files_of plan j) = {}) (og_running run)) (og_running run)"

lemma orch_inv_apart:
  assumes "orch_inv plan run out"
  shows "files_apart plan run"
proof -
  note I = assms [unfolded orch_inv_def out_ok_def running_ok_def]
  have m: "map_of (og_running run) a = Some i" if "(a, i) \<in> set (og_running run)" for a i
    using that I by (simp add: map_ok_def mkeys_def)
  have ne: "i \<noteq> j" if "(a, i) \<in># out" "(b, j) \<in># out" "a \<noteq> b" for a b i j
  proof
    assume "i = j"
    with that have "{#(a, i), (b, i)#} \<subseteq># out" by (simp add: insert_subset_eq_iff in_diff_count)
    from mset_subset_eq_count [OF image_mset_subseteq_mono [OF this, of snd], of i]
    have "2 \<le> count (image_mset snd out) i" by simp
    moreover have "count (image_mset snd out) i \<le> 1" using I by blast
    ultimately show False by simp
  qed
  show ?thesis
    unfolding files_apart_def list_all_iff
  proof (clarify, intro conjI ballI, goal_cases)
    case (1 a i f)
    with m have "map_of (og_running run) a = Some i" by blast
    with I have "fl.holds (og_locks run) i (files_of plan i)" by blast
    with 1 show ?case by (simp add: fl.holds_def)
  next
    case (2 a i x)
    obtain b j where x: "x = (b, j)" by (rule prod.exhaust)
    have "i \<noteq> j \<and> set (files_of plan i) \<inter> set (files_of plan j) = {}" if "b \<noteq> a"
    proof -
      have "(a, i) \<in># out" "fl.holds (og_locks run) i (files_of plan i)" "(b, j) \<in># out" "fl.holds (og_locks run) j (files_of plan j)"
        using m 2 x I by blast+
      with ne [of a i b j] that fl.holds_disjoint [of "og_locks run" i _ j] show ?thesis by metis
    qed
    then show ?case by (auto simp: x)
  qed
qed

section \<open>Properties\<close>

text \<open>C33: Two agents that run at the same time never work on a common file: whatever the agents, the
  clock and the scheduler do, after any number of rounds of the orchestration loop of \<open>Run\<close> the agents
  it has under way belong to different subtasks, no file is listed by two of these subtasks, and every
  file they list is locked for its subtask.\<close>

theorem parallel_agents_files_apart:
  "files_apart plan (fst (fst (run_state (orch_rounds n o1 c env plan) w)))"
  by (rule orch_inv_apart, rule conjunct1, rule orch_rounds_post [unfolded loop_post_def])

text \<open>C34: The orchestration loop of \<open>Run\<close> ends: every completion it takes is one of an agent it has
  started, every subtask is started at most once, and so \<open>2 n + 1\<close> rounds are enough for a plan of \<open>n\<close>
  subtasks, whatever fails or is skipped. The loop is left by its end, by an error, or because no branch
  of a \<open>select\<close> is ever ready, and never for want of fuel.\<close>

theorem orchestration_terminates:
  "snd (fst (run_state (orch_rounds (orch_fuel plan) o1 c env plan) w)) \<noteq> LoopNoFuel"
  using orch_rounds_post [of plan "orch_fuel plan" o1 c env w] by (simp add: loop_post_def orch_fuel_def)

end
