(* ===== verification/Collaborative_Facts.thy ===== *)
theory Collaborative_Facts
  imports Collaborative Orchestrator_Facts
begin

text \<open>
  What the collaborative mode keeps: its wait for the workers ends, with the state it says, and a run that
  ends is the same for every larger fuel.
\<close>

section \<open>Signals do not touch the agents under way\<close>

lemma outs_publish: "outs.steps (publish t e)"
  unfolding publish_def by (rule outs.steps_modify) (simp add: outs_rel_def outs_def)

lemma outs_signal: "outs.steps (sendSystemMessage o1 c t s x)"
  unfolding sendSystemMessage_def Let_def
  by (intro outs.steps_bind outs.steps_sql sql_time_now outs.steps_ctx_sql sql_methods outs.steps_when outs_publish)

lemma outs_handle: "outs.steps (handleCollaborativeCompletion o1 c env ev run)"
  unfolding handleCollaborativeCompletion_def worker_completed_def worker_failed_def Let_def
  by (intro outs.steps_if outs.steps_bind outs.steps_return outs_signal outs_quiet quiet_events outs.steps_ignore outs_still still_context)

section \<open>The wait for the workers\<close>

text \<open>What the wait ends with.\<close>

definition wait_post :: "collab_run \<times> workers_wait \<Rightarrow> bool" where
  "wait_post x \<longleftrightarrow> (case snd x of
     ManagerGone \<Rightarrow> cb_running (fst x) = []
   | WorkersDone \<Rightarrow> cb_running (fst x) \<noteq> [] \<and> list_all (\<lambda>(_, i). i = ''manager'') (cb_running (fst x))
   | WaitLeft e \<Rightarrow> e \<noteq> LoopNoFuel \<and> list_ex (\<lambda>(_, i). i \<noteq> ''manager'') (cb_running (fst x)))"

lemma keep_size: "outs.steps m \<Longrightarrow> hoare (\<lambda>w. size (outs w) < n) m (\<lambda>_ w. size (outs w) < n)"
  for m :: "('m tm_world_scheme, 'a) state"
proof (rule hoareI)
  fix w :: "'m tm_world_scheme" assume "outs.steps m" "size (outs w) < n"
  with outs.stepsD [of m w] show "size (outs (snd (run_state m w))) < n" by (simp add: outs_rel_def)
qed

lemma select_size:
  "hoare (\<lambda>w. size (outs w) < Suc n) (select_completion c)
     (\<lambda>r w. case r of Some (Inr ev) \<Rightarrow> size (outs w) < n | _ \<Rightarrow> True)"
proof -
  have pop: "hoare (\<lambda>w. size (outs w) < Suc n) pop_completion (\<lambda>r w. case r of Some ev \<Rightarrow> size (outs w) < n | None \<Rightarrow> True)"
    by (rule hoareI) (auto simp: pop_completion_def outs_def split: list.split)
  have b: "outs.steps next_branch" unfolding next_branch_def by (intro outs.steps_bind outs_background outs.steps_gets)
  have next_ok: "hoare (\<lambda>w. size (outs w) < Suc n) next_branch (\<lambda>_ w. size (outs w) < Suc n)"
    by (rule keep_size [OF b])
  show ?thesis
    unfolding select_completion_def
  proof (rule hoare_bind [OF next_ok])
    show "hoare (\<lambda>w. size (outs w) < Suc n) (case x of
        BrDone \<Rightarrow> do { e \<leftarrow> gets (ctx_Err c); State_Monad.return (map_option Inl e) }
      | BrCompletion \<Rightarrow> do { ev \<leftarrow> pop_completion; State_Monad.return (map_option Inr ev) }
      | _ \<Rightarrow> State_Monad.return None)
      (\<lambda>r w. case r of Some (Inr ev) \<Rightarrow> size (outs w) < n | _ \<Rightarrow> True)" for x
      using pop by (cases x) (auto simp: hoare_def case_prod_beta split: option.splits)
  qed
qed

lemma wait_workers_post: "hoare (\<lambda>w. size (outs w) < n) (wait_workers n o1 c env run) (\<lambda>x _. wait_post x)"
proof (induction n arbitrary: run)
  case 0
  show ?case by (simp add: hoare_def)
next
  case (Suc n)
  let ?busy = "list_ex (\<lambda>(_, i). i \<noteq> ''manager'') (cb_running run)"
  have "hoare (\<lambda>w :: 'a tm_world_scheme. case x of Some (Inr ev) \<Rightarrow> size (outs w) < n | _ \<Rightarrow> True)
    (case x of
       None \<Rightarrow> State_Monad.return (run, WaitLeft LoopBlocked)
     | Some (Inl e) \<Rightarrow> State_Monad.return (run, WaitLeft (LoopError e))
     | Some (Inr ev) \<Rightarrow> do { run \<leftarrow> handleCollaborativeCompletion o1 c env ev run; wait_workers n o1 c env run })
    (\<lambda>x _. wait_post x)" if b: ?busy for x :: "(string + completionEvent) option"
  proof (cases "\<exists>ev. x = Some (Inr ev)")
    case True
    then obtain ev where ev: "x = Some (Inr ev)" by blast
    have "hoare (\<lambda>w :: 'a tm_world_scheme. size (outs w) < n) (handleCollaborativeCompletion o1 c env ev run) (\<lambda>_ w. size (outs w) < n)"
      by (rule keep_size [OF outs_handle])
    from hoare_bind [OF this Suc.IH] show ?thesis by (simp add: ev)
  next
    case False
    with b show ?thesis by (auto simp: hoare_def wait_post_def split: option.split sum.split)
  qed
  note round = hoare_bind [OF select_size this]
  show ?case
  proof (cases ?busy)
    case True
    then have "cb_running run \<noteq> []" "\<not> list_all (\<lambda>(_, i). i = ''manager'') (cb_running run)"
      by (auto simp: list_ex_iff list_all_iff)
    with round [OF True] show ?thesis by simp
  next
    case False
    then have "list_all (\<lambda>(_, i). i = ''manager'') (cb_running run)" by (auto simp: list_ex_iff list_all_iff)
    then show ?thesis by (simp add: hoare_def wait_post_def)
  qed
qed

lemma size_outs: "size (outs w) < wait_fuel w"
  by (simp add: outs_def wait_fuel_def)

section \<open>Fuel\<close>

text \<open>A result that does not come from a want of fuel is the result of one more.\<close>

definition more_fuel :: "('a \<Rightarrow> bool) \<Rightarrow> ('s, 'a) state \<Rightarrow> ('s, 'a) state \<Rightarrow> bool" where
  "more_fuel out m m' \<longleftrightarrow> (\<forall>w. out (fst (run_state m w)) \<or> run_state m' w = run_state m w)"

lemma more_same: "more_fuel out m m"
  by (simp add: more_fuel_def)

lemma more_bind:
  assumes "more_fuel out m m'" "\<And>x. more_fuel out2 (f x) (f' x)" "\<And>x w. out x \<Longrightarrow> out2 (fst (run_state (f x) w))"
  shows "more_fuel out2 (m \<bind> f) (m' \<bind> f')"
  unfolding more_fuel_def
proof
  fix w
  obtain x w1 where r: "run_state m w = (x, w1)" by (rule prod.exhaust)
  show "out2 (fst (run_state (m \<bind> f) w)) \<or> run_state (m' \<bind> f') w = run_state (m \<bind> f) w"
  proof (cases "out x")
    case True then show ?thesis using assms(3) by (simp add: r)
  next
    case False
    then have "run_state m' w = (x, w1)" using assms(1) r by (auto simp: more_fuel_def dest: spec [of _ w])
    then show ?thesis using assms(2) [of x] r by (simp add: more_fuel_def)
  qed
qed

lemma more_after: "(\<And>x. more_fuel out (f x) (f' x)) \<Longrightarrow> more_fuel out (m \<bind> f) (m \<bind> f')"
  by (rule more_bind [where out = "\<lambda>_. False"]) (auto simp: more_same)

abbreviation undecided :: "collab_run \<times> decision \<Rightarrow> bool" where
  "undecided x \<equiv> snd x = Undecided LoopNoFuel"

abbreviation unfinished :: "collab_run \<times> loop_end \<Rightarrow> bool" where
  "unfinished x \<equiv> snd x = LoopNoFuel"

lemma more_out: "(\<And>w. out (fst (run_state m w))) \<Longrightarrow> more_fuel out m m'"
  by (simp add: more_fuel_def)

lemma decide_poll_more: "more_fuel undecided (decide_poll n o1 c t run :: ('m tm_world_scheme, collab_run \<times> decision) state) (decide_poll (Suc n) o1 c t run)"
proof (induction n arbitrary: run)
  case 0
  show ?case by (rule more_out) simp
next
  case (Suc n)
  note more = Suc.IH
  show ?case
    unfolding decide_poll.simps(2) [of "Suc n" o1 c t run] unfolding decide_poll.simps(2) [of n o1 c t run]
  proof (rule more_after)
    fix b
    let ?step = "\<lambda>rec :: collab_run \<Rightarrow> ('m tm_world_scheme, collab_run \<times> decision) state. case b of
        BrDone \<Rightarrow> do { d \<leftarrow> ctx_exit c; State_Monad.return (run, d) }
      | BrCompletion \<Rightarrow> do {
          (run, ev) \<leftarrow> take_completion run;
          (case ev of
             None \<Rightarrow> State_Monad.return (run, Undecided LoopBlocked)
           | Some ev \<Rightarrow> if ce_SubtaskID ev = ''manager'' then State_Monad.return (run, Exited) else rec run) }
      | BrTick \<Rightarrow> do {
          (reqs, cursor) \<leftarrow> CheckRespawnRequests c t (cb_cursor run);
          (let run = run\<lparr>cb_cursor := cursor\<rparr> in
           if reqs \<noteq> [] then State_Monad.return (run, Respawn reqs) else rec run) }
      | _ \<Rightarrow> State_Monad.return (run, Undecided LoopBlocked)"
    show "more_fuel undecided (?step (decide_poll n o1 c t)) (?step (decide_poll (Suc n) o1 c t))"
      by (cases b) (auto intro!: more_after more_same more split: option.split prod.split
        simp: Let_def simp del: decide_poll.simps decide_bus.simps)
  qed
qed

lemma decide_bus_more: "more_fuel undecided (decide_bus n o1 c ch run :: ('m tm_world_scheme, collab_run \<times> decision) state) (decide_bus (Suc n) o1 c ch run)"
proof (induction n arbitrary: run)
  case 0
  show ?case by (rule more_out) simp
next
  case (Suc n)
  note more = Suc.IH
  show ?case
  proof (subst decide_bus.simps(2) [of "Suc n" o1 c ch run], subst (1) decide_bus.simps(2) [of n o1 c ch run], rule more_after)
    fix b
    let ?step = "\<lambda>rec :: collab_run \<Rightarrow> ('m tm_world_scheme, collab_run \<times> decision) state. case b of
        BrDone \<Rightarrow> do { d \<leftarrow> ctx_exit c; State_Monad.return (run, d) }
      | BrCompletion \<Rightarrow> do {
          (run, ev) \<leftarrow> take_completion run;
          (case ev of
             None \<Rightarrow> State_Monad.return (run, Undecided LoopBlocked)
           | Some ev \<Rightarrow> if ce_SubtaskID ev = ''manager'' then State_Monad.return (run, Exited) else rec run) }
      | BrMessage \<Rightarrow> do {
          m \<leftarrow> bus_receive ch;
          (case m of
             None \<Rightarrow> State_Monad.return (run, Undecided LoopBlocked)
           | Some m \<Rightarrow> (let reqs = respawn_requests (ame_FromSubtaskID m) (ame_MsgType m) (ame_Content m) in
               if reqs \<noteq> [] then State_Monad.return (run, Respawn reqs) else rec run)) }
      | _ \<Rightarrow> State_Monad.return (run, Undecided LoopBlocked)"
    show "more_fuel undecided (?step (decide_bus n o1 c ch)) (?step (decide_bus (Suc n) o1 c ch))"
      by (cases b) (auto intro!: more_after more_same more split: option.split prod.split
        simp: Let_def simp del: decide_poll.simps decide_bus.simps)
  qed
qed

lemma decision_more: "more_fuel undecided (waitForManagerDecision n o1 c t run) (waitForManagerDecision (Suc n) o1 c t run)"
  unfolding waitForManagerDecision_def waitForManagerDecisionRT_def
  by (auto intro!: more_after decide_poll_more more_bind [OF decide_bus_more] more_same split: prod.split
      simp del: decide_poll.simps decide_bus.simps)

lemma ask_more: "more_fuel undecided (ask_manager n o1 c env run) (ask_manager (Suc n) o1 c env run)"
  unfolding ask_manager_def Let_def by (intro more_after decision_more)

lemma collab_loop_more: "more_fuel unfinished (collab_loop n o1 c env run :: ('m tm_world_scheme, collab_run \<times> loop_end) state) (collab_loop (Suc n) o1 c env run)"
proof (induction n arbitrary: run)
  case 0
  show ?case by (rule more_out) simp
next
  case (Suc n)
  note more = Suc.IH
  let ?asked = "\<lambda>n run :: collab_run. (do {
      (run, d) \<leftarrow> ask_manager n o1 c env run;
      (case d of
         Exited \<Rightarrow> State_Monad.return (run, LoopDone)
       | Undecided e \<Rightarrow> State_Monad.return (run, e)
       | Respawn reqs \<Rightarrow> do {
           (run, e) \<leftarrow> fix_workers o1 c env reqs run;
           if e = LoopDone then collab_loop n o1 c env run else State_Monad.return (run, e) }) } :: ('m tm_world_scheme, collab_run \<times> loop_end) state)"
  have "more_fuel unfinished (?asked n run) (?asked (Suc n) run)" for run
    by (rule more_bind [OF ask_more]) (auto intro!: more_after more_same more split: prod.split decision.split
      simp del: collab_loop.simps)
  then show ?case
    unfolding collab_loop.simps(2) [of "Suc n" o1 c env run] unfolding collab_loop.simps(2) [of n o1 c env run]
    by (auto intro!: more_after more_same split: prod.split workers_wait.split simp del: collab_loop.simps)
qed

lemma collab_rounds_more: "more_fuel unfinished (collab_rounds n o1 c env i plan) (collab_rounds (Suc n) o1 c env i plan)"
  unfolding collab_rounds_def by (auto intro!: more_after more_same collab_loop_more split: prod.split simp del: collab_loop.simps)

lemma collab_rounds_stable:
  "snd (fst (run_state (collab_rounds n o1 c env i plan) w)) = LoopNoFuel \<or>
   run_state (collab_rounds (n + k) o1 c env i plan) w = run_state (collab_rounds n o1 c env i plan) w"
proof (induction k)
  case (Suc k)
  then show ?case
    using collab_rounds_more [of "n + k" o1 c env i plan] unfolding more_fuel_def by (metis add_Suc_right)
qed simp

section \<open>Properties\<close>


end
