(* ===== verification/Analyzer.thy ===== *)
theory Analyzer
  imports Repo State_Store
begin

text \<open>
  The static analysis of a repository, \<open>internal/repo/analyzer.go\<close>. It only reads. The callback of the
  walk drops every error, so \<open>Analyze\<close> never fails. \<open>sort.Slice\<close> is not stable and the map it sorts has no
  order: both are one arbitrary order before a stable sort.
\<close>

section \<open>Tables\<close>

definition maxTreeDepth :: nat where
  "maxTreeDepth = 3"

definition maxTreeFiles :: nat where
  "maxTreeFiles = 200"

definition skipDirs :: "string list" where
  "skipDirs =
    [''.git'', ''node_modules'', ''vendor'', ''.next'', ''dist'', ''build'', ''__pycache__'', ''.svelte-kit'',
     ''.venv'', ''venv'', ''target'', ''bin'', ''obj'', ''.terraform'']"

definition languageExtensions :: "(string, string) gomap" where
  "languageExtensions =
    [(''.go'', ''Go''), (''.js'', ''JavaScript''), (''.ts'', ''TypeScript''), (''.jsx'', ''React JSX''),
     (''.tsx'', ''React TSX''), (''.svelte'', ''Svelte''), (''.vue'', ''Vue''), (''.py'', ''Python''),
     (''.rs'', ''Rust''), (''.java'', ''Java''), (''.kt'', ''Kotlin''), (''.rb'', ''Ruby''), (''.php'', ''PHP''),
     (''.cs'', ''C#''), (''.c'', ''C''), (''.cpp'', ''C++''), (''.h'', ''C/C++ Header''), (''.swift'', ''Swift''),
     (''.dart'', ''Dart''), (''.sql'', ''SQL''), (''.html'', ''HTML''), (''.css'', ''CSS''), (''.scss'', ''SCSS''),
     (''.yaml'', ''YAML''), (''.yml'', ''YAML''), (''.json'', ''JSON''), (''.toml'', ''TOML''),
     (''.md'', ''Markdown''), (''.sh'', ''Shell''), (''.bash'', ''Shell''), (''.tf'', ''Terraform''),
     (''.proto'', ''Protocol Buffers'')]"

definition frameworkDetectors :: "(string, string) gomap" where
  "frameworkDetectors =
    [(''go.mod'', ''Go Modules''), (''package.json'', ''Node.js''), (''Cargo.toml'', ''Rust (Cargo)''),
     (''requirements.txt'', ''Python (pip)''), (''pyproject.toml'', ''Python (pyproject)''),
     (''setup.py'', ''Python (setuptools)''), (''Pipfile'', ''Python (Pipenv)''), (''pom.xml'', ''Java (Maven)''),
     (''build.gradle'', ''Java (Gradle)''), (''Gemfile'', ''Ruby (Bundler)''),
     (''composer.json'', ''PHP (Composer)''), (''Makefile'', ''Make''), (''CMakeLists.txt'', ''CMake''),
     (''Dockerfile'', ''Docker''), (''docker-compose.yml'', ''Docker Compose''),
     (''docker-compose.yaml'', ''Docker Compose''), (''.github/workflows'', ''GitHub Actions''),
     (''.gitlab-ci.yml'', ''GitLab CI''), (''Jenkinsfile'', ''Jenkins''), (''terraform.tf'', ''Terraform''),
     (''main.tf'', ''Terraform''), (''svelte.config.js'', ''SvelteKit''), (''svelte.config.ts'', ''SvelteKit''),
     (''next.config.js'', ''Next.js''), (''next.config.ts'', ''Next.js''), (''nuxt.config.js'', ''Nuxt.js''),
     (''nuxt.config.ts'', ''Nuxt.js''), (''angular.json'', ''Angular''), (''tailwind.config.js'', ''Tailwind CSS''),
     (''tailwind.config.ts'', ''Tailwind CSS''), (''vite.config.js'', ''Vite''), (''vite.config.ts'', ''Vite''),
     (''tsconfig.json'', ''TypeScript''), (''.eslintrc.json'', ''ESLint''), (''.eslintrc.js'', ''ESLint''),
     (''jest.config.js'', ''Jest''), (''vitest.config.ts'', ''Vitest''), (''pytest.ini'', ''pytest''),
     (''CLAUDE.md'', ''Claude Code'')]"

definition keyFilePatterns :: "string list" where
  "keyFilePatterns =
    [''README.md'', ''README'', ''CLAUDE.md'', ''Makefile'', ''Dockerfile'', ''docker-compose.yml'',
     ''docker-compose.yaml'', ''config.yaml'', ''config.yml'', ''.env.example'', ''CONTRIBUTING.md'',
     ''CHANGELOG.md'', ''LICENSE'']"

definition entryPoints :: "string list" where
  "entryPoints = [''main.go'', ''cmd/'', ''src/'', ''app/'', ''lib/'', ''internal/'', ''pkg/'']"

record AnalysisResult =
  an_Content :: string
  an_FileTree :: "string list"
  an_Languages :: "(string, int) gomap"
  an_Frameworks :: "string list"
  an_KeyFiles :: "string list"
  an_Dependencies :: "(string, string) gomap"

section \<open>The walk\<close>

type_synonym tree_info = "string list \<times> (string, int) gomap"

text \<open>What the callback does with a file or directory of the tree, given by its path elements.\<close>

definition tree_entry :: "string list \<Rightarrow> bool \<Rightarrow> string list \<Rightarrow> string list" where
  "tree_entry es isDir allPaths =
     (if length es - 1 < maxTreeDepth \<and> length allPaths < maxTreeFiles
      then allPaths @ [rel_str es @ (if isDir then ''/'' else [])] else allPaths)"

definition count_language :: "string \<Rightarrow> (string, int) gomap \<Rightarrow> (string, int) gomap" where
  "count_language name langCounts =
     (case map_of languageExtensions (lower_ascii (Ext name)) of
        None \<Rightarrow> langCounts
      | Some lang \<Rightarrow> mput lang (mget 0 langCounts lang + 1) langCounts)"

definition visit_entry :: "string list \<Rightarrow> bool \<Rightarrow> tree_info \<Rightarrow> tree_info" where
  "visit_entry es isDir t =
     (if es = [] then t
      else (tree_entry es isDir (fst t), if isDir then snd t else count_language (last es) (snd t)))"

definition outside :: "string list \<Rightarrow> string list list \<Rightarrow> string list list" where
  "outside es ess = filter (\<lambda>q. take (length es) q \<noteq> es) ess"

lemma outside_shorter [termination_simp]: "length (outside es ess) < Suc (length ess)"
  by (simp add: outside_def le_imp_less_Suc)

text \<open>What cannot be read and what is skipped is left out with all below it.\<close>

fun analyze_visits :: "string \<Rightarrow> string list list \<Rightarrow> tree_info \<Rightarrow> ('m world_scheme, tree_info) state" where
  "analyze_visits root [] t = State_Monad.return t"
| "analyze_visits root (es # ess) t =
     (let p = path_Join [root, rel_str es] in do {
        r \<leftarrow> os_Stat p;
        (case r of
           Inl _ \<Rightarrow> analyze_visits root (outside es ess) t
         | Inr (File _) \<Rightarrow> analyze_visits root ess (visit_entry es False t)
         | Inr Dir \<Rightarrow> do {
             names \<leftarrow> os_ReadDir p;
             (case names of
                Inl _ \<Rightarrow> analyze_visits root (outside es ess) t
              | Inr _ \<Rightarrow> if es \<noteq> [] \<and> Base p \<in> set skipDirs then analyze_visits root (outside es ess) t
                  else analyze_visits root ess (visit_entry es True t)) }) })"

section \<open>Markers\<close>

definition exists :: "string \<Rightarrow> ('m world_scheme, bool) state" where
  "exists p = do { r \<leftarrow> os_Stat p; State_Monad.return (case r of Inl _ \<Rightarrow> False | Inr _ \<Rightarrow> True) }"

fun found :: "string \<Rightarrow> string list \<Rightarrow> ('m world_scheme, string list) state" where
  "found repoDir [] = State_Monad.return []"
| "found repoDir (f # fs) = do {
     b \<leftarrow> exists (path_Join [repoDir, f]);
     rest \<leftarrow> found repoDir fs;
     State_Monad.return (if b then f # rest else rest) }"

definition detect_frameworks :: "string \<Rightarrow> ('m tm_world_scheme, string list) state" where
  "detect_frameworks repoDir = do {
     markers \<leftarrow> range_order ''frameworks'' (mkeys frameworkDetectors);
     ms \<leftarrow> found repoDir markers;
     State_Monad.return (sort (remdups (map (mget [] frameworkDetectors) ms))) }"

section \<open>Dependencies\<close>

text \<open>\<open>strings.Fields\<close>; \<open>cur\<close> is the field being read.\<close>

fun fields_from :: "string \<Rightarrow> nat \<Rightarrow> string \<Rightarrow> string list" where
  "fields_from cur skip [] = (if cur = [] then [] else [cur])"
| "fields_from cur (Suc k) (c # s) = fields_from cur k s"
| "fields_from cur 0 (c # s) =
     (case lead_space go_spaces (c # s) of
        0 \<Rightarrow> fields_from (cur @ [c]) 0 s
      | Suc k \<Rightarrow> (if cur = [] then fields_from [] k s else cur # fields_from [] k s))"

definition Fields :: "string \<Rightarrow> string list" where
  "Fields s = fields_from [] 0 s"

definition file_lines :: "string \<Rightarrow> string list" where
  "file_lines data = map TrimSpace (Split (CHR 0x0A) data)"

type_synonym deps = "(string, string) gomap"

definition require_line :: "string \<Rightarrow> deps \<Rightarrow> deps" where
  "require_line line deps =
     (if HasPrefix line ''require '' \<and> \<not> Contains line ''(''
      then (let parts = Fields line in if length parts \<ge> 3 then mput (parts ! 1) (parts ! 2) deps else deps)
      else deps)"

definition block_line :: "string \<Rightarrow> deps \<Rightarrow> deps" where
  "block_line line deps =
     (if \<not> list_ex (HasPrefix line) [''require'', '')'', ''//'', ''module'', ''go ''] \<and> line \<noteq> []
      then (let parts = Fields line in
        if length parts \<ge> 2 \<and> Contains (parts ! 0) ''/'' then mput (parts ! 0) (parts ! 1) deps else deps)
      else deps)"

definition go_mod :: "string \<Rightarrow> deps \<Rightarrow> deps" where
  "go_mod data deps = fold (\<lambda>line deps. block_line line (require_line line deps)) (file_lines data) deps"

text \<open>A map of strings: \<open>null\<close> is \<open>nil\<close>, a \<open>null\<close> value the zero string.\<close>

fun dec_pairs :: "(string \<times> json) list \<Rightarrow> deps \<Rightarrow> deps option" where
  "dec_pairs [] m = Some m"
| "dec_pairs ((k, v) # kvs) m = (case dec_string v [] of None \<Rightarrow> None | Some s \<Rightarrow> dec_pairs kvs (mput k s m))"

definition dec_map :: "deps decoder" where
  "dec_map v m = (case v of JNull \<Rightarrow> Some [] | JObj kvs \<Rightarrow> dec_pairs kvs m | _ \<Rightarrow> None)"

record package_json =
  pj_Dependencies :: deps
  pj_DevDependencies :: deps

definition package_fields :: "package_json fields" where
  "package_fields =
     [field ''dependencies'' dec_map pj_Dependencies pj_Dependencies_update,
      field ''devDependencies'' dec_map pj_DevDependencies pj_DevDependencies_update]"

definition npm_deps :: "string \<Rightarrow> deps \<Rightarrow> deps" where
  "npm_deps data deps =
     (case unmarshal (dec_struct package_fields) \<lparr>pj_Dependencies = [], pj_DevDependencies = []\<rparr> data of
        None \<Rightarrow> deps
      | Some pkg \<Rightarrow> fold (\<lambda>(k, v). mput (k @ '' (dev)'') v) (pj_DevDependencies pkg)
          (fold (\<lambda>(k, v). mput k v) (pj_Dependencies pkg) deps))"

definition requirement_line :: "string \<Rightarrow> deps \<Rightarrow> deps" where
  "requirement_line line deps =
     (if line = [] \<or> HasPrefix line ''#'' then deps
      else let name = takeWhile (\<lambda>c. c \<notin> set ''=<>!~'') line in
        if name = [] \<or> name = line then mput line ''*'' deps else mput name (drop (length name) line) deps)"

definition pip_deps :: "string \<Rightarrow> deps \<Rightarrow> deps" where
  "pip_deps data deps = fold requirement_line (file_lines data) deps"

definition Trim_quotes :: "string \<Rightarrow> string" where
  "Trim_quotes s = rev (dropWhile (\<lambda>c. c = CHR 0x22) (rev (dropWhile (\<lambda>c. c = CHR 0x22) s)))"

definition cargo_line :: "string \<Rightarrow> bool \<times> deps \<Rightarrow> bool \<times> deps" where
  "cargo_line line t =
     (case t of (inDeps, deps) \<Rightarrow>
       if line = ''[dependencies]'' \<or> line = ''[dev-dependencies]'' then (True, deps)
       else if HasPrefix line ''['' then (False, deps)
       else (case (inDeps, Index line ''='') of
          (True, Some k) \<Rightarrow> (inDeps, mput (TrimSpace (take k line)) (Trim_quotes (TrimSpace (drop (Suc k) line))) deps)
        | _ \<Rightarrow> (inDeps, deps)))"

definition cargo_deps :: "string \<Rightarrow> deps \<Rightarrow> deps" where
  "cargo_deps data deps = snd (fold cargo_line (file_lines data) (False, deps))"

definition read_deps :: "string \<Rightarrow> (string \<Rightarrow> deps \<Rightarrow> deps) \<Rightarrow> deps \<Rightarrow> ('m world_scheme, deps) state" where
  "read_deps p f deps = do {
     r \<leftarrow> os_ReadFile p;
     State_Monad.return (case r of Inl _ \<Rightarrow> deps | Inr data \<Rightarrow> f data deps) }"

definition parseDependencies :: "string \<Rightarrow> ('m world_scheme, deps) state" where
  "parseDependencies repoDir = do {
     deps \<leftarrow> read_deps (path_Join [repoDir, ''go.mod'']) go_mod [];
     deps \<leftarrow> read_deps (path_Join [repoDir, ''package.json'']) npm_deps deps;
     deps \<leftarrow> read_deps (path_Join [repoDir, ''requirements.txt'']) pip_deps deps;
     read_deps (path_Join [repoDir, ''Cargo.toml'']) cargo_deps deps }"

section \<open>The summary\<close>

definition section_of :: "string \<Rightarrow> string list \<Rightarrow> string" where
  "section_of title lines = (if lines = [] then [] else ''## '' @ title @ ''\<newline>'' @ concat lines @ ''\<newline>'')"

definition language_lines :: "string list \<Rightarrow> (string, int) gomap \<Rightarrow> string list" where
  "language_lines order langs =
     map (\<lambda>l. ''- '' @ l @ '': '' @ itoa (mget 0 langs l) @ '' files\<newline>'') (sort_key (\<lambda>l. - mget 0 langs l) order)"

definition backquoted :: "string \<Rightarrow> string" where
  "backquoted s = CHR 0x60 # s @ [CHR 0x60]"

definition dependency_lines :: "deps \<Rightarrow> string list" where
  "dependency_lines deps =
     (let names = sort (mkeys deps) in
      map (\<lambda>n. ''- '' @ backquoted n @ '' '' @ mget [] deps n @ ''\<newline>'') (take 20 names) @
      (if length names > 20 then [''- ... and '' @ itoa (int (length names) - 20) @ '' more\<newline>''] else []))"

definition fence :: string where
  "fence = [CHR 0x60, CHR 0x60, CHR 0x60]"

text \<open>\<open>order\<close> is the order of the languages before they are sorted.\<close>

definition generateMarkdown :: "string list \<Rightarrow> AnalysisResult \<Rightarrow> string" where
  "generateMarkdown order result =
     ''# Repository Analysis\<newline>\<newline>'' @
     section_of ''Languages'' (language_lines order (an_Languages result)) @
     section_of ''Frameworks & Tools'' (map (\<lambda>fw. ''- '' @ fw @ ''\<newline>'') (an_Frameworks result)) @
     section_of ''Key Files & Directories'' (map (\<lambda>f. ''- '' @ backquoted f @ ''\<newline>'') (an_KeyFiles result)) @
     section_of ''Dependencies'' (dependency_lines (an_Dependencies result)) @
     (if an_FileTree result = [] then []
      else ''## Directory Structure\<newline>'' @ fence @ ''\<newline>'' @ concat (map (\<lambda>e. e @ ''\<newline>'') (an_FileTree result)) @ fence @ ''\<newline>'')"

section \<open>The analysis\<close>

definition Analyze :: "string \<Rightarrow> ('m tm_world_scheme, AnalysisResult) state" where
  "Analyze repoDir = do {
     ess \<leftarrow> walk_names repoDir;
     (allPaths, langCounts) \<leftarrow> analyze_visits repoDir ess ([], []);
     frameworks \<leftarrow> detect_frameworks repoDir;
     keys \<leftarrow> found repoDir keyFilePatterns;
     entries \<leftarrow> found repoDir entryPoints;
     deps \<leftarrow> parseDependencies repoDir;
     order \<leftarrow> range_order ''languages'' (mkeys langCounts);
     let result = \<lparr>an_Content = [], an_FileTree = allPaths, an_Languages = langCounts, an_Frameworks = frameworks,
       an_KeyFiles = keys @ entries, an_Dependencies = deps\<rparr>;
     State_Monad.return (result\<lparr>an_Content := generateMarkdown order result\<rparr>) }"

section \<open>What an analysis does\<close>

text \<open>Only ticks pass.\<close>

definition unchanged :: "'m world_scheme \<Rightarrow> 'm world_scheme \<Rightarrow> bool" where
  "unchanged w w' \<longleftrightarrow> w' = w\<lparr>w_tick := w_tick w'\<rparr>"

interpretation reads: step_logic unchanged
proof unfold_locales
  fix s t u :: "'b world_scheme"
  show "unchanged s s" by (simp add: unchanged_def)
  show "unchanged s t \<Longrightarrow> unchanged t u \<Longrightarrow> unchanged s u"
    unfolding unchanged_def by (cases s; cases t; cases u) simp
qed

lemma reads_os_read: "reads.steps (os_read f p)"
proof (rule reads.stepsI)
  fix w :: "'m world_scheme"
  show "unchanged w (snd (run_state (os_read f p) w))"
    by (cases w; cases "f (resolve (w_cwd w) p) (w_fs w)") (simp_all add: os_read_def os_call_def unchanged_def tick_def split: option.split)
qed

lemma reads_range: "reads.steps (range_order what ks)"
  by (rule reads.stepsI) (simp add: range_order_def unchanged_def tick_def)

lemmas reads_intros = reads.steps_intros reads_os_read reads_range

lemma reads_fnode: "(n = Dir \<Longrightarrow> reads.steps m) \<Longrightarrow> (\<And>c. n = File c \<Longrightarrow> reads.steps (f c)) \<Longrightarrow> reads.steps (case n of Dir \<Rightarrow> m | File c \<Rightarrow> f c)"
  by (cases n) simp_all

lemma reads_visits: "reads.steps (analyze_visits root ess t :: ('m world_scheme, tree_info) state)"
proof (induction root ess t rule: analyze_visits.induct)
  case (1 root t)
  show ?case by (simp add: reads.steps_return)
next
  case (2 root es ess t)
  have "reads.steps (analyze_visits root (outside es ess) t :: ('m world_scheme, tree_info) state)" "reads.steps (analyze_visits root ess (visit_entry es False t) :: ('m world_scheme, tree_info) state)"
    "\<not> (es \<noteq> [] \<and> Base (path_Join [root, rel_str es]) \<in> set skipDirs) \<Longrightarrow> reads.steps (analyze_visits root ess (visit_entry es True t) :: ('m world_scheme, tree_info) state)"
    using 2 by auto
  then show ?case
    unfolding analyze_visits.simps Let_def os_Stat_def os_ReadDir_def
    by (intro reads_intros reads_fnode; assumption?)
qed

lemma reads_found: "reads.steps (found d fs)"
  by (induction fs) (simp_all add: exists_def os_Stat_def, (intro reads_intros; simp)+)

lemma reads_deps: "reads.steps (parseDependencies d)"
  unfolding parseDependencies_def read_deps_def os_ReadFile_def by (intro reads_intros)

lemma reads_Analyze: "reads.steps (Analyze d)"
  unfolding Analyze_def walk_names_def detect_frameworks_def by (intro reads_intros reads_visits reads_found reads_deps)

lemma tree_entry_bound: "length t \<le> maxTreeFiles \<Longrightarrow> length (tree_entry es d t) \<le> maxTreeFiles"
  by (simp add: tree_entry_def)

lemma visits_bound:
  fixes w :: "'m world_scheme"
  shows
  "length (fst t) \<le> maxTreeFiles \<Longrightarrow> length (fst (fst (run_state (analyze_visits root ess t) w))) \<le> maxTreeFiles"
proof (induction root ess t arbitrary: w rule: analyze_visits.induct)
  case (1 root t)
  then show ?case by simp
next
  case (2 root es ess t)
  have v: "length (fst (visit_entry es b t)) \<le> maxTreeFiles" for b
    using "2.prems" tree_entry_bound by (simp add: visit_entry_def)
  have o: "length (fst (fst (run_state (analyze_visits root (outside es ess) t) w))) \<le> maxTreeFiles"
    and f: "length (fst (fst (run_state (analyze_visits root ess (visit_entry es False t)) w))) \<le> maxTreeFiles" for w :: "'m world_scheme"
    using 2 v by auto
  have d: "\<not> (es \<noteq> [] \<and> Base (path_Join [root, rel_str es]) \<in> set skipDirs) \<Longrightarrow>
      length (fst (fst (run_state (analyze_visits root ess (visit_entry es True t)) w))) \<le> maxTreeFiles" for w :: "'m world_scheme"
    using 2 v by auto
  show ?case
    using o f d by (auto simp: Let_def split: prod.split sum.split fnode.split)
qed


end
