(* ===== verification/Task_Manager.thy ===== *)
theory Task_Manager
  imports Planner Collaborative Analyzer
begin

text \<open>
  The life of a task, \<open>internal/task/manager.go\<close>: the calls of the API, each with its status check, and the
  planner and the executor that they start in the background. Those are entered in \<open>w_jobs\<close> and are runs
  of \<open>runPlanner\<close> and \<open>runExecutor\<close>; the context of an executor can be done at any tick.
\<close>

section \<open>The manager\<close>

record TaskManager =
  tm_docker :: docker_manager
  tm_cfg :: Config
  tm_planner :: Planner
  tm_executor :: Executor
  tm_stateStore :: StateStore
  tm_Pool :: bool \<comment> \<open>not \<open>nil\<close>\<close>
  tm_orchestrator :: Orchestrator

definition NewTaskManager :: "docker_manager \<Rightarrow> Config \<Rightarrow> bool \<Rightarrow> bool \<Rightarrow> TaskManager" where
  "NewTaskManager dockerMgr cfg hub msgBus =
     (let ss = NewStateStore (sc_StatesDir (cf_Storage cfg)) in
      \<lparr>tm_docker = dockerMgr, tm_cfg = cfg, tm_planner = NewPlanner dockerMgr cfg hub,
       tm_executor = NewExecutor dockerMgr cfg (Some ss) hub, tm_stateStore = ss, tm_Pool = True,
       tm_orchestrator = NewOrchestrator dockerMgr cfg msgBus\<rparr>)"

definition validTransitions :: "(TaskStatus, TaskStatus list) gomap" where
  "validTransitions =
     [(TaskStatusCreated, [TaskStatusPlanning]),
      (TaskStatusPlanning, [TaskStatusPlanned, TaskStatusFailed]),
      (TaskStatusPlanned, [TaskStatusApproved]),
      (TaskStatusApproved, [TaskStatusRunning]),
      (TaskStatusRunning, [TaskStatusPaused, TaskStatusCompleted, TaskStatusFailed]),
      (TaskStatusPaused, [TaskStatusRunning]),
      (TaskStatusFailed, [TaskStatusPlanning])]"

definition canTransition :: "TaskStatus \<Rightarrow> TaskStatus \<Rightarrow> bool" where
  "canTransition from to =
     (case map_of validTransitions from of None \<Rightarrow> False | Some targets \<Rightarrow> list_ex (\<lambda>s. s = to) targets)"

text \<open>\<open>%q\<close> of a status.\<close>

definition quoted_status :: "TaskStatus \<Rightarrow> string" where
  "quoted_status s = CHR 0x22 # status_str s @ [CHR 0x22]"

definition go_job :: "job \<Rightarrow> ('m tm_world_scheme, unit) state" where
  "go_job j = modify (\<lambda>w. w\<lparr>w_jobs := w_jobs w @ [j]\<rparr>)"

definition getTaskOrError :: "ctx \<Rightarrow> string \<Rightarrow> ('m world_scheme, Task) io" where
  "getTaskOrError c taskID =
     or_fail (''getting task '' @ taskID) (in_ctx c (GetTask taskID)) (\<lambda>task.
     case task of None \<Rightarrow> err (''task '' @ taskID @ '' not found'') | Some task \<Rightarrow> ok task)"

definition failTask :: "ctx \<Rightarrow> string \<Rightarrow> string \<Rightarrow> ('m world_scheme, unit) state" where
  "failTask c taskID errMsg = do {
     _ \<leftarrow> ignore (in_ctx c (UpdateTaskFailed taskID errMsg));
     tm_recordEvent c taskID ''task.failed'' (Some [(''error'', JStr errMsg)]) }"

section \<open>Creating and starting\<close>

definition tm_Create :: "ctx \<Rightarrow> string \<Rightarrow> string \<Rightarrow> string option \<Rightarrow> string option \<Rightarrow> string option \<Rightarrow> ('m world_scheme, Task) io" where
  "tm_Create c name prompt repoConfig teamTemplate outputFiles = do {
     now \<leftarrow> time_now;
     i \<leftarrow> New_UUID;
     let task = \<lparr>task_ID = i, task_Name = name, task_Prompt = prompt, task_Status = TaskStatusCreated, task_RepoConfig = repoConfig,
       task_TeamTemplate = teamTemplate, task_OutputFiles = outputFiles, task_Error = None, task_HasState = False,
       task_CreatedAt = now, task_UpdatedAt = now, task_StartedAt = None, task_PausedAt = None, task_CompletedAt = None\<rparr>;
     or_fail ''creating task'' (in_ctx c (CreateTask task)) (\<lambda>_. do {
       _ \<leftarrow> tm_recordEvent c i ''task.created'' None;
       ok task }) }"

definition tm_Start :: "ctx \<Rightarrow> string \<Rightarrow> ('m tm_world_scheme, unit) io" where
  "tm_Start c taskID = try_bind (getTaskOrError c taskID) err (\<lambda>task.
     if \<not> canTransition (task_Status task) TaskStatusPlanning
     then err (''cannot start task in status '' @ quoted_status (task_Status task))
     else or_fail ''updating task status to planning'' (in_ctx c (UpdateTaskStatus taskID TaskStatusPlanning)) (\<lambda>_. do {
       _ \<leftarrow> tm_recordEvent c taskID ''task.started'' None;
       _ \<leftarrow> go_job (RunPlanner taskID []);
       ok () }))"

definition Replan :: "ctx \<Rightarrow> string \<Rightarrow> string \<Rightarrow> ('m tm_world_scheme, unit) io" where
  "Replan c taskID additionalContext = try_bind (getTaskOrError c taskID) err (\<lambda>task.
     if task_Status task \<noteq> TaskStatusPlanned \<and> task_Status task \<noteq> TaskStatusFailed
     then err (''cannot replan task in status '' @ quoted_status (task_Status task))
     else or_fail ''updating task status to planning'' (in_ctx c (UpdateTaskStatus taskID TaskStatusPlanning)) (\<lambda>_. do {
       _ \<leftarrow> tm_recordEvent c taskID ''task.started'' None;
       _ \<leftarrow> go_job (RunPlanner taskID additionalContext);
       ok () }))"

section \<open>Approving\<close>

text \<open>The plan is marked as approved, with other subtasks if the caller gives some.\<close>

definition approve_plan :: "ctx \<Rightarrow> string \<Rightarrow> string option \<Rightarrow> ('m world_scheme, unit) io" where
  "approve_plan c taskID modifiedPlan = do {
     r \<leftarrow> in_ctx c (GetPlanByTask taskID);
     (case r of
        Inr (Some plan) \<Rightarrow> do {
          now \<leftarrow> time_now;
          (case modifiedPlan of
             Some subtasks \<Rightarrow> or_fail ''updating plan''
               (in_ctx c (update_plan (plan_ID plan) (\<lambda>_ p. p\<lparr>plan_Subtasks := subtasks, plan_Status := ''approved'', plan_UpdatedAt := now\<rparr>)))
               (\<lambda>_. ok ())
           | None \<Rightarrow> or_fail ''updating plan status''
               (in_ctx c (update_plan (plan_ID plan) (\<lambda>_ p. p\<lparr>plan_Status := ''approved'', plan_UpdatedAt := now\<rparr>)))
               (\<lambda>_. ok ())) }
      | _ \<Rightarrow> err (''no plan found for task '' @ taskID)) }"

definition tm_Approve :: "ctx \<Rightarrow> string \<Rightarrow> string option \<Rightarrow> ('m tm_world_scheme, unit) io" where
  "tm_Approve c taskID modifiedPlan = try_bind (getTaskOrError c taskID) err (\<lambda>task.
     if \<not> canTransition (task_Status task) TaskStatusApproved
     then err (''cannot approve task in status '' @ quoted_status (task_Status task))
     else try_bind (approve_plan c taskID modifiedPlan) err (\<lambda>_.
       or_fail ''updating task status to approved'' (in_ctx c (UpdateTaskStatus taskID TaskStatusApproved)) (\<lambda>_. do {
         _ \<leftarrow> tm_recordEvent c taskID ''plan.approved'' None;
         or_fail ''updating task to running'' (in_ctx c (UpdateTaskStarted taskID)) (\<lambda>_. do {
           _ \<leftarrow> go_job (RunExecutor taskID);
           ok () }) })))"

section \<open>Stopping\<close>

definition running_containers :: "Agent list \<Rightarrow> string list" where
  "running_containers agents =
     concat (map (\<lambda>a. case agent_ContainerID a of Some i \<Rightarrow> if agent_Status a = ''running'' then [i] else [] | None \<Rightarrow> []) agents)"

definition agent_state :: "Agent \<Rightarrow> AgentState" where
  "agent_state a = \<lparr>AgentState.as_AgentID = agent_ID a, as_SubtaskID = (case agent_SubtaskID a of None \<Rightarrow> [] | Some s \<Rightarrow> s),
     as_Status = agent_Status a, as_LastOutput = []\<rparr>"

fun add_progress :: "Subtask \<Rightarrow> PlanProgress \<Rightarrow> PlanProgress" where
  "add_progress st p =
     (if st_Status st = ''completed'' then p\<lparr>pp_CompletedSubtasks := pp_CompletedSubtasks p @ [st_ID st]\<rparr>
      else if st_Status st = ''failed'' then p\<lparr>pp_FailedSubtasks := pp_FailedSubtasks p @ [st_ID st]\<rparr>
      else if st_Status st = ''running'' then p\<lparr>pp_CurrentSubtask := st_ID st\<rparr> else p)"

definition plan_progress :: "Plan option \<Rightarrow> PlanProgress \<times> string" where
  "plan_progress plan =
     (let none = \<lparr>pp_PlanID = [], pp_CompletedSubtasks = [], pp_CurrentSubtask = [], pp_FailedSubtasks = []\<rparr> in
      case plan of
        None \<Rightarrow> (none, [])
      | Some plan \<Rightarrow> (let p = none\<lparr>pp_PlanID := plan_ID plan\<rparr> in
          case unmarshal_subtasks (plan_Subtasks plan) of
            None \<Rightarrow> (p, plan_Subtasks plan)
          | Some subtasks \<Rightarrow> (fold add_progress subtasks p, plan_Subtasks plan)))"

definition stop_opts :: "TaskManager \<Rightarrow> Task \<Rightarrow> Agent list \<Rightarrow> Plan option \<Rightarrow> SaveOpts" where
  "stop_opts tm task agents plan =
     \<lparr>sv_WorkspaceDir = workspace_of (tm_cfg tm) (task_ID task), sv_ContainerIDs = running_containers agents,
      sv_PlanProgress = fst (plan_progress plan), sv_AgentStates = map agent_state agents, sv_RepoState = None,
      sv_DockerManager = Some (tm_docker tm), sv_StreamHub = None, sv_TaskPrompt = task_Prompt task,
      sv_PlanJSON = snd (plan_progress plan)\<rparr>"

definition stop_checkpoint :: "TaskManager \<Rightarrow> ctx \<Rightarrow> Task \<Rightarrow> ('m world_scheme, unit) state" where
  "stop_checkpoint tm c task = do {
     agents \<leftarrow> in_ctx c (ListAgentsByTask (task_ID task));
     plan \<leftarrow> in_ctx c (GetPlanByTask (task_ID task));
     try_bind (SaveCheckpoint (tm_stateStore tm) c (task_ID task)
         (stop_opts tm task (case agents of Inl _ \<Rightarrow> [] | Inr as \<Rightarrow> as) (case plan of Inl _ \<Rightarrow> None | Inr p \<Rightarrow> p)))
       (\<lambda>_. State_Monad.return ())
       (\<lambda>_. ignore (in_ctx c (UpdateTaskHasState (task_ID task) True))) }"

text \<open>The cancel function of the task's run is called, if there is one.\<close>

definition call_cancel :: "string \<Rightarrow> ('m tm_world_scheme, unit) state" where
  "call_cancel taskID = modify (\<lambda>w. if taskID \<in> set (w_cancels w) then w\<lparr>w_canceled := w_canceled w @ [taskID]\<rparr> else w)"

definition drop_cancel :: "string \<Rightarrow> ('m tm_world_scheme, unit) state" where
  "drop_cancel taskID = modify (\<lambda>w. w\<lparr>w_cancels := removeAll taskID (w_cancels w)\<rparr>)"

definition put_cancel :: "string \<Rightarrow> ('m tm_world_scheme, unit) state" where
  "put_cancel taskID = modify (\<lambda>w. w\<lparr>w_cancels := List.insert taskID (w_cancels w)\<rparr>)"

definition tm_Stop :: "TaskManager \<Rightarrow> ctx \<Rightarrow> string \<Rightarrow> ('m tm_world_scheme, unit) io" where
  "tm_Stop tm c taskID = try_bind (getTaskOrError c taskID) err (\<lambda>task.
     if \<not> canTransition (task_Status task) TaskStatusPaused
     then err (''cannot stop task in status '' @ quoted_status (task_Status task))
     else do {
       _ \<leftarrow> stop_checkpoint tm c task;
       _ \<leftarrow> when_do (tm_Pool tm) (ignore (TerminateTaskAgents taskID));
       _ \<leftarrow> call_cancel taskID;
       now \<leftarrow> time_now;
       or_fail ''updating task to paused'' (in_ctx c (update_task taskID
           (\<lambda>_ t. t\<lparr>task_Status := TaskStatusPaused, task_PausedAt := Some now, task_UpdatedAt := now\<rparr>))) (\<lambda>_. do {
         _ \<leftarrow> tm_recordEvent c taskID ''task.paused'' None;
         ok () }) })"

section \<open>Resuming\<close>

definition copyDirForResume :: "string \<Rightarrow> string \<Rightarrow> ('m world_scheme, unit) io" where
  "copyDirForResume src dst =
     try_bind (os_str (os_MkdirAll dst)) err (\<lambda>_. Walk src (copy_visit dst))"

definition restore_state :: "TaskManager \<Rightarrow> ctx \<Rightarrow> string \<Rightarrow> ('m world_scheme, unit) state" where
  "restore_state tm c taskID =
     try_bind (RestoreCheckpoint c taskID) (\<lambda>_. State_Monad.return ()) (\<lambda>res. do {
       found \<leftarrow> os_Stat (rr_WorkspaceDir res);
       _ \<leftarrow> (case found of
          Inl _ \<Rightarrow> State_Monad.return ()
        | Inr _ \<Rightarrow> ignore (copyDirForResume (rr_WorkspaceDir res) (workspace_of (tm_cfg tm) taskID)));
       tm_recordEvent c taskID ''checkpoint.restored'' (Some [(''checkpoint_id'', JStr (cp_ID (rr_Checkpoint res)))]) })"

definition tm_Resume :: "TaskManager \<Rightarrow> ctx \<Rightarrow> string \<Rightarrow> ('m tm_world_scheme, unit) io" where
  "tm_Resume tm c taskID = try_bind (getTaskOrError c taskID) err (\<lambda>task.
     if \<not> canTransition (task_Status task) TaskStatusRunning
     then err (''cannot resume task in status '' @ quoted_status (task_Status task))
     else do {
       _ \<leftarrow> when_do (task_HasState task) (restore_state tm c taskID);
       or_fail ''updating task to running'' (in_ctx c (UpdateTaskStarted taskID)) (\<lambda>_. do {
         _ \<leftarrow> tm_recordEvent c taskID ''task.resumed'' None;
         _ \<leftarrow> go_job (RunExecutor taskID);
         ok () }) })"

section \<open>Deleting and reading\<close>

definition remove_running :: "ctx \<Rightarrow> Agent \<Rightarrow> ('m world_scheme, unit) state" where
  "remove_running c a =
     for_each (running_containers [a]) (\<lambda>i. do {
       _ \<leftarrow> ignore (StopContainer i 5);
       ignore (RemoveContainer i) })"

definition tm_Delete :: "ctx \<Rightarrow> string \<Rightarrow> ('m tm_world_scheme, unit) io" where
  "tm_Delete c taskID = try_bind (getTaskOrError c taskID) err (\<lambda>task. do {
     _ \<leftarrow> call_cancel taskID;
     _ \<leftarrow> drop_cancel taskID;
     agents \<leftarrow> in_ctx c (ListAgentsByTask (task_ID task));
     _ \<leftarrow> for_each (case agents of Inl _ \<Rightarrow> [] | Inr as \<Rightarrow> as) (remove_running c);
     or_fail ''deleting task'' (in_ctx c (DeleteTask taskID)) (\<lambda>_. ok ()) })"

definition tm_Get :: "ctx \<Rightarrow> string \<Rightarrow> ('m world_scheme, Task) io" where
  "tm_Get c taskID = getTaskOrError c taskID"

definition tm_List :: "ctx \<Rightarrow> int \<Rightarrow> int \<Rightarrow> ('m world_scheme, Task list \<times> nat) io" where
  "tm_List c limit offset =
     or_fail ''listing tasks'' (in_ctx c (ListTasks limit offset)) (\<lambda>tasks.
     or_fail ''counting tasks'' (in_ctx c (CountTasks None)) (\<lambda>total. ok (tasks, total)))"

section \<open>Messages and answers\<close>

definition stdin_Write :: "string \<Rightarrow> bytes \<Rightarrow> ('m tm_world_scheme, unit) io" where
  "stdin_Write containerID data = State (\<lambda>w. case w_stdinfault w (w_tick w) of
     Some e \<Rightarrow> (Inl e, tick w) | None \<Rightarrow> (Inr (), (tick w)\<lparr>w_stdin := w_stdin w @ [(containerID, data)]\<rparr>))"

definition message_sent :: "ctx \<Rightarrow> string \<Rightarrow> string \<Rightarrow> string \<Rightarrow> ('m world_scheme, unit) io" where
  "message_sent c taskID agentID content = do {
     _ \<leftarrow> tm_recordEvent c taskID ''message.sent'' (Some [(''agent_id'', JStr agentID), (''content'', JStr content)]);
     ok () }"

definition attach_and_write :: "string \<Rightarrow> bytes \<Rightarrow> (unit \<Rightarrow> ('m tm_world_scheme, unit) io) \<Rightarrow> ('m tm_world_scheme, unit) io" where
  "attach_and_write containerID data k =
     or_fail ''attaching to container'' (AttachContainer containerID) (\<lambda>_.
     or_fail ''writing to container stdin'' (stdin_Write containerID data) k)"

definition send_direct :: "ctx \<Rightarrow> string \<Rightarrow> string \<Rightarrow> string \<Rightarrow> ('m tm_world_scheme, unit) io" where
  "send_direct c taskID agentID content =
     or_fail ''getting agent'' (in_ctx c (GetAgent agentID)) (\<lambda>a.
     case a of
       None \<Rightarrow> err (''agent '' @ agentID @ '' not found'')
     | Some a \<Rightarrow>
         if agent_TaskID a \<noteq> taskID then err (''agent '' @ agentID @ '' does not belong to task '' @ taskID)
         else (case running_containers [a] of
            [] \<Rightarrow> err (''agent '' @ agentID @ '' is not running'')
          | containerID # _ \<Rightarrow> attach_and_write containerID (content @ ''\<newline>'') (\<lambda>_. message_sent c taskID agentID content)))"

definition tm_SendMessage :: "TaskManager \<Rightarrow> ctx \<Rightarrow> string \<Rightarrow> string \<Rightarrow> string \<Rightarrow> ('m tm_world_scheme, unit) io" where
  "tm_SendMessage tm c taskID agentID content = do {
     poolAgent \<leftarrow> gets (\<lambda>w. if tm_Pool tm then pool_Get agentID (w_pool w) else None);
     (case poolAgent of
        None \<Rightarrow> send_direct c taskID agentID content
      | Some a \<Rightarrow>
          if ai_TaskID a \<noteq> taskID then err (''agent '' @ agentID @ '' does not belong to task '' @ taskID)
          else or_fail ''sending message via pool'' (pool_SendMessage agentID (content @ ''\<newline>''))
            (\<lambda>_. message_sent c taskID agentID content)) }"

definition AnswerQuestion :: "ctx \<Rightarrow> string \<Rightarrow> string \<Rightarrow> string \<Rightarrow> ('m tm_world_scheme, unit) io" where
  "AnswerQuestion c taskID questionID answer =
     or_fail ''answering question'' (in_ctx c (AnswerPlannerQuestion questionID answer)) (\<lambda>_.
     or_fail ''listing questions'' (in_ctx c (ListPlannerQuestions taskID)) (\<lambda>questions. do {
       _ \<leftarrow> when_do (list_all (\<lambda>q. pq_Status q \<noteq> ''pending'') questions) (go_job (RunPlanner taskID []));
       ok () }))"

section \<open>Relaunching\<close>

definition plan_summary :: "Plan option \<Rightarrow> string" where
  "plan_summary plan = (case plan of
     None \<Rightarrow> []
   | Some plan \<Rightarrow>
       (case plan_Analysis plan of Some a \<Rightarrow> if a = [] then [] else ''### Analysis\<newline>'' @ a @ ''\<newline>\<newline>'' | None \<Rightarrow> []) @
       (case unmarshal_subtasks (plan_Subtasks plan) of
          Some sts \<Rightarrow> if sts = [] then [] else ''### Subtasks executed\<newline>'' @
            concat (map (\<lambda>st. ''- ['' @ st_Status st @ ''] '' @ st_Name st @ '': '' @ st_Description st @ ''\<newline>'') sts) @ ''\<newline>''
        | None \<Rightarrow> []))"

definition changed_files :: "string list \<Rightarrow> string" where
  "changed_files files =
     (if files = [] then []
      else ''### Files modified in workspace\<newline>'' @ concat (map (\<lambda>f. ''- '' @ f @ ''\<newline>'') files) @ ''\<newline>'')"

definition buildRelaunchContext :: "TaskManager \<Rightarrow> ctx \<Rightarrow> Task \<Rightarrow> ('m tm_world_scheme, string) state" where
  "buildRelaunchContext tm c src = do {
     plan \<leftarrow> in_ctx c (GetPlanByTask (task_ID src));
     files \<leftarrow> GetChangedFiles (workspace_of (tm_cfg tm) (task_ID src));
     State_Monad.return (''## Previous Task Context\<newline>'' @
       ''This task continues from a previous run (status: '' @ status_str (task_Status src) @ '').\<newline>'' @
       ''Original prompt: '' @ task_Prompt src @ ''\<newline>\<newline>'' @
       plan_summary (case plan of Inl _ \<Rightarrow> None | Inr p \<Rightarrow> p) @
       changed_files (case files of Inl _ \<Rightarrow> [] | Inr fs \<Rightarrow> fs) @
       ''The workspace already contains the results of the previous run. Build on top of what was done.\<newline>'') }"

definition input_dir :: "Config \<Rightarrow> string \<Rightarrow> string" where
  "input_dir cfg taskID = path_Join [sc_FilesDir (cf_Storage cfg), taskID, ''input'']"

definition copy_if_there :: "string \<Rightarrow> string \<Rightarrow> ('m world_scheme, unit) state" where
  "copy_if_there src dst = do {
     r \<leftarrow> os_Stat src;
     (case r of Inl _ \<Rightarrow> State_Monad.return () | Inr _ \<Rightarrow> ignore (copyDirForResume src dst)) }"

definition relaunch_prompt :: "TaskManager \<Rightarrow> ctx \<Rightarrow> Task \<Rightarrow> string \<Rightarrow> bool \<Rightarrow> ('m tm_world_scheme, string) state" where
  "relaunch_prompt tm c src newPrompt keepContext =
     (let prompt = (if newPrompt = [] then task_Prompt src else newPrompt) in
      if keepContext then do {
        block \<leftarrow> buildRelaunchContext tm c src;
        State_Monad.return (block @ ''\<newline>## Current Task\<newline>'' @ prompt) }
      else State_Monad.return prompt)"

definition Relaunch :: "TaskManager \<Rightarrow> ctx \<Rightarrow> string \<Rightarrow> string \<Rightarrow> bool \<Rightarrow> bool \<Rightarrow> ('m tm_world_scheme, Task) io" where
  "Relaunch tm c sourceTaskID newPrompt autoStart keepContext = try_bind (getTaskOrError c sourceTaskID) err (\<lambda>src.
     if task_Status src \<notin> {TaskStatusCompleted, TaskStatusFailed, TaskStatusCancelled}
     then err (''can only relaunch completed, failed, or cancelled tasks (current: '' @ status_str (task_Status src) @ '')'')
     else do {
       prompt \<leftarrow> relaunch_prompt tm c src newPrompt keepContext;
       or_fail ''creating relaunched task''
         (tm_Create c (task_Name src @ '' (relaunch)'') prompt (task_RepoConfig src) (task_TeamTemplate src) (task_OutputFiles src))
         (\<lambda>newTask. do {
           _ \<leftarrow> tm_recordEvent c (task_ID newTask) ''task.relaunched'' (Some [(''source_task_id'', JStr sourceTaskID)]);
           _ \<leftarrow> copy_if_there (workspace_of (tm_cfg tm) sourceTaskID) (workspace_of (tm_cfg tm) (task_ID newTask));
           _ \<leftarrow> copy_if_there (input_dir (tm_cfg tm) sourceTaskID) (input_dir (tm_cfg tm) (task_ID newTask));
           _ \<leftarrow> when_do autoStart (ignore (tm_Start c (task_ID newTask)));
           updated \<leftarrow> in_ctx c (GetTask (task_ID newTask));
           ok (case updated of Inr (Some t) \<Rightarrow> t | _ \<Rightarrow> newTask) }) })"

section \<open>The workspace\<close>

definition config_of :: "Task \<Rightarrow> string" where
  "config_of task = (case task_RepoConfig task of None \<Rightarrow> [] | Some s \<Rightarrow> s)"

definition repo_memory :: "string \<Rightarrow> string \<Rightarrow> string \<Rightarrow> string \<Rightarrow> AnalysisResult \<Rightarrow> time \<Rightarrow> RepoMemory" where
  "repo_memory i templateID branch commitHash a now =
     \<lparr>rm_ID = i, rm_RepoTemplateID = templateID, rm_Branch = branch, rm_CommitHash = commitHash, rm_Content = an_Content a,
      rm_FileTree = Some (print_json (enc_slice JStr (an_FileTree a))),
      rm_Languages = Some (print_json (json_map (map (\<lambda>(l, n). (l, enc_int n)) (an_Languages a)))),
      rm_Frameworks = Some (print_json (enc_slice JStr (an_Frameworks a))),
      rm_KeyFiles = Some (print_json (enc_slice JStr (an_KeyFiles a))),
      rm_Dependencies = Some (print_json (json_map (str_map (an_Dependencies a)))), rm_CreatedAt = now\<rparr>"

definition ensureRepoMemory :: "ctx \<Rightarrow> string \<Rightarrow> string \<Rightarrow> string \<Rightarrow> string \<Rightarrow> ('m tm_world_scheme, unit) state" where
  "ensureRepoMemory c taskID templateID branch workspaceDir =
     try_bind (GetLastCommitHash workspaceDir) (\<lambda>_. State_Monad.return ()) (\<lambda>commitHash.
     try_bind (in_ctx c (GetRepoMemoryByCommit templateID branch commitHash)) (\<lambda>_. State_Monad.return ()) (\<lambda>existing.
     if existing \<noteq> None then State_Monad.return () else do {
       analysis \<leftarrow> Analyze workspaceDir;
       i \<leftarrow> New_UUID;
       now \<leftarrow> time_now;
       try_bind (in_ctx c (CreateRepoMemory (repo_memory i templateID branch commitHash analysis now))) (\<lambda>_. State_Monad.return ()) (\<lambda>_.
         tm_recordEvent c taskID ''repo.memory_generated''
           (Some [(''template_id'', JStr templateID), (''branch'', JStr branch), (''commit'', JStr (take 8 commitHash))])) }))"

definition work_branch :: "Task \<Rightarrow> RepoConfig \<Rightarrow> string \<Rightarrow> ('m tm_world_scheme, string) state" where
  "work_branch task rc workspaceDir =
     (if \<not> rc_AutoBranch rc then State_Monad.return (rc_Branch rc) else
      let branchName = ''klaudio/'' @ take 8 (task_ID task) in do {
        r \<leftarrow> CreateWorkBranch workspaceDir branchName;
        State_Monad.return (case r of Inl _ \<Rightarrow> rc_Branch rc | Inr _ \<Rightarrow> branchName) })"

definition clone_repo :: "ctx \<Rightarrow> Task \<Rightarrow> RepoConfig \<Rightarrow> string \<Rightarrow> ('m tm_world_scheme, string) io" where
  "clone_repo c task rc workspaceDir =
     or_fail ''cloning repository'' (Clone rc workspaceDir) (\<lambda>_. do {
       branchName \<leftarrow> work_branch task rc workspaceDir;
       _ \<leftarrow> tm_recordEvent c (task_ID task) ''repo.cloned'' (Some [(''url'', JStr (rc_URL rc)), (''branch'', JStr branchName)]);
       _ \<leftarrow> when_do (rc_EnableMemory rc \<and> rc_RepoTemplateID rc \<noteq> [])
         (ensureRepoMemory c (task_ID task) (rc_RepoTemplateID rc) branchName workspaceDir);
       ok workspaceDir })"

definition prepareWorkspace :: "TaskManager \<Rightarrow> ctx \<Rightarrow> Task \<Rightarrow> ('m tm_world_scheme, string) io" where
  "prepareWorkspace tm c task =
     (let workspaceDir = workspace_of (tm_cfg tm) (task_ID task) in
      or_fail ''creating workspace directory'' (os_str (os_MkdirAll workspaceDir)) (\<lambda>_.
      if config_of task = [] then ok workspaceDir else do {
        git \<leftarrow> os_Stat (path_Join [workspaceDir, ''.git'']);
        (case git of
           Inr _ \<Rightarrow> ok workspaceDir
         | Inl _ \<Rightarrow> (case unmarshal_repo_config (config_of task) of
              None \<Rightarrow> err ''parsing repo config: invalid JSON''
            | Some rc \<Rightarrow> clone_repo c task rc workspaceDir)) }))"

definition getRepoMemoryContent :: "ctx \<Rightarrow> Task \<Rightarrow> ('m world_scheme, string) state" where
  "getRepoMemoryContent c task =
     (case (if config_of task = [] then None else unmarshal_repo_config (config_of task)) of
        None \<Rightarrow> State_Monad.return []
      | Some rc \<Rightarrow>
          if \<not> rc_EnableMemory rc \<or> rc_RepoTemplateID rc = [] then State_Monad.return [] else do {
            r \<leftarrow> in_ctx c (GetRepoMemory (rc_RepoTemplateID rc) (rc_Branch rc));
            State_Monad.return (case r of Inr (Some m) \<Rightarrow> rm_Content m | _ \<Rightarrow> []) })"

definition copy_input :: "string \<Rightarrow> string \<Rightarrow> string \<times> bool \<Rightarrow> ('m world_scheme, unit) state" where
  "copy_input inputDir dstDir e =
     (if snd e then State_Monad.return () else
      try_bind (os_ReadFile (path_Join [inputDir, fst e])) (\<lambda>_. State_Monad.return ()) (\<lambda>data.
      ignore (os_WriteFile (path_Join [dstDir, fst e]) data)))"

definition copyInputFilesToWorkspace :: "TaskManager \<Rightarrow> string \<Rightarrow> string \<Rightarrow> ('m world_scheme, unit) state" where
  "copyInputFilesToWorkspace tm taskID workspaceDir =
     (let inputDir = input_dir (tm_cfg tm) taskID; dstDir = path_Join [workspaceDir, ''input''] in do {
        r \<leftarrow> os_Stat inputDir;
        if r = Inl NotExist then State_Monad.return () else
        try_bind (os_MkdirAll dstDir) (\<lambda>_. State_Monad.return ()) (\<lambda>_.
        try_bind (os_ReadDir inputDir) (\<lambda>_. State_Monad.return ()) (\<lambda>entries.
        for_each entries (copy_input inputDir dstDir))) })"

definition post_event :: "PostExecResult \<Rightarrow> (string \<times> json) list" where
  "post_event r = [(''has_changes'', JBool (per_HasChanges r)), (''commit_hash'', JStr (per_CommitHash r)),
     (''pushed'', JBool (per_Pushed r)), (''pr_url'', JStr (per_PRUrl r))]"

definition tm_postExecution :: "TaskManager \<Rightarrow> ctx \<Rightarrow> Task \<Rightarrow> ('m tm_world_scheme, unit) state" where
  "tm_postExecution tm c task =
     (case (if config_of task = [] then None else unmarshal_repo_config (config_of task)) of
        None \<Rightarrow> State_Monad.return ()
      | Some rc \<Rightarrow>
          if \<not> rc_AutoCommit rc \<and> \<not> rc_AutoPush rc \<and> \<not> rc_AutoPR rc then State_Monad.return ()
          else try_bind (PostExecution (task_Name task) (workspace_of (tm_cfg tm) (task_ID task)) rc)
            (\<lambda>e. tm_recordEvent c (task_ID task) ''repo.postexec_error'' (Some [(''error'', JStr e)]))
            (\<lambda>r. tm_recordEvent c (task_ID task) ''repo.postexec'' (Some (post_event r))))"

section \<open>The planner in the background\<close>

definition plan_made :: "TaskManager \<Rightarrow> ctx \<Rightarrow> string \<Rightarrow> PlanOutput \<Rightarrow> ('m world_scheme, unit) state" where
  "plan_made tm c taskID p =
     try_bind (PersistPlan (tm_planner tm) c taskID p)
       (\<lambda>e. failTask c taskID (''failed to persist plan: '' @ e))
       (\<lambda>plan. do {
          _ \<leftarrow> ignore (in_ctx c (UpdatePlanStatus (plan_ID plan) ''planned''));
          try_bind (in_ctx c (UpdateTaskStatus taskID TaskStatusPlanned)) (\<lambda>_. State_Monad.return ()) (\<lambda>_.
            tm_recordEvent c taskID ''plan.generated''
              (Some [(''plan_id'', JStr (plan_ID plan)), (''subtask_count'', enc_int (int (length (po_Subtasks p))))])) })"

definition planner_result :: "TaskManager \<Rightarrow> ctx \<Rightarrow> string \<Rightarrow> PlanResult \<Rightarrow> ('m world_scheme, unit) state" where
  "planner_result tm c taskID result =
     (case pr_Error result of
        Some e \<Rightarrow> failTask c taskID (''planner error: '' @ e)
      | None \<Rightarrow> (case pr_Questions result of
          Some qs \<Rightarrow> tm_recordEvent c taskID ''planner.question'' (Some [(''count'', enc_int (int (length (qo_Questions qs))))])
        | None \<Rightarrow> (case pr_Plan result of
            None \<Rightarrow> State_Monad.return ()
          | Some p \<Rightarrow> plan_made tm c taskID p)))"

definition runPlanner :: "(nat \<Rightarrow> bool) \<Rightarrow> TaskManager \<Rightarrow> string \<Rightarrow> string \<Rightarrow> ('m tm_world_scheme, unit) state" where
  "runPlanner ip tm taskID additionalContext = do {
     r \<leftarrow> in_ctx Background (GetTask taskID);
     (case r of
        Inr (Some task) \<Rightarrow>
          try_bind (prepareWorkspace tm Background task)
            (\<lambda>e. failTask Background taskID (''workspace preparation failed: '' @ e))
            (\<lambda>workspaceDir. do {
               _ \<leftarrow> copyInputFilesToWorkspace tm taskID workspaceDir;
               try_bind (planner_Run ip (tm_planner tm) Background task additionalContext)
                 (\<lambda>e. failTask Background taskID (''planner error: '' @ e))
                 (planner_result tm Background taskID) })
      | _ \<Rightarrow> State_Monad.return ()) }"

section \<open>The executor in the background\<close>

text \<open>The end of a run that was not cancelled.\<close>

definition task_done :: "TaskManager \<Rightarrow> Task \<Rightarrow> (string \<times> json) list option \<Rightarrow> ('m tm_world_scheme, unit) state" where
  "task_done tm task data = do {
     _ \<leftarrow> tm_postExecution tm RunCtx task;
     try_bind (in_ctx RunCtx (UpdateTaskCompleted (task_ID task))) (\<lambda>_. State_Monad.return ()) (\<lambda>_.
       tm_recordEvent RunCtx (task_ID task) ''task.completed'' data) }"

definition finish_run :: "TaskManager \<Rightarrow> Task \<Rightarrow> string option \<Rightarrow> (string \<times> json) list option \<Rightarrow> ('m tm_world_scheme, unit) state" where
  "finish_run tm task error data = do {
     cancelled \<leftarrow> gets (ctx_Err RunCtx);
     (case (cancelled, error) of
        (Some _, _) \<Rightarrow> State_Monad.return ()
      | (None, Some e) \<Rightarrow> failTask RunCtx (task_ID task) e
      | (None, None) \<Rightarrow> task_done tm task data) }"

text \<open>\<open>False\<close>: the orchestrator does not return within the fuel.\<close>

definition run_parallel :: "nat \<Rightarrow> TaskManager \<Rightarrow> Task \<Rightarrow> Plan \<Rightarrow> ('m tm_world_scheme, bool) state" where
  "run_parallel n tm task plan =
     (case unmarshal_subtasks (plan_Subtasks plan) of
        None \<Rightarrow> do { _ \<leftarrow> failTask RunCtx (task_ID task) ''failed to parse subtasks: invalid JSON''; State_Monad.return True }
      | Some subtasks \<Rightarrow> do {
          teamMode \<leftarrow> resolveTeamMode RunCtx task;
          memory \<leftarrow> getRepoMemoryContent RunCtx task;
          r \<leftarrow> or_Run n (tm_orchestrator tm) RunCtx task
            \<lparr>ep_PlanID = plan_ID plan, ep_Strategy = plan_Strategy plan, ep_Subtasks = subtasks, ep_TaskPrompt = task_Prompt task,
             ep_Mode = teamMode, ep_RepoMemory = memory\<rparr>;
          (case r of
             None \<Rightarrow> State_Monad.return False
           | Some r \<Rightarrow> do {
               _ \<leftarrow> finish_run tm task (case r of Inl e \<Rightarrow> Some e | Inr _ \<Rightarrow> None) None;
               State_Monad.return True }) })"

definition run_sequential :: "TaskManager \<Rightarrow> Task \<Rightarrow> Plan \<Rightarrow> ('m tm_world_scheme, bool) state" where
  "run_sequential tm task plan = do {
     memory \<leftarrow> getRepoMemoryContent RunCtx task;
     result \<leftarrow> Execute (tm_executor tm\<lparr>ex_repoMemory := memory\<rparr>) RunCtx task plan;
     _ \<leftarrow> finish_run tm task (er_Error result) (Some [(''completed_subtasks'', enc_slice JStr (er_CompletedSubtasks result))]);
     State_Monad.return True }"

definition run_plan :: "nat \<Rightarrow> TaskManager \<Rightarrow> Task \<Rightarrow> ('m tm_world_scheme, bool) state" where
  "run_plan n tm task = do {
     r \<leftarrow> in_ctx RunCtx (GetPlanByTask (task_ID task));
     (case r of
        Inr (Some plan) \<Rightarrow>
          if plan_Strategy plan = ''parallel'' \<and> tm_Pool tm then run_parallel n tm task plan else run_sequential tm task plan
      | _ \<Rightarrow> do { _ \<leftarrow> failTask RunCtx (task_ID task) ''no plan found for execution''; State_Monad.return True }) }"

definition executor_body :: "nat \<Rightarrow> TaskManager \<Rightarrow> string \<Rightarrow> ('m tm_world_scheme, bool) state" where
  "executor_body n tm taskID = do {
     r \<leftarrow> in_ctx RunCtx (GetTask taskID);
     (case r of
        Inr (Some task) \<Rightarrow>
          try_bind (prepareWorkspace tm RunCtx task)
            (\<lambda>e. do { _ \<leftarrow> failTask RunCtx taskID (''workspace preparation failed: '' @ e); State_Monad.return True })
            (\<lambda>workspaceDir. do {
               _ \<leftarrow> copyInputFilesToWorkspace tm taskID workspaceDir;
               run_plan n tm task })
      | _ \<Rightarrow> State_Monad.return True) }"

text \<open>The cancel function is there as long as the run; the removal is by the task, whoever entered it.\<close>

definition runExecutor :: "nat \<Rightarrow> TaskManager \<Rightarrow> string \<Rightarrow> ('m tm_world_scheme, bool) state" where
  "runExecutor n tm taskID = do {
     _ \<leftarrow> put_cancel taskID;
     ended \<leftarrow> executor_body n tm taskID;
     _ \<leftarrow> when_do ended (drop_cancel taskID);
     State_Monad.return ended }"

end
