(* ===== verification/Task_Manager_Facts.thy ===== *)
theory Task_Manager_Facts
  imports Task_Manager Checkpoint_Facts
begin

text \<open>
  The life cycle of tasks: what each call of the manager does to the statuses of the tasks and to the jobs
  in the background, on success, on a status that does not allow it and on a failure on the way, and what
  the end of a planner's or an executor's run does to them.
\<close>

section \<open>Statuses and jobs\<close>

definition task_statuses :: "'m sql_world_scheme \<Rightarrow> (string \<times> TaskStatus) list" where
  "task_statuses w = map (\<lambda>t. (task_ID t, task_Status t)) (tb_tasks (w_store w))"

definition put_status :: "string \<Rightarrow> TaskStatus \<Rightarrow> (string \<times> TaskStatus) list \<Rightarrow> (string \<times> TaskStatus) list" where
  "put_status i s = map (\<lambda>(j, x). (j, if j = i then s else x))"

definition life_rel :: "'m tm_world_scheme \<Rightarrow> 'm tm_world_scheme \<Rightarrow> bool" where
  "life_rel w w' \<longleftrightarrow> task_statuses w' = task_statuses w \<and> w_jobs w' = w_jobs w \<and> w_fault w' = w_fault w \<and> w_done w' = w_done w \<and>
     w_expired w' = w_expired w"

text \<open>No statement fails and no context is done.\<close>

type_synonym fault_plan = "(nat \<Rightarrow> string option) \<times> (nat \<Rightarrow> bool) \<times> (nat \<Rightarrow> bool)"

definition faults :: "'m world_scheme \<Rightarrow> fault_plan" where
  "faults w = (w_fault w, w_done w, w_expired w)"

definition no_faults :: "'m world_scheme \<Rightarrow> bool" where
  "no_faults w \<longleftrightarrow> faults w = (\<lambda>t. None, \<lambda>t. False, \<lambda>t. False)"

lemma no_faults_ctx [simp]: "no_faults (w\<lparr>w_fault := ctx_fault c w\<rparr>) = no_faults w"
  by (cases c) (auto simp: no_faults_def faults_def ctx_fault_def fun_eq_iff split: option.splits if_splits)

lemma no_faults_none: "no_faults w \<Longrightarrow> ctx_fault c w t = None"
  by (cases c) (simp_all add: no_faults_def faults_def ctx_fault_def)

interpretation life: files_logic life_rel
  by unfold_locales (simp_all add: life_rel_def task_statuses_def tick_def)

lemma life_in_ctx: "life.steps m \<Longrightarrow> life.steps (in_ctx c m)"
  for m :: "('m tm_world_scheme, 'a) state"
proof (rule life.stepsI)
  fix w :: "'m tm_world_scheme" assume m: "life.steps m"
  obtain r w' where r: "run_state m (w\<lparr>w_fault := ctx_fault c w\<rparr>) = (r, w')" by fastforce
  from life.stepsE [OF m r] show "life_rel w (snd (run_state (in_ctx c m) w))"
    by (simp add: r life_rel_def task_statuses_def)
qed

lemma life_exec:
  assumes "\<And>now s x s'. f now s = Inr (x, s') \<Longrightarrow>
    map (\<lambda>t. (task_ID t, task_Status t)) (tb_tasks s') = map (\<lambda>t. (task_ID t, task_Status t)) (tb_tasks s)"
  shows "life.steps (exec f :: ('m tm_world_scheme, string + 'a) state)"
  by (rule life.stepsI)
     (use assms in \<open>auto simp: exec_def life_rel_def task_statuses_def tick_def split: option.split sum.split\<close>)

lemma life_query: "life.steps (query f)"
  unfolding query_def by (rule life_exec) simp

lemma life_methods:
  "life.steps (GetTask i)" "life.steps (GetPlanByTask i)" "life.steps (ListAgentsByTask i)" "life.steps (GetLatestCheckpoint i)"
  "life.steps (update_plan i f)" "life.steps (UpdatePlanStatus i st)" "life.steps (CreatePlan p)" "life.steps (CreateCheckpoint cp)"
  "life.steps (CreateEvent ev)" "life.steps (UpdateTaskHasState i b)"
proof -
  show "life.steps (update_plan i f)" for i f
    unfolding update_plan_def by (rule life_exec) (auto simp: update_rows_def)
  then show "life.steps (UpdatePlanStatus i st)"
    unfolding UpdatePlanStatus_def by (intro life.file_intros)
  show "life.steps (CreatePlan p)" "life.steps (CreateCheckpoint cp)" "life.steps (CreateEvent ev)"
    unfolding CreatePlan_def CreateCheckpoint_def CreateEvent_def
    by (intro life.file_intros life_exec; force split: sum.splits if_splits simp: Let_def)+
  have "life.steps (update_task i (\<lambda>now t. t\<lparr>task_HasState := b, task_UpdatedAt := n\<rparr>))" for n
    unfolding update_task_def by (rule life_exec) (auto simp: update_rows_def)
  then show "life.steps (UpdateTaskHasState i b)"
    unfolding UpdateTaskHasState_def by (intro life.file_intros)
  show "life.steps (GetTask i)" "life.steps (GetPlanByTask i)" "life.steps (ListAgentsByTask i)" "life.steps (GetLatestCheckpoint i)"
    unfolding GetTask_def GetPlanByTask_def ListAgentsByTask_def GetLatestCheckpoint_def by (intro life.file_intros life_query)+
qed

lemma life_event: "life.steps (tm_recordEvent c i e d)"
  unfolding tm_recordEvent_def insert_event_def by (intro life.file_intros life_in_ctx life_methods)

lemma life_modify: "life.steps (modify (\<lambda>w. w\<lparr>w_pool := f w\<rparr>))" "life.steps (modify (\<lambda>w. w\<lparr>w_cancels := g w\<rparr>))"
  "life.steps (modify (\<lambda>w. w\<lparr>w_remote := h w\<rparr>))" "life.steps (call_cancel i)" "life.steps (git_call q)" "life.steps (git_files r)"
  unfolding call_cancel_def
  by (rule life.stepsI, simp add: life_rel_def task_statuses_def git_call_def git_files_def tick_def split: prod.split)+

lemmas life_intros = life.file_intros life_in_ctx life_methods life_event life_modify

lemma life_SaveCheckpoint: "life.steps (SaveCheckpoint s c i opts)"
  unfolding SaveCheckpoint_def doSaveCheckpoint_def
  by (intro life_intros life.steps_write_checkpoint life.steps_calculateDirSize)

lemma life_Terminate: "life.steps (TerminateTaskAgents i)"
proof -
  have t: "life.steps (Terminate j)" for j
    unfolding Terminate_def StopContainer_def by (intro life_intros)
  have "life.steps (terminate_all as)" for as
    by (induction as) (unfold terminate_all.simps, (intro life_intros t | assumption)+)
  then show ?thesis unfolding TerminateTaskAgents_def by (intro life_intros)
qed

lemma life_stop_checkpoint: "life.steps (stop_checkpoint tm c task)"
  unfolding stop_checkpoint_def by (intro life_intros life_SaveCheckpoint)

lemma life_restore: "life.steps (restore_state tm c i)"
  unfolding restore_state_def RestoreCheckpoint_def copyDirForResume_def readJSON_def
  by (intro life_intros life.steps_Walk_copy)

lemma life_approve: "life.steps (approve_plan c i m)"
  unfolding approve_plan_def by (intro life_intros)

section \<open>Changing a status\<close>

text \<open>The statuses are \<open>S\<close> and the jobs \<open>J\<close>, what fails is \<open>F\<close>.\<close>

definition calm_plan :: "fault_plan \<Rightarrow> bool" where
  "calm_plan F \<longleftrightarrow> F = (\<lambda>t. None, \<lambda>t. False, \<lambda>t. False)"

definition life_is :: "fault_plan \<Rightarrow> (string \<times> TaskStatus) list \<Rightarrow> job list \<Rightarrow> 'm tm_world_scheme \<Rightarrow> bool" where
  "life_is F S J w \<longleftrightarrow> task_statuses w = S \<and> w_jobs w = J \<and> faults w = F"

lemma keep_life: "life.steps m \<Longrightarrow> hoare (life_is F S J) m (\<lambda>_. life_is F S J)"
  by (rule hoareI) (use life.stepsD [of m] in \<open>auto simp: life_is_def life_rel_def faults_def\<close>)

text \<open>\<open>sets_status i s m\<close>: \<open>m\<close> sets the status of task \<open>i\<close> to \<open>s\<close>, or fails and changes none; it does not
  fail if nothing fails and there is the task.\<close>

definition may_fail :: "fault_plan \<Rightarrow> string \<Rightarrow> (string \<times> TaskStatus) list \<Rightarrow> bool" where
  "may_fail F i S \<longleftrightarrow> \<not> calm_plan F \<or> i \<notin> fst ` set S"

definition set_or_not :: "fault_plan \<Rightarrow> string \<Rightarrow> TaskStatus \<Rightarrow> (string \<times> TaskStatus) list \<Rightarrow> job list \<Rightarrow> string + 'a \<Rightarrow> 'm tm_world_scheme \<Rightarrow> bool" where
  "set_or_not F i s S J r w = (case r of
     Inl _ \<Rightarrow> life_is F S J w \<and> may_fail F i S
   | Inr _ \<Rightarrow> life_is F (put_status i s S) J w)"

definition sets_status :: "string \<Rightarrow> TaskStatus \<Rightarrow> ('m tm_world_scheme, string + 'a) state \<Rightarrow> bool" where
  "sets_status i s m \<longleftrightarrow> (\<forall>F S J. hoare (life_is F S J) m (set_or_not F i s S J))"

lemma sets_statusD:
  "sets_status i s m \<Longrightarrow> hoare (life_is F S J) m (set_or_not F i s S J)"
  unfolding sets_status_def by blast

lemma sets_exec:
  assumes "\<And>now t. task_ID (f now t) = task_ID t \<and> task_Status (f now t) = s"
  shows "sets_status i s (update_task i f :: ('m tm_world_scheme, string + nat) state)"
  unfolding sets_status_def update_task_def
  by (intro allI hoareI)
     (use assms in \<open>auto simp: exec_def life_is_def set_or_not_def may_fail_def calm_plan_def faults_def task_statuses_def put_status_def
       update_rows_def tick_def split: option.split\<close>)

lemma sets_in_ctx:
  fixes m :: "('m tm_world_scheme, string + 'a) state"
  assumes "sets_status i s m"
  shows "sets_status i s (in_ctx c m)"
  unfolding sets_status_def
proof (intro allI hoareI)
  fix F S J and w :: "'m tm_world_scheme" assume w: "life_is F S J w"
  let ?w = "w\<lparr>w_fault := ctx_fault c w\<rparr>" and ?F = "(ctx_fault c w, snd F)"
  obtain r w' where r: "run_state m ?w = (r, w')" by fastforce
  have "life_is ?F S J ?w" using w by (auto simp: life_is_def task_statuses_def faults_def)
  from hoareE [OF sets_statusD [OF assms] this r] have "set_or_not ?F i s S J r w'" .
  moreover have "life_is ?F S' J' w' \<Longrightarrow> life_is F S' J' (w'\<lparr>w_fault := w_fault w\<rparr>)" for S' J'
    using w by (auto simp: life_is_def task_statuses_def faults_def)
  moreover have "calm_plan ?F = calm_plan F"
    using w no_faults_ctx [where w = w and c = c] by (auto simp: life_is_def calm_plan_def no_faults_def faults_def)
  ultimately show "set_or_not F i s S J (fst (run_state (in_ctx c m) w)) (snd (run_state (in_ctx c m) w))"
    by (simp add: r set_or_not_def may_fail_def split: sum.splits)
qed

lemma sets_after_time:
  assumes "\<And>now. sets_status i s (f now)"
  shows "sets_status i s (time_now \<bind> f)"
  unfolding sets_status_def
  by (intro allI, rule hoare_bind [OF keep_life]) (rule life.steps_world, rule sets_statusD [OF assms])

lemma sets_ok:
  assumes "sets_status i s m"
  shows "sets_status i s (or_fail msg m (\<lambda>_. ok x))"
  unfolding sets_status_def or_fail_def
  by (intro allI, rule hoare_try_bind [OF sets_statusD [OF assms]])
     (simp_all add: hoare_def set_or_not_def)

lemma sets_methods:
  "sets_status i TaskStatusRunning (UpdateTaskStarted i)" "sets_status i TaskStatusCompleted (UpdateTaskCompleted i)"
  "sets_status i TaskStatusFailed (UpdateTaskFailed i m)"
  unfolding UpdateTaskStarted_def UpdateTaskCompleted_def UpdateTaskFailed_def
  by (intro sets_after_time sets_ok sets_exec; simp)+

lemma sets_UpdateTaskStatus: "sets_status i s (UpdateTaskStatus i s)"
proof -
  have "sets_status i s (or_fail msg (update_task i (\<lambda>_ t. t\<lparr>task_Status := s, task_UpdatedAt := now\<rparr>))
     (\<lambda>rows. if rows = 0 then err e else ok ()))" for msg now and e :: string
    unfolding sets_status_def update_task_def
    by (intro allI hoareI)
       (auto simp: exec_def life_is_def set_or_not_def may_fail_def calm_plan_def faults_def task_statuses_def put_status_def update_rows_def tick_def
          filter_empty_conv split: option.split)
  then show ?thesis unfolding UpdateTaskStatus_def by (intro sets_after_time)
qed

section \<open>The calls\<close>

datatype lifecycle_call = CallStart | CallReplan string | CallApprove "string option" | CallStop | CallResume

fun lifecycle :: "TaskManager \<Rightarrow> ctx \<Rightarrow> string \<Rightarrow> lifecycle_call \<Rightarrow> ('m tm_world_scheme, unit) io" where
  "lifecycle tm c i CallStart = tm_Start c i"
| "lifecycle tm c i (CallReplan add) = Replan c i add"
| "lifecycle tm c i (CallApprove plan) = tm_Approve c i plan"
| "lifecycle tm c i CallStop = tm_Stop tm c i"
| "lifecycle tm c i CallResume = tm_Resume tm c i"

text \<open>The statuses a call is allowed in, the one it leads to, the jobs it starts, and what a failure on the
  way leaves: only an approval can stop half way.\<close>

fun allowed_in :: "lifecycle_call \<Rightarrow> TaskStatus list" where
  "allowed_in CallStart = [TaskStatusCreated, TaskStatusFailed]"
| "allowed_in (CallReplan _) = [TaskStatusPlanned, TaskStatusFailed]"
| "allowed_in (CallApprove _) = [TaskStatusPlanned]"
| "allowed_in CallStop = [TaskStatusRunning]"
| "allowed_in CallResume = [TaskStatusApproved, TaskStatusPaused]"

fun leads_to :: "lifecycle_call \<Rightarrow> TaskStatus" where
  "leads_to CallStart = TaskStatusPlanning"
| "leads_to (CallReplan _) = TaskStatusPlanning"
| "leads_to (CallApprove _) = TaskStatusRunning"
| "leads_to CallStop = TaskStatusPaused"
| "leads_to CallResume = TaskStatusRunning"

fun starts_jobs :: "string \<Rightarrow> lifecycle_call \<Rightarrow> job list" where
  "starts_jobs i CallStart = [RunPlanner i []]"
| "starts_jobs i (CallReplan add) = [RunPlanner i add]"
| "starts_jobs i (CallApprove _) = [RunExecutor i]"
| "starts_jobs i CallStop = []"
| "starts_jobs i CallResume = [RunExecutor i]"

fun left_by_failure :: "string \<Rightarrow> lifecycle_call \<Rightarrow> (string \<times> TaskStatus) list \<Rightarrow> (string \<times> TaskStatus) list list" where
  "left_by_failure i (CallApprove _) S = [S, put_status i TaskStatusApproved S]"
| "left_by_failure i _ S = [S]"

definition permitted :: "string \<Rightarrow> lifecycle_call \<Rightarrow> (string \<times> TaskStatus) list \<Rightarrow> bool" where
  "permitted i call S = (case map_of S i of None \<Rightarrow> False | Some s \<Rightarrow> s \<in> set (allowed_in call))"

fun is_approval :: "lifecycle_call \<Rightarrow> bool" where
  "is_approval (CallApprove _) = True"
| "is_approval _ = False"

definition outcome :: "fault_plan \<Rightarrow> string \<Rightarrow> lifecycle_call \<Rightarrow> (string \<times> TaskStatus) list \<Rightarrow> job list \<Rightarrow> string + 'a \<Rightarrow> 'm tm_world_scheme \<Rightarrow> bool" where
  "outcome F i call S J r w = (case r of
     Inl _ \<Rightarrow> (\<exists>S' \<in> set (left_by_failure i call S). life_is F S' J w) \<and> (\<not> calm_plan F \<or> is_approval call \<or> \<not> permitted i call S)
   | Inr _ \<Rightarrow> life_is F (put_status i (leads_to call) S) (J @ starts_jobs i call) w \<and> permitted i call S)"

lemma put_status_twice [simp]: "put_status i s (put_status i s' S) = put_status i s S"
  by (simp add: put_status_def comp_def split_beta)

lemma put_status_ids [simp]: "fst ` set (put_status i s S) = fst ` set S"
  by (simp add: put_status_def image_image split_beta)

lemma left_first [simp]: "S \<in> set (left_by_failure i call S)"
  by (cases call) simp_all

lemma permitted_there: "permitted i call S \<Longrightarrow> i \<in> fst ` set S"
  by (force simp: permitted_def dest: map_of_SomeD split: option.splits)

text \<open>One step of a call after the other.\<close>

lemma life_bind:
  assumes "life.steps m" and "\<And>x. hoare (life_is F S J) (f x) Q"
  shows "hoare (life_is F S J) (m \<bind> f) Q"
  by (rule hoare_bind [OF keep_life]) (rule assms)+

lemma life_ok:
  "S' = put_status i (leads_to call) S \<Longrightarrow> J' = J @ starts_jobs i call \<Longrightarrow> permitted i call S \<Longrightarrow>
   hoare (life_is F S' J') (ok x) (outcome F i call S J)"
  by (simp add: hoare_def outcome_def)

lemma life_sets:
  assumes "sets_status i s m" and "S' \<in> set (left_by_failure i call S)" and "permitted i call S" and "fst ` set S' = fst ` set S"
    and "\<And>x. hoare (life_is F (put_status i s S') J) (k x) (outcome F i call S J)"
  shows "hoare (life_is F S' J) (or_fail msg m k) (outcome F i call S J)"
proof -
  have "i \<in> fst ` set S'" using permitted_there [OF assms(3)] assms(4) by simp
  with assms(2) have e: "hoare (set_or_not F i s S' J (Inl x)) (err y) (outcome F i call S J)" for x y :: string
    by (auto simp: hoare_def set_or_not_def may_fail_def outcome_def)
  have "hoare (set_or_not F i s S' J (Inr x)) (k x) (outcome F i call S J)" for x
    by (rule hoare_weaken [OF assms(5)]) (simp_all add: set_or_not_def)
  with e show ?thesis unfolding or_fail_def by (intro hoare_try_bind [OF sets_statusD [OF assms(1)]])
qed

lemma life_job: "(\<And>x. hoare (life_is F S (J @ [j])) (f x) Q) \<Longrightarrow> hoare (life_is F S J) (go_job j \<bind> f) Q"
  by (rule hoare_bind [where Q = "\<lambda>_. life_is F S (J @ [j])"])
     (auto simp: hoare_def go_job_def life_is_def task_statuses_def faults_def)

section \<open>The status check comes first\<close>

lemma getTask_run:
  obtains (failed) e k where "run_state (getTaskOrError c i) w = (Inl e, w\<lparr>w_tick := k\<rparr>)" "\<not> no_faults w \<or> map_of (task_statuses w) i = None"
  | (found) t k where "run_state (getTaskOrError c i) w = (Inr t, w\<lparr>w_tick := k\<rparr>)" "map_of (task_statuses w) i = Some (task_Status t)"
proof -
  have m: "map_of (map (\<lambda>t. (task_ID t, task_Status t)) ts) i = map_option task_Status (find (\<lambda>t. task_ID t = i) ts)" for ts
    by (induction ts) simp_all
  note run = getTaskOrError_def GetTask_def task_statuses_def query_def exec_def tick_def
  show thesis
  proof (cases "ctx_fault c w (w_tick w)")
    case (Some e)
    show thesis by (rule failed) (use Some no_faults_none [of w c "w_tick w"] in \<open>auto simp: run\<close>)
  next
    case None
    show thesis
    proof (cases "find (\<lambda>t. task_ID t = i) (tb_tasks (w_store w))")
      case none: None
      show thesis by (rule failed) (use None none in \<open>auto simp: run m\<close>)
    next
      case (Some t)
      show thesis by (rule found) (use None Some in \<open>auto simp: run m\<close>)
    qed
  qed
qed

lemma life_is_tick [simp]: "life_is F S J (w\<lparr>w_tick := k\<rparr>) = life_is F S J w"
  by (simp add: life_is_def task_statuses_def faults_def)

lemma life_guard:
  fixes k :: "Task \<Rightarrow> ('m tm_world_scheme, string + 'a) state"
  assumes B: "\<And>t. B t \<longleftrightarrow> task_Status t \<notin> set (allowed_in call)"
    and k: "\<And>t. permitted i call S \<Longrightarrow> hoare (life_is F S J) (k t) (outcome F i call S J)"
  shows "hoare (life_is F S J) (try_bind (getTaskOrError c i) err (\<lambda>t. if B t then err (msg t) else k t)) (outcome F i call S J)"
proof (rule hoareI)
  let ?m = "try_bind (getTaskOrError c i) err (\<lambda>t. if B t then err (msg t) else k t)"
  fix w :: "'m tm_world_scheme" assume w: "life_is F S J w"
  then have S: "task_statuses w = S" "no_faults w = calm_plan F" by (simp_all add: life_is_def no_faults_def calm_plan_def)
  show "outcome F i call S J (fst (run_state ?m w)) (snd (run_state ?m w))"
  proof (cases rule: getTask_run [of c i w])
    case (failed e n)
    with w S show ?thesis by (auto simp: outcome_def permitted_def intro!: bexI [of _ S])
  next
    case (found t n)
    show ?thesis
    proof (cases "B t")
      case True
      with found w S B show ?thesis by (auto simp: outcome_def permitted_def intro!: bexI [of _ S])
    next
      case False
      with found S B have "permitted i call S" by (simp add: permitted_def)
      from hoareD [OF k [OF this], of "w\<lparr>w_tick := n\<rparr>" t] w found False show ?thesis by simp
    qed
  qed
qed

lemma guard_unchanged:
  assumes B: "\<And>t. B t \<longleftrightarrow> task_Status t \<notin> set (allowed_in call)"
  shows "permitted i call (task_statuses w) \<or>
    (\<exists>e w'. run_state (try_bind (getTaskOrError c i) err (\<lambda>t. if B t then err (msg t) else k t)) w = (Inl e, w') \<and> unchanged w w')"
proof (cases rule: getTask_run [of c i w])
  case (failed e n)
  then show ?thesis by (simp add: unchanged_def)
next
  case (found t n)
  with B [of t] show ?thesis by (cases "B t") (simp_all add: permitted_def unchanged_def)
qed

section \<open>The outcome of a call\<close>

lemma can_transition:
  "canTransition s TaskStatusPlanning \<longleftrightarrow> s \<in> set (allowed_in CallStart)"
  "s \<noteq> TaskStatusPlanned \<and> s \<noteq> TaskStatusFailed \<longleftrightarrow> s \<notin> set (allowed_in (CallReplan add))"
  "canTransition s TaskStatusApproved \<longleftrightarrow> s = TaskStatusPlanned"
  "canTransition s TaskStatusPaused \<longleftrightarrow> s \<in> set (allowed_in CallStop)"
  "canTransition s TaskStatusRunning \<longleftrightarrow> s \<in> set (allowed_in CallResume)"
  by (cases s; simp add: canTransition_def validTransitions_def)+

lemmas call_rules = life_guard life_ok life_sets [OF sets_in_ctx [OF sets_UpdateTaskStatus]]
  life_sets [OF sets_in_ctx [OF sets_methods(1)]] life_job life_bind life_event

lemma Start_outcome: "hoare (life_is F S J) (tm_Start c i) (outcome F i CallStart S J)"
  unfolding tm_Start_def by (intro call_rules) (simp_all add: can_transition)

lemma Replan_outcome: "hoare (life_is F S J) (Replan c i add) (outcome F i (CallReplan add) S J)"
  unfolding Replan_def by (intro call_rules) (simp_all add: can_transition)

lemma Approve_outcome: "hoare (life_is F S J) (tm_Approve c i plan) (outcome F i (CallApprove plan) S J)"
proof -
  have e: "hoare (life_is F S J) (err x) (outcome F i (CallApprove plan) S J)" for x :: string
    by (simp add: hoare_def outcome_def)
  show ?thesis
    unfolding tm_Approve_def
    by (intro call_rules hoare_try_bind [OF keep_life [OF life_approve]] e) (simp_all add: can_transition)
qed

lemma Stop_outcome: "hoare (life_is F S J) (tm_Stop tm c i) (outcome F i CallStop S J)"
  unfolding tm_Stop_def
  by (intro call_rules life_stop_checkpoint life_intros life_Terminate life_sets [OF sets_in_ctx [OF sets_exec]])
     (simp_all add: can_transition)

lemma Resume_outcome: "hoare (life_is F S J) (tm_Resume tm c i) (outcome F i CallResume S J)"
  unfolding tm_Resume_def by (intro call_rules life_intros life_restore) (simp_all add: can_transition)

lemma lifecycle_hoare: "hoare (life_is F S J) (lifecycle tm c i call) (outcome F i call S J)"
  by (cases call) (simp_all add: Start_outcome Replan_outcome Approve_outcome Stop_outcome Resume_outcome)

section \<open>The ends of the background runs\<close>

lemma life_git:
  "life.steps (openRepo d)" "life.steps (getCurrentBranch d)" "life.steps (HasChanges d)" "life.steps (CommitAll d m)" "life.steps (Push d rc)"
  unfolding openRepo_def getCurrentBranch_def HasChanges_def GetChangedFiles_def git_status_of_def CommitAll_def Push_def worktree_def
    failing_def logged_def openRepo_def
  by (intro life_intros)+

lemma life_rest: "(\<And>b. life.steps (k b)) \<Longrightarrow> life.steps (rest_call req n f k)"
proof -
  assume k: "\<And>b. life.steps (k b)"
  have d: "life.steps (State (\<lambda>w. (ha_Do (w_http w) (w_tick w) req, tick w)))"
    by (rule life.stepsI) (simp add: life.R_tick)
  show ?thesis
    unfolding rest_call_def http_Do_def failing_def logged_def
    by (intro life_intros d) (auto split: http_answer.split intro!: life_intros k)
qed

lemma life_pull_requests:
  "life.steps (gh_CreatePullRequest b o1)" "life.steps (gh_RequestReviewers b ow r n rs t)" "life.steps (bb_CreatePullRequest b o1)"
  unfolding gh_CreatePullRequest_def gh_RequestReviewers_def bb_CreatePullRequest_def Let_def decoded_def
  by (intro life_rest life_intros)+

lemma life_platform:
  "(p = PlatformGitHub \<Longrightarrow> life.steps a) \<Longrightarrow> (p = PlatformBitbucket \<Longrightarrow> life.steps b) \<Longrightarrow> life.steps x \<Longrightarrow>
   life.steps (case p of PlatformGitHub \<Rightarrow> a | PlatformBitbucket \<Rightarrow> b | PlatformUnknown \<Rightarrow> x)"
  by (cases p) simp_all

lemma life_createPlatformPR: "life.steps (createPlatformPR n d rc)"
  unfolding createPlatformPR_def by (intro life_intros life_git life_pull_requests life_platform)

lemma life_postExecution: "life.steps (tm_postExecution tm c task)"
  unfolding tm_postExecution_def PostExecution_def by (intro life_intros life_git life_createPlatformPR)

lemma life_PersistPlan: "life.steps (PersistPlan p c i out)"
  unfolding PersistPlan_def by (intro life_intros)

text \<open>Afterwards task \<open>i\<close> has one of the statuses \<open>L\<close>, or nothing has changed and something has failed.\<close>

definition set_to :: "fault_plan \<Rightarrow> string \<Rightarrow> TaskStatus list \<Rightarrow> (string \<times> TaskStatus) list \<Rightarrow> job list \<Rightarrow> 'a \<Rightarrow> 'm tm_world_scheme \<Rightarrow> bool" where
  "set_to F i L S J r w \<longleftrightarrow> (\<exists>s \<in> set L. life_is F (put_status i s S) J w) \<or> (life_is F S J w \<and> may_fail F i S)"

lemma life_more: "s \<in> set L \<Longrightarrow> life.steps m \<Longrightarrow> hoare (life_is F (put_status i s S) J) m (set_to F i L S J)"
  by (rule hoare_weaken [OF keep_life]) (auto simp: set_to_def)

lemma life_less:
  assumes "life.steps m"
  shows "hoare (\<lambda>w. life_is F S J w \<and> may_fail F i S) m (set_to F i L S J)"
  by (rule hoareI) (use hoareD [OF keep_life [OF assms, of F S J]] in \<open>auto simp: set_to_def\<close>)

lemma life_then:
  assumes "sets_status i s m" and "s \<in> set L" and "\<And>e. life.steps (h e)" and "\<And>x. life.steps (k x)"
  shows "hoare (life_is F S J) (try_bind m h k) (set_to F i L S J)"
proof (rule hoare_try_bind [OF sets_statusD [OF assms(1)]])
  show "hoare (set_or_not F i s S J (Inl e)) (h e) (set_to F i L S J)" for e
    by (rule hoare_weaken [OF life_less [OF assms(3)]]) (simp_all add: set_or_not_def)
  show "hoare (set_or_not F i s S J (Inr x)) (k x) (set_to F i L S J)" for x
    by (rule hoare_weaken [OF life_more [OF assms(2,4)]]) (simp_all add: set_or_not_def)
qed

lemma ignore_try: "ignore m \<bind> (\<lambda>_. n) = try_bind m (\<lambda>_. n) (\<lambda>_. n)"
  by (rule state.expand, rule ext) (simp add: case_prod_beta split: sum.split)

lemma failTask_sets: "TaskStatusFailed \<in> set L \<Longrightarrow> hoare (life_is F S J) (failTask c i e) (set_to F i L S J)"
  unfolding failTask_def ignore_try by (rule life_then [OF sets_in_ctx [OF sets_methods(3)] _ life_event life_event])

lemma task_done_sets: "hoare (life_is F S J) (task_done tm task d) (set_to F (task_ID task) [TaskStatusCompleted] S J)"
  unfolding task_done_def
  by (rule hoare_bind [OF keep_life [OF life_postExecution]])
     (rule life_then [OF sets_in_ctx [OF sets_methods(2)]], simp_all add: life.steps_return life_event)

lemma plan_made_sets: "hoare (life_is F S J) (plan_made tm c i p) (set_to F i [TaskStatusPlanned, TaskStatusFailed] S J)"
proof -
  have u: "hoare (life_is F S J) (do { _ \<leftarrow> ignore (in_ctx c (UpdatePlanStatus j st));
      try_bind (in_ctx c (UpdateTaskStatus i TaskStatusPlanned)) (\<lambda>_. State_Monad.return ()) (\<lambda>_. tm_recordEvent c i e d) })
    (set_to F i [TaskStatusPlanned, TaskStatusFailed] S J)" for j st e d
    by (rule life_bind, (intro life_intros)[1], rule life_then [OF sets_in_ctx [OF sets_UpdateTaskStatus]])
       (simp_all add: life.steps_return life_event)
  show ?thesis
    unfolding plan_made_def
    by (rule hoare_try_bind [OF keep_life [OF life_PersistPlan]]) (rule failTask_sets u, simp?)+
qed

section \<open>The life cycle\<close>

text \<open>C36: The status check. Start, Replan, Approve, Stop and Resume of a task that is not in one of the
  statuses the call is allowed in return an error and leave everything as it was: database, files, Docker
  calls, messages and jobs; only ticks have passed.\<close>

theorem lifecycle_guarded:
  "permitted i call (task_statuses w) \<or> (\<exists>e w'. run_state (lifecycle tm c i call) w = (Inl e, w') \<and> unchanged w w')"
proof (cases call)
  case CallStart
  show ?thesis unfolding CallStart lifecycle.simps tm_Start_def by (rule guard_unchanged) (simp add: can_transition)
next
  case (CallReplan add)
  show ?thesis unfolding CallReplan lifecycle.simps Replan_def by (rule guard_unchanged) (simp add: can_transition)
next
  case (CallApprove plan)
  show ?thesis unfolding CallApprove lifecycle.simps tm_Approve_def by (rule guard_unchanged) (simp add: can_transition)
next
  case CallStop
  show ?thesis unfolding CallStop lifecycle.simps tm_Stop_def by (rule guard_unchanged) (simp add: can_transition)
next
  case CallResume
  show ?thesis unfolding CallResume lifecycle.simps tm_Resume_def by (rule guard_unchanged) (simp add: can_transition)
qed

text \<open>A call may return an error: it is not allowed, a statement can fail, or it is an approval, which also
  fails without a plan.\<close>

definition may_refuse :: "string \<Rightarrow> lifecycle_call \<Rightarrow> 'm tm_world_scheme \<Rightarrow> bool" where
  "may_refuse i call w \<longleftrightarrow> \<not> permitted i call (task_statuses w) \<or> \<not> no_faults w \<or> is_approval call"

text \<open>C37: The outcome of a call. On success the task was in an allowed status, it has the status the call
  leads to, no other task has changed its status, and exactly the planner or executor run of the call has
  been started. An error starts no job and changes no status, but for an approval, which can stop at
  \<open>approved\<close>; in a world without faults only calls that are not allowed return one, and approvals.\<close>

theorem lifecycle_outcome:
  "case run_state (lifecycle tm c i call) w of
     (Inr _, w') \<Rightarrow> permitted i call (task_statuses w) \<and>
       task_statuses w' = put_status i (leads_to call) (task_statuses w) \<and> w_jobs w' = w_jobs w @ starts_jobs i call
   | (Inl _, w') \<Rightarrow> may_refuse i call w \<and>
       task_statuses w' \<in> set (left_by_failure i call (task_statuses w)) \<and> w_jobs w' = w_jobs w"
proof -
  obtain r w' where r: "run_state (lifecycle tm c i call) w = (r, w')" by fastforce
  have "outcome (faults w) i call (task_statuses w) (w_jobs w) r w'"
    by (rule hoareE [OF lifecycle_hoare _ r]) (simp add: life_is_def)
  then show ?thesis
    by (auto simp: r outcome_def life_is_def may_refuse_def no_faults_def calm_plan_def split: sum.split)
qed

definition run_status :: "string option \<Rightarrow> TaskStatus" where
  "run_status error = (case error of None \<Rightarrow> TaskStatusCompleted | Some _ \<Rightarrow> TaskStatusFailed)"

text \<open>Only the status of \<open>i\<close> changes, to one of \<open>L\<close>; it has to, unless something fails.\<close>

definition moved_to :: "string \<Rightarrow> TaskStatus list \<Rightarrow> 'm tm_world_scheme \<Rightarrow> 'm tm_world_scheme \<Rightarrow> bool" where
  "moved_to i L w w' \<longleftrightarrow> w_jobs w' = w_jobs w \<and>
     task_statuses w' \<in> set (map (\<lambda>s. put_status i s (task_statuses w)) L @
       (if no_faults w \<and> i \<in> fst ` set (task_statuses w) then [] else [task_statuses w]))"

lemma set_to_moved:
  assumes "hoare (life_is (faults w) (task_statuses w) (w_jobs w)) m (set_to (faults w) i L (task_statuses w) (w_jobs w))"
  shows "moved_to i L w (snd (run_state m w))"
  using hoareD [OF assms, of w] by (auto simp: life_is_def set_to_def moved_to_def may_fail_def no_faults_def calm_plan_def)

text \<open>C38: The end of an executor's run. A run whose context is done changes nothing any more; otherwise the
  task of the run, and no other, is failed if there was an error and completed if there was none, unless a
  statement fails.\<close>

theorem finish_run_outcome:
  "case run_state (finish_run tm task error d) w of (_, w') \<Rightarrow>
     if ctx_Err RunCtx w \<noteq> None then w' = w else moved_to (task_ID task) [run_status error] w w'"
proof -
  have "moved_to (task_ID task) [TaskStatusFailed] w (snd (run_state (failTask RunCtx (task_ID task) e) w))" for e
    by (rule set_to_moved, rule failTask_sets) simp
  moreover have "moved_to (task_ID task) [TaskStatusCompleted] w (snd (run_state (task_done tm task d) w))"
    by (rule set_to_moved, rule task_done_sets)
  ultimately show ?thesis
    by (simp add: finish_run_def run_status_def case_prod_beta split: option.split)
qed


end
