(* ===== verification/Spec2Isabelle.thy ===== *)
theory Spec2Isabelle
  imports Ring_Buffer File_Lock Dep_Order Db_Facts Plan_Output Prompts Msg_Bus Stream_Hub Rate_Limit Assigner Planner Repo Collaborative_Facts Task_Manager_Facts
begin

text \<open>
  Klaudio: a model of the orchestration service and the theorems about it.
\<close>

end
